(* ===== verification/Prelude.thy ===== *)
theory Prelude
  imports Main "HOL-Library.Char_ord" "HOL-Library.List_Lexorder" "HOL-Library.Sublist"
begin

text \<open>
  Shared vocabulary of the development.

  A Python function that may raise returns a value of a sum type: \<open>Inl e\<close> is the raised error
  and \<open>Inr x\<close> the returned value.  \<open>ebind\<close> sequences such computations, \<open>eiter\<close> and
  \<open>efold\<close> are the \<open>for\<close> loops that stop at the first error.  SQL tables are lists of rows
  in insertion order with a key function; \<open>row_find\<close>, \<open>row_update\<close> and the append of a row
  are the statements the stores use.  Python strings are kept as their UTF-8 bytes; \<open>cps\<close> reads the
  code points back where the source counts or classifies characters.
\<close>

named_theorems result_iff \<open>when a computation in the error monad succeeds or fails\<close>
named_theorems row_simps \<open>lookup and update of table rows\<close>

section \<open>Errors as values\<close>

definition ebind :: "'e + 'a \<Rightarrow> ('a \<Rightarrow> 'e + 'b) \<Rightarrow> 'e + 'b" where
  "ebind m f = (case m of Inl e \<Rightarrow> Inl e | Inr x \<Rightarrow> f x)"

lemma ebind_Inl [simp]: "ebind (Inl e) f = Inl e"
  by (simp add: ebind_def)

lemma ebind_Inr [simp]: "ebind (Inr x) f = f x"
  by (simp add: ebind_def)

lemma ebind_eq_Inr [result_iff]: "ebind m f = Inr y \<longleftrightarrow> (\<exists>x. m = Inr x \<and> f x = Inr y)"
  by (cases m) auto

lemma ebind_eq_Inl [result_iff]:
  "ebind m f = Inl e \<longleftrightarrow> m = Inl e \<or> (\<exists>x. m = Inr x \<and> f x = Inl e)"
  by (cases m) auto

lemma ebind_cong [fundef_cong]:
  "m = m' \<Longrightarrow> (\<And>x. m' = Inr x \<Longrightarrow> f x = g x) \<Longrightarrow> ebind m f = ebind m' g"
  by (cases m') auto

lemma ebind_assoc: "ebind (ebind m f) g = ebind m (\<lambda>x. ebind (f x) g)"
  by (cases m) auto

definition guard :: "bool \<Rightarrow> 'e \<Rightarrow> 'e + unit" where
  "guard ok e = (if ok then Inr () else Inl e)"

lemma guard_eq_Inr [result_iff]: "guard ok e = Inr u \<longleftrightarrow> ok"
  by (simp add: guard_def)

lemma guard_eq_Inl [result_iff]: "guard ok e = Inl e' \<longleftrightarrow> \<not> ok \<and> e' = e"
  by (auto simp: guard_def)

lemma unit_ex: "(\<exists>u::unit. P u) \<longleftrightarrow> P ()"
  by (metis old.unit.exhaust)

lemma guard_True [simp]: "guard True e = Inr ()"
  by (simp add: guard_def)

lemma guard_False [simp]: "guard False e = Inl e"
  by (simp add: guard_def)

text \<open>\<open>try: m except e: raise h e\<close>.\<close>

definition on_error :: "'e + 'a \<Rightarrow> ('e \<Rightarrow> 'f) \<Rightarrow> 'f + 'a" where
  "on_error m h = (case m of Inl e \<Rightarrow> Inl (h e) | Inr x \<Rightarrow> Inr x)"

lemma on_error_simps [simp]: "on_error (Inl e) h = Inl (h e)" "on_error (Inr x) h = Inr x"
  by (simp_all add: on_error_def)

lemma on_error_eq_Inr [result_iff]: "on_error m h = Inr x \<longleftrightarrow> m = Inr x"
  by (cases m) auto

fun eiter :: "('a \<Rightarrow> 'e + unit) \<Rightarrow> 'a list \<Rightarrow> 'e + unit" where
  "eiter f [] = Inr ()"
| "eiter f (x # xs) = ebind (f x) (\<lambda>_. eiter f xs)"

fun efold :: "('s \<Rightarrow> 'a \<Rightarrow> 'e + 's) \<Rightarrow> 's \<Rightarrow> 'a list \<Rightarrow> 'e + 's" where
  "efold f s [] = Inr s"
| "efold f s (x # xs) = ebind (f s x) (\<lambda>s'. efold f s' xs)"

fun emap :: "('a \<Rightarrow> 'e + 'b) \<Rightarrow> 'a list \<Rightarrow> 'e + 'b list" where
  "emap f [] = Inr []"
| "emap f (x # xs) = ebind (f x) (\<lambda>y. ebind (emap f xs) (\<lambda>ys. Inr (y # ys)))"

lemma eiter_eq_Inr [result_iff]: "eiter f xs = Inr u \<longleftrightarrow> (\<forall>x \<in> set xs. f x = Inr ())"
  by (induction xs) (auto simp: result_iff)

lemma eiter_cong [fundef_cong]:
  "xs = ys \<Longrightarrow> (\<And>x. x \<in> set ys \<Longrightarrow> f x = g x) \<Longrightarrow> eiter f xs = eiter g ys"
proof (induction ys arbitrary: xs)
  case (Cons y ys)
  then have "f y = g y" and "eiter f ys = eiter g ys" by auto
  with Cons.prems(1) show ?case by (simp add: ebind_def split: sum.splits)
qed simp

text \<open>An invariant of a loop that may raise: kept by every iteration, it holds of the result.\<close>

lemma efold_invariant:
  assumes "efold f s xs = Inr t" and "P s"
    and "\<And>s x s'. P s \<Longrightarrow> x \<in> set xs \<Longrightarrow> f s x = Inr s' \<Longrightarrow> P s'"
  shows "P t"
  using assms
proof (induction xs arbitrary: s)
  case (Cons x xs)
  from Cons.prems(1) obtain s' where s': "f s x = Inr s'" and rest: "efold f s' xs = Inr t"
    by (auto simp: result_iff)
  from Cons.prems(2,3) s' have "P s'" by (meson list.set_intros(1))
  with Cons.IH[OF rest] Cons.prems(3) show ?case by (meson list.set_intros(2))
qed simp

text \<open>A loop that collects keys and refuses one it has seen.\<close>

lemma efold_collect:
  assumes "\<And>seen x seen'. f seen x = Inr seen' \<Longrightarrow> seen' = seen @ [key x] \<and> key x \<notin> set seen \<and> P x"
    and "efold f seen xs = Inr seen'"
  shows "seen' = seen @ map key xs \<and> (distinct seen \<longrightarrow> distinct seen') \<and> (\<forall>x \<in> set xs. P x)"
  using assms(2)
proof (induction xs arbitrary: seen)
  case (Cons x xs)
  then obtain s where s: "f seen x = Inr s" and rest: "efold f s xs = Inr seen'" by (auto simp: result_iff)
  from assms(1)[OF s] have "s @ map key xs = seen @ map key (x # xs)" "distinct seen \<longrightarrow> distinct s" "P x" by auto
  with Cons.IH[OF rest] show ?case by (metis set_ConsD)
qed simp

lemma emap_length: "emap f xs = Inr ys \<Longrightarrow> length ys = length xs"
  by (induction xs arbitrary: ys) (auto simp: result_iff)

lemma emap_eq_Inr_map: "(\<And>x. x \<in> set xs \<Longrightarrow> f x = Inr (g x)) \<Longrightarrow> emap f xs = Inr (map g xs)"
  by (induction xs) auto

text \<open>A key that occurs once selects one element.\<close>

lemma unique_filter: "distinct (map f xs) \<Longrightarrow> x \<in> set xs \<Longrightarrow> filter (\<lambda>y. f y = f x) xs = [x]"
  by (induction xs) (auto simp: filter_empty_conv rev_image_eqI)

section \<open>Tables\<close>

definition row_find :: "('r \<Rightarrow> 'k) \<Rightarrow> 'k \<Rightarrow> 'r list \<Rightarrow> 'r option" where
  "row_find key k rows = find (\<lambda>r. key r = k) rows"

definition row_update :: "('r \<Rightarrow> 'k) \<Rightarrow> 'k \<Rightarrow> ('r \<Rightarrow> 'r) \<Rightarrow> 'r list \<Rightarrow> 'r list" where
  "row_update key k f rows = map (\<lambda>r. if key r = k then f r else r) rows"

lemma row_find_Nil [simp]: "row_find key k [] = None"
  by (simp add: row_find_def)

lemma row_find_Cons [simp]:
  "row_find key k (r # rows) = (if key r = k then Some r else row_find key k rows)"
  by (simp add: row_find_def)

lemma row_find_SomeD: "row_find key k rows = Some r \<Longrightarrow> r \<in> set rows \<and> key r = k"
  by (induction rows) (auto split: if_splits)

lemma row_find_None_iff [row_simps]: "row_find key k rows = None \<longleftrightarrow> k \<notin> key ` set rows"
  by (induction rows) auto

lemma row_find_append [row_simps]:
  "row_find key k (rows @ rows') =
    (case row_find key k rows of Some r \<Rightarrow> Some r | None \<Rightarrow> row_find key k rows')"
  by (induction rows) auto

lemma row_find_update [row_simps]:
  assumes "\<And>r. key (f r) = key r"
  shows "row_find key k (row_update key k' f rows) =
    (if k = k' then map_option f (row_find key k rows) else row_find key k rows)"
  by (induction rows) (auto simp: row_update_def assms)

lemma row_update_Nil [simp]: "row_update key k f [] = []"
  by (simp add: row_update_def)

lemma row_update_Cons [simp]:
  "row_update key k f (r # rows) = (if key r = k then f r else r) # row_update key k f rows"
  by (simp add: row_update_def)

lemma row_update_append: "row_update key k f (rows @ rows') = row_update key k f rows @ row_update key k f rows'"
  by (simp add: row_update_def)

lemma row_update_keys [row_simps]:
  assumes "\<And>r. key (f r) = key r"
  shows "map key (row_update key k f rows) = map key rows"
  by (induction rows) (auto simp: assms)

lemma row_update_map: "(\<And>r. h (f r) = h r) \<Longrightarrow> map h (row_update key k f rows) = map h rows"
  by (induction rows) auto

lemma row_update_image: "(\<And>r. h (f r) = h r) \<Longrightarrow> h ` set (row_update key k f rows) = h ` set rows"
  using row_update_map[of h f key k rows] by (metis set_map)

lemma row_update_fresh: "k \<notin> key ` set rows \<Longrightarrow> row_update key k f rows = rows"
  by (induction rows) auto

lemma set_row_updateD:
  "r \<in> set (row_update key k f rows) \<Longrightarrow> \<exists>r0 \<in> set rows. r = (if key r0 = k then f r0 else r0)"
  by (auto simp: row_update_def)

lemma row_find_in_set:
  "distinct (map key rows) \<Longrightarrow> r \<in> set rows \<Longrightarrow> row_find key (key r) rows = Some r"
  by (induction rows) (auto simp: rev_image_eqI)

text \<open>Replacing the only row of a key shifts a sum over the table by the difference of that row.\<close>

lemma sum_list_row_update:
  fixes w :: "'r \<Rightarrow> int"
  assumes "distinct (map key rows)" and "row_find key k rows = Some r"
  shows "sum_list (map w (row_update key k f rows)) = sum_list (map w rows) - w r + w (f r)"
  using assms
proof (induction rows)
  case (Cons a rows)
  show ?case
  proof (cases "key a = k")
    case True
    with Cons.prems have "k \<notin> key ` set rows" and "r = a" by auto
    with True show ?thesis by (simp add: row_update_fresh)
  next
    case False
    with Cons show ?thesis by simp
  qed
qed simp

section \<open>Sorted, duplicate-free listings\<close>

text \<open>Python's \<open>sorted(set(xs))\<close>.\<close>

definition sorted_set :: "'a::linorder list \<Rightarrow> 'a list" where
  "sorted_set xs = sort (remdups xs)"

lemma set_sorted_set [simp]: "set (sorted_set xs) = set xs"
  by (simp add: sorted_set_def)

lemma sorted_sorted_set [simp]: "sorted (sorted_set xs)"
  by (simp add: sorted_set_def)

lemma distinct_sorted_set [simp]: "distinct (sorted_set xs)"
  by (simp add: sorted_set_def)

lemma sorted_set_unique:
  "sorted ys \<Longrightarrow> distinct ys \<Longrightarrow> set ys = set xs \<Longrightarrow> ys = sorted_set xs"
  by (rule sorted_distinct_set_unique) auto

section \<open>Text\<close>

text \<open>
  A Python \<open>str\<close> is kept as the UTF-8 bytes of its code points (a lone surrogate as the three
  bytes the same scheme gives it).  Byte order and code point order agree, so the lexicographic
  order of \<open>string\<close> is Python's order of strings.
\<close>

abbreviation ord :: "char \<Rightarrow> nat" where
  "ord c \<equiv> of_char c"

fun cps :: "string \<Rightarrow> nat list" where
  "cps [] = []"
| "cps (c # cs) =
    (if ord c < 128 then ord c # cps cs
     else if ord c < 224 then
       (case cs of c1 # r \<Rightarrow> ((ord c mod 32) * 64 + ord c1 mod 64) # cps r
        | _ \<Rightarrow> [ord c])
     else if ord c < 240 then
       (case cs of c1 # c2 # r \<Rightarrow>
          ((ord c mod 16) * 4096 + (ord c1 mod 64) * 64 + ord c2 mod 64) # cps r
        | _ \<Rightarrow> [ord c])
     else
       (case cs of c1 # c2 # c3 # r \<Rightarrow>
          ((ord c mod 8) * 262144 + (ord c1 mod 64) * 4096 + (ord c2 mod 64) * 64 + ord c3 mod 64) # cps r
        | _ \<Rightarrow> [ord c]))"

text \<open>\<open>len(s)\<close> of a Python string.\<close>

definition py_len :: "string \<Rightarrow> nat" where
  "py_len s = length (cps s)"

text \<open>\<open>str.isspace\<close>, the class \<open>\\s\<close> of \<open>re\<close> and the characters \<open>str.strip\<close> removes.\<close>

definition py_space :: "nat \<Rightarrow> bool" where
  "py_space n \<longleftrightarrow> 9 \<le> n \<and> n \<le> 13 \<or> 28 \<le> n \<and> n \<le> 32 \<or> n = 133 \<or> n = 160 \<or> n = 5760 \<or>
     8192 \<le> n \<and> n \<le> 8202 \<or> n = 8232 \<or> n = 8233 \<or> n = 8239 \<or> n = 8287 \<or> n = 12288"

text \<open>
  \<open>raw.decode("utf-8")\<close> succeeds: shortest forms only, no surrogates, at most U+10FFFF.  A lead
  byte fixes the ranges of the bytes that have to follow.  On the bytes of a \<open>str\<close> the same test
  says that \<open>s.encode("utf-8")\<close> succeeds, as a lone surrogate is what that refuses.
\<close>

definition utf8_lead :: "char \<Rightarrow> (nat \<times> nat) list option" where
  "utf8_lead c =
    (if ord c < 128 then Some []
     else if ord c < 194 then None
     else if ord c < 224 then Some [(128, 191)]
     else if ord c = 224 then Some [(160, 191), (128, 191)]
     else if ord c = 237 then Some [(128, 159), (128, 191)]
     else if ord c < 240 then Some [(128, 191), (128, 191)]
     else if ord c = 240 then Some [(144, 191), (128, 191), (128, 191)]
     else if ord c < 244 then Some [(128, 191), (128, 191), (128, 191)]
     else if ord c = 244 then Some [(128, 143), (128, 191), (128, 191)]
     else None)"

fun utf8_go :: "(nat \<times> nat) list \<Rightarrow> string \<Rightarrow> bool" where
  "utf8_go [] [] = True"
| "utf8_go (e # es) [] = False"
| "utf8_go ((lo, hi) # es) (c # cs) = (lo \<le> ord c \<and> ord c \<le> hi \<and> utf8_go es cs)"
| "utf8_go [] (c # cs) = (case utf8_lead c of None \<Rightarrow> False | Some es \<Rightarrow> utf8_go es cs)"

definition utf8_ok :: "string \<Rightarrow> bool" where
  "utf8_ok s = utf8_go [] s"

text \<open>ASCII text: one byte per code point.\<close>

definition ascii :: "string \<Rightarrow> bool" where
  "ascii s \<longleftrightarrow> (\<forall>c \<in> set s. ord c < 128)"

lemma ascii_simps [simp]: "ascii []" "ascii (c # s) \<longleftrightarrow> ord c < 128 \<and> ascii s"
  by (auto simp: ascii_def)

lemma ascii_append [simp]: "ascii (s @ t) \<longleftrightarrow> ascii s \<and> ascii t"
  by (auto simp: ascii_def)

lemma cps_ascii: "ascii s \<Longrightarrow> cps s = map ord s"
  by (induction s) auto

lemma py_len_ascii: "ascii s \<Longrightarrow> py_len s = length s"
  by (simp add: py_len_def cps_ascii)

lemma utf8_go_ascii: "ascii s \<Longrightarrow> utf8_go [] s"
  by (induction s) (auto simp: utf8_lead_def)

lemma utf8_ok_ascii: "ascii s \<Longrightarrow> utf8_ok s"
  by (simp add: utf8_ok_def utf8_go_ascii)

lemma utf8_go_append: "utf8_go es s \<Longrightarrow> utf8_go es (s @ t) = utf8_go [] t"
  by (induction es s rule: utf8_go.induct) (auto split: option.splits)

lemma utf8_ok_append [simp]: "utf8_ok s \<Longrightarrow> utf8_ok (s @ t) = utf8_ok t"
  by (simp add: utf8_ok_def utf8_go_append)

end
