(* ===== verification/Json.thy ===== *)
theory Json
  imports Prelude
begin

text \<open>
  The JSON values the program exchanges and the parts of Python's \<open>json\<close> module it relies on:
  \<open>json.dumps\<close> with sorted keys and compact separators, and \<open>json.loads\<close> with its hooks
  (\<open>object_pairs_hook\<close>, \<open>parse_float\<close>, \<open>parse_constant\<close>).  A value of type \<open>json\<close>
  is also what the program's validators receive as \<open>Any\<close>: objects are association lists in
  insertion order, floats are opaque and identified by their text.  The reader is written with fuel
  (\<open>JFuel\<close>), which \<open>loads_fuel\<close> shows is never exhausted, and with the interpreter's recursion
  limit as an argument.
\<close>

datatype json =
    JNull
  | JBool bool
  | JInt int
  | JFloat string
  | JStr string
  | JList "json list"
  | JObj "(string \<times> json) list"

section \<open>Access and equality\<close>

text \<open>\<open>value[key]\<close> of a dict that is known to have the key, and \<open>value.get(key)\<close>.\<close>

fun jlookup :: "json \<Rightarrow> string \<Rightarrow> json option" where
  "jlookup (JObj kvs) k = map_of kvs k"
| "jlookup _ k = None"

definition jget :: "json \<Rightarrow> string \<Rightarrow> json" where
  "jget v k = (case jlookup v k of Some x \<Rightarrow> x | None \<Rightarrow> JNull)"

definition opt_int :: "int option \<Rightarrow> json" where
  "opt_int x = (case x of None \<Rightarrow> JNull | Some i \<Rightarrow> JInt i)"

definition opt_str :: "string option \<Rightarrow> json" where
  "opt_str x = (case x of None \<Rightarrow> JNull | Some s \<Rightarrow> JStr s)"

fun jkeys :: "json \<Rightarrow> string list" where
  "jkeys (JObj kvs) = map fst kvs"
| "jkeys _ = []"

fun jvalues :: "json \<Rightarrow> json list" where
  "jvalues (JObj kvs) = map snd kvs"
| "jvalues _ = []"

fun jitems :: "json \<Rightarrow> json list" where
  "jitems (JList xs) = xs"
| "jitems _ = []"

fun is_obj :: "json \<Rightarrow> bool" where
  "is_obj (JObj _) = True"
| "is_obj _ = False"

fun is_list :: "json \<Rightarrow> bool" where
  "is_list (JList _) = True"
| "is_list _ = False"

fun is_str :: "json \<Rightarrow> bool" where
  "is_str (JStr _) = True"
| "is_str _ = False"

fun is_bool :: "json \<Rightarrow> bool" where
  "is_bool (JBool _) = True"
| "is_bool _ = False"

fun is_int :: "json \<Rightarrow> bool" where
  "is_int (JInt _) = True"
| "is_int _ = False"

fun str_of :: "json \<Rightarrow> string" where
  "str_of (JStr s) = s"
| "str_of _ = []"

fun int_of :: "json \<Rightarrow> int" where
  "int_of (JInt i) = i"
| "int_of _ = 0"

fun bool_of :: "json \<Rightarrow> bool" where
  "bool_of (JBool b) = b"
| "bool_of _ = False"

text \<open>
  The value with every object's keys sorted, which is what a reader of the canonical text gets back,
  and Python's \<open>==\<close>: object keys are unordered and \<open>True == 1\<close>, \<open>False == 0\<close>.
\<close>

fun jsort :: "json \<Rightarrow> json" where
  "jsort (JList xs) = JList (map jsort xs)"
| "jsort (JObj kvs) = JObj (sort_key fst (map (\<lambda>(k, v). (k, jsort v)) kvs))"
| "jsort v = v"

fun jnorm :: "json \<Rightarrow> json" where
  "jnorm (JBool b) = JInt (if b then 1 else 0)"
| "jnorm (JList xs) = JList (map jnorm xs)"
| "jnorm (JObj kvs) = JObj (sort_key fst (map (\<lambda>(k, v). (k, jnorm v)) kvs))"
| "jnorm v = v"

definition py_eq :: "json \<Rightarrow> json \<Rightarrow> bool" where
  "py_eq a b \<longleftrightarrow> jnorm a = jnorm b"

lemma py_eq_refl [simp]: "py_eq a a"
  by (simp add: py_eq_def)

lemma py_eq_sym: "py_eq a b \<Longrightarrow> py_eq b a"
  by (simp add: py_eq_def)

lemma py_eq_trans: "py_eq a b \<Longrightarrow> py_eq b c \<Longrightarrow> py_eq a c"
  by (simp add: py_eq_def)

lemma py_eq_JStr [simp]: "py_eq (JStr s) (JStr t) \<longleftrightarrow> s = t"
  by (simp add: py_eq_def)

lemma py_eq_JInt [simp]: "py_eq (JInt s) (JInt t) \<longleftrightarrow> s = t"
  by (simp add: py_eq_def)

section \<open>Printing: json.dumps(..., ensure_ascii=False, sort_keys=True, separators=(",", ":"))\<close>

definition digit_char :: "nat \<Rightarrow> char" where
  "digit_char n = char_of (if n < 10 then 48 + n else 87 + n)"

fun show_nat :: "nat \<Rightarrow> string" where
  "show_nat n = (if n < 10 then [digit_char n] else show_nat (n div 10) @ [digit_char (n mod 10)])"

declare show_nat.simps [simp del]

definition show_int :: "int \<Rightarrow> string" where
  "show_int i = (if i < 0 then CHR ''-'' # show_nat (nat (- i)) else show_nat (nat i))"

definition esc :: "char \<Rightarrow> string" where
  "esc c =
    (if c = CHR 0x22 then [CHR 0x5C, CHR 0x22]
     else if c = CHR 0x5C then [CHR 0x5C, CHR 0x5C]
     else if ord c = 10 then [CHR 0x5C, CHR ''n'']
     else if ord c = 13 then [CHR 0x5C, CHR ''r'']
     else if ord c = 9 then [CHR 0x5C, CHR ''t'']
     else if ord c = 12 then [CHR 0x5C, CHR ''f'']
     else if ord c = 8 then [CHR 0x5C, CHR ''b'']
     else if ord c < 32 then
       [CHR 0x5C, CHR ''u'', CHR ''0'', CHR ''0'', digit_char (ord c div 16), digit_char (ord c mod 16)]
     else [c])"

definition quote :: "string \<Rightarrow> string" where
  "quote s = CHR 0x22 # concat (map esc s) @ [CHR 0x22]"

fun join_comma :: "string list \<Rightarrow> string" where
  "join_comma [] = []"
| "join_comma [s] = s"
| "join_comma (s # t # ts) = s @ CHR '','' # join_comma (t # ts)"

fun dumps :: "json \<Rightarrow> string" where
  "dumps JNull = ''null''"
| "dumps (JBool b) = (if b then ''true'' else ''false'')"
| "dumps (JInt i) = show_int i"
| "dumps (JFloat s) = s"
| "dumps (JStr s) = quote s"
| "dumps (JList xs) = CHR ''['' # join_comma (map dumps xs) @ '']''"
| "dumps (JObj kvs) = CHR ''{'' #
     join_comma (map snd (sort_key fst (map (\<lambda>(k, v). (k, quote k @ CHR '':'' # dumps v)) kvs))) @ ''}''"

section \<open>Reading: json.loads with hooks\<close>

datatype 'e jfail = JSyntax | JRecursion | JFuel | JHook 'e

record 'e hooks =
  on_pairs :: "(string \<times> json) list \<Rightarrow> 'e + json"
  on_float :: "string \<Rightarrow> 'e + json"
  on_const :: "string \<Rightarrow> 'e + json"

definition is_digit :: "char \<Rightarrow> bool" where
  "is_digit c \<longleftrightarrow> 48 \<le> ord c \<and> ord c \<le> 57"

definition hex_val :: "char \<Rightarrow> nat option" where
  "hex_val c =
    (if is_digit c then Some (ord c - 48)
     else if 97 \<le> ord c \<and> ord c \<le> 102 then Some (ord c - 87)
     else if 65 \<le> ord c \<and> ord c \<le> 70 then Some (ord c - 55)
     else None)"

fun hex4 :: "string \<Rightarrow> (nat \<times> string) option" where
  "hex4 (a # b # c # d # r) =
    (case (hex_val a, hex_val b, hex_val c, hex_val d) of
       (Some w, Some x, Some y, Some z) \<Rightarrow> Some (w * 4096 + x * 256 + y * 16 + z, r)
     | _ \<Rightarrow> None)"
| "hex4 _ = None"

definition enc_cp :: "nat \<Rightarrow> string" where
  "enc_cp n =
    (if n < 128 then [char_of n]
     else if n < 2048 then [char_of (192 + n div 64), char_of (128 + n mod 64)]
     else if n < 65536 then
       [char_of (224 + n div 4096), char_of (128 + n div 64 mod 64), char_of (128 + n mod 64)]
     else [char_of (240 + n div 262144), char_of (128 + n div 4096 mod 64),
           char_of (128 + n div 64 mod 64), char_of (128 + n mod 64)])"

fun low_surrogate :: "string \<Rightarrow> (nat \<times> string) option" where
  "low_surrogate (a # b # r) =
    (if a = CHR 0x5C \<and> b = CHR ''u'' then
       (case hex4 r of
          Some (n, r') \<Rightarrow> if 56320 \<le> n \<and> n < 57344 then Some (n, r') else None
        | None \<Rightarrow> None)
     else None)"
| "low_surrogate _ = None"

fun simple_escape :: "char \<Rightarrow> char option" where
  "simple_escape c =
    (if c = CHR 0x22 \<or> c = CHR 0x5C \<or> c = CHR ''/'' then Some c
     else if c = CHR ''n'' then Some (char_of (10::nat))
     else if c = CHR ''r'' then Some (char_of (13::nat))
     else if c = CHR ''t'' then Some (char_of (9::nat))
     else if c = CHR ''f'' then Some (char_of (12::nat))
     else if c = CHR ''b'' then Some (char_of (8::nat))
     else None)"

definition pcons :: "string \<Rightarrow> (string \<times> string) option \<Rightarrow> (string \<times> string) option" where
  "pcons p = map_option (\<lambda>(s, r). (p @ s, r))"

lemma hex4_length: "hex4 s = Some (n, r) \<Longrightarrow> length r < length s"
  by (cases s rule: hex4.cases) (auto split: option.splits)

lemma low_surrogate_length: "low_surrogate s = Some (n, r) \<Longrightarrow> length r < length s"
  by (cases s rule: low_surrogate.cases) (auto split: option.splits if_splits dest!: hex4_length)

text \<open>
  One character of a string literal, raw or escaped (\<open>strict=True\<close>): its bytes and what follows.
  An escaped high surrogate takes the low surrogate escaped after it.
\<close>

definition pescape_u :: "string \<Rightarrow> (string \<times> string) option" where
  "pescape_u r =
    (case hex4 r of
       None \<Rightarrow> None
     | Some (n, r') \<Rightarrow>
         (case (if 55296 \<le> n \<and> n < 56320 then low_surrogate r' else None) of
            Some (m, r'') \<Rightarrow> Some (enc_cp (65536 + (n - 55296) * 1024 + (m - 56320)), r'')
          | None \<Rightarrow> Some (enc_cp n, r')))"

fun pchar :: "string \<Rightarrow> (string \<times> string) option" where
  "pchar [] = None"
| "pchar (c # s) =
    (if c = CHR 0x5C then
       (case s of
          [] \<Rightarrow> None
        | e # r \<Rightarrow>
            if e = CHR ''u'' then pescape_u r
            else map_option (\<lambda>d. ([d], r)) (simple_escape e))
     else if ord c < 32 then None
     else Some ([c], s))"

lemma pescape_u_length: "pescape_u s = Some (p, r) \<Longrightarrow> length r < length s"
proof -
  assume p: "pescape_u s = Some (p, r)"
  then obtain n r' where h: "hex4 s = Some (n, r')"
    by (auto simp: pescape_u_def split: option.splits)
  have "length r \<le> length r'"
  proof (cases "if 55296 \<le> n \<and> n < 56320 then low_surrogate r' else None")
    case None
    with p h show ?thesis by (simp add: pescape_u_def del: if_split_asm)
  next
    case (Some q)
    obtain m r'' where q: "q = (m, r'')" by fastforce
    with Some have "low_surrogate r' = Some (m, r'')" by (metis option.distinct(1))
    then have "length r'' < length r'" by (rule low_surrogate_length)
    moreover have "r = r''" using p h Some q by (simp add: pescape_u_def)
    ultimately show ?thesis by simp
  qed
  with hex4_length[OF h] show ?thesis by simp
qed

lemma pchar_length: "pchar s = Some (p, r) \<Longrightarrow> length r < length s"
  by (cases s) (auto split: if_splits list.splits dest!: pescape_u_length simp del: simple_escape.simps)

text \<open>The body of a string literal up to its closing quote.\<close>

function pstr :: "string \<Rightarrow> (string \<times> string) option" where
  "pstr s =
    (case s of
       [] \<Rightarrow> None
     | c # r \<Rightarrow>
         if c = CHR 0x22 then Some ([], r)
         else (case pchar s of None \<Rightarrow> None | Some (p, r') \<Rightarrow> pcons p (pstr r')))"
  by pat_completeness auto
termination
  by (relation "measure length") (auto dest!: pchar_length simp del: pchar.simps)

declare pstr.simps [simp del]

definition json_ws :: "char \<Rightarrow> bool" where
  "json_ws c \<longleftrightarrow> ord c \<in> {32, 9, 10, 13}"

definition skip_ws :: "string \<Rightarrow> string" where
  "skip_ws s = dropWhile json_ws s"

definition digits_val :: "string \<Rightarrow> nat" where
  "digits_val s = foldl (\<lambda>n c. 10 * n + (ord c - 48)) 0 s"

text \<open>The optional fraction and exponent of a number: what is read and what is left.\<close>

definition pfrac :: "string \<Rightarrow> string \<times> string" where
  "pfrac s =
    (case s of
       c # r \<Rightarrow> if c = CHR ''.'' \<and> takeWhile is_digit r \<noteq> []
         then (c # takeWhile is_digit r, dropWhile is_digit r) else ([], s)
     | [] \<Rightarrow> ([], s))"

definition pexp :: "string \<Rightarrow> string \<times> string" where
  "pexp s =
    (case s of
       c # r \<Rightarrow>
         (let sign = (case r of d # _ \<Rightarrow> if d = CHR ''+'' \<or> d = CHR ''-'' then [d] else [] | [] \<Rightarrow> []);
              q = drop (length sign) r
          in if (c = CHR ''e'' \<or> c = CHR ''E'') \<and> takeWhile is_digit q \<noteq> []
             then (c # sign @ takeWhile is_digit q, dropWhile is_digit q) else ([], s))
     | [] \<Rightarrow> ([], s))"

text \<open>Python refuses to convert more than 4300 decimal digits to an \<open>int\<close>.\<close>

definition max_str_digits :: nat where
  "max_str_digits = 4300"

definition punsigned :: "'e hooks \<Rightarrow> bool \<Rightarrow> string \<Rightarrow> 'e jfail + json \<times> string" where
  "punsigned h neg r =
    (case r of
       [] \<Rightarrow> Inl JSyntax
     | d # _ \<Rightarrow>
         if \<not> is_digit d then Inl JSyntax
         else
           (let ds = (if d = CHR ''0'' then ''0'' else takeWhile is_digit r);
                r2 = drop (length ds) r;
                fr = pfrac r2;
                ex = pexp (snd fr)
            in if fst fr \<noteq> [] \<or> fst ex \<noteq> [] then
                 ebind (on_error (on_float h ((if neg then ''-'' else []) @ ds @ fst fr @ fst ex)) JHook)
                   (\<lambda>v. Inr (v, snd ex))
               else if length ds > max_str_digits then Inl JSyntax
               else Inr (JInt (if neg then - int (digits_val ds) else int (digits_val ds)), r2)))"

definition pnum :: "'e hooks \<Rightarrow> string \<Rightarrow> 'e jfail + json \<times> string" where
  "pnum h s =
    (case s of
       [] \<Rightarrow> Inl JSyntax
     | c # r \<Rightarrow> if c = CHR ''-'' then punsigned h True r else punsigned h False s)"

text \<open>Literals and numbers, in the order the scanner tries them.\<close>

definition patom :: "'e hooks \<Rightarrow> string \<Rightarrow> 'e jfail + json \<times> string" where
  "patom h s =
    (if prefix ''null'' s then Inr (JNull, drop 4 s)
     else if prefix ''true'' s then Inr (JBool True, drop 4 s)
     else if prefix ''false'' s then Inr (JBool False, drop 5 s)
     else if prefix ''NaN'' s then
       ebind (on_error (on_const h ''NaN'') JHook) (\<lambda>v. Inr (v, drop 3 s))
     else if prefix ''Infinity'' s then
       ebind (on_error (on_const h ''Infinity'') JHook) (\<lambda>v. Inr (v, drop 8 s))
     else if prefix ''-Infinity'' s then
       ebind (on_error (on_const h ''-Infinity'') JHook) (\<lambda>v. Inr (v, drop 9 s))
     else pnum h s)"

type_synonym 'e reader = "nat \<Rightarrow> string \<Rightarrow> 'e jfail + json \<times> string"

text \<open>
  The three mutually recursive readers, each over the readers it calls.  The first argument of a reader
  is the recursion depth the interpreter still allows.
\<close>

definition val_step :: "'e hooks \<Rightarrow> (nat \<Rightarrow> json list \<Rightarrow> string \<Rightarrow> 'e jfail + json \<times> string) \<Rightarrow>
    (nat \<Rightarrow> (string \<times> json) list \<Rightarrow> string \<Rightarrow> 'e jfail + json \<times> string) \<Rightarrow> 'e reader" where
  "val_step h elems mems rl s =
    (case s of
       [] \<Rightarrow> Inl JSyntax
     | c # r \<Rightarrow>
         if c = CHR 0x22 then
           (case pstr r of None \<Rightarrow> Inl JSyntax | Some (t, r') \<Rightarrow> Inr (JStr t, r'))
         else if c = CHR ''{'' then
           (if rl = 0 then Inl JRecursion
            else (case skip_ws r of
                    [] \<Rightarrow> Inl JSyntax
                  | d # r' \<Rightarrow>
                      if d = CHR ''}'' then ebind (on_error (on_pairs h []) JHook) (\<lambda>v. Inr (v, r'))
                      else mems (rl - 1) [] (d # r')))
         else if c = CHR ''['' then
           (if rl = 0 then Inl JRecursion
            else (case skip_ws r of
                    [] \<Rightarrow> Inl JSyntax
                  | d # r' \<Rightarrow>
                      if d = CHR '']'' then Inr (JList [], r')
                      else elems (rl - 1) [] (d # r')))
         else patom h s)"

definition elems_step :: "'e reader \<Rightarrow>
    (nat \<Rightarrow> json list \<Rightarrow> string \<Rightarrow> 'e jfail + json \<times> string) \<Rightarrow>
    nat \<Rightarrow> json list \<Rightarrow> string \<Rightarrow> 'e jfail + json \<times> string" where
  "elems_step val elems rl acc s =
    ebind (val rl s) (\<lambda>(v, r).
      case skip_ws r of
        [] \<Rightarrow> Inl JSyntax
      | d # r' \<Rightarrow>
          if d = CHR '','' then elems rl (acc @ [v]) (skip_ws r')
          else if d = CHR '']'' then Inr (JList (acc @ [v]), r')
          else Inl JSyntax)"

definition mems_step :: "'e hooks \<Rightarrow> 'e reader \<Rightarrow>
    (nat \<Rightarrow> (string \<times> json) list \<Rightarrow> string \<Rightarrow> 'e jfail + json \<times> string) \<Rightarrow>
    nat \<Rightarrow> (string \<times> json) list \<Rightarrow> string \<Rightarrow> 'e jfail + json \<times> string" where
  "mems_step h val mems rl acc s =
    (case s of
       [] \<Rightarrow> Inl JSyntax
     | c # r \<Rightarrow>
         if c \<noteq> CHR 0x22 then Inl JSyntax
         else (case pstr r of
                 None \<Rightarrow> Inl JSyntax
               | Some (k, r1) \<Rightarrow>
                   (case skip_ws r1 of
                      [] \<Rightarrow> Inl JSyntax
                    | d # r2 \<Rightarrow>
                        if d \<noteq> CHR '':'' then Inl JSyntax
                        else ebind (val rl (skip_ws r2)) (\<lambda>(v, r3).
                          case skip_ws r3 of
                            [] \<Rightarrow> Inl JSyntax
                          | e # r4 \<Rightarrow>
                              if e = CHR '','' then mems rl (acc @ [(k, v)]) (skip_ws r4)
                              else if e = CHR ''}'' then
                                ebind (on_error (on_pairs h (acc @ [(k, v)])) JHook) (\<lambda>w. Inr (w, r4))
                              else Inl JSyntax))))"

fun pval :: "'e hooks \<Rightarrow> nat \<Rightarrow> 'e reader"
  and pelems :: "'e hooks \<Rightarrow> nat \<Rightarrow> nat \<Rightarrow> json list \<Rightarrow> string \<Rightarrow> 'e jfail + json \<times> string"
  and pmems :: "'e hooks \<Rightarrow> nat \<Rightarrow> nat \<Rightarrow> (string \<times> json) list \<Rightarrow> string \<Rightarrow> 'e jfail + json \<times> string"
where
  "pval h 0 rl s = Inl JFuel"
| "pval h (Suc n) rl s = val_step h (pelems h n) (pmems h n) rl s"
| "pelems h 0 rl acc s = Inl JFuel"
| "pelems h (Suc n) rl acc s = elems_step (pval h n) (pelems h n) rl acc s"
| "pmems h 0 rl acc s = Inl JFuel"
| "pmems h (Suc n) rl acc s = mems_step h (pval h n) (pmems h n) rl acc s"

definition loads :: "'e hooks \<Rightarrow> nat \<Rightarrow> string \<Rightarrow> 'e jfail + json" where
  "loads h rl s =
    ebind (pval h (2 * length s + 2) rl (skip_ws s)) (\<lambda>(v, r).
      if skip_ws r = [] then Inr v else Inl JSyntax)"

text \<open>The default hooks: a repeated key keeps its first position and its last value.\<close>

fun dict_set :: "(string \<times> json) list \<Rightarrow> string \<Rightarrow> json \<Rightarrow> (string \<times> json) list" where
  "dict_set [] k v = [(k, v)]"
| "dict_set ((k', v') # kvs) k v =
    (if k' = k then (k, v) # kvs else (k', v') # dict_set kvs k v)"

definition dict_of :: "(string \<times> json) list \<Rightarrow> (string \<times> json) list" where
  "dict_of kvs = foldl (\<lambda>d (k, v). dict_set d k v) [] kvs"

definition plain_hooks :: "unit hooks" where
  "plain_hooks = \<lparr>on_pairs = (\<lambda>kvs. Inr (JObj (dict_of kvs))),
                  on_float = (\<lambda>s. Inr (JFloat s)), on_const = (\<lambda>s. Inr (JFloat s))\<rparr>"

end
