(* ===== verification/Json_Roundtrip.thy ===== *)
theory Json_Roundtrip
  imports Json "HOL-Library.Multiset"
begin

text \<open>
  What the canonical text determines.  Reading back the canonical text of a value gives the value with
  its object keys sorted (\<open>loads_dumps\<close>), for every hook set that builds duplicate-free objects;
  the fuel of the reader is never exhausted on any input (\<open>loads_fuel\<close>).  The locale
  \<open>codec\<close> states the interface the stores rely on, a writer with a reader that recovers a normal
  form, and derives that equal texts mean equal normal forms.
\<close>

section \<open>Fuel\<close>

lemma pstr_length: "pstr s = Some (t, r) \<Longrightarrow> length r < length s"
proof (induction s arbitrary: t r rule: pstr.induct)
  case (1 s)
  then obtain c q where s: "s = c # q" by (auto simp: pstr.simps[of s] split: list.splits)
  show ?case
  proof (cases "c = CHR 0x22")
    case True
    with 1(2) s show ?thesis by (simp add: pstr.simps[of "CHR 0x22 # q"])
  next
    case False
    have "pstr s = (case pchar s of None \<Rightarrow> None | Some (p, r') \<Rightarrow> pcons p (pstr r'))"
      using s False by (subst pstr.simps) (simp del: pchar.simps)
    with 1(2) obtain p r' t' where p: "pchar s = Some (p, r')" and t': "pstr r' = Some (t', r)"
      by (auto simp: pcons_def simp del: pchar.simps split: option.splits)
    from 1(1)[OF s False p _ t'] have "length r < length r'" by simp
    with pchar_length[OF p] show ?thesis by simp
  qed
qed

lemma skip_ws_length: "length (skip_ws s) \<le> length s"
  by (simp add: skip_ws_def length_dropWhile_le)

lemma skip_ws_ConsD: "skip_ws s = c # r \<Longrightarrow> length r < length s"
  using skip_ws_length[of s] by simp

lemma pfrac_length: "length (snd (pfrac s)) \<le> length s"
  by (auto simp: pfrac_def length_dropWhile_le le_SucI split: list.splits)

lemma pexp_length: "length (snd (pexp s)) \<le> length s"
proof (cases s)
  case (Cons c r)
  have "length (dropWhile is_digit (drop n r)) \<le> Suc (length r)" for n
    using length_dropWhile_le[of is_digit "drop n r"] by simp
  with Cons show ?thesis by (simp add: pexp_def Let_def)
qed (simp add: pexp_def)

lemma punsigned_length:
  assumes "punsigned h neg s = Inr (v, r)"
  shows "length r < length s"
proof -
  from assms obtain d s' where s: "s = d # s'" and d: "is_digit d"
    by (auto simp: punsigned_def split: list.splits if_splits)
  define ds where "ds = (if d = CHR ''0'' then ''0'' else takeWhile is_digit s)"
  have "ds \<noteq> []" using s d by (simp add: ds_def)
  then have r2: "length (drop (length ds) s) < length s" using s by simp
  have "r = snd (pexp (snd (pfrac (drop (length ds) s)))) \<or> r = drop (length ds) s"
    using assms s d unfolding punsigned_def Let_def ds_def[symmetric]
    by (auto simp: result_iff ds_def split: if_splits)
  then show ?thesis
    using r2 pfrac_length pexp_length by (meson le_less_trans)
qed

lemma pnum_length: "pnum h s = Inr (v, r) \<Longrightarrow> length r < length s"
  by (auto simp: pnum_def split: list.splits if_splits dest: punsigned_length)

lemma patom_length: "patom h s = Inr (v, r) \<Longrightarrow> length r < length s"
  by (auto simp: patom_def result_iff prefix_def split: if_splits dest: pnum_length)

lemma pnum_not_fuel: "pnum h s \<noteq> Inl JFuel"
proof
  assume p: "pnum h s = Inl JFuel"
  have "ebind (on_error m JHook) f \<noteq> Inl JFuel" if "\<And>x. f x \<noteq> Inl JFuel"
    for m :: "'a + json" and f :: "json \<Rightarrow> 'a jfail + json \<times> string"
    using that by (cases m) auto
  with p show False
    unfolding pnum_def punsigned_def Let_def by (auto split: list.splits if_splits)
qed

lemma hook_not_fuel: "ebind (on_error m JHook) (\<lambda>v. Inr (f v)) \<noteq> Inl JFuel"
  by (cases m) auto

lemma patom_not_fuel: "patom h s \<noteq> Inl JFuel"
  by (auto simp: patom_def hook_not_fuel pnum_not_fuel)

text \<open>A reader that leaves less than it was given, and says so by itself.\<close>

definition progress :: "string \<Rightarrow> 'e jfail + json \<times> string \<Rightarrow> bool" where
  "progress s m \<longleftrightarrow> m \<noteq> Inl JFuel \<and> (\<forall>v r. m = Inr (v, r) \<longrightarrow> length r < length s)"

lemma reader_progress:
  "(2 * length s < n \<longrightarrow> progress s (pval h n rl s)) \<and>
   (2 * length s < n - 1 \<longrightarrow> progress s (pelems h n rl acc s)) \<and>
   (2 * length s < n - 1 \<longrightarrow> progress s (pmems h n rl acc' s))"
proof (induction n arbitrary: s rl acc acc')
  case (Suc n)
  have vals: "progress s' (pval h n rl' s')" if "2 * length s' < n" for s' rl'
    using Suc that by blast
  have elems: "progress s' (pelems h n rl' a s')" if "2 * length s' < n - 1" for s' rl' a
    using Suc that by blast
  have mems: "progress s' (pmems h n rl' a s')" if "2 * length s' < n - 1" for s' rl' a
    using Suc that by blast
  have shorter: "progress s m" if "progress s' m" "length s' \<le> length s" for s' and m :: "'a jfail + json \<times> string"
    using that by (fastforce simp: progress_def)
  have v: "progress s (pval h (Suc n) rl s)" if n: "2 * length s < Suc n"
  proof (cases s)
    case (Cons c r)
    have inner: "2 * length (d # r') < n - 1 \<and> length (d # r') \<le> length s"
      if "skip_ws r = d # r'" for d r'
    proof -
      have "length (d # r') < length s" using skip_ws_length[of r] that Cons by simp
      with n show ?thesis by linarith
    qed
    have ie: "progress s (pelems h n (rl - 1) [] (d # r'))" if "skip_ws r = d # r'" for d r'
      using inner[OF that] shorter elems by blast
    have im: "progress s (pmems h n (rl - 1) [] (d # r'))" if "skip_ws r = d # r'" for d r'
      using inner[OF that] shorter mems by blast
    have len: "length r' < length s" if "skip_ws r = d # r'" for d r'
      using skip_ws_length[of r] that Cons by simp
    show ?thesis
      using Cons len ie im hook_not_fuel[of "on_pairs h []"] patom_not_fuel[of h s] patom_length[of h s]
      unfolding val_step_def pval.simps
      by (auto simp: progress_def result_iff split: option.splits list.splits dest!: pstr_length)
  qed (simp add: val_step_def progress_def)
  have e: "progress s (pelems h (Suc n) rl acc s)" if n: "2 * length s < n"
  proof (cases "pval h n rl s")
    case (Inl x)
    then show ?thesis using vals[OF n, of rl] by (auto simp: elems_step_def progress_def)
  next
    case (Inr p)
    obtain w r where p: "p = (w, r)" by fastforce
    have r: "length r < length s" using vals[OF n, of rl] Inr p by (simp add: progress_def)
    have "progress s (pelems h n rl a (skip_ws r'))" if "skip_ws r = d # r'" for d r' a
    proof (rule shorter[OF elems])
      show "length (skip_ws r') \<le> length s" "2 * length (skip_ws r') < n - 1"
        using skip_ws_length[of r'] skip_ws_ConsD[OF that] r n by linarith+
    qed
    then show ?thesis
      using Inr p r skip_ws_ConsD[of r]
      by (auto simp: elems_step_def progress_def split: list.splits dest: less_trans)
  qed
  have m: "progress s (pmems h (Suc n) rl acc' s)" if n: "2 * length s < n"
  proof (cases "\<exists>r k r1 r2. s = CHR 0x22 # r \<and> pstr r = Some (k, r1) \<and> skip_ws r1 = CHR '':'' # r2")
    case False
    then show ?thesis
      by (auto simp: mems_step_def progress_def split: list.splits option.splits)
  next
    case True
    then obtain r k r1 r2 where s: "s = CHR 0x22 # r" and k: "pstr r = Some (k, r1)"
      and r2: "skip_ws r1 = CHR '':'' # r2" by blast
    have l2: "length (skip_ws r2) < length s"
      using skip_ws_length[of r2] skip_ws_ConsD[OF r2] pstr_length[OF k] s by simp
    with n have "2 * length (skip_ws r2) < n" by simp
    note pv = vals[OF this, of rl]
    show ?thesis
    proof (cases "pval h n rl (skip_ws r2)")
      case (Inl x)
      then show ?thesis using pv s k r2 by (auto simp: mems_step_def progress_def)
    next
      case (Inr p)
      obtain w r3 where p: "p = (w, r3)" by fastforce
      have r3: "length r3 < length s" using pv Inr p l2 by (auto simp: progress_def)
      have "progress s (pmems h n rl a (skip_ws r4))" if "skip_ws r3 = d # r4" for d r4 a
      proof (rule shorter[OF mems])
        show "length (skip_ws r4) \<le> length s" "2 * length (skip_ws r4) < n - 1"
          using skip_ws_length[of r4] skip_ws_ConsD[OF that] r3 n by linarith+
      qed
      then show ?thesis
        using Inr p s k r2 r3 skip_ws_ConsD[of r3] hook_not_fuel[of "on_pairs h (acc' @ [(k, w)])" "\<lambda>w. (w, _)"]
        by (auto simp: mems_step_def progress_def result_iff split: list.splits dest: less_trans)
    qed
  qed
  show ?case using v e m by auto
qed simp

theorem loads_fuel: "loads h rl s \<noteq> Inl JFuel"
proof -
  have "2 * length (skip_ws s) < 2 * length s + 2" using skip_ws_length[of s] by simp
  then have "progress (skip_ws s) (pval h (2 * length s + 2) rl (skip_ws s))"
    using reader_progress by blast
  then show ?thesis
    by (auto simp: loads_def progress_def result_iff split: if_splits)
qed

section \<open>Strings and numbers survive printing and reading\<close>

lemma simple_escape_simps [simp]:
  "simple_escape (CHR 0x22) = Some (CHR 0x22)" "simple_escape (CHR 0x5C) = Some (CHR 0x5C)"
  "simple_escape (CHR ''n'') = Some (CHR 0x0A)" "simple_escape (CHR ''r'') = Some (CHR 0x0D)"
  "simple_escape (CHR ''t'') = Some (CHR 0x09)" "simple_escape (CHR ''f'') = Some (CHR 0x0C)"
  "simple_escape (CHR ''b'') = Some (CHR 0x08)"
  by (simp_all add: char_of_def bit_0)

declare simple_escape.simps [simp del]

lemma hex_val_digit_char: "n < 16 \<Longrightarrow> hex_val (digit_char n) = Some n"
  by (auto simp: hex_val_def digit_char_def is_digit_def)

lemma of_char_eqI: "ord c = ord d \<Longrightarrow> c = d"
  by (metis char_of_char)

lemma pchar_control:
  assumes "ord c < 32"
  shows "pchar ([CHR 0x5C, CHR ''u'', CHR ''0'', CHR ''0'', digit_char (ord c div 16), digit_char (ord c mod 16)] @ r)
    = Some ([c], r)"
proof -
  have z: "hex_val (CHR ''0'') = Some 0" by (simp add: hex_val_def is_digit_def)
  have a: "hex_val (digit_char (ord c div 16)) = Some (ord c div 16)"
    and b: "hex_val (digit_char (ord c mod 16)) = Some (ord c mod 16)"
    using assms by (auto intro!: hex_val_digit_char)
  have "hex4 ([CHR ''0'', CHR ''0'', digit_char (ord c div 16), digit_char (ord c mod 16)] @ r)
      = Some (ord c, r)"
    using z a b by simp
  moreover have "enc_cp (ord c) = [c]" using assms by (simp add: enc_cp_def)
  ultimately show ?thesis using assms by (simp add: pescape_u_def)
qed

lemma pchar_esc: "pchar (esc c @ r) = Some ([c], r)"
proof -
  consider "c = CHR 0x22" | "c = CHR 0x5C" | "ord c = 10" | "ord c = 13" | "ord c = 9" | "ord c = 12"
    | "ord c = 8" | "c \<noteq> CHR 0x22" "c \<noteq> CHR 0x5C" "ord c < 32" "ord c \<notin> {8, 9, 10, 12, 13}"
    | "c \<noteq> CHR 0x22" "c \<noteq> CHR 0x5C" "\<not> ord c < 32"
    by fastforce
  then show ?thesis
  proof cases
    case 8
    then show ?thesis using pchar_control[of c r] by (simp add: esc_def)
  qed (auto simp: esc_def intro: of_char_eqI)
qed

lemma esc_nonquote: "\<exists>d q. esc c = d # q \<and> d \<noteq> CHR 0x22"
  by (auto simp: esc_def)

lemma pstr_quote: "pstr (CHR 0x22 # r) = Some ([], r)"
  by (simp add: pstr.simps[of "CHR 0x22 # r"])

theorem pstr_escaped: "pstr (concat (map esc s) @ CHR 0x22 # r) = Some (s, r)"
proof (induction s)
  case Nil
  then show ?case by (simp add: pstr_quote)
next
  case (Cons c s)
  let ?tl = "concat (map esc s) @ CHR 0x22 # r"
  obtain d q where d: "esc c = d # q" "d \<noteq> CHR 0x22" using esc_nonquote by blast
  have "pstr (esc c @ ?tl) = (case pchar (esc c @ ?tl) of None \<Rightarrow> None | Some (p, r') \<Rightarrow> pcons p (pstr r'))"
    using d by (subst pstr.simps) (simp del: pchar.simps)
  with Cons show ?case by (simp add: pchar_esc pcons_def)
qed

lemma digit_char_digit: "n < 10 \<Longrightarrow> is_digit (digit_char n) \<and> ord (digit_char n) - 48 = n"
  by (simp add: digit_char_def is_digit_def)

lemma show_nat_digits: "c \<in> set (show_nat n) \<Longrightarrow> is_digit c"
proof (induction n rule: show_nat.induct)
  case (1 n)
  then show ?case by (auto simp: show_nat.simps[of n] digit_char_digit split: if_splits)
qed

lemma show_nat_nonempty [simp]: "show_nat n \<noteq> []"
  by (subst show_nat.simps) simp

lemma digits_val_snoc: "digits_val (s @ [c]) = 10 * digits_val s + (ord c - 48)"
  by (simp add: digits_val_def)

lemma digits_val_show: "digits_val (show_nat n) = n"
proof (induction n rule: show_nat.induct)
  case (1 n)
  show ?case
  proof (cases "n < 10")
    case True
    then show ?thesis by (simp add: show_nat.simps[of n] digits_val_def digit_char_digit)
  next
    case False
    with 1 have "digits_val (show_nat (n div 10)) = n div 10" by simp
    with False show ?thesis
      by (simp add: show_nat.simps[of n] digits_val_snoc digit_char_digit)
  qed
qed

lemma hd_show_nat: "hd (show_nat n) = CHR ''0'' \<Longrightarrow> n = 0"
proof (induction n rule: show_nat.induct)
  case (1 n)
  show ?case
  proof (cases "n < 10")
    case True
    with 1(2) have "digit_char n = CHR ''0''" by (simp add: show_nat.simps[of n])
    then show ?thesis using digit_char_digit[OF True] by auto
  next
    case False
    with 1(2) have "hd (show_nat (n div 10)) = CHR ''0''" by (simp add: show_nat.simps[of n])
    with 1(1)[OF False] False show ?thesis by auto
  qed
qed

lemma show_nat_length: "n < 10 ^ Suc k \<Longrightarrow> length (show_nat n) \<le> Suc k"
proof (induction k arbitrary: n)
  case 0
  then show ?case by (simp add: show_nat.simps[of n])
next
  case (Suc k)
  show ?case
  proof (cases "n < 10")
    case False
    from Suc.prems have "n div 10 < 10 ^ Suc k" by (simp add: less_mult_imp_div_less mult.commute)
    from Suc.IH[OF this] False show ?thesis by (simp add: show_nat.simps[of n])
  qed (simp add: show_nat.simps[of n])
qed

text \<open>What may follow a value: nothing, or a separator.\<close>

definition stops :: "string \<Rightarrow> bool" where
  "stops r \<longleftrightarrow> (case r of [] \<Rightarrow> True | c # _ \<Rightarrow> c \<in> {CHR '','', CHR '']'', CHR ''}''})"

lemma stops_digits: "stops r \<Longrightarrow> takeWhile is_digit r = []"
  by (auto simp: stops_def is_digit_def split: list.splits)

lemma stops_no_frac: "stops r \<Longrightarrow> pfrac r = ([], r)"
  by (auto simp: stops_def pfrac_def split: list.splits)

lemma stops_no_exp: "stops r \<Longrightarrow> pexp r = ([], r)"
  by (auto simp: stops_def pexp_def Let_def split: list.splits)

lemma punsigned_eq:
  assumes "is_digit d" and ds: "(if d = CHR ''0'' then ''0'' else takeWhile is_digit (d # u)) = ds"
    and r: "drop (length ds) (d # u) = r" and "stops r" and "length ds \<le> max_str_digits"
  shows "punsigned h neg (d # u) =
    Inr (JInt (if neg then - int (digits_val ds) else int (digits_val ds)), r)"
  unfolding punsigned_def list.case Let_def ds r
  using assms(1,5) by (simp add: stops_no_frac[OF assms(4)] stops_no_exp[OF assms(4)])

lemma punsigned_show:
  assumes "stops r" and "length (show_nat n) \<le> max_str_digits"
  shows "punsigned h neg (show_nat n @ r) = Inr (JInt (if neg then - int n else int n), r)"
proof -
  obtain d q where d: "show_nat n = d # q" by (cases "show_nat n") auto
  have dig: "\<forall>c \<in> set (show_nat n). is_digit c" using show_nat_digits by blast
  have "takeWhile is_digit (show_nat n @ r) = show_nat n @ takeWhile is_digit r"
    using dig by (intro takeWhile_append2) auto
  then have tw: "takeWhile is_digit (show_nat n @ r) = show_nat n"
    using stops_digits[OF assms(1)] by simp
  have zero: "show_nat n = ''0''" if "d = CHR ''0''"
  proof -
    have "n = 0" using hd_show_nat[of n] d that by simp
    then show ?thesis by (simp add: show_nat.simps digit_char_def char_of_def bit_0)
  qed
  have ds: "(if d = CHR ''0'' then ''0'' else takeWhile is_digit (show_nat n @ r)) = show_nat n"
    using zero tw by auto
  have t: "show_nat n @ r = d # (q @ r)" using d by simp
  have "is_digit d" using dig d by simp
  moreover have "drop (length (show_nat n)) (d # (q @ r)) = r" unfolding t[symmetric] by simp
  ultimately show ?thesis
    unfolding t using punsigned_eq ds[unfolded t] assms digits_val_show[of n] by metis
qed

section \<open>The canonical text is read back\<close>

text \<open>
  The values the program writes: no floats, no repeated key, no integer beyond Python's conversion
  limit.  \<open>jdepth\<close> is the nesting the reader's recursion has to allow.
\<close>

fun jwf :: "json \<Rightarrow> bool" where
  "jwf (JFloat s) = False"
| "jwf (JInt i) = (length (show_nat (nat \<bar>i\<bar>)) \<le> max_str_digits)"
| "jwf (JList xs) = list_all jwf xs"
| "jwf (JObj kvs) = (distinct (map fst kvs) \<and> list_all (\<lambda>(k, v). jwf v) kvs)"
| "jwf _ = True"

fun jdepth :: "json \<Rightarrow> nat" where
  "jdepth (JList xs) = Suc (foldr max (map jdepth xs) 0)"
| "jdepth (JObj kvs) = Suc (foldr max (map (\<lambda>(k, v). jdepth v) kvs) 0)"
| "jdepth _ = 0"

fun jfuel :: "json \<Rightarrow> nat" where
  "jfuel (JList xs) = Suc (sum_list (map (\<lambda>x. Suc (jfuel x)) xs))"
| "jfuel (JObj kvs) = Suc (sum_list (map (\<lambda>(k, v). Suc (jfuel v)) kvs))"
| "jfuel _ = 1"

lemma foldr_max_ge: "x \<in> set xs \<Longrightarrow> x \<le> foldr max xs (0::nat)"
  by (induction xs) auto

lemma insort_key_map: "insort_key g (f x) (map f xs) = map f (insort_key (g \<circ> f) x xs)"
  by (induction xs) auto

lemma sort_key_map: "sort_key g (map f xs) = map f (sort_key (g \<circ> f) xs)"
proof (induction xs)
  case (Cons x xs)
  then show ?case by (simp only: list.map sort_key_simps insort_key_map)
qed simp

lemma sort_pairs: "sort_key fst (map (\<lambda>(k, v). (k, f k v)) kvs) = map (\<lambda>(k, v). (k, f k v)) (sort_key fst kvs)"
proof -
  have "fst \<circ> (\<lambda>(k, v). (k, f k v)) = fst" by auto
  then show ?thesis by (simp add: sort_key_map)
qed

lemma dumps_obj:
  "dumps (JObj kvs) = CHR ''{'' # join_comma (map (\<lambda>(k, v). quote k @ CHR '':'' # dumps v) (sort_key fst kvs)) @ ''}''"
proof -
  have "map snd (map (\<lambda>(k, v). (k, quote k @ CHR '':'' # dumps v)) xs)
      = map (\<lambda>(k, v). quote k @ CHR '':'' # dumps v) xs" for xs
    by (induction xs) auto
  then show ?thesis by (simp only: dumps.simps sort_pairs)
qed

lemma jsort_obj: "jsort (JObj kvs) = JObj (map (\<lambda>(k, v). (k, jsort v)) (sort_key fst kvs))"
  by (simp add: sort_pairs)

declare dumps.simps(7) [simp del] jsort.simps(2) [simp del]

lemma sum_list_sort_key: "sum_list (map f (sort_key g xs)) = (sum_list (map f xs) :: nat)"
  by (metis mset_map mset_sort sum_mset_sum_list)

text \<open>A hook set that builds the object it is given, when no key is repeated.\<close>

definition builds_objects :: "'e hooks \<Rightarrow> bool" where
  "builds_objects h \<longleftrightarrow> (\<forall>kvs. distinct (map fst kvs) \<longrightarrow> on_pairs h kvs = Inr (JObj kvs))"

text \<open>The first byte of a value's text is neither white space nor a closing bracket.\<close>

definition opens :: "string \<Rightarrow> bool" where
  "opens s \<longleftrightarrow> (\<exists>c r. s = c # r \<and> \<not> json_ws c \<and> c \<noteq> CHR '']'' \<and> c \<noteq> CHR ''}'')"

lemma skip_ws_opens: "opens s \<Longrightarrow> skip_ws (s @ r) = s @ r"
  by (auto simp: opens_def skip_ws_def)

lemma opens_show_nat: "opens (show_nat n)"
proof -
  obtain d q where d: "show_nat n = d # q" by (cases "show_nat n") auto
  then have "is_digit d" using show_nat_digits[of d n] by simp
  then show ?thesis using d by (auto simp: opens_def is_digit_def json_ws_def)
qed

lemma opens_quote: "opens (quote s)"
  by (simp add: opens_def quote_def json_ws_def)

lemma opens_dumps: "jwf v \<Longrightarrow> opens (dumps v)"
proof (cases v)
  case (JInt i)
  then show ?thesis
    using opens_show_nat[of "nat i"] by (simp add: show_int_def) (simp add: opens_def json_ws_def)
next
  case (JObj kvs)
  then show ?thesis by (simp only: dumps_obj) (simp add: opens_def json_ws_def)
qed (auto simp: opens_def json_ws_def quote_def)

lemma patom_number:
  assumes "s = show_int i @ r"
  shows "patom h s = pnum h s"
proof -
  have "\<not> prefix p s" if "hd p \<notin> {CHR ''-''}" "p \<noteq> []" "\<not> is_digit (hd p)" for p
  proof
    assume "prefix p s"
    then have "hd p = hd s" using that(2) by (auto simp: prefix_def)
    moreover have "hd s = CHR ''-'' \<or> is_digit (hd s)"
      using assms show_nat_digits[OF hd_in_set[OF show_nat_nonempty]] by (auto simp: show_int_def)
    ultimately show False using that by auto
  qed
  moreover have "\<not> prefix ''-Infinity'' s"
  proof
    assume p: "prefix ''-Infinity'' s"
    then have s: "s = CHR ''-'' # tl s" and h: "hd (tl s) = CHR ''I''" by (auto simp: prefix_def)
    have "i < 0"
    proof (rule ccontr)
      assume "\<not> i < 0"
      then have "s = show_nat (nat i) @ r" using assms by (simp add: show_int_def)
      then have "is_digit (hd s)" using show_nat_digits[OF hd_in_set[OF show_nat_nonempty]] by simp
      moreover have "hd s = CHR ''-''" using s by (metis list.sel(1))
      ultimately show False by (simp add: is_digit_def)
    qed
    then have "tl s = show_nat (nat (- i)) @ r" using assms by (simp add: show_int_def)
    then have "is_digit (hd (tl s))" using show_nat_digits[OF hd_in_set[OF show_nat_nonempty]] by simp
    with h show False by (simp add: is_digit_def)
  qed
  ultimately show ?thesis by (simp add: patom_def is_digit_def)
qed

lemma patom_int:
  assumes "stops r" and "length (show_nat (nat \<bar>i\<bar>)) \<le> max_str_digits"
  shows "patom h (show_int i @ r) = Inr (JInt i, r)"
proof (cases "i < 0")
  case True
  with assms show ?thesis
    by (simp add: patom_number[OF refl]) (simp add: show_int_def pnum_def punsigned_show)
next
  case False
  obtain d q where d: "show_nat (nat i) = d # q" by (cases "show_nat (nat i)") auto
  have "d \<noteq> CHR ''-''" using show_nat_digits[of d "nat i"] d by (auto simp: is_digit_def)
  with False assms d punsigned_show[OF assms(1), of "nat i" h False] show ?thesis
    by (simp add: patom_number[OF refl]) (simp add: show_int_def pnum_def)
qed

lemma skip_ws_sep: "c \<in> {CHR '','', CHR '']'', CHR ''}'', CHR '':''} \<Longrightarrow> skip_ws (c # r) = c # r"
  by (auto simp: skip_ws_def json_ws_def)

lemma stops_sep: "c \<in> {CHR '','', CHR '']'', CHR ''}''} \<Longrightarrow> stops (c # r)"
  by (auto simp: stops_def)

lemma pelems_join:
  assumes "\<And>x n r. x \<in> set xs \<Longrightarrow> stops r \<Longrightarrow> jfuel x \<le> n \<Longrightarrow>
      pval h n rl (dumps x @ r) = Inr (jsort x, r)"
    and "list_all jwf xs" and "xs \<noteq> []" and "sum_list (map (\<lambda>x. Suc (jfuel x)) xs) \<le> n"
  shows "pelems h n rl acc (join_comma (map dumps xs) @ CHR '']'' # r) = Inr (JList (acc @ map jsort xs), r)"
  using assms
proof (induction xs arbitrary: n acc)
  case (Cons x xs)
  from Cons.prems(4) obtain m where n: "n = Suc m" by (cases n) auto
  with Cons.prems(4) have x: "jfuel x \<le> m" by simp
  show ?case
  proof (cases xs)
    case Nil
    have "pval h m rl (dumps x @ CHR '']'' # r) = Inr (jsort x, CHR '']'' # r)"
      using Cons.prems(1)[of x _ m] x by (simp add: stops_sep)
    with Nil n show ?thesis by (simp add: elems_step_def skip_ws_sep)
  next
    case (Cons y ys)
    let ?tl = "join_comma (map dumps xs) @ CHR '']'' # r"
    have "pval h m rl (dumps x @ CHR '','' # ?tl) = Inr (jsort x, CHR '','' # ?tl)"
      using Cons.prems(1)[of x _ m] x by (simp add: stops_sep)
    moreover have "pelems h m rl (acc @ [jsort x]) ?tl = Inr (JList ((acc @ [jsort x]) @ map jsort xs), r)"
      using Cons.prems n Cons by (intro Cons.IH) auto
    moreover have "skip_ws ?tl = ?tl"
      using Cons.prems(2) Cons skip_ws_opens[OF opens_dumps[of y]] by (cases ys) auto
    ultimately show ?thesis using n Cons by (simp add: elems_step_def skip_ws_sep)
  qed
qed simp

lemma pmems_join:
  assumes hooks: "builds_objects h" and dist: "distinct (map fst (acc @ map (\<lambda>(k, v). (k, jsort v)) kvs))"
    and "\<And>k x n r. (k, x) \<in> set kvs \<Longrightarrow> stops r \<Longrightarrow> jfuel x \<le> n \<Longrightarrow>
      pval h n rl (dumps x @ r) = Inr (jsort x, r)"
    and "list_all (\<lambda>(k, v). jwf v) kvs" and "kvs \<noteq> []"
    and "sum_list (map (\<lambda>(k, v). Suc (jfuel v)) kvs) \<le> n"
  shows "pmems h n rl acc
      (join_comma (map (\<lambda>(k, v). quote k @ CHR '':'' # dumps v) kvs) @ CHR ''}'' # r)
    = Inr (JObj (acc @ map (\<lambda>(k, v). (k, jsort v)) kvs), r)"
  using assms(2-)
proof (induction kvs arbitrary: n acc)
  case (Cons p kvs)
  obtain k x where p: "p = (k, x)" by fastforce
  from Cons.prems(5) p obtain m where n: "n = Suc m" by (cases n) auto
  with Cons.prems(5) p have x: "jfuel x \<le> m" by simp
  have key: "pstr (concat (map esc k) @ CHR 0x22 # q) = Some (k, q)" for q by (rule pstr_escaped)
  have ws: "skip_ws (dumps x @ q) = dumps x @ q" for q
    using Cons.prems(3) p by (intro skip_ws_opens opens_dumps) simp
  have val: "pval h m rl (dumps x @ q) = Inr (jsort x, q)" if "stops q" for q
    using Cons.prems(2)[of k x q m] x p that by simp
  show ?case
  proof (cases kvs)
    case Nil
    have "on_pairs h (acc @ [(k, jsort x)]) = Inr (JObj (acc @ [(k, jsort x)]))"
      using hooks Cons.prems(1) Nil p by (simp add: builds_objects_def)
    with Nil n p show ?thesis
      by (simp add: mems_step_def skip_ws_sep quote_def key ws val stops_sep)
  next
    case (Cons p' ys)
    obtain k' x' where p': "p' = (k', x')" by fastforce
    let ?tl = "join_comma (map (\<lambda>(k, v). quote k @ CHR '':'' # dumps v) kvs) @ CHR ''}'' # r"
    have "pmems h m rl (acc @ [(k, jsort x)]) ?tl
        = Inr (JObj ((acc @ [(k, jsort x)]) @ map (\<lambda>(k, v). (k, jsort v)) kvs), r)"
      using Cons.prems n p Cons by (intro Cons.IH) auto
    moreover have "skip_ws ?tl = ?tl"
      using Cons p' skip_ws_opens[OF opens_quote[of k']] by (cases ys) auto
    ultimately show ?thesis
      using n p Cons by (simp add: mems_step_def skip_ws_sep quote_def key ws val stops_sep)
  qed
qed simp

theorem pval_dumps:
  assumes "builds_objects h"
  shows "jwf v \<Longrightarrow> jdepth v \<le> rl \<Longrightarrow> jfuel v \<le> n \<Longrightarrow> stops r \<Longrightarrow>
    pval h n rl (dumps v @ r) = Inr (jsort v, r)"
proof (induction v arbitrary: n rl r)
  case (JInt i)
  then obtain m where n: "n = Suc m" by (cases n) auto
  have "opens (show_int i)" using opens_dumps[of "JInt i"] JInt by simp
  moreover obtain c q where c: "show_int i = c # q"
    by (cases "show_int i") (auto simp: show_int_def split: if_splits)
  moreover have "c = CHR ''-'' \<or> is_digit c"
    using c show_nat_digits[of c "nat i"] by (auto simp: show_int_def split: if_splits)
  then have "c \<noteq> CHR 0x22 \<and> c \<noteq> CHR ''{'' \<and> c \<noteq> CHR ''[''" by (auto simp: is_digit_def)
  ultimately show ?case
    using JInt n patom_int[of r i h] by (simp add: val_step_def)
next
  case (JStr s)
  then obtain m where n: "n = Suc m" by (cases n) auto
  then show ?case using pstr_escaped[of s r] by (simp add: val_step_def quote_def)
next
  case (JList xs)
  from JList.prems(3) obtain m where n: "n = Suc m" by (cases n) auto
  from JList.prems(2) obtain rl' where rl: "rl = Suc rl'" by (cases rl) auto
  show ?case
  proof (cases xs)
    case Nil
    then show ?thesis using n rl by (simp add: val_step_def skip_ws_sep)
  next
    case (Cons y ys)
    let ?b = "join_comma (map dumps xs) @ CHR '']'' # r"
    have depth: "jdepth x \<le> rl'" if "x \<in> set xs" for x
      using foldr_max_ge[of "jdepth x" "map jdepth xs"] that JList.prems(2) rl by auto
    have "pelems h m rl' [] ?b = Inr (JList ([] @ map jsort xs), r)"
      using JList Cons n depth
      by (intro pelems_join) (auto simp: list_all_iff)
    moreover obtain c q where "?b = c # q" "\<not> json_ws c" "c \<noteq> CHR '']''"
      using opens_dumps[of y] JList.prems(1) Cons by (cases ys) (auto simp: opens_def)
    moreover from this have "skip_ws ?b = ?b" by (simp add: skip_ws_def)
    ultimately show ?thesis using n rl by (simp add: val_step_def)
  qed
next
  case (JObj kvs)
  from JObj.prems(3) obtain m where n: "n = Suc m" by (cases n) auto
  from JObj.prems(2) obtain rl' where rl: "rl = Suc rl'" by (cases rl) auto
  show ?case
  proof (cases kvs)
    case Nil
    with assms have "on_pairs h [] = Inr (JObj [])" by (simp add: builds_objects_def)
    with Nil show ?thesis using n rl by (simp add: val_step_def skip_ws_sep dumps_obj jsort_obj)
  next
    case (Cons p0 ps)
    let ?ks = "sort_key fst kvs"
    let ?b = "join_comma (map (\<lambda>(k, v). quote k @ CHR '':'' # dumps v) ?ks) @ CHR ''}'' # r"
    have depth: "jdepth x \<le> rl'" if "(k, x) \<in> set kvs" for k x
      using foldr_max_ge[of "jdepth x" "map (\<lambda>(k, v). jdepth v) kvs"] that JObj.prems(2) rl by force
    have ih: "pval h n' rl' (dumps x @ r') = Inr (jsort x, r')"
      if "(k, x) \<in> set ?ks" "stops r'" "jfuel x \<le> n'" for k x n' r'
      using JObj.IH[of "(k, x)" x rl' n' r'] JObj.prems(1) that depth[of k x]
      by (auto simp: list_all_iff)
    have "distinct (map fst ?ks)"
      using JObj.prems(1) by (metis distinct_map distinct_sort jwf.simps(4) set_sort)
    then have "distinct (map fst ([] @ map (\<lambda>(k, v). (k, jsort v)) ?ks))"
      by (simp add: comp_def case_prod_unfold)
    moreover have "sum_list (map (\<lambda>(k, v). Suc (jfuel v)) ?ks) \<le> m"
      using JObj.prems(3) n by (simp add: sum_list_sort_key)
    moreover have "?ks \<noteq> []" using Cons by (metis length_0_conv length_sort list.distinct(1))
    ultimately have "pmems h m rl' [] ?b = Inr (JObj ([] @ map (\<lambda>(k, v). (k, jsort v)) ?ks), r)"
      using assms ih JObj.prems(1) by (intro pmems_join) (auto simp: list_all_iff)
    moreover obtain k1 v1 qs where ks: "?ks = (k1, v1) # qs" using \<open>?ks \<noteq> []\<close> by (cases ?ks) auto
    then obtain q where "?b = CHR 0x22 # q" by (cases qs) (auto simp: quote_def)
    moreover from this have "skip_ws ?b = ?b" by (simp add: skip_ws_def json_ws_def)
    ultimately show ?thesis using n rl by (simp add: val_step_def dumps_obj jsort_obj)
  qed
qed (use assms in \<open>auto simp: val_step_def patom_def gr0_conv_Suc Suc_le_eq\<close>)

lemma join_comma_length:
  "xs \<noteq> [] \<Longrightarrow> Suc (length (join_comma xs)) = sum_list (map (\<lambda>s. Suc (length s)) xs)"
  by (induction xs rule: join_comma.induct) auto

lemma sum_list_double: "sum_list (map (\<lambda>x. 2 * g x) xs) = 2 * (sum_list (map g xs) :: nat)"
  by (induction xs) auto

lemma jfuel_dumps: "jwf v \<Longrightarrow> jfuel v \<le> 2 * length (dumps v)"
proof (induction v)
  case (JInt i)
  have "opens (dumps (JInt i))" using opens_dumps JInt by blast
  then show ?case by (cases "show_int i") (auto simp: opens_def)
next
  case (JStr s)
  then show ?case by (simp add: quote_def)
next
  case (JList xs)
  show ?case
  proof (cases "xs = []")
    case False
    have "sum_list (map (\<lambda>x. Suc (jfuel x)) xs) \<le> sum_list (map (\<lambda>x. 2 * Suc (length (dumps x))) xs)"
      using JList by (intro sum_list_mono) (fastforce simp: list_all_iff intro: le_SucI)
    also have "\<dots> = 2 * sum_list (map (\<lambda>s. Suc (length s)) (map dumps xs))"
      by (simp only: sum_list_double map_map comp_def)
    also have "\<dots> = 2 * Suc (length (join_comma (map dumps xs)))"
      using join_comma_length[of "map dumps xs"] False by simp
    finally show ?thesis by simp
  qed simp
next
  case (JObj kvs)
  let ?ks = "sort_key fst kvs"
  let ?t = "\<lambda>(k, v). quote k @ CHR '':'' # dumps v"
  show ?case
  proof (cases "kvs = []")
    case False
    then have ne: "map ?t ?ks \<noteq> []" by (metis length_0_conv length_map length_sort)
    have "Suc (jfuel v) \<le> 2 * Suc (length (?t (k, v)))" if "(k, v) \<in> set kvs" for k v
      using JObj.IH[of "(k, v)" v] JObj.prems that by (auto simp: list_all_iff)
    then have "sum_list (map (\<lambda>(k, v). Suc (jfuel v)) kvs) \<le> sum_list (map (\<lambda>p. 2 * Suc (length (?t p))) kvs)"
      by (intro sum_list_mono) auto
    also have "\<dots> = sum_list (map (\<lambda>p. 2 * Suc (length (?t p))) ?ks)"
      by (simp add: sum_list_sort_key)
    also have "\<dots> = 2 * sum_list (map (\<lambda>s. Suc (length s)) (map ?t ?ks))"
      by (simp only: sum_list_double map_map comp_def)
    also have "\<dots> = 2 * Suc (length (join_comma (map ?t ?ks)))"
      using join_comma_length[OF ne] by simp
    finally show ?thesis by (simp add: dumps_obj)
  qed (simp add: dumps_obj)
qed auto

theorem loads_dumps:
  assumes "builds_objects h" and "jwf v" and "jdepth v \<le> rl"
  shows "loads h rl (dumps v) = Inr (jsort v)"
proof -
  have ws: "skip_ws (dumps v) = dumps v" using skip_ws_opens[OF opens_dumps[OF assms(2)], of "[]"] by simp
  have "pval h (2 * length (dumps v) + 2) rl (dumps v @ []) = Inr (jsort v, [])"
    using jfuel_dumps[OF assms(2)] assms by (intro pval_dumps) (auto simp: stops_def)
  then show ?thesis by (simp add: loads_def ws) (simp add: skip_ws_def)
qed

section \<open>Normal forms\<close>

lemma sort_key_sorted: "sorted (map f xs) \<Longrightarrow> sort_key f xs = xs"
  by (metis sort_key_id_if_sorted)

lemma sort_key_idem: "sort_key f (sort_key f xs) = sort_key f xs"
  by (simp add: sort_key_sorted)

lemma map_pairs_cong:
  "(\<And>k v. (k, v) \<in> set kvs \<Longrightarrow> f k v = g k v) \<Longrightarrow> map (\<lambda>(k, v). f k v) kvs = map (\<lambda>(k, v). g k v) kvs"
  by auto

lemma dumps_jsort: "dumps (jsort v) = dumps v"
proof (induction v)
  case (JList xs)
  then have "map dumps (map jsort xs) = map dumps xs" by auto
  then show ?case by (simp only: jsort.simps dumps.simps)
next
  case (JObj kvs)
  have "dumps (jsort v) = dumps v" if "(k, v) \<in> set kvs" for k v
    using JObj[of "(k, v)" v] that by simp
  then have "map (\<lambda>(k, v). quote k @ CHR '':'' # dumps (jsort v)) (sort_key fst kvs)
      = map (\<lambda>(k, v). quote k @ CHR '':'' # dumps v) (sort_key fst kvs)"
    by (intro map_pairs_cong) auto
  moreover have "sort_key fst (map (\<lambda>(k, v). (k, jsort v)) (sort_key fst kvs))
      = map (\<lambda>(k, v). (k, jsort v)) (sort_key fst kvs)"
    by (simp only: sort_pairs sort_key_idem)
  moreover have "map (\<lambda>(k, v). quote k @ CHR '':'' # dumps v) (map (\<lambda>(k, v). (k, jsort v)) xs)
      = map (\<lambda>(k, v). quote k @ CHR '':'' # dumps (jsort v)) xs" for xs
    by (simp add: comp_def case_prod_unfold)
  ultimately show ?case by (simp only: jsort_obj dumps_obj)
qed auto

lemma jnorm_obj: "jnorm (JObj kvs) = JObj (map (\<lambda>(k, v). (k, jnorm v)) (sort_key fst kvs))"
  by (simp add: sort_pairs)

lemma jnorm_jsort: "jnorm (jsort v) = jnorm v"
proof (induction v)
  case (JList xs)
  then have "map jnorm (map jsort xs) = map jnorm xs" by auto
  then show ?case by (simp only: jsort.simps jnorm.simps)
next
  case (JObj kvs)
  have "jnorm (jsort v) = jnorm v" if "(k, v) \<in> set kvs" for k v
    using JObj[of "(k, v)" v] that by simp
  then have "map (\<lambda>(k, v). (k, jnorm (jsort v))) (sort_key fst kvs) = map (\<lambda>(k, v). (k, jnorm v)) (sort_key fst kvs)"
    by (intro map_pairs_cong) auto
  moreover have "sort_key fst (map (\<lambda>(k, v). (k, jsort v)) (sort_key fst kvs))
      = map (\<lambda>(k, v). (k, jsort v)) (sort_key fst kvs)"
    by (simp only: sort_pairs sort_key_idem)
  moreover have "map (\<lambda>(k, v). (k, jnorm v)) (map (\<lambda>(k, v). (k, jsort v)) xs)
      = map (\<lambda>(k, v). (k, jnorm (jsort v))) xs" for xs :: "(string \<times> json) list"
    by (simp add: comp_def case_prod_unfold)
  ultimately show ?case by (simp only: jsort_obj jnorm_obj)
qed auto

lemma jsort_py_eq: "jsort v = jsort w \<Longrightarrow> py_eq v w"
  unfolding py_eq_def by (metis jnorm_jsort)

lemma py_eq_jsort: "py_eq (jsort v) v"
  by (simp add: py_eq_def jnorm_jsort)

section \<open>The codec interface\<close>

locale codec =
  fixes enc :: "'v \<Rightarrow> string" and dec :: "string \<Rightarrow> 'e + 'v" and norm :: "'v \<Rightarrow> 'v" and ok :: "'v \<Rightarrow> bool"
  assumes dec_enc: "ok v \<Longrightarrow> dec (enc v) = Inr (norm v)"
    and enc_norm: "enc (norm v) = enc v"
begin

lemma enc_eq_iff: "ok v \<Longrightarrow> ok w \<Longrightarrow> enc v = enc w \<longleftrightarrow> norm v = norm w"
  by (metis dec_enc enc_norm sum.inject(2))

lemma rewrite_stable: "ok v \<Longrightarrow> dec (enc v) = Inr w \<Longrightarrow> enc w = enc v"
  by (simp add: dec_enc) (metis enc_norm)

lemma dec_total: "ok v \<Longrightarrow> \<exists>w. dec (enc v) = Inr w"
  by (simp add: dec_enc)

end

text \<open>The plain reader, the one the ledger uses on what it stored.\<close>

lemma dict_set_fresh: "k \<notin> fst ` set d \<Longrightarrow> dict_set d k v = d @ [(k, v)]"
  by (induction d k v rule: dict_set.induct) auto

lemma dict_of_distinct: "distinct (map fst (d @ kvs)) \<Longrightarrow> foldl (\<lambda>d (k, v). dict_set d k v) d kvs = d @ kvs"
proof (induction kvs arbitrary: d)
  case (Cons p kvs)
  obtain k v where p: "p = (k, v)" by fastforce
  with Cons.prems have "k \<notin> fst ` set d" by auto
  moreover have "distinct (map fst ((d @ [p]) @ kvs))" using Cons.prems by auto
  ultimately show ?case using Cons.IH[of "d @ [p]"] p by (simp add: dict_set_fresh)
qed simp

lemma plain_builds_objects: "builds_objects plain_hooks"
  using dict_of_distinct[of "[]"] by (simp add: builds_objects_def plain_hooks_def dict_of_def)

interpretation plain_json: codec dumps "loads plain_hooks rl" jsort "\<lambda>v. jwf v \<and> jdepth v \<le> rl"
  by unfold_locales (auto simp: loads_dumps plain_builds_objects dumps_jsort)

section \<open>A bound on the printed length\<close>

fun jlen :: "json \<Rightarrow> nat" where
  "jlen JNull = 4"
| "jlen (JBool b) = 5"
| "jlen (JInt i) = Suc (length (show_nat (nat \<bar>i\<bar>)))"
| "jlen (JFloat s) = length s"
| "jlen (JStr s) = 6 * length s + 2"
| "jlen (JList xs) = 2 + sum_list (map (\<lambda>x. Suc (jlen x)) xs)"
| "jlen (JObj kvs) = 2 + sum_list (map (\<lambda>(k, v). 6 * length k + 4 + jlen v) kvs)"

lemma length_esc: "length (esc c) \<le> 6"
  by (auto simp: esc_def)

lemma length_quote: "length (quote s) \<le> 6 * length s + 2"
proof -
  have "length (concat (map esc s)) \<le> 6 * length s"
    by (induction s) (use length_esc in \<open>auto intro: add_mono\<close>)
  then show ?thesis by (simp add: quote_def)
qed

lemma join_comma_le: "length (join_comma xs) \<le> sum_list (map (\<lambda>x. Suc (length x)) xs)"
  by (induction xs rule: join_comma.induct) auto

lemma length_dumps: "length (dumps v) \<le> jlen v"
proof (induction v)
  case (JInt i)
  then show ?case by (simp add: show_int_def)
next
  case (JStr s)
  then show ?case using length_quote[of s] by simp
next
  case (JList xs)
  have "sum_list (map (\<lambda>x. Suc (length (dumps x))) xs) \<le> sum_list (map (\<lambda>x. Suc (jlen x)) xs)"
    using JList.IH by (intro sum_list_mono) auto
  then show ?case using join_comma_le[of "map dumps xs"] by (simp add: comp_def)
next
  case (JObj kvs)
  let ?item = "\<lambda>(k, v). quote k @ CHR '':'' # dumps v"
  have "length (quote k) + length (dumps v) + 2 \<le> 6 * length k + 4 + jlen v" if "(k, v) \<in> set kvs" for k v
    using JObj.IH[of "(k, v)" v] that length_quote[of k] by auto
  then have "sum_list (map (\<lambda>x. Suc (length (?item x))) kvs) \<le> sum_list (map (\<lambda>(k, v). 6 * length k + 4 + jlen v) kvs)"
    by (intro sum_list_mono) force
  moreover have "sum_list (map (\<lambda>x. Suc (length x)) (map ?item (sort_key fst kvs)))
      = sum_list (map (\<lambda>x. Suc (length (?item x))) kvs)"
    by (simp only: map_map comp_def sum_list_sort_key)
  ultimately show ?case
    using join_comma_le[of "map ?item (sort_key fst kvs)"] by (simp add: dumps_obj)
qed auto

section \<open>Access to a document with sorted keys\<close>

lemma distinct_keys_sort: "distinct (map fst (sort_key fst kvs)) = distinct (map fst kvs)"
  by (metis distinct_map distinct_sort set_sort)

lemma map_of_sort_key: "distinct (map fst kvs) \<Longrightarrow> map_of (sort_key fst kvs) = map_of kvs"
  by (rule map_of_eqI) (auto simp: distinct_keys_sort intro: map_of_is_SomeI dest!: map_of_SomeD)

lemma jlookup_jsort: "distinct (map fst kvs) \<Longrightarrow>
    jlookup (jsort (JObj kvs)) k = map_option jsort (jlookup (JObj kvs) k)"
proof -
  assume d: "distinct (map fst kvs)"
  have "map_of (map (\<lambda>(k, v). (k, jsort v)) xs) k = map_option jsort (map_of xs k)" for xs
    by (induction xs) auto
  with d show ?thesis by (simp add: jsort_obj map_of_sort_key)
qed

lemma is_obj_jsort [simp]: "is_obj (jsort v) = is_obj v"
  by (cases v) (simp_all add: jsort_obj)

lemma is_list_jsort [simp]: "is_list (jsort v) = is_list v"
  by (cases v) (simp_all add: jsort_obj)

lemma is_str_jsort [simp]: "is_str (jsort v) = is_str v"
  by (cases v) (simp_all add: jsort_obj)

lemma is_bool_jsort [simp]: "is_bool (jsort v) = is_bool v"
  by (cases v) (simp_all add: jsort_obj)

lemma is_int_jsort [simp]: "is_int (jsort v) = is_int v"
  by (cases v) (simp_all add: jsort_obj)

lemma str_of_jsort [simp]: "str_of (jsort v) = str_of v"
  by (cases v) (simp_all add: jsort_obj)

lemma int_of_jsort [simp]: "int_of (jsort v) = int_of v"
  by (cases v) (simp_all add: jsort_obj)

lemma bool_of_jsort [simp]: "bool_of (jsort v) = bool_of v"
  by (cases v) (simp_all add: jsort_obj)

lemma jitems_jsort [simp]: "jitems (jsort v) = map jsort (jitems v)"
  by (cases v) (simp_all add: jsort_obj)

lemma jsort_eq_str [simp]: "jsort v = JStr s \<longleftrightarrow> v = JStr s"
  by (cases v) (simp_all add: jsort_obj)

lemma jsort_eq_int [simp]: "jsort v = JInt i \<longleftrightarrow> v = JInt i"
  by (cases v) (simp_all add: jsort_obj)

lemma jsort_eq_bool [simp]: "jsort v = JBool b \<longleftrightarrow> v = JBool b"
  by (cases v) (simp_all add: jsort_obj)

lemma jsort_eq_null [simp]: "jsort v = JNull \<longleftrightarrow> v = JNull"
  by (cases v) (simp_all add: jsort_obj)

lemma set_jkeys_jsort [simp]: "set (jkeys (jsort v)) = set (jkeys v)"
  by (cases v) (auto simp: jsort_obj image_image case_prod_unfold simp del: jsort.simps(2))

lemma set_jvalues_jsort: "set (jvalues (jsort v)) = jsort ` set (jvalues v)"
  by (cases v) (auto simp: jsort_obj image_image case_prod_unfold simp del: jsort.simps(2))

lemma jget_jsort: "jwf v \<Longrightarrow> jget (jsort v) k = jsort (jget v k)"
proof (cases v)
  case (JObj kvs)
  assume "jwf v"
  with JObj have "jlookup (jsort v) k = map_option jsort (jlookup v k)" by (simp only: jwf.simps jlookup_jsort)
  then show ?thesis by (simp add: jget_def split: option.splits)
qed (simp_all add: jget_def)

lemma jwf_values: "jwf v \<Longrightarrow> x \<in> set (jvalues v) \<Longrightarrow> jwf x"
  by (cases v) (auto simp: list_all_iff)

lemma jwf_items: "jwf v \<Longrightarrow> x \<in> set (jitems v) \<Longrightarrow> jwf x"
  by (cases v) (auto simp: list_all_iff)

lemma jwf_jget: "jwf v \<Longrightarrow> jwf (jget v k)"
  by (cases v) (auto simp: jget_def list_all_iff split: option.splits dest!: map_of_SomeD)

lemma py_eq_jsort_left [simp]: "py_eq (jsort v) w = py_eq v w"
  using py_eq_jsort py_eq_trans py_eq_sym by blast

end
