(* ===== verification/Sha256.thy ===== *)
theory Sha256
  imports Json_Roundtrip "HOL-Library.Word"
begin

text \<open>
  \<open>hashlib.sha256(payload).hexdigest()\<close>, written out (FIPS 180-4) over 32-bit words, so that a
  digest in the model is the digest the program stores.  Nothing in the development assumes that two
  payloads have different digests; the facts used are that the digest is a function of the payload and
  that it is 64 lower-case hexadecimal characters.
\<close>

type_synonym w32 = "32 word"

unbundle bit_operations_syntax

definition sha_k :: "w32 list" where
  "sha_k = [0x428A2F98, 0x71374491, 0xB5C0FBCF, 0xE9B5DBA5, 0x3956C25B, 0x59F111F1,
   0x923F82A4, 0xAB1C5ED5, 0xD807AA98, 0x12835B01, 0x243185BE, 0x550C7DC3,
   0x72BE5D74, 0x80DEB1FE, 0x9BDC06A7, 0xC19BF174, 0xE49B69C1, 0xEFBE4786,
   0x0FC19DC6, 0x240CA1CC, 0x2DE92C6F, 0x4A7484AA, 0x5CB0A9DC, 0x76F988DA,
   0x983E5152, 0xA831C66D, 0xB00327C8, 0xBF597FC7, 0xC6E00BF3, 0xD5A79147,
   0x06CA6351, 0x14292967, 0x27B70A85, 0x2E1B2138, 0x4D2C6DFC, 0x53380D13,
   0x650A7354, 0x766A0ABB, 0x81C2C92E, 0x92722C85, 0xA2BFE8A1, 0xA81A664B,
   0xC24B8B70, 0xC76C51A3, 0xD192E819, 0xD6990624, 0xF40E3585, 0x106AA070,
   0x19A4C116, 0x1E376C08, 0x2748774C, 0x34B0BCB5, 0x391C0CB3, 0x4ED8AA4A,
   0x5B9CCA4F, 0x682E6FF3, 0x748F82EE, 0x78A5636F, 0x84C87814, 0x8CC70208,
   0x90BEFFFA, 0xA4506CEB, 0xBEF9A3F7, 0xC67178F2]"

definition sha_h0 :: "w32 list" where
  "sha_h0 = [0x6A09E667, 0xBB67AE85, 0x3C6EF372, 0xA54FF53A, 0x510E527F, 0x9B05688C, 0x1F83D9AB, 0x5BE0CD19]"

definition sha_ch :: "w32 \<Rightarrow> w32 \<Rightarrow> w32 \<Rightarrow> w32" where
  "sha_ch x y z = (x AND y) XOR (NOT x AND z)"

definition sha_maj :: "w32 \<Rightarrow> w32 \<Rightarrow> w32 \<Rightarrow> w32" where
  "sha_maj x y z = (x AND y) XOR (x AND z) XOR (y AND z)"

definition sha_big0 :: "w32 \<Rightarrow> w32" where
  "sha_big0 x = word_rotr 2 x XOR word_rotr 13 x XOR word_rotr 22 x"

definition sha_big1 :: "w32 \<Rightarrow> w32" where
  "sha_big1 x = word_rotr 6 x XOR word_rotr 11 x XOR word_rotr 25 x"

definition sha_small0 :: "w32 \<Rightarrow> w32" where
  "sha_small0 x = word_rotr 7 x XOR word_rotr 18 x XOR drop_bit 3 x"

definition sha_small1 :: "w32 \<Rightarrow> w32" where
  "sha_small1 x = word_rotr 17 x XOR word_rotr 19 x XOR drop_bit 10 x"

text \<open>The message schedule, kept newest word first while it grows from 16 to 64 words.\<close>

fun sha_extend :: "nat \<Rightarrow> w32 list \<Rightarrow> w32 list" where
  "sha_extend 0 ws = ws"
| "sha_extend (Suc n) ws =
    sha_extend n ((sha_small1 (ws ! 1) + ws ! 6 + sha_small0 (ws ! 14) + ws ! 15) # ws)"

definition sha_schedule :: "w32 list \<Rightarrow> w32 list" where
  "sha_schedule block = rev (sha_extend 48 (rev block))"

fun sha_round :: "w32 list \<Rightarrow> w32 \<times> w32 \<Rightarrow> w32 list" where
  "sha_round [a, b, c, d, e, f, g, h] (k, w) =
    (let t1 = h + sha_big1 e + sha_ch e f g + k + w;
         t2 = sha_big0 a + sha_maj a b c
     in [t1 + t2, a, b, c, d + t1, e, f, g])"
| "sha_round st _ = st"

definition sha_block :: "w32 list \<Rightarrow> w32 list \<Rightarrow> w32 list" where
  "sha_block st block = map2 (+) st (foldl sha_round st (zip sha_k (sha_schedule block)))"

definition bytes_be :: "nat \<Rightarrow> nat \<Rightarrow> string" where
  "bytes_be k n = map (\<lambda>i. char_of (n div 256 ^ (k - 1 - i))) [0..<k]"

definition sha_pad :: "string \<Rightarrow> string" where
  "sha_pad s =
    s @ CHR 0x80 # replicate ((119 - length s mod 64) mod 64) (CHR 0x00) @ bytes_be 8 (8 * length s)"

fun sha_words :: "string \<Rightarrow> w32 list" where
  "sha_words (a # b # c # d # r) =
    of_nat (((ord a * 256 + ord b) * 256 + ord c) * 256 + ord d) # sha_words r"
| "sha_words _ = []"

fun sha_blocks :: "nat \<Rightarrow> w32 list \<Rightarrow> w32 list \<Rightarrow> w32 list" where
  "sha_blocks 0 st ws = st"
| "sha_blocks (Suc n) st ws = sha_blocks n (sha_block st (take 16 ws)) (drop 16 ws)"

definition sha_digest :: "string \<Rightarrow> w32 list" where
  "sha_digest s = sha_blocks (length (sha_pad s) div 64) sha_h0 (sha_words (sha_pad s))"

definition hex_word :: "w32 \<Rightarrow> string" where
  "hex_word w = map (\<lambda>i. digit_char (unat (drop_bit (28 - 4 * i) w) mod 16)) [0..<8]"

definition sha256_hex :: "string \<Rightarrow> string" where
  "sha256_hex s = concat (map hex_word (sha_digest s))"

section \<open>The shape of a digest\<close>

definition hex_lower :: "char \<Rightarrow> bool" where
  "hex_lower c \<longleftrightarrow> is_digit c \<or> 97 \<le> ord c \<and> ord c \<le> 102"

lemma hex_lower_digit_char: "n < 16 \<Longrightarrow> hex_lower (digit_char n)"
  by (auto simp: hex_lower_def digit_char_def is_digit_def)

lemma sha_round_length: "length (sha_round st p) = length st"
  by (cases "(st, p)" rule: sha_round.cases) (auto simp: Let_def)

lemma sha_block_length: "length (sha_block st b) = length st"
proof -
  have "length (foldl sha_round st ps) = length st" for ps
    by (induction ps arbitrary: st) (simp_all add: sha_round_length)
  then show ?thesis by (simp add: sha_block_def)
qed

lemma sha_blocks_length: "length (sha_blocks n st ws) = length st"
  by (induction n st ws rule: sha_blocks.induct) (simp_all add: sha_block_length)

lemma sha_digest_length: "length (sha_digest s) = 8"
  by (simp add: sha_digest_def sha_blocks_length sha_h0_def)

lemma concat_length: "(\<And>x. x \<in> set xs \<Longrightarrow> length (f x) = k) \<Longrightarrow> length (concat (map f xs)) = k * length xs"
  by (induction xs) auto

lemma sha256_hex_length: "length (sha256_hex s) = 64"
  by (simp add: sha256_hex_def concat_length[where k = 8] hex_word_def sha_digest_length)

lemma sha256_hex_chars: "c \<in> set (sha256_hex s) \<Longrightarrow> hex_lower c"
  by (auto simp: sha256_hex_def hex_word_def intro!: hex_lower_digit_char)

end
