(* ===== verification/Contracts.thy ===== *)
theory Contracts
  imports Sha256
begin

text \<open>
  The strict checks every component shares (\<open>src/src/gah/contracts.py\<close>) and the reader of
  component requests (\<open>src/src/gah/wire.py\<close>).  A raised \<open>ContractError\<close> or \<open>WireError\<close>
  is its fixed code.  The theorems: what a decoded document satisfies, that the decoder inverts the
  canonical text, and that the iterative complexity scan decides exactly the documented bounds.
\<close>

datatype contract_error = ContractError string

abbreviation INVALID_CONTRACT :: contract_error where
  "INVALID_CONTRACT \<equiv> ContractError ''INVALID_CONTRACT''"

definition MAX_DOCUMENT_BYTES :: nat where
  "MAX_DOCUMENT_BYTES = 1048576"

definition MAX_INTEGER :: int where
  "MAX_INTEGER = 9007199254740991"

section \<open>Field checks\<close>

definition alnum :: "char \<Rightarrow> bool" where
  "alnum c \<longleftrightarrow> is_digit c \<or> 65 \<le> ord c \<and> ord c \<le> 90 \<or> 97 \<le> ord c \<and> ord c \<le> 122"

text \<open>\<open>_ID\<close> and \<open>_DIGEST\<close>.\<close>

definition id_ok :: "string \<Rightarrow> bool" where
  "id_ok s = (case s of
      [] \<Rightarrow> False
    | c # r \<Rightarrow> alnum c \<and> list_all (\<lambda>d. alnum d \<or> List.member ''_.:-'' d) r \<and> length r \<le> 127)"

definition digest_ok :: "string \<Rightarrow> bool" where
  "digest_ok s \<longleftrightarrow> length s = 64 \<and> list_all hex_lower s"

definition require_object :: "json \<Rightarrow> string list \<Rightarrow> contract_error + unit" where
  "require_object v keys = guard (is_obj v \<and> set (jkeys v) = set keys) INVALID_CONTRACT"

definition require_id :: "json \<Rightarrow> contract_error + unit" where
  "require_id v = guard (is_str v \<and> id_ok (str_of v)) INVALID_CONTRACT"

definition require_digest :: "json \<Rightarrow> contract_error + unit" where
  "require_digest v = guard (is_str v \<and> digest_ok (str_of v)) INVALID_CONTRACT"

definition require_uint :: "int \<Rightarrow> json \<Rightarrow> contract_error + unit" where
  "require_uint maximum v = guard (is_int v \<and> 0 \<le> int_of v \<and> int_of v \<le> maximum) INVALID_CONTRACT"

definition text_ok :: "nat \<Rightarrow> string \<Rightarrow> bool" where
  "text_ok maximum s \<longleftrightarrow> list_ex (\<lambda>n. \<not> py_space n) (cps s) \<and> py_len s \<le> maximum"

definition require_text :: "nat \<Rightarrow> json \<Rightarrow> contract_error + unit" where
  "require_text maximum v =
    ebind (guard (is_str v \<and> text_ok maximum (str_of v)) INVALID_CONTRACT) (\<lambda>_.
    guard (\<not> list_ex (\<lambda>n. n < 32) (cps (str_of v))) INVALID_CONTRACT)"

definition require_ref :: "json \<Rightarrow> contract_error + unit" where
  "require_ref v =
    ebind (require_object v [''kind'', ''id'', ''digest'']) (\<lambda>_.
    ebind (require_id (jget v ''kind'')) (\<lambda>_.
    ebind (require_id (jget v ''id'')) (\<lambda>_.
    require_digest (jget v ''digest''))))"

section \<open>Documents\<close>

text \<open>\<open>_pairs\<close>: the hook that refuses a repeated key.\<close>

fun pairs_hook :: "'e \<Rightarrow> (string \<times> json) list \<Rightarrow> (string \<times> json) list \<Rightarrow> 'e + json" where
  "pairs_hook dup value [] = Inr (JObj value)"
| "pairs_hook dup value ((k, item) # pairs) =
    (if k \<in> set (map fst value) then Inl dup else pairs_hook dup (value @ [(k, item)]) pairs)"

definition document_hooks :: "contract_error hooks" where
  "document_hooks =
    \<lparr>on_pairs = pairs_hook (ContractError ''DUPLICATE_KEY'') [],
     on_float = (\<lambda>_. Inl (ContractError ''NON_INTEGER_NUMBER'')),
     on_const = (\<lambda>_. Inl (ContractError ''NON_INTEGER_NUMBER''))\<rparr>"

text \<open>The children pushed on the work list, last child on top.\<close>

fun children :: "json \<Rightarrow> json list" where
  "children (JObj kvs) = map snd kvs"
| "children (JList xs) = xs"
| "children _ = []"

definition int_bad :: "json \<Rightarrow> bool" where
  "int_bad v \<longleftrightarrow> is_int v \<and> \<not> (- MAX_INTEGER \<le> int_of v \<and> int_of v \<le> MAX_INTEGER)"

function scan_document :: "(json \<times> nat) list \<Rightarrow> nat \<Rightarrow> contract_error + unit" where
  "scan_document [] nodes = Inr ()"
| "scan_document ((current, depth) # pending) nodes =
    (if depth > 16 \<or> Suc nodes > 100000 then Inl (ContractError ''DOCUMENT_COMPLEXITY'')
     else if int_bad current then Inl (ContractError ''INTEGER_RANGE'')
     else scan_document (rev (map (\<lambda>c. (c, Suc depth)) (children current)) @ pending) (Suc nodes))"
  by pat_completeness auto
termination
  by (relation "measure (\<lambda>(p, n). 100000 - n)") auto

text \<open>Every string of the value, keys included, can be encoded.\<close>

fun jutf8 :: "json \<Rightarrow> bool" where
  "jutf8 (JStr s) = utf8_ok s"
| "jutf8 (JFloat s) = utf8_ok s"
| "jutf8 (JList xs) = list_all jutf8 xs"
| "jutf8 (JObj kvs) = list_all (\<lambda>(k, v). utf8_ok k \<and> jutf8 v) kvs"
| "jutf8 _ = True"

definition decode_document :: "nat \<Rightarrow> string \<Rightarrow> contract_error + json" where
  "decode_document rl raw =
    (if length raw > MAX_DOCUMENT_BYTES then Inl (ContractError ''DOCUMENT_SIZE'')
     else if \<not> utf8_ok raw then Inl (ContractError ''INVALID_JSON'')
     else case loads document_hooks rl raw of
         Inl (JHook e) \<Rightarrow> Inl e
       | Inl _ \<Rightarrow> Inl (ContractError ''INVALID_JSON'')
       | Inr value \<Rightarrow>
           ebind (scan_document [(value, 0)] 0) (\<lambda>_.
           ebind (guard (is_obj value) INVALID_CONTRACT) (\<lambda>_.
           ebind (guard (jutf8 value) (ContractError ''INVALID_JSON'')) (\<lambda>_. Inr value))))"

section \<open>Component requests (wire.py)\<close>

datatype wire_error = WireError string

definition MAX_INPUT_BYTES :: nat where
  "MAX_INPUT_BYTES = 65536"

definition MAX_DEPTH :: nat where
  "MAX_DEPTH = 16"

definition wire_hooks :: "wire_error hooks" where
  "wire_hooks =
    \<lparr>on_pairs = pairs_hook (WireError ''DUPLICATE_KEY'') [],
     on_float = (\<lambda>_. Inl (WireError ''NON_INTEGER_NUMBER'')),
     on_const = (\<lambda>_. Inl (WireError ''NONFINITE_NUMBER''))\<rparr>"

text \<open>\<open>_depth\<close>.\<close>

fun wire_depth :: "json \<Rightarrow> nat \<Rightarrow> wire_error + unit" where
  "wire_depth (JObj kvs) level =
    (if level > MAX_DEPTH then Inl (WireError ''INPUT_DEPTH'')
     else eiter (\<lambda>(k, child). wire_depth child (Suc level)) kvs)"
| "wire_depth (JList xs) level =
    (if level > MAX_DEPTH then Inl (WireError ''INPUT_DEPTH'')
     else eiter (\<lambda>child. wire_depth child (Suc level)) xs)"
| "wire_depth _ level = (if level > MAX_DEPTH then Inl (WireError ''INPUT_DEPTH'') else Inr ())"

definition decode_request :: "nat \<Rightarrow> string \<Rightarrow> wire_error + json" where
  "decode_request rl raw =
    (if length raw > MAX_INPUT_BYTES then Inl (WireError ''INPUT_TOO_LARGE'')
     else if \<not> utf8_ok raw then Inl (WireError ''INVALID_JSON'')
     else case loads wire_hooks rl raw of
         Inl (JHook e) \<Rightarrow> Inl e
       | Inl _ \<Rightarrow> Inl (WireError ''INVALID_JSON'')
       | Inr value \<Rightarrow>
           ebind (wire_depth value 0) (\<lambda>_.
           ebind (guard (is_obj value) (WireError ''INVALID_REQUEST'')) (\<lambda>_. Inr value)))"

text \<open>\<open>read_request\<close>: at most one byte more than the limit is read from the file.\<close>

definition read_request :: "nat \<Rightarrow> string \<Rightarrow> wire_error + json" where
  "read_request rl file_bytes = decode_request rl (take (MAX_INPUT_BYTES + 1) file_bytes)"

text \<open>No \<open>NaN\<close> and no infinity, which \<open>allow_nan=False\<close> refuses to print.\<close>

fun jfinite :: "json \<Rightarrow> bool" where
  "jfinite (JFloat s) = (s \<notin> {''NaN'', ''Infinity'', ''-Infinity''})"
| "jfinite (JList xs) = list_all jfinite xs"
| "jfinite (JObj kvs) = list_all (\<lambda>(k, v). jfinite v) kvs"
| "jfinite _ = True"

text \<open>
  \<open>canonical_bytes\<close>: a \<open>ValueError\<close> for \<open>NaN\<close> and infinities, and for a lone surrogate,
  which cannot be encoded.
\<close>

definition canonical_bytes :: "json \<Rightarrow> unit + string" where
  "canonical_bytes v = (if jfinite v \<and> jutf8 v then Inr (dumps v) else Inl ())"

definition sha256_of :: "json \<Rightarrow> string" where
  "sha256_of v = sha256_hex (dumps v)"

section \<open>Facts about the field checks\<close>

lemma require_object_ok [result_iff]:
  "require_object v keys = Inr u \<longleftrightarrow> is_obj v \<and> set (jkeys v) = set keys"
  by (simp add: require_object_def result_iff)

lemma require_id_ok [result_iff]: "require_id v = Inr u \<longleftrightarrow> (\<exists>s. v = JStr s \<and> id_ok s)"
  by (cases v) (simp_all add: require_id_def result_iff)

lemma require_digest_ok [result_iff]: "require_digest v = Inr u \<longleftrightarrow> (\<exists>s. v = JStr s \<and> digest_ok s)"
  by (cases v) (simp_all add: require_digest_def result_iff)

lemma require_uint_ok [result_iff]:
  "require_uint m v = Inr u \<longleftrightarrow> (\<exists>i. v = JInt i \<and> 0 \<le> i \<and> i \<le> m)"
  by (cases v) (simp_all add: require_uint_def result_iff)

lemma jget_present: "is_obj v \<Longrightarrow> k \<in> set (jkeys v) \<Longrightarrow> \<exists>x. jlookup v k = Some x \<and> jget v k = x"
proof (cases v)
  case (JObj kvs)
  moreover assume "k \<in> set (jkeys v)"
  ultimately have "k \<in> fst ` set kvs" by auto
  then obtain x where "map_of kvs k = Some x" by (metis map_of_eq_None_iff not_None_eq)
  with JObj show ?thesis by (simp add: jget_def)
qed auto

lemma hex_lower_ascii: "hex_lower c \<Longrightarrow> ord c < 128"
  by (auto simp: hex_lower_def is_digit_def)

lemma alnum_ascii: "alnum c \<Longrightarrow> ord c < 128"
  by (auto simp: alnum_def is_digit_def)

lemma id_ok_ascii: "id_ok s \<Longrightarrow> ascii s"
  by (cases s) (auto simp: id_ok_def ascii_def list_all_iff dest: alnum_ascii)

lemma id_ok_nonempty: "id_ok s \<Longrightarrow> s \<noteq> []"
  by (auto simp: id_ok_def)

lemma digest_ok_ascii: "digest_ok s \<Longrightarrow> ascii s"
  by (auto simp: digest_ok_def ascii_def list_all_iff dest: hex_lower_ascii)

lemma digest_ok_sha256: "digest_ok (sha256_hex s)"
  by (auto simp: digest_ok_def sha256_hex_length list_all_iff dest: sha256_hex_chars)

section \<open>The complexity scan\<close>

fun jnodes :: "json \<Rightarrow> nat" where
  "jnodes (JList xs) = Suc (sum_list (map jnodes xs))"
| "jnodes (JObj kvs) = Suc (sum_list (map (\<lambda>(k, v). jnodes v) kvs))"
| "jnodes _ = 1"

text \<open>The value stays within the depth left to it, and its integers within the range.\<close>

fun shallow :: "json \<Rightarrow> nat \<Rightarrow> bool" where
  "shallow (JList xs) d = (d \<le> 16 \<and> list_all (\<lambda>x. shallow x (Suc d)) xs)"
| "shallow (JObj kvs) d = (d \<le> 16 \<and> list_all (\<lambda>(k, v). shallow v (Suc d)) kvs)"
| "shallow v d = (d \<le> 16 \<and> \<not> int_bad v)"

lemma jnodes_children: "jnodes v = Suc (sum_list (map jnodes (children v)))"
  by (cases v) (auto simp: comp_def case_prod_unfold)

lemma shallow_children:
  "shallow v d \<longleftrightarrow> d \<le> 16 \<and> \<not> int_bad v \<and> (\<forall>c \<in> set (children v). shallow c (Suc d))"
  by (cases v) (auto simp: list_all_iff int_bad_def)

theorem scan_document_ok:
  "scan_document pending nodes = Inr () \<longleftrightarrow>
    (\<forall>(v, d) \<in> set pending. shallow v d) \<and>
    (pending \<noteq> [] \<longrightarrow> nodes + sum_list (map (\<lambda>(v, d). jnodes v) pending) \<le> 100000)"
proof (induction pending nodes rule: scan_document.induct)
  case (2 current depth pending nodes)
  let ?cs = "rev (map (\<lambda>c. (c, Suc depth)) (children current))"
  have sum: "sum_list (map (\<lambda>(v, d). jnodes v) (?cs @ pending))
      = sum_list (map jnodes (children current)) + sum_list (map (\<lambda>(v, d). jnodes v) pending)"
    by (simp add: comp_def sum_list_rev flip: rev_map)
  show ?case
  proof (cases "depth > 16 \<or> Suc nodes > 100000 \<or> int_bad current")
    case True
    then show ?thesis
      using jnodes_children[of current] shallow_children[of current depth] by auto
  next
    case False
    then have "scan_document ((current, depth) # pending) nodes = scan_document (?cs @ pending) (Suc nodes)"
      by simp
    also have "\<dots> = Inr () \<longleftrightarrow> (\<forall>(v, d) \<in> set (?cs @ pending). shallow v d) \<and>
        (?cs @ pending \<noteq> [] \<longrightarrow> Suc nodes + sum_list (map (\<lambda>(v, d). jnodes v) (?cs @ pending)) \<le> 100000)"
      using 2 False by blast
    also have "\<dots> \<longleftrightarrow> (\<forall>(v, d) \<in> set ((current, depth) # pending). shallow v d) \<and>
        Suc nodes + sum_list (map (\<lambda>(v, d). jnodes v) (?cs @ pending)) \<le> 100000"
      using False shallow_children[of current depth] by auto
    also have "Suc nodes + sum_list (map (\<lambda>(v, d). jnodes v) (?cs @ pending))
        = nodes + sum_list (map (\<lambda>(v, d). jnodes v) ((current, depth) # pending))"
      using sum jnodes_children[of current] by simp
    finally show ?thesis by simp
  qed
qed simp

declare scan_document.simps(2) [simp del]

lemma shallow_depth: "shallow v d \<Longrightarrow> d + jdepth v \<le> 17"
proof (induction v d rule: shallow.induct)
  case (1 xs d)
  have "foldr max (map jdepth xs) 0 \<le> 16 - d"
    using 1 by (induction xs) (fastforce simp: list_all_iff)+
  moreover have "d \<le> 16" using 1 by simp
  ultimately show ?case by simp
next
  case (2 kvs d)
  have "foldr max (map (\<lambda>(k, v). jdepth v) kvs) 0 \<le> 16 - d"
    using 2 by (induction kvs) (fastforce simp: list_all_iff)+
  moreover have "d \<le> 16" using 2 by simp
  ultimately show ?case by simp
qed auto

section \<open>What a decoded document satisfies\<close>

text \<open>Built by hooks that refuse repeated keys, floats and constants.\<close>

fun strict :: "json \<Rightarrow> bool" where
  "strict (JFloat s) = False"
| "strict (JList xs) = list_all strict xs"
| "strict (JObj kvs) = (distinct (map fst kvs) \<and> list_all (\<lambda>(k, v). strict v) kvs)"
| "strict _ = True"

definition strict_hooks :: "'e hooks \<Rightarrow> bool" where
  "strict_hooks h \<longleftrightarrow>
    (\<forall>kvs v. (\<forall>(k, x) \<in> set kvs. strict x) \<longrightarrow> on_pairs h kvs = Inr v \<longrightarrow> strict v) \<and>
    (\<forall>s v. on_float h s \<noteq> Inr v) \<and> (\<forall>s v. on_const h s \<noteq> Inr v)"

lemma strict_jfinite: "strict v \<Longrightarrow> jfinite v"
  by (induction v) (auto simp: list_all_iff)

lemma pairs_hook_eq:
  "distinct (map fst value) \<Longrightarrow> pairs_hook dup value kvs =
    (if distinct (map fst (value @ kvs)) then Inr (JObj (value @ kvs)) else Inl dup)"
proof (induction dup "value" kvs rule: pairs_hook.induct)
  case (2 dup "value" k item pairs)
  then show ?case by (cases "k \<in> set (map fst value)") auto
qed simp

lemma pairs_hook_strict:
  "(\<forall>(k, x) \<in> set kvs. strict x) \<Longrightarrow> pairs_hook dup [] kvs = Inr v \<Longrightarrow> strict v"
  by (auto simp: pairs_hook_eq list_all_iff split: if_splits)

lemma document_hooks_strict: "strict_hooks document_hooks"
  by (auto simp: strict_hooks_def document_hooks_def intro: pairs_hook_strict)

lemma wire_hooks_strict: "strict_hooks wire_hooks"
  by (auto simp: strict_hooks_def wire_hooks_def intro: pairs_hook_strict)

lemma document_hooks_build: "builds_objects document_hooks"
  by (simp add: builds_objects_def document_hooks_def pairs_hook_eq)

lemma wire_hooks_build: "builds_objects wire_hooks"
  by (simp add: builds_objects_def wire_hooks_def pairs_hook_eq)

lemma pnum_strict: "strict_hooks h \<Longrightarrow> pnum h s = Inr (v, r) \<Longrightarrow> strict v"
  by (auto simp: pnum_def punsigned_def strict_hooks_def Let_def result_iff split: list.splits if_splits)

lemma patom_strict: "strict_hooks h \<Longrightarrow> patom h s = Inr (v, r) \<Longrightarrow> strict v"
  by (auto simp: patom_def strict_hooks_def result_iff split: if_splits intro: pnum_strict[of h s])

lemma reader_strict:
  assumes "strict_hooks h"
  shows "(pval h n rl s = Inr (v, r) \<longrightarrow> strict v) \<and>
    (list_all strict acc \<longrightarrow> pelems h n rl acc s = Inr (v, r) \<longrightarrow> strict v) \<and>
    (list_all (\<lambda>(k, x). strict x) acc' \<longrightarrow> pmems h n rl acc' s = Inr (v, r) \<longrightarrow> strict v)"
proof (induction n arbitrary: rl s v r acc acc')
  case (Suc n)
  have vals: "pval h n rl' s' = Inr (v', r') \<Longrightarrow> strict v'" for rl' s' v' r'
    using Suc by blast
  have elems: "list_all strict a \<Longrightarrow> pelems h n rl' a s' = Inr (v', r') \<Longrightarrow> strict v'" for rl' s' v' r' a
    using Suc by blast
  have mems: "list_all (\<lambda>(k, x). strict x) a \<Longrightarrow> pmems h n rl' a s' = Inr (v', r') \<Longrightarrow> strict v'" for rl' s' v' r' a
    using Suc by blast
  have hook: "on_pairs h kvs = Inr w \<Longrightarrow> list_all (\<lambda>(k, x). strict x) kvs \<Longrightarrow> strict w" for kvs w
    using assms by (auto simp: strict_hooks_def list_all_iff)
  have v: "strict v" if p: "pval h (Suc n) rl s = Inr (v, r)"
  proof (cases s)
    case (Cons c q)
    consider "c = CHR 0x22" | "c = CHR ''{''" | "c = CHR ''[''"
      | "c \<noteq> CHR 0x22" "c \<noteq> CHR ''{''" "c \<noteq> CHR ''[''" by blast
    then show ?thesis
    proof cases
      case 2
      then show ?thesis
        using p Cons mems[of "[]"] hook[of "[]"]
        by (auto simp: val_step_def result_iff split: list.splits if_splits)
    next
      case 3
      then show ?thesis
        using p Cons elems[of "[]"] by (auto simp: val_step_def split: list.splits if_splits)
    qed (use p Cons patom_strict[OF assms, of s v r] in
        \<open>auto simp: val_step_def split: option.splits\<close>)
  qed (use p in \<open>simp add: val_step_def\<close>)
  have e: "strict v" if acc: "list_all strict acc" and p: "pelems h (Suc n) rl acc s = Inr (v, r)"
  proof -
    from p obtain w r1 where w: "pval h n rl s = Inr (w, r1)"
      and rest: "(case skip_ws r1 of [] \<Rightarrow> Inl JSyntax
          | d # r' \<Rightarrow> if d = CHR '','' then pelems h n rl (acc @ [w]) (skip_ws r')
            else if d = CHR '']'' then Inr (JList (acc @ [w]), r') else Inl JSyntax) = Inr (v, r)"
      by (auto simp: elems_step_def result_iff)
    have acc': "list_all strict (acc @ [w])" using acc vals[OF w] by simp
    show ?thesis using rest acc' elems[OF acc'] by (auto split: list.splits if_splits)
  qed
  have m: "strict v" if acc: "list_all (\<lambda>(k, x). strict x) acc'" and p: "pmems h (Suc n) rl acc' s = Inr (v, r)"
  proof -
    let ?rest = "\<lambda>k (w, r1). case skip_ws r1 of [] \<Rightarrow> Inl JSyntax
          | e # r4 \<Rightarrow> if e = CHR '','' then pmems h n rl (acc' @ [(k, w)]) (skip_ws r4)
            else if e = CHR ''}'' then
              ebind (on_error (on_pairs h (acc' @ [(k, w)])) JHook) (\<lambda>w. Inr (w, r4))
            else Inl JSyntax"
    from p obtain k r2 where "ebind (pval h n rl (skip_ws r2)) (?rest k) = Inr (v, r)"
      by (auto simp: mems_step_def split: list.splits if_splits option.splits)
    then obtain w r1 where w: "pval h n rl (skip_ws r2) = Inr (w, r1)" and rest: "?rest k (w, r1) = Inr (v, r)"
      by (auto simp: ebind_eq_Inr)
    have acc'': "list_all (\<lambda>(k, x). strict x) (acc' @ [(k, w)])" using acc vals[OF w] by simp
    show ?thesis
      using rest mems[OF acc''] hook[OF _ acc''] by (auto simp: result_iff split: list.splits if_splits)
  qed
  show ?case using v e m by blast
qed simp

lemma loads_strict: "strict_hooks h \<Longrightarrow> loads h rl s = Inr v \<Longrightarrow> strict v"
  using reader_strict[THEN conjunct1]
  by (fastforce simp: loads_def result_iff simp del: pval.simps split: if_splits)

text \<open>The documents the decoder lets through, as a predicate on the value.\<close>

definition document_ok :: "json \<Rightarrow> bool" where
  "document_ok v \<longleftrightarrow> is_obj v \<and> strict v \<and> shallow v 0 \<and> jnodes v \<le> 100000 \<and> jutf8 v"

lemma decode_document_Inr:
  "decode_document rl raw = Inr v \<longleftrightarrow>
    length raw \<le> MAX_DOCUMENT_BYTES \<and> utf8_ok raw \<and> loads document_hooks rl raw = Inr v \<and> document_ok v"
proof -
  have "strict v" if "loads document_hooks rl raw = Inr v"
    using loads_strict[OF document_hooks_strict that] .
  then show ?thesis
    by (auto simp: decode_document_def document_ok_def result_iff scan_document_ok
        split: sum.splits jfail.splits)
qed

section \<open>Canonical text of a document\<close>

lemma ascii_show_nat: "ascii (show_nat n)"
  using show_nat_digits by (fastforce simp: ascii_def is_digit_def)

lemma ascii_show_int: "ascii (show_int i)"
  by (simp add: show_int_def ascii_show_nat)

lemma ascii_digit_char: "n < 16 \<Longrightarrow> ord (digit_char n) < 128"
  by (auto simp: digit_char_def)

lemma esc_ascii: "ord c < 128 \<Longrightarrow> ascii (esc c)"
  by (auto simp: esc_def intro!: ascii_digit_char)

lemma esc_high: "\<not> ord c < 128 \<Longrightarrow> esc c = [c]"
  by (auto simp: esc_def)

lemma utf8_lead_high: "utf8_lead c = Some es \<Longrightarrow> (lo, hi) \<in> set es \<Longrightarrow> 128 \<le> lo"
  by (auto simp: utf8_lead_def split: if_splits)

lemma utf8_go_esc:
  "utf8_go es s \<Longrightarrow> (\<forall>(lo, hi) \<in> set es. 128 \<le> lo) \<Longrightarrow> utf8_go es (concat (map esc s))"
proof (induction es s rule: utf8_go.induct)
  case (3 lo hi es c cs)
  then have "\<not> ord c < 128" by auto
  with 3 show ?case by (simp add: esc_high)
next
  case (4 c cs)
  show ?case
  proof (cases "ord c < 128")
    case True
    then have "utf8_go [] cs" using 4 by (simp add: utf8_lead_def)
    then have "utf8_go [] (concat (map esc cs))" using 4 True by (auto simp: utf8_lead_def)
    then show ?thesis
      using utf8_go_append[OF utf8_go_ascii[OF esc_ascii[OF True]]] by simp
  next
    case False
    with 4 obtain es where es: "utf8_lead c = Some es" "utf8_go es cs" by (auto split: option.splits)
    then have "utf8_go es (concat (map esc cs))" using 4 utf8_lead_high[OF es(1)] by fastforce
    with es False show ?thesis by (simp add: esc_high)
  qed
qed auto

lemma utf8_quote: "utf8_ok s \<Longrightarrow> utf8_ok (quote s)"
proof -
  assume "utf8_ok s"
  then have "utf8_go [] (concat (map esc s))" using utf8_go_esc by (simp add: utf8_ok_def)
  then have "utf8_go [] (concat (map esc s) @ [CHR 0x22])" by (simp add: utf8_go_append utf8_lead_def)
  then show ?thesis by (simp add: utf8_ok_def quote_def utf8_lead_def)
qed

lemma utf8_Cons_ascii: "ord c < 128 \<Longrightarrow> utf8_ok (c # s) = utf8_ok s"
  by (simp add: utf8_ok_def utf8_lead_def)

lemma utf8_join: "list_all utf8_ok xs \<Longrightarrow> utf8_ok (join_comma xs)"
proof (induction xs rule: join_comma.induct)
  case (3 s t ts)
  then show ?case by (simp add: utf8_Cons_ascii)
qed (auto simp: utf8_ok_def)

lemma utf8_Nil [simp]: "utf8_ok []"
  by (simp add: utf8_ok_def)

lemma utf8_singleton: "ord c < 128 \<Longrightarrow> utf8_ok [c]"
  by (simp add: utf8_ok_def utf8_lead_def)

lemma utf8_dumps: "jutf8 v \<Longrightarrow> utf8_ok (dumps v)"
proof (induction v)
  case (JInt i)
  then show ?case by (simp add: utf8_ok_ascii ascii_show_int)
next
  case (JStr s)
  then show ?case by (simp add: utf8_quote)
next
  case (JList xs)
  then have "utf8_ok (join_comma (map dumps xs))" by (auto simp: list_all_iff intro: utf8_join)
  then show ?case by (simp add: utf8_Cons_ascii utf8_singleton)
next
  case (JObj kvs)
  have "utf8_ok (quote k @ CHR '':'' # dumps v)" if "(k, v) \<in> set kvs" for k v
    using JObj.IH[of "(k, v)" v] JObj.prems that
    by (auto simp: list_all_iff utf8_quote utf8_Cons_ascii)
  then have "utf8_ok (join_comma (map (\<lambda>(k, v). quote k @ CHR '':'' # dumps v) (sort_key fst kvs)))"
    by (auto simp: list_all_iff intro!: utf8_join)
  then show ?case by (simp add: dumps_obj utf8_Cons_ascii utf8_singleton)
qed (auto intro: utf8_ok_ascii)

lemma document_jwf: "strict v \<Longrightarrow> shallow v d \<Longrightarrow> jwf v"
proof (induction v arbitrary: d)
  case (JInt i)
  then have "nat \<bar>i\<bar> < 10 ^ Suc 15" by (auto simp: int_bad_def MAX_INTEGER_def)
  from show_nat_length[OF this] show ?case by (simp add: max_str_digits_def)
next
  case (JObj kvs)
  have "jwf v" if "(k, v) \<in> set kvs" for k v
    using JObj.IH[of "(k, v)" v "Suc d"] JObj.prems that by (auto simp: list_all_iff)
  with JObj.prems show ?case by (auto simp: list_all_iff)
qed (auto simp: list_all_iff)

lemma jsort_is_obj [simp]: "is_obj (jsort v) = is_obj v"
  by (cases v) (auto simp: jsort_obj)

lemma map_fst_pairs: "map fst (map (\<lambda>(k, v). (k, f k v)) xs) = map fst xs"
  by auto

lemma strict_jsort: "strict v \<Longrightarrow> strict (jsort v)"
proof (induction v)
  case (JObj kvs)
  have "strict (jsort v)" if "(k, v) \<in> set kvs" for k v
    using JObj.IH[of "(k, v)" v] JObj.prems that by (auto simp: list_all_iff)
  with JObj.prems show ?case
    by (auto simp: jsort_obj list_all_iff map_fst_pairs distinct_keys_sort simp del: map_map)
qed (auto simp: list_all_iff)

lemma shallow_jsort: "shallow v d \<Longrightarrow> shallow (jsort v) d"
proof (induction v arbitrary: d)
  case (JObj kvs)
  have "shallow (jsort v) (Suc d)" if "(k, v) \<in> set kvs" for k v
    using JObj.IH[of "(k, v)" v "Suc d"] JObj.prems that by (auto simp: list_all_iff)
  with JObj.prems show ?case by (auto simp: jsort_obj list_all_iff)
qed (auto simp: list_all_iff)

lemma jutf8_jsort: "jutf8 v \<Longrightarrow> jutf8 (jsort v)"
proof (induction v)
  case (JObj kvs)
  have "jutf8 (jsort v)" if "(k, v) \<in> set kvs" for k v
    using JObj.IH[of "(k, v)" v] JObj.prems that by (auto simp: list_all_iff)
  with JObj.prems show ?case by (auto simp: jsort_obj list_all_iff)
qed (auto simp: list_all_iff)

lemma jnodes_jsort: "jnodes (jsort v) = jnodes v"
proof (induction v)
  case (JList xs)
  then have "map jnodes (map jsort xs) = map jnodes xs" by auto
  then show ?case by (simp only: jsort.simps jnodes.simps)
next
  case (JObj kvs)
  have "jnodes (jsort v) = jnodes v" if "(k, v) \<in> set kvs" for k v
    using JObj.IH[of "(k, v)" v] that by auto
  then have "map (\<lambda>(k, v). jnodes (jsort v)) kvs = map (\<lambda>(k, v). jnodes v) kvs"
    by (intro map_pairs_cong) auto
  then have "sum_list (map (\<lambda>(k, v). jnodes (jsort v)) (sort_key fst kvs)) = sum_list (map (\<lambda>(k, v). jnodes v) kvs)"
    by (simp only: sum_list_sort_key)
  moreover have "map (\<lambda>(k, v). jnodes v) (map (\<lambda>(k, v). (k, jsort v)) xs)
      = map (\<lambda>(k, v). jnodes (jsort v)) xs" for xs :: "(string \<times> json) list"
    by (simp add: comp_def case_prod_unfold)
  ultimately show ?case by (simp only: jsort_obj jnodes.simps)
qed auto

lemma document_ok_jsort: "document_ok v \<Longrightarrow> document_ok (jsort v)"
  by (simp add: document_ok_def strict_jsort shallow_jsort jutf8_jsort jnodes_jsort)

lemma decode_document_dumps:
  assumes "document_ok v" and "length (dumps v) \<le> MAX_DOCUMENT_BYTES" and "17 \<le> rl"
  shows "decode_document rl (dumps v) = Inr (jsort v)"
proof -
  have "jwf v" using assms document_jwf by (auto simp: document_ok_def)
  moreover have "jdepth v \<le> rl" using assms shallow_depth[of v 0] by (auto simp: document_ok_def)
  ultimately have "loads document_hooks rl (dumps v) = Inr (jsort v)"
    by (intro loads_dumps document_hooks_build)
  moreover have "utf8_ok (dumps v)" using assms utf8_dumps by (auto simp: document_ok_def)
  ultimately show ?thesis using assms document_ok_jsort by (simp add: decode_document_Inr)
qed

interpretation document_json: codec dumps "decode_document rl" jsort
  "\<lambda>v. document_ok v \<and> length (dumps v) \<le> MAX_DOCUMENT_BYTES \<and> 17 \<le> rl"
  by unfold_locales (auto simp: decode_document_dumps dumps_jsort)

lemma jsort_idem: "strict v \<Longrightarrow> jsort (jsort v) = jsort v"
proof (induction v)
  case (JObj kvs)
  have "jsort (jsort v) = jsort v" if "(k, v) \<in> set kvs" for k v
    using JObj.IH[of "(k, v)" v] JObj.prems that by (auto simp: list_all_iff)
  then have "map (\<lambda>(k, v). (k, jsort (jsort v))) (sort_key fst kvs) = map (\<lambda>(k, v). (k, jsort v)) (sort_key fst kvs)"
    by (intro map_pairs_cong) auto
  moreover have "sort_key fst (map (\<lambda>(k, v). (k, jsort v)) (sort_key fst kvs))
      = map (\<lambda>(k, v). (k, jsort v)) (sort_key fst kvs)"
    by (simp only: sort_pairs sort_key_idem)
  moreover have "map (\<lambda>(k, v). (k, jsort v)) (map (\<lambda>(k, v). (k, jsort v)) xs)
      = map (\<lambda>(k, v). (k, jsort (jsort v))) xs" for xs :: "(string \<times> json) list"
    by (simp add: comp_def case_prod_unfold)
  ultimately show ?case by (simp only: jsort_obj)
qed (auto simp: list_all_iff)

section \<open>Component requests\<close>

fun within_depth :: "json \<Rightarrow> nat \<Rightarrow> bool" where
  "within_depth (JList xs) d = (d \<le> MAX_DEPTH \<and> list_all (\<lambda>x. within_depth x (Suc d)) xs)"
| "within_depth (JObj kvs) d = (d \<le> MAX_DEPTH \<and> list_all (\<lambda>(k, v). within_depth v (Suc d)) kvs)"
| "within_depth v d = (d \<le> MAX_DEPTH)"

lemma wire_depth_ok: "wire_depth v d = Inr () \<longleftrightarrow> within_depth v d"
  by (induction v d rule: within_depth.induct) (auto simp: result_iff list_all_iff)

lemma decode_request_Inr:
  "decode_request rl raw = Inr v \<longleftrightarrow>
    length raw \<le> MAX_INPUT_BYTES \<and> utf8_ok raw \<and> loads wire_hooks rl raw = Inr v \<and>
    is_obj v \<and> within_depth v 0"
  by (auto simp: decode_request_def result_iff wire_depth_ok split: sum.splits jfail.splits)

section \<open>Errors of the reader\<close>

text \<open>A value a hook of the reader raises.\<close>

definition hook_raises :: "'e hooks \<Rightarrow> 'e \<Rightarrow> bool" where
  "hook_raises h e \<longleftrightarrow>
    (\<exists>kvs. on_pairs h kvs = Inl e) \<or> (\<exists>s. on_float h s = Inl e) \<or> (\<exists>s. on_const h s = Inl e)"

lemma on_error_eq_Inl [result_iff]: "on_error m h = Inl e \<longleftrightarrow> (\<exists>x. m = Inl x \<and> e = h x)"
  by (cases m) auto

lemma pnum_hook: "pnum h s = Inl (JHook e) \<Longrightarrow> hook_raises h e"
  by (auto simp: pnum_def punsigned_def Let_def result_iff hook_raises_def split: list.splits if_splits)

lemma patom_hook: "patom h s = Inl (JHook e) \<Longrightarrow> hook_raises h e"
  by (auto simp: patom_def result_iff intro: pnum_hook split: if_splits) (auto simp: hook_raises_def)

lemma reader_hook:
  "(pval h n rl s = Inl (JHook e) \<longrightarrow> hook_raises h e) \<and>
   (pelems h n rl acc s = Inl (JHook e) \<longrightarrow> hook_raises h e) \<and>
   (pmems h n rl acc' s = Inl (JHook e) \<longrightarrow> hook_raises h e)"
proof (induction n arbitrary: rl s acc acc')
  case (Suc n)
  then have vals: "pval h n rl' s' = Inl (JHook e) \<Longrightarrow> hook_raises h e"
    and elems: "pelems h n rl' a s' = Inl (JHook e) \<Longrightarrow> hook_raises h e"
    and mems: "pmems h n rl' a' s' = Inl (JHook e) \<Longrightarrow> hook_raises h e" for rl' s' a a'
    by blast+
  have pairs: "on_pairs h kvs = Inl e \<Longrightarrow> hook_raises h e" for kvs by (auto simp: hook_raises_def)
  have v: "hook_raises h e" if p: "pval h (Suc n) rl s = Inl (JHook e)"
  proof (cases s)
    case (Cons c q)
    consider "c = CHR 0x22" | "c = CHR ''{''" | "c = CHR ''[''"
      | "c \<noteq> CHR 0x22" "c \<noteq> CHR ''{''" "c \<noteq> CHR ''[''" by blast
    then show ?thesis
    proof cases
      case 2
      then show ?thesis
        using p Cons mems[of "rl - 1" "[]"] pairs[of "[]"]
        by (auto simp: val_step_def result_iff split: list.splits if_splits)
    next
      case 3
      then show ?thesis
        using p Cons elems[of "rl - 1" "[]"] by (auto simp: val_step_def split: list.splits if_splits)
    qed (use p Cons patom_hook[of h s e] in \<open>auto simp: val_step_def split: option.splits\<close>)
  qed (use p in \<open>simp add: val_step_def\<close>)
  have l: "hook_raises h e" if p: "pelems h (Suc n) rl acc s = Inl (JHook e)"
  proof (cases "pval h n rl s")
    case (Inl x)
    with p vals show ?thesis by (auto simp: elems_step_def)
  next
    case (Inr wr)
    with p elems show ?thesis by (cases wr) (auto simp: elems_step_def split: list.splits if_splits)
  qed
  have m: "hook_raises h e" if p: "pmems h (Suc n) rl acc' s = Inl (JHook e)"
  proof -
    let ?rest = "\<lambda>k (w, r1). case skip_ws r1 of [] \<Rightarrow> Inl JSyntax
          | d # r4 \<Rightarrow> if d = CHR '','' then pmems h n rl (acc' @ [(k, w)]) (skip_ws r4)
            else if d = CHR ''}'' then
              ebind (on_error (on_pairs h (acc' @ [(k, w)])) JHook) (\<lambda>w. Inr (w, r4))
            else Inl JSyntax"
    from p obtain k r2 where b: "ebind (pval h n rl (skip_ws r2)) (?rest k) = Inl (JHook e)"
      by (auto simp: mems_step_def split: list.splits if_splits option.splits)
    show ?thesis
    proof (cases "pval h n rl (skip_ws r2)")
      case (Inl x)
      with b vals show ?thesis by auto
    next
      case (Inr wr)
      with b mems pairs show ?thesis
        by (cases wr) (auto simp: result_iff split: list.splits if_splits)
    qed
  qed
  show ?case using v l m by blast
qed simp

lemma loads_hook: "loads h rl s = Inl (JHook e) \<Longrightarrow> hook_raises h e"
  using reader_hook[THEN conjunct1]
  by (fastforce simp: loads_def result_iff simp del: pval.simps split: if_splits)

lemma scan_document_error:
  "scan_document work n = Inl e \<Longrightarrow> e \<in> ContractError ` {''DOCUMENT_COMPLEXITY'', ''INTEGER_RANGE''}"
proof (induction work n rule: scan_document.induct)
  case (2 current depth pending nodes)
  then show ?case by (simp add: scan_document.simps(2) split: if_splits)
qed simp

section \<open>What the decoder guarantees\<close>

text \<open>C11.
  A decoded document is an object without repeated keys, floats or constants at any depth, at most 16
  levels deep with at most 100000 values, all of whose integers are exact in a double and all of whose
  strings can be encoded; its text was at most a megabyte of valid UTF-8.
\<close>

theorem decode_document_sound:
  assumes "decode_document rl raw = Inr v"
  shows "is_obj v \<and> strict v \<and> shallow v 0 \<and> jnodes v \<le> 100000 \<and> jutf8 v \<and>
    length raw \<le> MAX_DOCUMENT_BYTES \<and> utf8_ok raw"
  using assms by (auto simp: decode_document_Inr document_ok_def)

text \<open>C10.
  Canonical text and decoder agree: printing an admissible document and decoding it yields the same
  document with its keys sorted, which is equal to it as a Python value and prints as the same text.
\<close>

theorem decode_document_canonical:
  assumes "document_ok v" and "length (dumps v) \<le> MAX_DOCUMENT_BYTES" and "17 \<le> rl"
  shows "canonical_bytes v = Inr (dumps v) \<and> decode_document rl (dumps v) = Inr (jsort v) \<and>
    py_eq (jsort v) v \<and> dumps (jsort v) = dumps v"
  using assms decode_document_dumps[OF assms]
  by (simp add: canonical_bytes_def document_ok_def py_eq_jsort dumps_jsort strict_jfinite)

text \<open>
  The canonical text identifies a document: two admissible documents have the same canonical text only
  if they are the same up to the order of keys, hence equal as Python values.
\<close>

theorem canonical_text_identifies:
  assumes "document_ok v" and "document_ok w" and "dumps v = dumps w"
  shows "jsort v = jsort w \<and> py_eq v w"
proof -
  have "jwf v \<and> jdepth v \<le> 17" "jwf w \<and> jdepth w \<le> 17"
    using assms document_jwf shallow_depth[of v 0] shallow_depth[of w 0] by (auto simp: document_ok_def)
  with assms(3) have "jsort v = jsort w" using plain_json.enc_eq_iff[of v 17 w] by simp
  then show ?thesis using jsort_py_eq by blast
qed

text \<open>
  A refused document yields one of seven fixed reason codes, none of which carries input text.
\<close>

theorem decode_document_errors:
  assumes "decode_document rl raw = Inl e"
  shows "e \<in> ContractError ` {''DOCUMENT_SIZE'', ''INVALID_JSON'', ''DUPLICATE_KEY'',
    ''NON_INTEGER_NUMBER'', ''DOCUMENT_COMPLEXITY'', ''INTEGER_RANGE'', ''INVALID_CONTRACT''}"
proof -
  have "e \<in> ContractError ` {''DUPLICATE_KEY'', ''NON_INTEGER_NUMBER''}"
    if "loads document_hooks rl raw = Inl (JHook e)"
    using loads_hook[OF that]
    by (auto simp: hook_raises_def document_hooks_def pairs_hook_eq split: if_splits)
  moreover have "e \<in> ContractError ` {''DOCUMENT_COMPLEXITY'', ''INTEGER_RANGE''}"
    if "scan_document [(v, 0)] 0 = Inl e" for v
    using that by (rule scan_document_error)
  ultimately show ?thesis
    using assms
    by (fastforce simp: decode_document_def ebind_eq_Inl guard_eq_Inl split: if_splits sum.splits jfail.splits)
qed

text \<open>
  A decoded component request is an object of at most 16 levels without repeated keys, floats or
  constants at any depth, from at most 64 KiB of valid UTF-8.  Reading it from a file looks at one byte
  more than the limit only, so a longer file is refused whatever it holds.
\<close>

theorem read_request_sound:
  assumes "read_request rl file_bytes = Inr v"
  shows "is_obj v \<and> strict v \<and> within_depth v 0 \<and> length file_bytes \<le> MAX_INPUT_BYTES \<and>
    decode_request rl file_bytes = Inr v"
proof -
  have d: "decode_request rl (take (MAX_INPUT_BYTES + 1) file_bytes) = Inr v"
    using assms by (simp add: read_request_def)
  then have "min (length file_bytes) (Suc MAX_INPUT_BYTES) \<le> MAX_INPUT_BYTES"
    by (simp add: decode_request_Inr)
  then have len: "length file_bytes \<le> MAX_INPUT_BYTES" by (simp add: min_def split: if_splits)
  with d have "decode_request rl file_bytes = Inr v" by simp
  with len show ?thesis by (auto simp: decode_request_Inr intro: loads_strict[OF wire_hooks_strict])
qed

section \<open>A document at work\<close>

definition sample_document :: json where
  "sample_document = JObj [(''n'', JInt (-1)), (''k'', JList [JBool True, JStr ''x''])]"

lemma sample_document_ok: "document_ok sample_document"
  by (simp add: document_ok_def sample_document_def int_bad_def MAX_INTEGER_def utf8_ok_ascii)

lemma sample_document_text:
  "dumps sample_document = ''{'' @ [CHR 0x22] @ ''k'' @ [CHR 0x22] @ '':[true,'' @ [CHR 0x22] @ ''x'' @
    [CHR 0x22] @ ''],'' @ [CHR 0x22] @ ''n'' @ [CHR 0x22] @ '':-1}''"
  by (simp add: sample_document_def dumps_obj quote_def esc_def show_int_def show_nat.simps digit_char_def char_of_def bit_0)

lemma sample_document_length: "length (dumps sample_document) \<le> MAX_DOCUMENT_BYTES"
  by (simp add: sample_document_text MAX_DOCUMENT_BYTES_def)

lemma decode_document_sound_witness:
  "strict (jsort sample_document) \<and> utf8_ok (dumps sample_document)"
  using decode_document_sound[OF decode_document_dumps[OF sample_document_ok sample_document_length order_refl]]
  by blast

lemma decode_document_canonical_witness:
  "decode_document 17 (dumps sample_document) = Inr (jsort sample_document)"
  using decode_document_canonical[OF sample_document_ok sample_document_length order_refl] by blast

lemma canonical_text_identifies_witness: "py_eq sample_document (jsort sample_document)"
  using canonical_text_identifies[OF sample_document_ok document_ok_jsort[OF sample_document_ok]]
  by (simp add: dumps_jsort)

lemma decode_document_errors_witness:
  "decode_document 17 [CHR 0x80] = Inl (ContractError ''INVALID_JSON'') \<and>
   ContractError ''INVALID_JSON'' \<in> ContractError ` {''DOCUMENT_SIZE'', ''INVALID_JSON'', ''DUPLICATE_KEY'',
    ''NON_INTEGER_NUMBER'', ''DOCUMENT_COMPLEXITY'', ''INTEGER_RANGE'', ''INVALID_CONTRACT''}"
proof -
  have "decode_document 17 [CHR 0x80] = Inl (ContractError ''INVALID_JSON'')"
    by (simp add: decode_document_def MAX_DOCUMENT_BYTES_def utf8_ok_def utf8_lead_def)
  with decode_document_errors[OF this] show ?thesis by blast
qed

lemma read_request_sound_witness: "strict (jsort (JObj [])) \<and> within_depth (jsort (JObj [])) 0"
proof -
  have "loads wire_hooks 17 (dumps (JObj [])) = Inr (jsort (JObj []))"
    by (intro loads_dumps wire_hooks_build) simp_all
  then have "read_request 17 (dumps (JObj [])) = Inr (jsort (JObj []))"
    by (simp add: read_request_def decode_request_Inr dumps_obj jsort_obj MAX_INPUT_BYTES_def MAX_DEPTH_def
        utf8_ok_ascii)
  from read_request_sound[OF this] show ?thesis by blast
qed

end
