(* ===== verification/Termination.thy ===== *)
theory Termination
  imports Contracts
begin

text \<open>
  The terminal decision of a run (\<open>src/src/gah/termination.py\<close>), with the five assurance states and
  their priority (\<open>_STATE_PRIORITY\<close> of \<open>src/src/gah/decision.py\<close>) as a linear order: the worst
  state is the least one.  The lemmas give the decision table, the completeness of the reason list
  and the assurance the caller may rely on.
\<close>

datatype assurance = HOLD | DEGRADED | UNKNOWN | WARNING | HEALTHY

fun assurance_priority :: "assurance \<Rightarrow> nat" where
  "assurance_priority HOLD = 0"
| "assurance_priority DEGRADED = 1"
| "assurance_priority UNKNOWN = 2"
| "assurance_priority WARNING = 3"
| "assurance_priority HEALTHY = 4"

lemma assurance_priority_inject: "assurance_priority a = assurance_priority b \<longleftrightarrow> a = b"
  by (cases a; cases b) auto

instantiation assurance :: linorder
begin

definition less_eq_assurance :: "assurance \<Rightarrow> assurance \<Rightarrow> bool" where
  "less_eq_assurance a b \<longleftrightarrow> assurance_priority a \<le> assurance_priority b"

definition less_assurance :: "assurance \<Rightarrow> assurance \<Rightarrow> bool" where
  "less_assurance a b \<longleftrightarrow> assurance_priority a < assurance_priority b"

instance
  by standard (auto simp: less_eq_assurance_def less_assurance_def assurance_priority_inject)

end

fun assurance_name :: "assurance \<Rightarrow> string" where
  "assurance_name HOLD = ''HOLD''"
| "assurance_name DEGRADED = ''DEGRADED''"
| "assurance_name UNKNOWN = ''UNKNOWN''"
| "assurance_name WARNING = ''WARNING''"
| "assurance_name HEALTHY = ''HEALTHY''"

text \<open>Membership in \<open>_ASSURANCE_STATES\<close>, with the state it names.\<close>

definition parse_assurance :: "json \<Rightarrow> assurance option" where
  "parse_assurance v =
    (case v of JStr s \<Rightarrow> find (\<lambda>a. assurance_name a = s) [HEALTHY, WARNING, DEGRADED, UNKNOWN, HOLD]
     | _ \<Rightarrow> None)"

lemma assurance_name_inject: "assurance_name a = assurance_name b \<longleftrightarrow> a = b"
  by (cases a; cases b) auto

lemma parse_assurance_name [simp]: "parse_assurance (JStr (assurance_name a)) = Some a"
  by (cases a) (auto simp: parse_assurance_def)

lemma parse_assurance_Some: "parse_assurance v = Some a \<longleftrightarrow> v = JStr (assurance_name a)"
proof
  assume p: "parse_assurance v = Some a"
  then obtain s where "v = JStr s" by (cases v) (auto simp: parse_assurance_def)
  with p show "v = JStr (assurance_name a)" by (auto simp: parse_assurance_def split: if_splits)
qed simp

datatype exec_status = FAILED | CANCELLED | WAITING | COMPLETED

record terminal_decision =
  execution_status :: exec_status
  exit_code :: "int option"
  terminal_assurance :: assurance
  terminal_reasons :: "string list"

datatype value_error = InvalidTermination

text \<open>\<open>_REASON_ORDER\<close>: the code, the fact it reads and the value of the fact it reports.\<close>

definition reason_order :: "bool \<Rightarrow> bool \<Rightarrow> bool \<Rightarrow> bool \<Rightarrow> bool \<Rightarrow> bool \<Rightarrow> (string \<times> bool \<times> bool) list" where
  "reason_order cancelled stopped deadline_reached work_complete required_failure budget_closed =
    [(''REQUIRED_FAILURE'', required_failure, True),
     (''CANCEL_REQUESTED'', cancelled, True),
     (''STOP_UNCONFIRMED'', stopped, False),
     (''DEADLINE_REACHED'', deadline_reached, True),
     (''WORK_INCOMPLETE'', work_complete, False),
     (''BUDGET_OPEN'', budget_closed, False)]"

definition decide :: "bool \<Rightarrow> bool \<Rightarrow> bool \<Rightarrow> bool \<Rightarrow> bool \<Rightarrow> bool \<Rightarrow> assurance \<Rightarrow> terminal_decision" where
  "decide cancelled stopped deadline_reached work_complete required_failure budget_closed a =
    (let reasons = map fst (filter (\<lambda>(code, val, expected). val = expected)
           (reason_order cancelled stopped deadline_reached work_complete required_failure budget_closed));
         assurance_out =
           (if (\<not> stopped \<or> \<not> work_complete \<or> \<not> budget_closed) \<and> a \<in> {HEALTHY, WARNING}
            then UNKNOWN else a);
         (status, code) =
           (if required_failure then (FAILED, Some 2)
            else if cancelled \<and> stopped then (CANCELLED, Some 3)
            else if cancelled \<and> \<not> stopped then
              (if deadline_reached then (FAILED, Some 2) else (WAITING, None))
            else if deadline_reached then (FAILED, Some 2)
            else if stopped \<and> work_complete \<and> budget_closed then (COMPLETED, Some 1)
            else (WAITING, None))
     in \<lparr>execution_status = status, exit_code = code,
         terminal_assurance = assurance_out, terminal_reasons = reasons\<rparr>)"

text \<open>\<open>decide_terminal\<close>: every flag must be a \<open>bool\<close> and the assurance one of the five names.\<close>

definition decide_terminal ::
    "json \<Rightarrow> json \<Rightarrow> json \<Rightarrow> json \<Rightarrow> json \<Rightarrow> json \<Rightarrow> json \<Rightarrow> value_error + terminal_decision" where
  "decide_terminal cancelled stopped deadline_reached work_complete required_failure budget_closed a =
    ebind (eiter (\<lambda>v. guard (is_bool v) InvalidTermination)
        [cancelled, stopped, deadline_reached, work_complete, required_failure, budget_closed]) (\<lambda>_.
    case parse_assurance a of
      None \<Rightarrow> Inl InvalidTermination
    | Some a' \<Rightarrow> Inr (decide (bool_of cancelled) (bool_of stopped) (bool_of deadline_reached)
        (bool_of work_complete) (bool_of required_failure) (bool_of budget_closed) a'))"

definition status_name :: "exec_status \<Rightarrow> string" where
  "status_name s = (case s of FAILED \<Rightarrow> ''FAILED'' | CANCELLED \<Rightarrow> ''CANCELLED''
     | WAITING \<Rightarrow> ''WAITING'' | COMPLETED \<Rightarrow> ''COMPLETED'')"

text \<open>The dict that is returned.\<close>

definition decision_fields :: "terminal_decision \<Rightarrow> (string \<times> json) list" where
  "decision_fields d =
    [(''schema_version'', JInt 1), (''purpose'', JStr ''component_validation''),
     (''ci_eligible'', JBool False), (''execution_status'', JStr (status_name (execution_status d))),
     (''exit_code'', opt_int (exit_code d)), (''assurance'', JStr (assurance_name (terminal_assurance d))),
     (''reasons'', JList (map JStr (terminal_reasons d)))]"

section \<open>The decision table\<close>

lemma decide_terminal_bools [simp]:
  "decide_terminal (JBool c) (JBool s) (JBool d) (JBool w) (JBool f) (JBool b) (JStr (assurance_name a))
    = Inr (decide c s d w f b a)"
  by (simp add: decide_terminal_def)

lemma is_bool_iff: "is_bool v \<longleftrightarrow> v = JBool (bool_of v)"
  by (cases v) auto

text \<open>Anything but a \<open>bool\<close> flag and a known assurance is refused, with the one generic error.\<close>

lemma decide_terminal_Inr:
  "decide_terminal c s d w f b a = Inr r \<longleftrightarrow>
    is_bool c \<and> is_bool s \<and> is_bool d \<and> is_bool w \<and> is_bool f \<and> is_bool b \<and>
    (\<exists>a'. a = JStr (assurance_name a') \<and>
      r = decide (bool_of c) (bool_of s) (bool_of d) (bool_of w) (bool_of f) (bool_of b) a')"
proof (cases "parse_assurance a")
  case None
  then have "a \<noteq> JStr (assurance_name a')" for a' by auto
  with None show ?thesis by (simp add: decide_terminal_def result_iff)
next
  case (Some a')
  then have "a = JStr (assurance_name a')" by (simp add: parse_assurance_Some)
  then show ?thesis
    by (simp add: decide_terminal_def result_iff assurance_name_inject conj_ac eq_commute [of r])
qed

lemma execution_status_decide:
  "execution_status (decide c s d w f b a) =
    (if f \<or> \<not> c \<and> d \<or> c \<and> \<not> s \<and> d then FAILED
     else if c \<and> s then CANCELLED
     else if \<not> c \<and> s \<and> w \<and> b then COMPLETED
     else WAITING)"
  by (auto simp: decide_def Let_def)

lemma exit_code_decide:
  "exit_code (decide c s d w f b a) =
    (case execution_status (decide c s d w f b a) of
       FAILED \<Rightarrow> Some 2 | CANCELLED \<Rightarrow> Some 3 | WAITING \<Rightarrow> None | COMPLETED \<Rightarrow> Some 1)"
  by (auto simp: decide_def Let_def)

lemma assurance_decide:
  "terminal_assurance (decide c s d w f b a) = (if s \<and> w \<and> b then a else min a UNKNOWN)"
  by (cases a) (auto simp: decide_def Let_def min_def less_eq_assurance_def)

text \<open>C26.
  A success is never claimed for unfinished work.  The decision is COMPLETED exactly when nothing
  failed, nothing was cancelled, the deadline has not passed and stop, work and budget are all
  confirmed; then the assurance is the one observed.  In every other case with a missing stop, work or
  budget the assurance is at best UNKNOWN, and it is never better than the one observed.
\<close>

theorem completed_only_when_closed:
  "(execution_status (decide c s d w f b a) = COMPLETED \<longleftrightarrow> \<not> f \<and> \<not> c \<and> \<not> d \<and> s \<and> w \<and> b) \<and>
   (exit_code (decide c s d w f b a) = Some 1 \<longleftrightarrow> execution_status (decide c s d w f b a) = COMPLETED) \<and>
   terminal_assurance (decide c s d w f b a) = (if s \<and> w \<and> b then a else min a UNKNOWN)"
  by (auto simp: execution_status_decide exit_code_decide assurance_decide split: exec_status.splits)

text \<open>
  Once the deadline is reached, or a failure or a confirmed cancellation is known, the run is decided:
  it does not keep waiting.  It waits only before the deadline, without a failure, and with a stop, work
  or budget confirmation outstanding.
\<close>

theorem waiting_only_before_deadline:
  "execution_status (decide c s d w f b a) = WAITING \<longleftrightarrow>
    \<not> d \<and> \<not> f \<and> (if c then \<not> s else \<not> (s \<and> w \<and> b))"
  by (auto simp: execution_status_decide)

text \<open>
  The reasons are the codes of exactly the facts that hold, each once and in the fixed order.
\<close>

theorem reasons_complete:
  "terminal_reasons (decide c s d w f b a) =
    (if f then [''REQUIRED_FAILURE''] else []) @ (if c then [''CANCEL_REQUESTED''] else []) @
    (if \<not> s then [''STOP_UNCONFIRMED''] else []) @ (if d then [''DEADLINE_REACHED''] else []) @
    (if \<not> w then [''WORK_INCOMPLETE''] else []) @ (if \<not> b then [''BUDGET_OPEN''] else []) \<and>
   distinct (terminal_reasons (decide c s d w f b a))"
  by (auto simp: decide_def Let_def reason_order_def)

end
