(* ===== verification/Amounts.thy ===== *)
theory Amounts
  imports Termination
begin

text \<open>
  Amounts of money of the ledger (\<open>Ledger._parse_usd\<close> and \<open>Ledger._decimal_equal\<close> of
  \<open>src/src/gah/ledger.py\<close>): a decimal text without exponent is charged as the least number of
  millionths of a dollar that covers it.  \<open>parse_usd_ceiling\<close> shows that the integer arithmetic on
  the digits is that rounding, whatever the number of decimals.
\<close>

text \<open>
  \<open>LedgerError\<close> with its code and its reason; \<open>PyError\<close> is any other exception, by its class.
\<close>

datatype ledger_error = LedgerError string string | PyError string

definition MAX_INT64 :: int where
  "MAX_INT64 = 2 ^ 63 - 1"

definition MAX_TIME :: int where
  "MAX_TIME = 2 ^ 53 - 1"

abbreviation invalid_amount :: ledger_error where
  "invalid_amount \<equiv> LedgerError ''invalid_amount'' ''invalid amount''"

text \<open>The pattern \<open>(?:0|[1-9][0-9]*)(?:\.[0-9]+)?\<close>, with the two groups of digits.\<close>

definition dec_parts :: "string \<Rightarrow> (string \<times> string) option" where
  "dec_parts s =
    (let i = takeWhile is_digit s; r = drop (length i) s
     in if i = [] \<or> (hd i = CHR ''0'' \<and> length i > 1) then None
        else if r = [] then Some (i, [])
        else if hd r = CHR ''.'' \<and> tl r \<noteq> [] \<and> list_all is_digit (tl r) then Some (i, tl r)
        else None)"

definition parse_usd :: "json \<Rightarrow> ledger_error + string \<times> int" where
  "parse_usd v =
    (case v of
       JStr s \<Rightarrow>
         if py_len s > 128 \<or> s = [] then Inl invalid_amount
         else if s = ''0'' then Inr (s, 0)
         else (case dec_parts s of
             None \<Rightarrow> Inl invalid_amount
           | Some (i, f) \<Rightarrow>
               let whole_micros = int (digits_val i) * 1000000;
                   fractional_micros = int (digits_val (take 6 (f @ ''000000'')));
                   remainder = drop 6 f;
                   micros = whole_micros + fractional_micros
                     + (if list_ex (\<lambda>c. c \<noteq> CHR ''0'') remainder then 1 else 0)
               in if micros \<le> 0 \<or> micros > MAX_INT64 then Inl invalid_amount else Inr (s, micros))
     | _ \<Rightarrow> Inl invalid_amount)"

text \<open>
  \<open>Decimal(left) == Decimal(right)\<close>.  It is only asked about texts that \<open>_parse_usd\<close> has
  accepted, so the exponents and special values \<open>Decimal\<close> also reads do not occur.
\<close>

definition decimal_equal :: "string \<Rightarrow> string \<Rightarrow> bool" where
  "decimal_equal l r =
    (case (dec_parts l, dec_parts r) of
       (Some (i, f), Some (j, g)) \<Rightarrow>
         digits_val (i @ f) * 10 ^ length g = digits_val (j @ g) * 10 ^ length f
     | _ \<Rightarrow> False)"

section \<open>Digits\<close>

lemma digits_val_Nil [simp]: "digits_val [] = 0"
  by (simp add: digits_val_def)

lemma digits_val_append: "digits_val (s @ t) = digits_val s * 10 ^ length t + digits_val t"
proof (induction t rule: rev_induct)
  case (snoc c t)
  have "digits_val (s @ t @ [c]) = 10 * digits_val (s @ t) + (ord c - 48)"
    using digits_val_snoc[of "s @ t" c] by simp
  then show ?case using snoc by (simp add: digits_val_snoc algebra_simps)
qed simp

lemma digits_val_bound: "list_all is_digit s \<Longrightarrow> digits_val s < 10 ^ length s"
proof (induction s rule: rev_induct)
  case (snoc c s)
  then have "digits_val s + 1 \<le> 10 ^ length s" and "ord c - 48 \<le> 9" by (auto simp: is_digit_def)
  then show ?case by (simp add: digits_val_snoc)
qed simp

lemma digits_val_zero: "list_all is_digit s \<Longrightarrow> digits_val s = 0 \<longleftrightarrow> list_all (\<lambda>c. c = CHR ''0'') s"
proof (induction s rule: rev_induct)
  case (snoc c s)
  have "ord c - 48 = 0 \<longleftrightarrow> c = CHR ''0''" if "is_digit c"
    using that of_char_eqI[of c "CHR ''0''"] by (auto simp: is_digit_def)
  with snoc show ?case by (auto simp: digits_val_snoc)
qed simp

lemma digits_val_zeros: "digits_val (s @ replicate n (CHR ''0'')) = digits_val s * 10 ^ n"
proof -
  have "digits_val (replicate n (CHR ''0'')) = 0"
    by (subst digits_val_zero) (auto simp: list_all_iff is_digit_def)
  then show ?thesis by (simp add: digits_val_append)
qed

lemma dec_parts_digits:
  "dec_parts s = Some (i, f) \<Longrightarrow> i \<noteq> [] \<and> list_all is_digit i \<and> list_all is_digit f"
  by (auto simp: dec_parts_def Let_def list_all_iff dest: set_takeWhileD split: if_splits)

text \<open>The text of a numeral: its digits, with a point before the decimals.\<close>

lemma dec_parts_text:
  assumes "dec_parts s = Some (i, f)"
  shows "s = i @ (if f = [] then [] else CHR ''.'' # f)"
proof -
  let ?r = "drop (length (takeWhile is_digit s)) s"
  have s: "s = takeWhile is_digit s @ ?r"
    by (metis dropWhile_eq_drop takeWhile_dropWhile_id)
  have i: "i = takeWhile is_digit s" and f: "if ?r = [] then f = [] else hd ?r = CHR ''.'' \<and> f = tl ?r \<and> f \<noteq> []"
    using assms by (auto simp: dec_parts_def Let_def split: if_splits)
  show ?thesis
  proof (cases "?r = []")
    case True
    with s i f show ?thesis by simp
  next
    case False
    with f have "?r = CHR ''.'' # f" "f \<noteq> []" by (metis list.collapse)+
    with s i show ?thesis by metis
  qed
qed

section \<open>Rounding\<close>

lemma parse_usd_micros:
  fixes i f :: string
  assumes "list_all is_digit f"
  defines "m \<equiv> digits_val i * 1000000 + digits_val (take 6 (f @ ''000000''))
      + (if list_ex (\<lambda>c. c \<noteq> CHR ''0'') (drop 6 f) then 1 else 0)"
  shows "digits_val (i @ f) * 1000000 \<le> m * 10 ^ length f \<and>
    m * 10 ^ length f < digits_val (i @ f) * 1000000 + 10 ^ length f"
proof (cases "length f \<le> 6")
  case True
  have z: "''000000'' = replicate 6 (CHR ''0'')" by (simp add: numeral_eq_Suc)
  have "take 6 (f @ ''000000'') = f @ replicate (6 - length f) (CHR ''0'')"
    using True unfolding z by (simp add: take_replicate min_def)
  then have "digits_val (take 6 (f @ ''000000'')) = digits_val f * 10 ^ (6 - length f)"
    by (simp only: digits_val_zeros)
  moreover have "(10::nat) ^ (6 - length f) * 10 ^ length f = 1000000"
    using True by (simp add: power_add [symmetric])
  ultimately have "m * 10 ^ length f = digits_val (i @ f) * 1000000"
    using True unfolding m_def digits_val_append
    by (simp add: add_mult_distrib mult.assoc mult.commute[of 1000000])
  then show ?thesis by simp
next
  case False
  define a g where "a = take 6 f" and "g = drop 6 f"
  have f: "f = a @ g" and len: "length a = 6" using False by (auto simp: a_def g_def)
  have dig: "list_all is_digit g" using assms(1) f by simp
  have take: "take 6 (f @ ''000000'') = a" using False by (simp add: a_def)
  have m: "m = digits_val i * 1000000 + digits_val a + (if digits_val g = 0 then 0 else 1)"
    using take digits_val_zero[OF dig] unfolding m_def g_def
    by (auto simp: list_ex_iff list_all_iff)
  have D: "digits_val (i @ f) = (digits_val i * 1000000 + digits_val a) * 10 ^ length g + digits_val g"
    using len by (simp add: f digits_val_append power_add algebra_simps)
  have p: "(10::nat) ^ length f = 1000000 * 10 ^ length g" using f len by (simp add: power_add)
  show ?thesis
    using digits_val_bound[OF dig] unfolding m D p by (simp add: algebra_simps)
qed

text \<open>\<open>m\<close> is the least number of millionths that covers the amount \<open>d / 10 ^ k\<close>.\<close>

definition covers :: "nat \<Rightarrow> nat \<Rightarrow> int \<Rightarrow> bool" where
  "covers d k m \<longleftrightarrow> int d * 1000000 \<le> m * 10 ^ k \<and> m * 10 ^ k < int d * 1000000 + 10 ^ k"

lemma covers_int:
  "covers d k (int n) \<longleftrightarrow> d * 1000000 \<le> n * 10 ^ k \<and> n * 10 ^ k < d * 1000000 + 10 ^ k"
  using of_nat_le_iff[of "d * 1000000" "n * 10 ^ k", where 'a = int]
    of_nat_less_iff[of "n * 10 ^ k" "d * 1000000 + 10 ^ k", where 'a = int]
  by (simp add: covers_def)

lemma covers_unique:
  assumes "covers d k m" and "covers e l n" and "d * 10 ^ l = e * 10 ^ k"
  shows "m = n"
proof -
  have pos: "0 < (10::int) ^ k" "0 < (10::int) ^ l" by simp_all
  have eq: "int d * 10 ^ l = int e * 10 ^ k" using assms(3) by (metis of_nat_mult of_nat_numeral of_nat_power)
  have below: "x \<le> y"
    if "int a * 1000000 + 10 ^ i > x * 10 ^ i" and "int b * 1000000 \<le> y * 10 ^ j"
      and "int a * 10 ^ j = int b * 10 ^ i" for a b i j x y
  proof -
    have "(x - 1) * 10 ^ i < int a * 1000000" using that(1) by (simp add: algebra_simps)
    then have "(x - 1) * 10 ^ i * 10 ^ j < int a * 1000000 * 10 ^ j" by (rule mult_strict_right_mono) simp
    also have "\<dots> = int b * 1000000 * 10 ^ i" using that(3) by (simp add: algebra_simps)
    also have "\<dots> \<le> y * 10 ^ j * 10 ^ i" using that(2) by (rule mult_right_mono) simp
    finally have "(x - 1) * (10 ^ i * 10 ^ j) < y * (10 ^ i * 10 ^ j)" by (simp add: algebra_simps)
    then have "x - 1 < y" by (rule mult_right_less_imp_less) simp
    then show ?thesis by simp
  qed
  have "m \<le> n" using assms(1,2) eq by (intro below[of m k d e n l]) (auto simp: covers_def)
  moreover have "n \<le> m" using assms(1,2) eq by (intro below[of n l e d m k]) (auto simp: covers_def)
  ultimately show ?thesis by simp
qed

lemma parse_usd_Inr:
  assumes "parse_usd v = Inr (s, m)"
  shows "v = JStr s \<and> 0 \<le> m \<and> m \<le> MAX_INT64 \<and> (m = 0 \<longleftrightarrow> s = ''0'') \<and>
    (\<exists>i f. dec_parts s = Some (i, f) \<and> covers (digits_val (i @ f)) (length f) m)"
proof -
  obtain t where v: "v = JStr t" using assms by (cases v) (auto simp: parse_usd_def)
  show ?thesis
  proof (cases "t = ''0''")
    case True
    have "dec_parts ''0'' = Some (''0'', [])" by (simp add: dec_parts_def is_digit_def)
    moreover have "covers (digits_val (''0'' @ [])) (length []) 0"
      by (simp add: covers_def digits_val_def)
    ultimately show ?thesis
      using assms v True by (auto simp: parse_usd_def MAX_INT64_def split: if_splits)
  next
    case False
    with assms v obtain i f where d: "dec_parts t = Some (i, f)"
      by (auto simp: parse_usd_def split: if_splits option.splits)
    define n where "n = digits_val i * 1000000 + digits_val (take 6 (f @ ''000000''))
      + (if list_ex (\<lambda>c. c \<noteq> CHR ''0'') (drop 6 f) then 1 else 0)"
    have n: "int (digits_val i) * 1000000 + int (digits_val (take 6 (f @ ''000000'')))
        + (if list_ex (\<lambda>c. c \<noteq> CHR ''0'') (drop 6 f) then 1 else 0) = int n"
      by (simp add: n_def)
    have "parse_usd v = (if py_len t > 128 \<or> t = [] then Inl invalid_amount
        else if int n \<le> 0 \<or> int n > MAX_INT64 then Inl invalid_amount else Inr (t, int n))"
      using v False d by (simp only: parse_usd_def json.case option.case prod.case Let_def n if_False)
    then have m: "s = t" "m = int n" "0 < m" "m \<le> MAX_INT64"
      using assms by (simp_all split: if_splits)
    have "digits_val (i @ f) * 1000000 \<le> n * 10 ^ length f \<and>
        n * 10 ^ length f < digits_val (i @ f) * 1000000 + 10 ^ length f"
      using parse_usd_micros[of f i] dec_parts_digits[OF d] by (simp add: n_def)
    then have "covers (digits_val (i @ f)) (length f) (int n)"
      by (simp only: covers_int)
    with m d v False show ?thesis by auto
  qed
qed

lemma parse_usd_bounds:
  "parse_usd v = Inr (s, m) \<Longrightarrow> v = JStr s \<and> 0 \<le> m \<and> m \<le> MAX_INT64"
  using parse_usd_Inr by blast

lemma parse_usd_again: "parse_usd v = Inr (s, m) \<Longrightarrow> parse_usd (JStr s) = Inr (s, m)"
  using parse_usd_bounds by blast

lemma parse_usd_ascii: "parse_usd v = Inr (s, m) \<Longrightarrow> ascii s"
proof -
  assume p: "parse_usd v = Inr (s, m)"
  then obtain i f where d: "dec_parts s = Some (i, f)" using parse_usd_Inr by blast
  have dig: "list_all is_digit x \<Longrightarrow> ascii x" for x by (auto simp: ascii_def list_all_iff is_digit_def)
  have "ascii i" "ascii f" using dec_parts_digits[OF d] dig by auto
  moreover have "s = i @ (if f = [] then [] else CHR ''.'' # f)" using d by (rule dec_parts_text)
  ultimately show ?thesis by (cases "f = []") simp_all
qed

text \<open>C9.
  Amounts are rounded up: an accepted text is a decimal numeral whose digits \<open>i\<close>, with decimals
  \<open>f\<close>, are charged as the least number of millionths not below the amount, however many decimals
  are given; the result fits 64 bits, and zero is written only as \<open>0\<close>.
\<close>

theorem parse_usd_ceiling:
  assumes "parse_usd v = Inr (s, m)"
  shows "\<exists>i f. s = i @ (if f = [] then [] else CHR ''.'' # f) \<and> list_all is_digit (i @ f) \<and>
    int (digits_val (i @ f)) * 1000000 \<le> m * 10 ^ length f \<and>
    m * 10 ^ length f < int (digits_val (i @ f)) * 1000000 + 10 ^ length f \<and>
    0 \<le> m \<and> m \<le> MAX_INT64 \<and> (m = 0 \<longleftrightarrow> s = ''0'')"
proof -
  from parse_usd_Inr[OF assms] obtain i f where d: "dec_parts s = Some (i, f)"
    and c: "covers (digits_val (i @ f)) (length f) m" and m: "0 \<le> m \<and> m \<le> MAX_INT64 \<and> (m = 0 \<longleftrightarrow> s = ''0'')"
    by blast
  from dec_parts_text[OF d] dec_parts_digits[OF d] c m show ?thesis
    by (intro exI[of _ i] exI[of _ f]) (simp add: covers_def)
qed

text \<open>
  Two spellings of one amount are charged alike: texts that are equal as decimals have the same number
  of millionths, so comparing both fields of a redelivered request can only fail on the amount itself.
\<close>

theorem equal_amounts_charge_alike:
  assumes "parse_usd v = Inr (s, m)" and "parse_usd w = Inr (t, n)" and "decimal_equal s t"
  shows "m = n"
proof -
  from parse_usd_Inr[OF assms(1)] obtain i f where s: "dec_parts s = Some (i, f)"
    and cs: "covers (digits_val (i @ f)) (length f) m" by blast
  from parse_usd_Inr[OF assms(2)] obtain j g where t: "dec_parts t = Some (j, g)"
    and ct: "covers (digits_val (j @ g)) (length g) n" by blast
  from assms(3) s t have "digits_val (i @ f) * 10 ^ length g = digits_val (j @ g) * 10 ^ length f"
    by (simp add: decimal_equal_def)
  with cs ct show ?thesis by (rule covers_unique)
qed

lemma decimal_equal_refl: "parse_usd v = Inr (s, m) \<Longrightarrow> decimal_equal s s"
  using parse_usd_Inr[of v s m] by (auto simp: decimal_equal_def)

lemma parse_usd_ceiling_witness:
  "parse_usd (JStr ''1.0000001'') = Inr (''1.0000001'', 1000001) \<and>
   (\<exists>i f. ''1.0000001'' = i @ (if f = [] then [] else CHR ''.'' # f) \<and> list_all is_digit (i @ f) \<and>
    int (digits_val (i @ f)) * 1000000 \<le> 1000001 * 10 ^ length f \<and>
    1000001 * 10 ^ length f < int (digits_val (i @ f)) * 1000000 + 10 ^ length f \<and>
    0 \<le> (1000001::int) \<and> 1000001 \<le> MAX_INT64 \<and> (1000001 = (0::int) \<longleftrightarrow> ''1.0000001'' = ''0''))"
proof -
  have p: "parse_usd (JStr ''1.0000001'') = Inr (''1.0000001'', 1000001)"
    by (simp add: parse_usd_def dec_parts_def is_digit_def digits_val_def py_len_ascii MAX_INT64_def Let_def)
  with parse_usd_ceiling[OF p] show ?thesis by blast
qed

lemma equal_amounts_charge_alike_witness:
  "parse_usd (JStr ''0.5'') = Inr (''0.5'', 500000) \<and> parse_usd (JStr ''0.50'') = Inr (''0.50'', 500000) \<and>
   (500000::int) = 500000"
proof -
  have p: "parse_usd (JStr ''0.5'') = Inr (''0.5'', 500000)" "parse_usd (JStr ''0.50'') = Inr (''0.50'', 500000)"
    "decimal_equal ''0.5'' ''0.50''"
    by (simp_all add: parse_usd_def dec_parts_def is_digit_def digits_val_def py_len_ascii MAX_INT64_def
        decimal_equal_def Let_def)
  then show ?thesis using equal_amounts_charge_alike[OF p] by blast
qed

end
