(* ===== verification/Machine.thy ===== *)
theory Machine
  imports Main
begin

text \<open>
  The interface of a stateful component that is driven by a sequence of calls: an invariant every call
  keeps and a preorder along which every call moves the state.  Both then hold of whole sequences.
\<close>

text \<open>
  What SQLite may do with a call: \<open>BEGIN IMMEDIATE\<close> fails, a statement of the transaction fails,
  \<open>COMMIT\<close> fails, or nothing does.
\<close>

datatype io_fault = No_fault | Begin_fails | Statement_fails | Commit_fails

definition run_calls :: "('c \<Rightarrow> 's \<Rightarrow> 'r \<times> 's) \<Rightarrow> 'c list \<Rightarrow> 's \<Rightarrow> 's" where
  "run_calls step cs s = fold (\<lambda>c s. snd (step c s)) cs s"

lemma run_calls_simps [simp]:
  "run_calls step [] s = s"
  "run_calls step (c # cs) s = run_calls step cs (snd (step c s))"
  by (simp_all add: run_calls_def)

lemma run_calls_append: "run_calls step (cs @ cs') s = run_calls step cs' (run_calls step cs s)"
  by (simp add: run_calls_def)

locale machine =
  fixes step :: "'c \<Rightarrow> 's \<Rightarrow> 'r \<times> 's"
    and inv :: "'s \<Rightarrow> bool"
    and grows :: "'s \<Rightarrow> 's \<Rightarrow> bool"
  assumes inv_step: "inv s \<Longrightarrow> inv (snd (step c s))"
    and grows_step: "inv s \<Longrightarrow> grows s (snd (step c s))"
    and grows_refl: "grows s s"
    and grows_trans: "grows s t \<Longrightarrow> grows t u \<Longrightarrow> grows s u"
begin

lemma inv_calls: "inv s \<Longrightarrow> inv (run_calls step cs s)"
  by (induction cs arbitrary: s) (simp_all add: inv_step)

lemma grows_calls: "inv s \<Longrightarrow> grows s (run_calls step cs s)"
proof (induction cs arbitrary: s)
  case (Cons c cs)
  then have "grows (snd (step c s)) (run_calls step cs (snd (step c s)))" by (simp add: inv_step)
  with grows_step[OF Cons.prems] grows_trans show ?case by simp blast
qed (simp add: grows_refl)

text \<open>What holds of a state and survives growth holds after every further sequence of calls.\<close>

lemma stable_calls:
  assumes "inv s" and "P s" and "\<And>t. grows s t \<Longrightarrow> inv t \<Longrightarrow> P t"
  shows "P (run_calls step cs s)"
  using assms grows_calls inv_calls by blast

end

end
