(* ===== verification/Ledger.thy ===== *)
theory Ledger
  imports Amounts Machine
begin

text \<open>
  The persistent ledger of runs, leases, budgets and reports (\<open>src/src/gah/ledger.py\<close>).

  A table is a list of rows in insertion order.  A method of \<open>Ledger\<close> is a function from its
  arguments (dynamic values where the code checks their type) and the ledger to the returned value or
  raised error and the ledger afterwards; the body of its transaction is the function named after it
  with the suffix \<open>_tx\<close>, on the tables alone.  Each call is given an environment: what SQLite does
  with the transaction and what the clock returns.
\<close>

section \<open>Tables\<close>

record run_row =
  run_id :: string
  profile :: string
  started_at :: int
  deadline :: int
  epoch0 :: int
  owner :: "string option"
  owner_epoch :: int
  lease_until :: "int option"
  lease_kind :: string
  cancel_requested_at :: "int option"
  stop_confirmed_at :: "int option"
  hold :: bool
  hold_reason :: "string option"

record op_row =
  operation_id :: string
  op_run_id :: string
  op_owner :: string
  op_epoch :: int
  reserved_usd :: string
  reserved_micros :: int
  reserved_at :: int
  settled_usd :: "string option"
  settled_micros :: "int option"
  settled_at :: "int option"
  status :: string
  op_hold_reason :: "string option"
  exposure_usd :: "string option"
  exposure_micros :: "int option"

record event_row =
  event_id :: nat
  ev_run_id :: string
  event_kind :: string
  observed_at :: int
  ev_owner :: "string option"
  ev_epoch :: "int option"
  details_json :: string

text \<open>A row of \<open>reports\<close> and of \<open>terminal_records\<close>.\<close>

record stored_row =
  stored_key :: string
  canonical_json :: string
  stored_payload :: string
  stored_sha256 :: string

text \<open>
  \<open>last_clock\<close> is the text kept in \<open>ledger_meta\<close>, absent when the row is; \<open>event_seq\<close> is the
  counter behind \<open>AUTOINCREMENT\<close>.
\<close>

record ledger_db =
  last_clock :: "string option"
  runs :: "run_row list"
  operations :: "op_row list"
  reports :: "stored_row list"
  terminal_records :: "stored_row list"
  run_events :: "event_row list"
  event_seq :: nat

record ledger =
  db :: ledger_db
  closed :: bool

text \<open>What the environment does with a call, and what the clock returns, \<open>None\<close> when it raises.\<close>

record env =
  fault :: io_fault
  clock_reading :: "json option"

section \<open>Constants and input checks\<close>

definition LEASE_SECONDS :: int where
  "LEASE_SECONDS = 60"

definition WINDOW_SECONDS :: int where
  "WINDOW_SECONDS = 86400"

definition RUN_LIMITS :: "string \<Rightarrow> int option" where
  "RUN_LIMITS p = (if p = ''pr'' then Some 2000000 else if p = ''full'' then Some 10000000 else None)"

definition GLOBAL_LIMIT :: int where
  "GLOBAL_LIMIT = 20000000"

definition MAX_REPORT_BYTES :: nat where
  "MAX_REPORT_BYTES = 4 * 1024 * 1024"

abbreviation invalid_input :: ledger_error where
  "invalid_input \<equiv> LedgerError ''invalid_input'' ''invalid input''"

abbreviation invalid_database :: ledger_error where
  "invalid_database \<equiv> LedgerError ''invalid_database'' ''invalid database''"

abbreviation storage_failure :: ledger_error where
  "storage_failure \<equiv> LedgerError ''storage_failure'' ''storage failure''"

text \<open>\<open>[^\x00\s]{1,n}\<close>, counted in code points.\<close>

definition token_ok :: "nat \<Rightarrow> string \<Rightarrow> bool" where
  "token_ok n s \<longleftrightarrow> 1 \<le> py_len s \<and> py_len s \<le> n \<and> list_all (\<lambda>c. c \<noteq> 0 \<and> \<not> py_space c) (cps s)"

definition validate_id :: "json \<Rightarrow> ledger_error + string" where
  "validate_id v = (if is_str v \<and> token_ok 128 (str_of v) then Inr (str_of v) else Inl invalid_input)"

definition validate_owner :: "json \<Rightarrow> ledger_error + string" where
  "validate_owner v = (if is_str v \<and> token_ok 256 (str_of v) then Inr (str_of v) else Inl invalid_input)"

text \<open>A text is bound to a parameter of a statement: a lone surrogate cannot be encoded.\<close>

definition bind_text :: "string \<Rightarrow> ledger_error + unit" where
  "bind_text s = guard (utf8_ok s) (PyError ''UnicodeEncodeError'')"

text \<open>
  \<open>int(text)\<close> on the characters of ASCII: surrounding white space, a sign, digits with single
  underscores between them, at most 4300 of them.
\<close>

definition strip :: "string \<Rightarrow> string" where
  "strip s = (let sp = (\<lambda>c. py_space (ord c)) in rev (dropWhile sp (rev (dropWhile sp s))))"

definition digit_text :: "string \<Rightarrow> bool" where
  "digit_text u \<longleftrightarrow> u \<noteq> [] \<and> is_digit (hd u) \<and> is_digit (last u) \<and>
     list_all (\<lambda>c. is_digit c \<or> c = CHR ''_'') u \<and> \<not> sublist ''__'' u \<and>
     length (filter is_digit u) \<le> max_str_digits"

definition py_int :: "string \<Rightarrow> int option" where
  "py_int s =
    (let t = strip s;
         neg = (t \<noteq> [] \<and> hd t = CHR ''-'');
         u = (if t \<noteq> [] \<and> (hd t = CHR ''-'' \<or> hd t = CHR ''+'') then tl t else t);
         n = int (digits_val (filter is_digit u))
     in if digit_text u then Some (if neg then - n else n) else None)"

section \<open>Transactions\<close>

text \<open>
  \<open>_immediate\<close>: a ledger that is closed refuses; a \<open>LedgerError\<close> of the body is passed on, any
  other exception becomes \<open>storage_failure\<close>; both roll back, so the tables are as before the call.
\<close>

definition immediate :: "env \<Rightarrow> (ledger_db \<Rightarrow> ledger_error + 'a \<times> ledger_db) \<Rightarrow> ledger \<Rightarrow>
    (ledger_error + 'a) \<times> ledger" where
  "immediate env body l =
    (if closed l then (Inl (LedgerError ''closed'' ''ledger is closed''), l)
     else if fault env \<in> {Begin_fails, Statement_fails} then (Inl storage_failure, l)
     else case body (db l) of
         Inl (LedgerError code reason) \<Rightarrow> (Inl (LedgerError code reason), l)
       | Inl (PyError _) \<Rightarrow> (Inl storage_failure, l)
       | Inr (x, d) \<Rightarrow>
           if fault env = Commit_fails then (Inl storage_failure, l) else (Inr x, l\<lparr>db := d\<rparr>))"

text \<open>The checks of the arguments, done before the transaction is opened.\<close>

definition with_input :: "ledger_error + 'a \<Rightarrow> ('a \<Rightarrow> ledger \<Rightarrow> (ledger_error + 'b) \<times> ledger) \<Rightarrow> ledger \<Rightarrow>
    (ledger_error + 'b) \<times> ledger" where
  "with_input m k l = (case m of Inl e \<Rightarrow> (Inl e, l) | Inr x \<Rightarrow> k x l)"

definition close_ledger :: "ledger \<Rightarrow> ledger" where
  "close_ledger l = l\<lparr>closed := True\<rparr>"

text \<open>\<open>_now\<close>: the clock must be a time and must not run backwards over committed calls.\<close>

definition now_tick :: "env \<Rightarrow> ledger_db \<Rightarrow> ledger_error + int \<times> ledger_db" where
  "now_tick env d =
    (case clock_reading env of
       None \<Rightarrow> Inl (LedgerError ''clock_invalid'' ''invalid clock'')
     | Some v \<Rightarrow>
         if \<not> is_int v \<or> int_of v < 0 \<or> int_of v > MAX_TIME
         then Inl (LedgerError ''clock_invalid'' ''invalid clock'')
         else (case last_clock d of
             None \<Rightarrow> Inl invalid_database
           | Some text \<Rightarrow>
               (case py_int text of
                  None \<Rightarrow> Inl invalid_database
                | Some previous \<Rightarrow>
                    if int_of v < previous then Inl (LedgerError ''clock_rollback'' ''clock rollback'')
                    else Inr (int_of v, d\<lparr>last_clock := Some (show_int (int_of v))\<rparr>))))"

section \<open>Rows\<close>

definition run_dict :: "run_row \<Rightarrow> json" where
  "run_dict r = JObj
    [(''run_id'', JStr (run_id r)), (''profile'', JStr (profile r)),
     (''started_at'', JInt (started_at r)), (''deadline'', JInt (deadline r)),
     (''epoch0'', JInt (epoch0 r)), (''owner'', opt_str (owner r)),
     (''epoch'', JInt (owner_epoch r)), (''owner_epoch'', JInt (owner_epoch r)),
     (''lease_until'', opt_int (lease_until r)), (''lease_kind'', JStr (lease_kind r)),
     (''cancel_requested_at'', opt_int (cancel_requested_at r)),
     (''stop_confirmed_at'', opt_int (stop_confirmed_at r)),
     (''hold'', JBool (hold r)), (''hold_reason'', opt_str (hold_reason r))]"

definition operation_dict :: "op_row \<Rightarrow> json" where
  "operation_dict r = JObj
    [(''operation_id'', JStr (operation_id r)), (''run_id'', JStr (op_run_id r)),
     (''owner'', JStr (op_owner r)), (''epoch'', JInt (op_epoch r)),
     (''reserved_usd'', JStr (reserved_usd r)), (''reserved_micros'', JInt (reserved_micros r)),
     (''reserved_at'', JInt (reserved_at r)), (''settled_usd'', opt_str (settled_usd r)),
     (''settled_micros'', opt_int (settled_micros r)), (''settled_at'', opt_int (settled_at r)),
     (''status'', JStr (status r)), (''hold_reason'', opt_str (op_hold_reason r)),
     (''exposure_usd'', opt_str (exposure_usd r)), (''exposure_micros'', opt_int (exposure_micros r))]"

definition get_run :: "ledger_db \<Rightarrow> string \<Rightarrow> ledger_error + run_row" where
  "get_run d rid =
    ebind (bind_text rid) (\<lambda>_.
    case row_find run_id rid (runs d) of
      None \<Rightarrow> Inl (LedgerError ''not_found'' ''run not found'')
    | Some r \<Rightarrow> Inr r)"

definition update_run :: "string \<Rightarrow> (run_row \<Rightarrow> run_row) \<Rightarrow> ledger_db \<Rightarrow> ledger_db" where
  "update_run rid f d = d\<lparr>runs := row_update run_id rid f (runs d)\<rparr>"

definition update_operation :: "string \<Rightarrow> (op_row \<Rightarrow> op_row) \<Rightarrow> ledger_db \<Rightarrow> ledger_db" where
  "update_operation oid f d = d\<lparr>operations := row_update operation_id oid f (operations d)\<rparr>"

definition terminal_exists :: "ledger_db \<Rightarrow> string \<Rightarrow> bool" where
  "terminal_exists d rid \<longleftrightarrow> row_find stored_key rid (terminal_records d) \<noteq> None"

text \<open>\<open>_record_event\<close>.\<close>

definition record_event :: "string \<Rightarrow> string \<Rightarrow> int \<Rightarrow> string option \<Rightarrow> int \<Rightarrow> (string \<times> json) list \<Rightarrow>
    ledger_db \<Rightarrow> ledger_error + ledger_db" where
  "record_event rid kind at own epoch details d =
    (let text = dumps (JObj details) in
     ebind (guard (jutf8 (JObj details)) (PyError ''UnicodeEncodeError'')) (\<lambda>_.
     ebind (guard (length text \<le> 64 * 1024) (LedgerError ''invalid_event'' ''invalid event'')) (\<lambda>_.
     ebind (bind_text rid) (\<lambda>_.
     ebind (case own of None \<Rightarrow> Inr () | Some s \<Rightarrow> bind_text s) (\<lambda>_.
     Inr (d\<lparr>run_events := run_events d @
              [\<lparr>event_id = Suc (event_seq d), ev_run_id = rid, event_kind = kind, observed_at = at,
                ev_owner = own, ev_epoch = Some epoch, details_json = text\<rparr>],
            event_seq := Suc (event_seq d)\<rparr>))))))"

text \<open>\<open>_require_lease\<close>.\<close>

definition require_lease :: "ledger_db \<Rightarrow> string \<Rightarrow> string \<Rightarrow> json \<Rightarrow> int \<Rightarrow> bool \<Rightarrow> string option \<Rightarrow>
    ledger_error + run_row" where
  "require_lease d rid own epoch now allow_after_deadline expected_kind =
    ebind (guard (is_int epoch \<and> 1 \<le> int_of epoch \<and> int_of epoch \<le> MAX_INT64) invalid_input) (\<lambda>_.
    ebind (get_run d rid) (\<lambda>row.
    ebind (guard (case expected_kind of None \<Rightarrow> True | Some k \<Rightarrow> lease_kind row = k)
        (LedgerError ''lease_kind_invalid'' ''lease kind invalid'')) (\<lambda>_.
    ebind (guard (owner row = Some own \<and> owner_epoch row = int_of epoch)
        (LedgerError ''lease_invalid'' ''lease invalid'')) (\<lambda>_.
    ebind (guard (case lease_until row of None \<Rightarrow> False | Some t \<Rightarrow> now < t)
        (LedgerError ''lease_expired'' ''lease expired'')) (\<lambda>_.
    ebind (guard (allow_after_deadline \<or> now < deadline row)
        (LedgerError ''deadline_exceeded'' ''deadline exceeded'')) (\<lambda>_.
    ebind (guard (\<not> (allow_after_deadline \<and> now \<ge> deadline row \<and> lease_kind row \<noteq> ''recovery''))
        (LedgerError ''lease_kind_invalid'' ''lease kind invalid'')) (\<lambda>_.
    Inr row)))))))"

section \<open>Accounting\<close>

definition valid_timestamp :: "int \<Rightarrow> bool" where
  "valid_timestamp t \<longleftrightarrow> 0 \<le> t \<and> t \<le> MAX_TIME"

text \<open>The amount a stored text stands for; a text that does not parse makes the row invalid.\<close>

definition stored_amount :: "string \<Rightarrow> ledger_error + int" where
  "stored_amount s = on_error (ebind (parse_usd (JStr s)) (\<lambda>(_, m). Inr m)) (\<lambda>_. invalid_database)"

text \<open>\<open>_validate_operation_row\<close>.\<close>

definition validate_operation_row :: "op_row \<Rightarrow> ledger_error + unit" where
  "validate_operation_row r =
    ebind (guard (status r \<in> {''reserved'', ''settled''}) invalid_database) (\<lambda>_.
    ebind (stored_amount (reserved_usd r)) (\<lambda>reserved.
    ebind (guard (reserved_micros r = reserved \<and> valid_timestamp (reserved_at r)) invalid_database) (\<lambda>_.
    ebind
      (if status r = ''reserved'' then
         guard (settled_usd r = None \<and> settled_micros r = None \<and> settled_at r = None) invalid_database
       else
         (case (settled_usd r, settled_micros r, settled_at r) of
            (Some usd, Some micros, Some at) \<Rightarrow>
              ebind (stored_amount usd) (\<lambda>settled.
              guard (micros = settled \<and> valid_timestamp at) invalid_database)
          | _ \<Rightarrow> Inl invalid_database)) (\<lambda>_.
    case (exposure_usd r, exposure_micros r) of
      (None, None) \<Rightarrow> Inr ()
    | (Some usd, Some micros) \<Rightarrow>
        ebind (stored_amount usd) (\<lambda>exposure.
        ebind (guard (micros = exposure) invalid_database) (\<lambda>_.
        guard (status r = ''settled'') invalid_database))
    | _ \<Rightarrow> Inl invalid_database))))"

definition or_zero :: "int option \<Rightarrow> int" where
  "or_zero x = (case x of None \<Rightarrow> 0 | Some i \<Rightarrow> i)"

text \<open>What a checked row is charged.\<close>

definition accounted :: "op_row \<Rightarrow> int" where
  "accounted r =
    (if status r = ''settled'' then max (or_zero (settled_micros r)) (or_zero (exposure_micros r))
     else reserved_micros r)"

definition account_fold :: "(op_row \<Rightarrow> bool) \<Rightarrow> op_row list \<Rightarrow> ledger_error + int" where
  "account_fold included rows =
    ebind (efold (\<lambda>total r. ebind (validate_operation_row r) (\<lambda>_.
        Inr (if included r then total + accounted r else total))) 0 rows) (\<lambda>total.
    ebind (guard (total \<le> MAX_INT64) invalid_database) (\<lambda>_. Inr total))"

definition run_operations :: "ledger_db \<Rightarrow> string \<Rightarrow> op_row list" where
  "run_operations d rid = filter (\<lambda>r. op_run_id r = rid) (operations d)"

definition run_accounted :: "ledger_db \<Rightarrow> string \<Rightarrow> ledger_error + int" where
  "run_accounted d rid = account_fold (\<lambda>_. True) (run_operations d rid)"

text \<open>Reservations and exposures count for ever, settlements for the last 24 hours.\<close>

definition in_window :: "int \<Rightarrow> op_row \<Rightarrow> bool" where
  "in_window now r \<longleftrightarrow> status r = ''reserved'' \<or> exposure_micros r \<noteq> None \<or>
    (case settled_at r of None \<Rightarrow> False | Some t \<Rightarrow> now - WINDOW_SECONDS < t \<and> t \<le> now)"

definition global_accounted :: "ledger_db \<Rightarrow> int \<Rightarrow> ledger_error + int" where
  "global_accounted d now = account_fold (in_window now) (operations d)"

record closure =
  budget_closed :: bool
  pending_operations :: int
  unresolved_exposures :: int
  run_accounted_micros :: int
  global_accounted_micros :: int

text \<open>\<open>_budget_closure\<close>.\<close>

definition budget_closure_of :: "ledger_db \<Rightarrow> string \<Rightarrow> int \<Rightarrow> ledger_error + closure" where
  "budget_closure_of d rid now =
    ebind (get_run d rid) (\<lambda>_.
    ebind (efold (\<lambda>(pending, unresolved) r. ebind (validate_operation_row r) (\<lambda>_.
        Inr (if status r = ''reserved'' then pending + 1 else pending,
             if exposure_micros r \<noteq> None then unresolved + 1 else unresolved)))
        (0, 0) (run_operations d rid)) (\<lambda>(pending, unresolved).
    ebind (run_accounted d rid) (\<lambda>run_total.
    ebind (global_accounted d now) (\<lambda>global_total.
    Inr \<lparr>budget_closed = (pending = 0 \<and> unresolved = 0), pending_operations = pending,
         unresolved_exposures = unresolved, run_accounted_micros = run_total,
         global_accounted_micros = global_total\<rparr>))))"

definition closure_dict :: "closure \<Rightarrow> json" where
  "closure_dict c = JObj
    [(''status'', JStr (if budget_closed c then ''CLOSED'' else ''OPEN'')),
     (''pending_operations'', JInt (pending_operations c)),
     (''unresolved_exposures'', JInt (unresolved_exposures c)),
     (''run_accounted_micros'', JInt (run_accounted_micros c)),
     (''global_accounted_micros'', JInt (global_accounted_micros c)),
     (''financial_only'', JBool True), (''purpose'', JStr ''component_validation''),
     (''ci_eligible'', JBool False)]"

end
