(* ===== verification/Ledger_Ops.thy ===== *)
theory Ledger_Ops
  imports Ledger
begin

text \<open>
  The methods of \<open>Ledger\<close> (\<open>src/src/gah/ledger.py\<close>), each with the body of its transaction, and
  the machine that applies a sequence of calls to a ledger.  The first argument \<open>rl\<close> of the methods
  that print or read JSON is the recursion depth the interpreter allows.
\<close>

section \<open>Runs and leases\<close>

definition create_run_tx :: "env \<Rightarrow> string \<times> string \<Rightarrow> ledger_db \<Rightarrow> ledger_error + json \<times> ledger_db" where
  "create_run_tx env = (\<lambda>(rid, prof) d0.
    ebind (now_tick env d0) (\<lambda>(now, d).
    let duration = (if prof = ''pr'' then 1200 else 5400) in
    ebind (guard (now \<le> MAX_TIME - duration) invalid_input) (\<lambda>_.
    ebind (bind_text rid) (\<lambda>_.
    ebind (guard (row_find run_id rid (runs d) = None)
        (LedgerError ''duplicate'' ''run already exists'')) (\<lambda>_.
    let row = \<lparr>run_id = rid, profile = prof, started_at = now, deadline = now + duration, epoch0 = 0,
               owner = None, owner_epoch = 0, lease_until = None, lease_kind = ''execution'',
               cancel_requested_at = None, stop_confirmed_at = None, hold = False, hold_reason = None\<rparr> in
    ebind (record_event rid ''run_created'' now None 0 [(''profile'', JStr prof)]
        (d\<lparr>runs := runs d @ [row]\<rparr>)) (\<lambda>d'.
    ebind (get_run d' rid) (\<lambda>r. Inr (run_dict r, d'))))))))"

definition create_run :: "env \<Rightarrow> json \<Rightarrow> json \<Rightarrow> ledger \<Rightarrow> (ledger_error + json) \<times> ledger" where
  "create_run env rid prof =
    with_input
      (ebind (validate_id rid) (\<lambda>rid'.
       ebind (guard (is_str prof \<and> RUN_LIMITS (str_of prof) \<noteq> None) invalid_input) (\<lambda>_.
       Inr (rid', str_of prof))))
      (\<lambda>a. immediate env (create_run_tx env a))"

text \<open>The lease of the row has an owner and has not run out.\<close>

definition lease_valid :: "run_row \<Rightarrow> int \<Rightarrow> bool" where
  "lease_valid r now \<longleftrightarrow> owner r \<noteq> None \<and> (case lease_until r of None \<Rightarrow> False | Some t \<Rightarrow> now < t)"

definition lease_dict :: "string \<Rightarrow> string \<Rightarrow> int \<Rightarrow> int \<Rightarrow> (string \<times> json) list" where
  "lease_dict rid own epoch until =
    [(''run_id'', JStr rid), (''owner'', JStr own), (''epoch'', JInt epoch),
     (''owner_epoch'', JInt epoch), (''lease_until'', JInt until)]"

definition claim_tx :: "env \<Rightarrow> string \<times> string \<Rightarrow> ledger_db \<Rightarrow> ledger_error + json \<times> ledger_db" where
  "claim_tx env = (\<lambda>(rid, own) d0.
    ebind (now_tick env d0) (\<lambda>(now, d).
    ebind (get_run d rid) (\<lambda>row.
    ebind (guard (now < deadline row) (LedgerError ''deadline_exceeded'' ''deadline exceeded'')) (\<lambda>_.
    ebind (guard (\<not> (lease_kind row \<noteq> ''execution'' \<or> cancel_requested_at row \<noteq> None \<or>
          stop_confirmed_at row \<noteq> None \<or> hold row))
        (LedgerError ''execution_closed'' ''execution closed'')) (\<lambda>_.
    ebind (guard (\<not> terminal_exists d rid) (LedgerError ''execution_closed'' ''execution closed'')) (\<lambda>_.
    ebind (guard (0 \<le> owner_epoch row \<and> owner_epoch row \<le> MAX_INT64) invalid_database) (\<lambda>_.
    let valid = lease_valid row now in
    ebind (guard (valid \<longrightarrow> owner row = Some own) (LedgerError ''lease_busy'' ''lease is held'')) (\<lambda>_.
    let epoch = (if valid then owner_epoch row else owner_epoch row + 1);
        new_lease = min (deadline row) (now + LEASE_SECONDS) in
    ebind (guard (epoch \<le> MAX_INT64) invalid_input) (\<lambda>_.
    ebind (bind_text own) (\<lambda>_.
    let d1 = update_run rid (\<lambda>r. r\<lparr>owner := Some own, owner_epoch := epoch,
          lease_until := Some new_lease, lease_kind := ''execution''\<rparr>) d in
    ebind (record_event rid ''execution_claimed'' now (Some own) epoch
        [(''lease_until'', JInt new_lease)] d1) (\<lambda>d'.
    Inr (JObj (lease_dict rid own epoch new_lease), d'))))))))))))"

definition two_ids :: "json \<Rightarrow> json \<Rightarrow> ledger_error + string \<times> string" where
  "two_ids rid own = ebind (validate_id rid) (\<lambda>r. ebind (validate_owner own) (\<lambda>w. Inr (r, w)))"

definition claim :: "env \<Rightarrow> json \<Rightarrow> json \<Rightarrow> ledger \<Rightarrow> (ledger_error + json) \<times> ledger" where
  "claim env rid own = with_input (two_ids rid own) (\<lambda>a. immediate env (claim_tx env a))"

text \<open>A run whose regular execution is over, by time or by decision.\<close>

definition recovery_eligible :: "ledger_db \<Rightarrow> run_row \<Rightarrow> int \<Rightarrow> bool" where
  "recovery_eligible d row now \<longleftrightarrow> deadline row \<le> now \<or> cancel_requested_at row \<noteq> None \<or>
     stop_confirmed_at row \<noteq> None \<or> hold row \<or> terminal_exists d (run_id row)"

definition claim_recovery_tx :: "env \<Rightarrow> string \<times> string \<Rightarrow> ledger_db \<Rightarrow> ledger_error + json \<times> ledger_db" where
  "claim_recovery_tx env = (\<lambda>(rid, own) d0.
    ebind (now_tick env d0) (\<lambda>(now, d).
    ebind (get_run d rid) (\<lambda>row.
    ebind (guard (recovery_eligible d row now) (LedgerError ''recovery_not_allowed'' ''recovery not allowed'')) (\<lambda>_.
    let current_valid = lease_valid row now in
    ebind (guard (\<not> (current_valid \<and> owner row \<noteq> Some own))
        (LedgerError ''lease_busy'' ''lease is held'')) (\<lambda>_.
    ebind (guard (0 \<le> owner_epoch row \<and> owner_epoch row \<le> MAX_INT64) invalid_database) (\<lambda>_.
    let epoch = (if current_valid \<and> lease_kind row = ''recovery'' then owner_epoch row
                 else owner_epoch row + 1);
        until = now + LEASE_SECONDS in
    ebind (guard (epoch \<le> MAX_INT64 \<and> now \<le> MAX_TIME - LEASE_SECONDS) invalid_input) (\<lambda>_.
    ebind (bind_text own) (\<lambda>_.
    let d1 = update_run rid (\<lambda>r. r\<lparr>owner := Some own, owner_epoch := epoch,
          lease_until := Some until, lease_kind := ''recovery''\<rparr>) d in
    ebind (record_event rid ''recovery_claimed'' now (Some own) epoch
        [(''lease_until'', JInt until)] d1) (\<lambda>d'.
    Inr (JObj (lease_dict rid own epoch until @ [(''lease_kind'', JStr ''recovery'')]), d'))))))))))"

definition claim_recovery :: "env \<Rightarrow> json \<Rightarrow> json \<Rightarrow> ledger \<Rightarrow> (ledger_error + json) \<times> ledger" where
  "claim_recovery env rid own = with_input (two_ids rid own) (\<lambda>a. immediate env (claim_recovery_tx env a))"

section \<open>Reservations and settlements\<close>

definition operation_input :: "json \<Rightarrow> json \<Rightarrow> json \<Rightarrow> json \<Rightarrow> ledger_error + string \<times> string \<times> string \<times> string \<times> int" where
  "operation_input rid own oid usd =
    ebind (validate_id rid) (\<lambda>r.
    ebind (validate_owner own) (\<lambda>w.
    ebind (validate_id oid) (\<lambda>i.
    ebind (parse_usd usd) (\<lambda>(text, micros).
    Inr (r, w, i, text, micros)))))"

text \<open>\<open>_RUN_LIMITS[run["profile"]]\<close>.\<close>

definition run_limit :: "run_row \<Rightarrow> ledger_error + int" where
  "run_limit run = (case RUN_LIMITS (profile run) of None \<Rightarrow> Inl (PyError ''KeyError'') | Some l \<Rightarrow> Inr l)"

text \<open>A new reservation: both budgets are checked with the new amount before anything is written.\<close>

definition reserve_new_tx :: "string \<Rightarrow> string \<Rightarrow> int \<Rightarrow> string \<Rightarrow> string \<Rightarrow> int \<Rightarrow> int \<Rightarrow> run_row \<Rightarrow> ledger_db \<Rightarrow>
    ledger_error + json \<times> ledger_db" where
  "reserve_new_tx rid own epoch oid usd micros now run d =
    ebind (guard (\<not> hold run) (LedgerError ''hold'' ''run is on hold'')) (\<lambda>_.
    ebind (run_accounted d rid) (\<lambda>run_total.
    ebind (global_accounted d now) (\<lambda>global_total.
    ebind (run_limit run) (\<lambda>limit.
    ebind (guard (run_total + micros \<le> limit)
        (LedgerError ''budget_exceeded'' ''run budget exceeded'')) (\<lambda>_.
    ebind (guard (global_total + micros \<le> GLOBAL_LIMIT)
        (LedgerError ''budget_exceeded'' ''global budget exceeded'')) (\<lambda>_.
    let row = \<lparr>operation_id = oid, op_run_id = rid, op_owner = own, op_epoch = epoch,
               reserved_usd = usd, reserved_micros = micros, reserved_at = now, settled_usd = None,
               settled_micros = None, settled_at = None, status = ''reserved'', op_hold_reason = None,
               exposure_usd = None, exposure_micros = None\<rparr> in
    ebind (record_event rid ''operation_reserved'' now (Some own) epoch
        [(''operation_id'', JStr oid), (''reserved_micros'', JInt micros)]
        (d\<lparr>operations := operations d @ [row]\<rparr>)) (\<lambda>d'.
    Inr (operation_dict row, d'))))))))"

definition reserve_tx :: "env \<Rightarrow> json \<Rightarrow> string \<times> string \<times> string \<times> string \<times> int \<Rightarrow> ledger_db \<Rightarrow>
    ledger_error + json \<times> ledger_db" where
  "reserve_tx env epoch = (\<lambda>(rid, own, oid, usd, micros) d0.
    ebind (now_tick env d0) (\<lambda>(now, d).
    ebind (require_lease d rid own epoch now False (Some ''execution'')) (\<lambda>run.
    ebind (guard (cancel_requested_at run = None \<and> stop_confirmed_at run = None)
        (LedgerError ''execution_closed'' ''execution closed'')) (\<lambda>_.
    ebind (guard (\<not> terminal_exists d rid) (LedgerError ''execution_closed'' ''execution closed'')) (\<lambda>_.
    ebind (bind_text oid) (\<lambda>_.
    case row_find operation_id oid (operations d) of
      Some existing \<Rightarrow>
        ebind (validate_operation_row existing) (\<lambda>_.
        ebind (guard (op_run_id existing = rid \<and> reserved_micros existing = micros \<and>
              decimal_equal (reserved_usd existing) usd)
            (LedgerError ''conflict'' ''operation binding conflict'')) (\<lambda>_.
        Inr (operation_dict existing, d)))
    | None \<Rightarrow> reserve_new_tx rid own (int_of epoch) oid usd micros now run d))))))"

definition reserve :: "env \<Rightarrow> json \<Rightarrow> json \<Rightarrow> json \<Rightarrow> json \<Rightarrow> json \<Rightarrow> ledger \<Rightarrow>
    (ledger_error + json) \<times> ledger" where
  "reserve env rid own epoch oid usd =
    with_input (operation_input rid own oid usd) (\<lambda>a. immediate env (reserve_tx env epoch a))"

text \<open>
  The conflicting settlement of a settled operation: the settled amount stays, the largest amount ever
  claimed is kept as an exposure and the run is put on hold.
\<close>

definition conflict_exposure :: "op_row \<Rightarrow> string \<Rightarrow> int \<Rightarrow> string option \<times> int" where
  "conflict_exposure op usd micros =
    (let exposure = max (max (or_zero (settled_micros op)) (or_zero (exposure_micros op))) micros
     in (if exposure = micros then Some usd
         else if exposure = or_zero (settled_micros op) then settled_usd op
         else exposure_usd op, exposure))"

definition hold_run :: "string \<Rightarrow> string \<Rightarrow> ledger_db \<Rightarrow> ledger_db" where
  "hold_run rid reason = update_run rid (\<lambda>r. r\<lparr>hold := True, hold_reason := Some reason\<rparr>)"

text \<open>
  \<open>settle\<close>: the error of a conflict or of an excess is raised after the hold has been committed, so
  the transaction returns it as a value.
\<close>

definition settle_conflict_tx :: "string \<Rightarrow> string \<Rightarrow> int \<Rightarrow> int \<Rightarrow> op_row \<Rightarrow> string \<Rightarrow> int \<Rightarrow> ledger_db \<Rightarrow>
    ledger_error + (ledger_error + json) \<times> ledger_db" where
  "settle_conflict_tx rid own epoch now op usd micros d =
    (let oid = operation_id op;
         (exposure_usd', exposure) = conflict_exposure op usd micros;
         d1 = hold_run rid ''settlement_conflict''
           (update_operation oid (\<lambda>r. r\<lparr>exposure_usd := exposure_usd', exposure_micros := Some exposure\<rparr>) d) in
     ebind (if exposure > or_zero (exposure_micros op)
            then record_event rid ''settlement_conflict'' now (Some own) epoch
                   [(''operation_id'', JStr oid), (''exposure_micros'', JInt exposure)] d1
            else Inr d1) (\<lambda>d'.
     Inr (Inl (LedgerError ''conflict'' ''settlement conflict''), d')))"

definition settle_first_tx :: "string \<Rightarrow> string \<Rightarrow> int \<Rightarrow> int \<Rightarrow> op_row \<Rightarrow> string \<Rightarrow> int \<Rightarrow> ledger_db \<Rightarrow>
    ledger_error + (ledger_error + json) \<times> ledger_db" where
  "settle_first_tx rid own epoch now op usd micros d =
    (let oid = operation_id op;
         over = micros > reserved_micros op;
         reason = (if over then Some ''settlement_over_reservation'' else None);
         settled = (\<lambda>r. r\<lparr>settled_usd := Some usd, settled_micros := Some micros, settled_at := Some now,
           status := ''settled'', op_hold_reason := reason\<rparr>);
         d1 = update_operation oid settled d in
     if over then
       ebind (record_event rid ''operation_settled_over_reservation'' now (Some own) epoch
           [(''operation_id'', JStr oid), (''settled_micros'', JInt micros)]
           (hold_run rid ''settlement_over_reservation'' d1)) (\<lambda>d'.
       Inr (Inl (LedgerError ''budget_violation'' ''settlement exceeds reservation''), d'))
     else
       ebind (record_event rid ''operation_settled'' now (Some own) epoch
           [(''operation_id'', JStr oid), (''settled_micros'', JInt micros)] d1) (\<lambda>d'.
       Inr (Inr (operation_dict (settled op)), d')))"

definition settle_tx :: "env \<Rightarrow> json \<Rightarrow> string \<times> string \<times> string \<times> string \<times> int \<Rightarrow> ledger_db \<Rightarrow>
    ledger_error + (ledger_error + json) \<times> ledger_db" where
  "settle_tx env epoch = (\<lambda>(rid, own, oid, usd, micros) d0.
    ebind (now_tick env d0) (\<lambda>(now, d).
    ebind (require_lease d rid own epoch now True None) (\<lambda>run.
    ebind (bind_text oid) (\<lambda>_.
    ebind (case row_find operation_id oid (operations d) of
             None \<Rightarrow> Inl (LedgerError ''not_found'' ''operation not found'')
           | Some op \<Rightarrow>
               if op_run_id op \<noteq> rid then Inl (LedgerError ''not_found'' ''operation not found'')
               else Inr op) (\<lambda>op.
    ebind (validate_operation_row op) (\<lambda>_.
    if status op = ''settled'' then
      if settled_micros op = Some micros \<and> decimal_equal (case settled_usd op of None \<Rightarrow> [] | Some s \<Rightarrow> s) usd
      then Inr (Inr (operation_dict op), d)
      else settle_conflict_tx rid own (int_of epoch) now op usd micros d
    else if status op \<noteq> ''reserved'' then Inl (LedgerError ''conflict'' ''operation state conflict'')
    else settle_first_tx rid own (int_of epoch) now op usd micros d))))))"

definition settle :: "env \<Rightarrow> json \<Rightarrow> json \<Rightarrow> json \<Rightarrow> json \<Rightarrow> json \<Rightarrow> ledger \<Rightarrow>
    (ledger_error + json) \<times> ledger" where
  "settle env rid own epoch oid usd l =
    (case with_input (operation_input rid own oid usd) (\<lambda>a. immediate env (settle_tx env epoch a)) l of
       (Inl e, l') \<Rightarrow> (Inl e, l')
     | (Inr (Inl deferred_error), l') \<Rightarrow> (Inl deferred_error, l')
     | (Inr (Inr result), l') \<Rightarrow> (Inr result, l'))"

section \<open>Cancellation, stop and closure\<close>

text \<open>After the terminal record a request is only noted, once for an epoch.\<close>

definition note_after_terminal :: "string \<Rightarrow> string \<Rightarrow> int \<Rightarrow> string \<Rightarrow> int \<Rightarrow> ledger_db \<Rightarrow>
    ledger_error + json \<times> ledger_db" where
  "note_after_terminal rid own epoch kind now d =
    ebind (if \<exists>e \<in> set (run_events d). ev_run_id e = rid \<and> ev_epoch e = Some epoch \<and> event_kind e = kind
           then Inr d
           else record_event rid kind now (Some own) epoch [] d) (\<lambda>d'.
    Inr (JObj [(''run_id'', JStr rid), (''status'', JStr ''already_terminal'')], d'))"

definition request_cancel_tx :: "env \<Rightarrow> json \<Rightarrow> string \<times> string \<Rightarrow> ledger_db \<Rightarrow>
    ledger_error + json \<times> ledger_db" where
  "request_cancel_tx env epoch = (\<lambda>(rid, own) d0.
    ebind (now_tick env d0) (\<lambda>(now, d).
    ebind (require_lease d rid own epoch now True None) (\<lambda>row.
    if terminal_exists d rid then note_after_terminal rid own (int_of epoch) ''cancel_after_terminal'' now d
    else
      ebind (if cancel_requested_at row = None
             then record_event rid ''cancel_requested'' now (Some own) (int_of epoch) []
                    (update_run rid (\<lambda>r. r\<lparr>cancel_requested_at := Some now\<rparr>) d)
             else Inr d) (\<lambda>d'.
      ebind (get_run d' rid) (\<lambda>r.
      Inr (JObj [(''run_id'', JStr rid), (''status'', JStr ''requested''),
                 (''cancel_requested_at'', opt_int (cancel_requested_at r))], d'))))))"

definition request_cancel :: "env \<Rightarrow> json \<Rightarrow> json \<Rightarrow> json \<Rightarrow> ledger \<Rightarrow> (ledger_error + json) \<times> ledger" where
  "request_cancel env rid own epoch =
    with_input (two_ids rid own) (\<lambda>a. immediate env (request_cancel_tx env epoch a))"

definition confirm_stopped_tx :: "env \<Rightarrow> json \<Rightarrow> string \<times> string \<Rightarrow> ledger_db \<Rightarrow>
    ledger_error + json \<times> ledger_db" where
  "confirm_stopped_tx env epoch = (\<lambda>(rid, own) d0.
    ebind (now_tick env d0) (\<lambda>(now, d).
    ebind (require_lease d rid own epoch now True None) (\<lambda>row.
    if terminal_exists d rid then note_after_terminal rid own (int_of epoch) ''stop_after_terminal'' now d
    else
      ebind (if stop_confirmed_at row = None
             then record_event rid ''stopped_confirmed'' now (Some own) (int_of epoch) []
                    (update_run rid (\<lambda>r. r\<lparr>stop_confirmed_at := Some now\<rparr>) d)
             else Inr d) (\<lambda>d'.
      ebind (get_run d' rid) (\<lambda>r.
      Inr (JObj [(''run_id'', JStr rid), (''status'', JStr ''confirmed''),
                 (''stop_confirmed_at'', opt_int (stop_confirmed_at r))], d'))))))"

definition confirm_stopped :: "env \<Rightarrow> json \<Rightarrow> json \<Rightarrow> json \<Rightarrow> ledger \<Rightarrow> (ledger_error + json) \<times> ledger" where
  "confirm_stopped env rid own epoch =
    with_input (two_ids rid own) (\<lambda>a. immediate env (confirm_stopped_tx env epoch a))"

definition budget_closure_tx :: "env \<Rightarrow> string \<Rightarrow> ledger_db \<Rightarrow> ledger_error + json \<times> ledger_db" where
  "budget_closure_tx env rid d0 =
    ebind (now_tick env d0) (\<lambda>(now, d).
    ebind (budget_closure_of d rid now) (\<lambda>c. Inr (closure_dict c, d)))"

definition budget_closure :: "env \<Rightarrow> json \<Rightarrow> ledger \<Rightarrow> (ledger_error + json) \<times> ledger" where
  "budget_closure env rid = with_input (validate_id rid) (\<lambda>r. immediate env (budget_closure_tx env r))"

section \<open>Stored documents\<close>

text \<open>\<open>json.dumps(..., allow_nan=False)\<close> and its encoding, within the recursion limit.\<close>

definition report_text :: "nat \<Rightarrow> json \<Rightarrow> ledger_error + string" where
  "report_text rl v =
    (if jdepth v > rl then Inl (PyError ''RecursionError'')
     else case canonical_bytes v of
         Inl _ \<Rightarrow> Inl (LedgerError ''invalid_report'' ''invalid report'')
       | Inr text \<Rightarrow>
           if length text > MAX_REPORT_BYTES then Inl (LedgerError ''input_too_large'' ''input too large'')
           else Inr text)"

text \<open>\<open>_verify_report_parts\<close>.\<close>

definition verify_report_parts :: "nat \<Rightarrow> stored_row \<Rightarrow> ledger_error + json" where
  "verify_report_parts rl row =
    ebind (guard (utf8_ok (canonical_json row)) invalid_database) (\<lambda>_.
    ebind (guard (stored_payload row = canonical_json row) invalid_database) (\<lambda>_.
    ebind (guard (sha256_hex (stored_payload row) = stored_sha256 row) invalid_database) (\<lambda>_.
    case loads plain_hooks rl (canonical_json row) of
      Inl JRecursion \<Rightarrow> Inl (PyError ''RecursionError'')
    | Inl _ \<Rightarrow> Inl invalid_database
    | Inr value \<Rightarrow> ebind (guard (is_obj value) invalid_database) (\<lambda>_. Inr value))))"

abbreviation corrupted_terminal :: ledger_error where
  "corrupted_terminal \<equiv> LedgerError ''storage_failure'' ''stored terminal corrupted''"

abbreviation corrupted_report :: ledger_error where
  "corrupted_report \<equiv> LedgerError ''storage_failure'' ''stored report corrupted''"

text \<open>An error of class \<open>LedgerError\<close> is replaced, any other passes.\<close>

definition replace_ledger_error :: "ledger_error \<Rightarrow> ledger_error + 'a \<Rightarrow> ledger_error + 'a" where
  "replace_ledger_error e m =
    on_error m (\<lambda>e'. case e' of LedgerError _ _ \<Rightarrow> e | PyError c \<Rightarrow> PyError c)"

text \<open>\<open>_verified_terminal\<close> and \<open>_verified_report\<close>.\<close>

definition component_only :: "json \<Rightarrow> bool" where
  "component_only v \<longleftrightarrow> jlookup v ''purpose'' = Some (JStr ''component_validation'') \<and>
     jlookup v ''ci_eligible'' = Some (JBool False)"

definition verified_terminal :: "nat \<Rightarrow> stored_row \<Rightarrow> ledger_error + json" where
  "verified_terminal rl row =
    ebind (replace_ledger_error corrupted_terminal (verify_report_parts rl row)) (\<lambda>value.
    ebind (guard (component_only value \<and> jlookup value ''run_id'' = Some (JStr (stored_key row)))
        corrupted_terminal) (\<lambda>_. Inr value))"

definition verified_report :: "nat \<Rightarrow> stored_row \<Rightarrow> ledger_error + json" where
  "verified_report rl row =
    ebind (replace_ledger_error corrupted_report (verify_report_parts rl row)) (\<lambda>value.
    ebind (guard (component_only value) corrupted_report) (\<lambda>_. Inr value))"

definition store_report_tx :: "nat \<Rightarrow> env \<Rightarrow> string \<times> string \<times> json \<Rightarrow> ledger_db \<Rightarrow>
    ledger_error + json \<times> ledger_db" where
  "store_report_tx rl env = (\<lambda>(qid, text, report) d0.
    let digest = sha256_hex text in
    ebind (now_tick env d0) (\<lambda>(now, d).
    ebind (bind_text qid) (\<lambda>_.
    case row_find stored_key qid (reports d) of
      Some row \<Rightarrow>
        ebind (guard (stored_sha256 row = digest \<and> canonical_json row = text)
            (LedgerError ''conflict'' ''report conflict'')) (\<lambda>_.
        ebind (verified_report rl row) (\<lambda>value.
        Inr (JObj [(''request_id'', JStr qid), (''sha256'', JStr (stored_sha256 row)), (''report'', value)], d)))
    | None \<Rightarrow>
        Inr (JObj [(''request_id'', JStr qid), (''sha256'', JStr digest), (''report'', report)],
             d\<lparr>reports := reports d @ [\<lparr>stored_key = qid, canonical_json = text, stored_payload = text,
                                        stored_sha256 = digest\<rparr>]\<rparr>))))"

definition store_report :: "nat \<Rightarrow> env \<Rightarrow> json \<Rightarrow> json \<Rightarrow> ledger \<Rightarrow> (ledger_error + json) \<times> ledger" where
  "store_report rl env qid report =
    with_input
      (ebind (validate_id qid) (\<lambda>q.
       ebind (guard (is_obj report) invalid_input) (\<lambda>_.
       ebind (guard (component_only report) (LedgerError ''invalid_report'' ''invalid report'')) (\<lambda>_.
       ebind (report_text rl report) (\<lambda>text. Inr (q, text, report))))))
      (\<lambda>a. immediate env (store_report_tx rl env a))"

definition get_report_tx :: "nat \<Rightarrow> env \<Rightarrow> string \<Rightarrow> ledger_db \<Rightarrow> ledger_error + json \<times> ledger_db" where
  "get_report_tx rl env qid d0 =
    ebind (now_tick env d0) (\<lambda>(now, d).
    ebind (bind_text qid) (\<lambda>_.
    case row_find stored_key qid (reports d) of
      None \<Rightarrow> Inl (LedgerError ''not_found'' ''report not found'')
    | Some row \<Rightarrow> ebind (verified_report rl row) (\<lambda>value. Inr (value, d))))"

definition get_report :: "nat \<Rightarrow> env \<Rightarrow> json \<Rightarrow> ledger \<Rightarrow> (ledger_error + json) \<times> ledger" where
  "get_report rl env qid = with_input (validate_id qid) (\<lambda>q. immediate env (get_report_tx rl env q))"

section \<open>Terminal records\<close>

text \<open>The body that is returned and stored.\<close>

definition terminal_body :: "terminal_decision \<Rightarrow> run_row \<Rightarrow> string \<Rightarrow> int \<Rightarrow> int \<Rightarrow> closure \<Rightarrow> json" where
  "terminal_body dec run own epoch now c = JObj (decision_fields dec @
    [(''run_id'', JStr (run_id run)), (''owner'', JStr own), (''owner_epoch'', JInt epoch),
     (''finalized_at'', if execution_status dec \<noteq> WAITING then JInt now else JNull),
     (''deadline'', JInt (deadline run)), (''budget_closure'', closure_dict c),
     (''ledger_hold_reason'', if hold run then opt_str (hold_reason run) else JNull)])"

text \<open>A run on hold is never better than HOLD.\<close>

definition effective_assurance :: "run_row \<Rightarrow> json \<Rightarrow> json" where
  "effective_assurance run a = (if hold run then JStr ''HOLD'' else a)"

definition finalize_tx :: "nat \<Rightarrow> env \<Rightarrow> json \<Rightarrow> json \<Rightarrow> bool \<Rightarrow> bool \<Rightarrow> string \<times> string \<Rightarrow> ledger_db \<Rightarrow>
    ledger_error + json \<times> ledger_db" where
  "finalize_tx rl env epoch a work_complete required_failure = (\<lambda>(rid, own) d0.
    ebind (now_tick env d0) (\<lambda>(now, d).
    ebind (require_lease d rid own epoch now True None) (\<lambda>run.
    case row_find stored_key rid (terminal_records d) of
      Some existing \<Rightarrow> ebind (verified_terminal rl existing) (\<lambda>value. Inr (value, d))
    | None \<Rightarrow>
        ebind (budget_closure_of d rid now) (\<lambda>c.
        ebind (on_error (decide_terminal (JBool (cancel_requested_at run \<noteq> None))
            (JBool (stop_confirmed_at run \<noteq> None)) (JBool (deadline run \<le> now)) (JBool work_complete)
            (JBool required_failure) (JBool (budget_closed c))
            (effective_assurance run a)) (\<lambda>_. PyError ''ValueError'')) (\<lambda>dec.
        let body = terminal_body dec run own (int_of epoch) now c in
        if execution_status dec = WAITING then Inr (body, d)
        else
          ebind (report_text rl body) (\<lambda>text.
          ebind (record_event rid ''terminal_finalized'' now (Some own) (int_of epoch)
              [(''execution_status'', JStr (status_name (execution_status dec))),
               (''exit_code'', opt_int (exit_code dec))]
              (d\<lparr>terminal_records := terminal_records d @
                  [\<lparr>stored_key = rid, canonical_json = text, stored_payload = text,
                    stored_sha256 = sha256_hex text\<rparr>]\<rparr>)) (\<lambda>d'.
          Inr (body, d'))))))))"

definition finalize :: "nat \<Rightarrow> env \<Rightarrow> json \<Rightarrow> json \<Rightarrow> json \<Rightarrow> json \<Rightarrow> json \<Rightarrow> json \<Rightarrow> ledger \<Rightarrow>
    (ledger_error + json) \<times> ledger" where
  "finalize rl env rid own epoch a work_complete required_failure =
    with_input
      (ebind (two_ids rid own) (\<lambda>ids.
       ebind (guard (is_bool work_complete \<and> is_bool required_failure \<and> parse_assurance a \<noteq> None)
           (PyError ''ValueError'')) (\<lambda>_. Inr ids)))
      (\<lambda>ids. immediate env
        (finalize_tx rl env epoch a (bool_of work_complete) (bool_of required_failure) ids))"

definition get_terminal_tx :: "nat \<Rightarrow> env \<Rightarrow> string \<Rightarrow> ledger_db \<Rightarrow> ledger_error + json \<times> ledger_db" where
  "get_terminal_tx rl env rid d0 =
    ebind (now_tick env d0) (\<lambda>(now, d).
    ebind (bind_text rid) (\<lambda>_.
    case row_find stored_key rid (terminal_records d) of
      None \<Rightarrow> Inl (LedgerError ''not_found'' ''terminal not found'')
    | Some row \<Rightarrow> ebind (verified_terminal rl row) (\<lambda>value. Inr (value, d))))"

definition get_terminal :: "nat \<Rightarrow> env \<Rightarrow> json \<Rightarrow> ledger \<Rightarrow> (ledger_error + json) \<times> ledger" where
  "get_terminal rl env rid = with_input (validate_id rid) (\<lambda>r. immediate env (get_terminal_tx rl env r))"

definition snapshot_tx :: "env \<Rightarrow> string \<Rightarrow> ledger_db \<Rightarrow> ledger_error + json \<times> ledger_db" where
  "snapshot_tx env rid d0 =
    ebind (now_tick env d0) (\<lambda>(now, d).
    ebind (get_run d rid) (\<lambda>run.
    ebind (run_accounted d rid) (\<lambda>run_total.
    ebind (global_accounted d now) (\<lambda>global_total.
    Inr (JObj [(''run'', run_dict run),
               (''operations'', JList (map operation_dict (sort_key operation_id (run_operations d rid)))),
               (''run_accounted_micros'', JInt run_total),
               (''global_accounted_micros'', JInt global_total)], d)))))"

definition snapshot :: "env \<Rightarrow> json \<Rightarrow> ledger \<Rightarrow> (ledger_error + json) \<times> ledger" where
  "snapshot env rid = with_input (validate_id rid) (\<lambda>r. immediate env (snapshot_tx env r))"

section \<open>Sequences of calls\<close>

datatype ledger_call =
    Create_run json json
  | Claim json json
  | Claim_recovery json json
  | Reserve json json json json json
  | Settle json json json json json
  | Request_cancel json json json
  | Confirm_stopped json json json
  | Budget_closure json
  | Finalize json json json json json json
  | Get_terminal json
  | Snapshot json
  | Store_report json json
  | Get_report json
  | Close_ledger

fun call_ledger :: "nat \<Rightarrow> env \<times> ledger_call \<Rightarrow> ledger \<Rightarrow> (ledger_error + json) \<times> ledger" where
  "call_ledger rl (env, Create_run rid prof) = create_run env rid prof"
| "call_ledger rl (env, Claim rid own) = claim env rid own"
| "call_ledger rl (env, Claim_recovery rid own) = claim_recovery env rid own"
| "call_ledger rl (env, Reserve rid own epoch oid usd) = reserve env rid own epoch oid usd"
| "call_ledger rl (env, Settle rid own epoch oid usd) = settle env rid own epoch oid usd"
| "call_ledger rl (env, Request_cancel rid own epoch) = request_cancel env rid own epoch"
| "call_ledger rl (env, Confirm_stopped rid own epoch) = confirm_stopped env rid own epoch"
| "call_ledger rl (env, Budget_closure rid) = budget_closure env rid"
| "call_ledger rl (env, Finalize rid own epoch a wc rf) = finalize rl env rid own epoch a wc rf"
| "call_ledger rl (env, Get_terminal rid) = get_terminal rl env rid"
| "call_ledger rl (env, Snapshot rid) = snapshot env rid"
| "call_ledger rl (env, Store_report qid report) = store_report rl env qid report"
| "call_ledger rl (env, Get_report qid) = get_report rl env qid"
| "call_ledger rl (env, Close_ledger) = (\<lambda>l. (Inr JNull, close_ledger l))"

text \<open>The ledger that \<open>_create_schema\<close> leaves behind.\<close>

definition empty_db :: ledger_db where
  "empty_db = \<lparr>last_clock = Some ''-1'', runs = [], operations = [], reports = [],
    terminal_records = [], run_events = [], event_seq = 0\<rparr>"

definition new_ledger :: ledger where
  "new_ledger = \<lparr>db = empty_db, closed = False\<rparr>"

end
