(* ===== verification/Ledger_Spec.thy ===== *)
theory Ledger_Spec
  imports Ledger_Ops
begin

text \<open>
  What a committed call of the ledger may do, as an abstract step relation: \<open>effect now actor\<close> lists
  the changes of the tables with the conditions under which they happen, where \<open>actor\<close> is the lease
  (owner and epoch) the caller proved to hold.  \<open>call_ledger_cases\<close> shows that a call either leaves
  the ledger as it is, closes it, or commits one such effect after moving the clock, with events
  appended.
\<close>

section \<open>Reading the clock\<close>

lemma show_int_nat: "0 \<le> i \<Longrightarrow> show_int i = show_nat (nat i)"
  by (simp add: show_int_def)

lemma digit_not_space: "is_digit c \<Longrightarrow> \<not> py_space (ord c)"
  by (auto simp: is_digit_def py_space_def)

lemma strip_id:
  assumes "s \<noteq> []" and "\<not> py_space (ord (hd s))" and "\<not> py_space (ord (last s))"
  shows "strip s = s"
proof -
  have "dropWhile (\<lambda>c. py_space (ord c)) s = s" using assms by (cases s) auto
  moreover have "dropWhile (\<lambda>c. py_space (ord c)) (rev s) = rev s"
    using assms by (cases s rule: rev_cases) auto
  ultimately show ?thesis by (simp add: strip_def)
qed

lemma digit_text_digits:
  assumes "u \<noteq> []" and "list_all is_digit u" and "length u \<le> max_str_digits"
  shows "digit_text u \<and> filter is_digit u = u"
proof -
  have all: "\<forall>c \<in> set u. is_digit c" using assms(2) by (simp add: list_all_iff)
  have "\<not> is_digit (CHR ''_'')" by (simp add: is_digit_def)
  then have "\<not> sublist ''__'' u" using all by (auto simp: sublist_def)
  moreover have "filter is_digit u = u" using all by simp
  ultimately show ?thesis using assms all by (auto simp: digit_text_def list_all_iff)
qed

lemma py_int_show:
  assumes "0 \<le> i" and "i < 10 ^ 20"
  shows "py_int (show_int i) = Some i"
proof -
  let ?s = "show_nat (nat i)"
  have digs: "list_all is_digit ?s" using show_nat_digits by (auto simp: list_all_iff)
  have "nat i < 10 ^ Suc 19" using assms by simp
  then have "length ?s \<le> 20" using show_nat_length[of "nat i" 19] by simp
  then have d: "digit_text ?s \<and> filter is_digit ?s = ?s"
    using digs by (intro digit_text_digits) (auto simp: max_str_digits_def)
  have hl: "is_digit (hd ?s)" "is_digit (last ?s)" using digs by (auto simp: list_all_iff)
  then have st: "strip ?s = ?s" using digit_not_space by (intro strip_id) auto
  have "hd ?s \<noteq> CHR ''-''" "hd ?s \<noteq> CHR ''+''" using hl by (auto simp: is_digit_def)
  then show ?thesis
    using st d assms by (simp add: py_int_def Let_def show_int_nat digits_val_show)
qed

lemma py_int_minus_one: "py_int ''-1'' = Some (- 1)"
proof -
  have d: "is_digit (CHR ''1'')" by (simp add: is_digit_def)
  then have t: "digit_text ''1'' \<and> filter is_digit ''1'' = ''1''"
    by (intro digit_text_digits) (auto simp: max_str_digits_def)
  have s: "strip ''-1'' = ''-1''" by (intro strip_id) (auto simp: py_space_def)
  from t s show ?thesis by (simp add: py_int_def digits_val_def d)
qed

text \<open>The last committed reading of the clock.\<close>

definition clock_of :: "ledger_db \<Rightarrow> int option" where
  "clock_of d = (case last_clock d of None \<Rightarrow> None | Some text \<Rightarrow> py_int text)"

definition set_clock :: "int \<Rightarrow> ledger_db \<Rightarrow> ledger_db" where
  "set_clock now d = d\<lparr>last_clock := Some (show_int now)\<rparr>"

text \<open>A reading that is accepted.\<close>

definition ticks :: "ledger_db \<Rightarrow> int \<Rightarrow> bool" where
  "ticks d now \<longleftrightarrow> 0 \<le> now \<and> now \<le> MAX_TIME \<and> (\<exists>previous. clock_of d = Some previous \<and> previous \<le> now)"

lemma now_tick_Inr [result_iff]:
  "now_tick env d = Inr (now, d') \<longleftrightarrow>
    clock_reading env = Some (JInt now) \<and> ticks d now \<and> d' = set_clock now d"
proof (cases "clock_reading env")
  case (Some v)
  then show ?thesis
    by (cases v) (auto simp: now_tick_def ticks_def clock_of_def set_clock_def split: option.splits)
qed (simp add: now_tick_def)

lemma clock_of_set_clock: "0 \<le> now \<Longrightarrow> now \<le> MAX_TIME \<Longrightarrow> clock_of (set_clock now d) = Some now"
  using py_int_show[of now] by (simp add: clock_of_def set_clock_def MAX_TIME_def)

section \<open>Effects\<close>

text \<open>The lease the caller must hold to change anything of a run.\<close>

definition holds_lease :: "run_row \<Rightarrow> string \<Rightarrow> int \<Rightarrow> int \<Rightarrow> bool" where
  "holds_lease r own epoch now \<longleftrightarrow>
    owner r = Some own \<and> owner_epoch r = epoch \<and> lease_valid r now \<and> 1 \<le> epoch \<and> epoch \<le> MAX_INT64 \<and>
    (now < deadline r \<or> lease_kind r = ''recovery'')"

abbreviation find_run :: "ledger_db \<Rightarrow> string \<Rightarrow> run_row option" where
  "find_run d rid \<equiv> row_find run_id rid (runs d)"

abbreviation find_op :: "ledger_db \<Rightarrow> string \<Rightarrow> op_row option" where
  "find_op d oid \<equiv> row_find operation_id oid (operations d)"

abbreviation find_terminal :: "ledger_db \<Rightarrow> string \<Rightarrow> stored_row option" where
  "find_terminal d rid \<equiv> row_find stored_key rid (terminal_records d)"

abbreviation find_report :: "ledger_db \<Rightarrow> string \<Rightarrow> stored_row option" where
  "find_report d qid \<equiv> row_find stored_key qid (reports d)"

definition run_duration :: "string \<Rightarrow> int" where
  "run_duration p = (if p = ''pr'' then 1200 else 5400)"

definition fresh_run :: "string \<Rightarrow> string \<Rightarrow> int \<Rightarrow> run_row" where
  "fresh_run rid prof now =
    \<lparr>run_id = rid, profile = prof, started_at = now, deadline = now + run_duration prof, epoch0 = 0,
     owner = None, owner_epoch = 0, lease_until = None, lease_kind = ''execution'',
     cancel_requested_at = None, stop_confirmed_at = None, hold = False, hold_reason = None\<rparr>"

definition leased :: "string \<Rightarrow> int \<Rightarrow> int \<Rightarrow> string \<Rightarrow> run_row \<Rightarrow> run_row" where
  "leased own epoch until kind r =
    r\<lparr>owner := Some own, owner_epoch := epoch, lease_until := Some until, lease_kind := kind\<rparr>"

definition fresh_op :: "string \<Rightarrow> string \<Rightarrow> string \<Rightarrow> int \<Rightarrow> string \<Rightarrow> int \<Rightarrow> int \<Rightarrow> op_row" where
  "fresh_op oid rid own epoch usd micros now =
    \<lparr>operation_id = oid, op_run_id = rid, op_owner = own, op_epoch = epoch, reserved_usd = usd,
     reserved_micros = micros, reserved_at = now, settled_usd = None, settled_micros = None,
     settled_at = None, status = ''reserved'', op_hold_reason = None, exposure_usd = None,
     exposure_micros = None\<rparr>"

definition settled_op :: "string \<Rightarrow> int \<Rightarrow> int \<Rightarrow> string option \<Rightarrow> op_row \<Rightarrow> op_row" where
  "settled_op usd micros now reason r =
    r\<lparr>settled_usd := Some usd, settled_micros := Some micros, settled_at := Some now,
      status := ''settled'', op_hold_reason := reason\<rparr>"

definition exposed_op :: "string option \<Rightarrow> int \<Rightarrow> op_row \<Rightarrow> op_row" where
  "exposed_op usd micros r = r\<lparr>exposure_usd := usd, exposure_micros := Some micros\<rparr>"

definition stored :: "string \<Rightarrow> string \<Rightarrow> stored_row" where
  "stored k text = \<lparr>stored_key = k, canonical_json = text, stored_payload = text,
    stored_sha256 = sha256_hex text\<rparr>"

abbreviation op_ok :: "op_row \<Rightarrow> bool" where
  "op_ok r \<equiv> validate_operation_row r = Inr ()"

inductive effect :: "int \<Rightarrow> (string \<times> int) option \<Rightarrow> ledger_db \<Rightarrow> ledger_db \<Rightarrow> bool" where
  Nothing: "effect now actor d d"
| Run_created: "effect now None d (d\<lparr>runs := runs d @ [fresh_run rid prof now]\<rparr>)"
    if "find_run d rid = None" "RUN_LIMITS prof \<noteq> None" "now + run_duration prof \<le> MAX_TIME"
| Execution_leased: "effect now None d (update_run rid (leased own epoch until ''execution'') d)"
    if "find_run d rid = Some r" "now < deadline r" "lease_kind r = ''execution''" "\<not> hold r"
      "cancel_requested_at r = None" "stop_confirmed_at r = None" "find_terminal d rid = None"
      "lease_valid r now \<longrightarrow> owner r = Some own"
      "epoch = (if lease_valid r now then owner_epoch r else owner_epoch r + 1)" "epoch \<le> MAX_INT64"
      "until = min (deadline r) (now + LEASE_SECONDS)"
| Recovery_leased: "effect now None d (update_run rid (leased own epoch until ''recovery'') d)"
    if "find_run d rid = Some r" "recovery_eligible d r now"
      "lease_valid r now \<longrightarrow> owner r = Some own"
      "epoch = (if lease_valid r now \<and> lease_kind r = ''recovery'' then owner_epoch r else owner_epoch r + 1)"
      "epoch \<le> MAX_INT64" "until = now + LEASE_SECONDS" "until \<le> MAX_TIME"
| Reserved: "effect now (Some (own, epoch)) d
      (d\<lparr>operations := operations d @ [fresh_op oid rid own epoch usd micros now]\<rparr>)"
    if "find_run d rid = Some r" "holds_lease r own epoch now" "now < deadline r"
      "lease_kind r = ''execution''" "cancel_requested_at r = None" "stop_confirmed_at r = None" "\<not> hold r"
      "find_terminal d rid = None" "find_op d oid = None" "stored_amount usd = Inr micros"
      "run_accounted d rid = Inr run_total" "global_accounted d now = Inr global_total"
      "RUN_LIMITS (profile r) = Some limit" "run_total + micros \<le> limit" "global_total + micros \<le> GLOBAL_LIMIT"
| Settled: "effect now (Some (own, epoch)) d (update_operation oid (settled_op usd micros now None) d)"
    if "find_run d rid = Some r" "holds_lease r own epoch now" "find_op d oid = Some p" "op_run_id p = rid"
      "op_ok p" "status p = ''reserved''" "stored_amount usd = Inr micros" "micros \<le> reserved_micros p"
| Settled_over: "effect now (Some (own, epoch)) d (hold_run rid ''settlement_over_reservation''
      (update_operation oid (settled_op usd micros now (Some ''settlement_over_reservation'')) d))"
    if "find_run d rid = Some r" "holds_lease r own epoch now" "find_op d oid = Some p" "op_run_id p = rid"
      "op_ok p" "status p = ''reserved''" "stored_amount usd = Inr micros" "reserved_micros p < micros"
| Settlement_conflict: "effect now (Some (own, epoch)) d (hold_run rid ''settlement_conflict''
      (update_operation oid (exposed_op (fst (conflict_exposure p usd micros))
        (snd (conflict_exposure p usd micros))) d))"
    if "find_run d rid = Some r" "holds_lease r own epoch now" "find_op d oid = Some p" "op_run_id p = rid"
      "op_ok p" "status p = ''settled''" "stored_amount usd = Inr micros"
| Cancelled: "effect now (Some (own, epoch)) d (update_run rid (\<lambda>r. r\<lparr>cancel_requested_at := Some now\<rparr>) d)"
    if "find_run d rid = Some r" "holds_lease r own epoch now" "cancel_requested_at r = None"
      "find_terminal d rid = None"
| Stopped: "effect now (Some (own, epoch)) d (update_run rid (\<lambda>r. r\<lparr>stop_confirmed_at := Some now\<rparr>) d)"
    if "find_run d rid = Some r" "holds_lease r own epoch now" "stop_confirmed_at r = None"
      "find_terminal d rid = None"
| Finalized: "effect now (Some (own, epoch)) d (d\<lparr>terminal_records := terminal_records d @ [stored rid text]\<rparr>)"
    if "find_run d rid = Some r" "holds_lease r own epoch now" "find_terminal d rid = None"
      "budget_closure_of d rid now = Inr c" "dec = decide (cancel_requested_at r \<noteq> None)
        (stop_confirmed_at r \<noteq> None) (deadline r \<le> now) work_complete required_failure (budget_closed c)
        (if hold r then HOLD else a)" "execution_status dec \<noteq> WAITING"
      "report_text rl (terminal_body dec r own epoch now c) = Inr text"
| Report_stored: "effect now None d (d\<lparr>reports := reports d @ [stored qid text]\<rparr>)"
    if "find_report d qid = None" "report_text rl report = Inr text" "component_only report" "is_obj report"

text \<open>Events appended by one call: numbered on, at the time of the call.\<close>

definition event_at :: "int \<Rightarrow> nat \<Rightarrow> event_row \<Rightarrow> bool" where
  "event_at now n e \<longleftrightarrow> event_id e = n \<and> observed_at e = now"

definition add_events :: "event_row list \<Rightarrow> ledger_db \<Rightarrow> ledger_db" where
  "add_events es d = d\<lparr>run_events := run_events d @ es, event_seq := event_seq d + length es\<rparr>"

definition logs :: "int \<Rightarrow> ledger_db \<Rightarrow> event_row list \<Rightarrow> bool" where
  "logs now d es \<longleftrightarrow> es = [] \<or> (\<exists>e. es = [e] \<and> event_at now (Suc (event_seq d)) e)"

definition commits :: "ledger_db \<Rightarrow> ledger_db \<Rightarrow> bool" where
  "commits d d' \<longleftrightarrow> (\<exists>now actor d1 es. ticks d now \<and> effect now actor (set_clock now d) d1 \<and>
     logs now d1 es \<and> d' = add_events es d1)"

end
