(* ===== verification/Ledger_Refine.thy ===== *)
theory Ledger_Refine
  imports Ledger_Spec
begin

text \<open>
  Every committed transaction of the ledger is an effect of \<open>Ledger_Spec\<close>: one lemma per method,
  collected in \<open>call_ledger_cases\<close>.
\<close>

lemma case_option_Inr [result_iff]:
  "(case m of None \<Rightarrow> n | Some x \<Rightarrow> f x) = Inr y \<longleftrightarrow> m = None \<and> n = Inr y \<or> (\<exists>x. m = Some x \<and> f x = Inr y)"
  by (cases m) auto

lemma bind_text_Inr [result_iff]: "bind_text s = Inr u \<longleftrightarrow> utf8_ok s"
  by (simp add: bind_text_def result_iff)

lemma get_run_Inr [result_iff]: "get_run d rid = Inr r \<longleftrightarrow> utf8_ok rid \<and> find_run d rid = Some r"
  by (auto simp: get_run_def result_iff split: option.splits)

lemma record_event_Inr:
  "record_event rid kind at own epoch details d = Inr d' \<Longrightarrow>
    \<exists>e. event_at at (Suc (event_seq d)) e \<and> ev_run_id e = rid \<and> event_kind e = kind \<and>
      ev_epoch e = Some epoch \<and> d' = add_events [e] d"
  by (rule exI[of _ "\<lparr>event_id = Suc (event_seq d), ev_run_id = rid, event_kind = kind, observed_at = at,
      ev_owner = own, ev_epoch = Some epoch, details_json = dumps (JObj details)\<rparr>"])
    (auto simp: record_event_def Let_def result_iff event_at_def add_events_def)

lemma record_event_logs:
  assumes "record_event rid kind at own epoch details d = Inr d'"
  obtains es where "logs at d es" and "d' = add_events es d"
  using record_event_Inr[OF assms] by (auto simp: logs_def)

lemma require_lease_Inr:
  assumes "require_lease d rid own epoch now after kind = Inr r"
  shows "find_run d rid = Some r \<and> holds_lease r own (int_of epoch) now \<and> (after \<or> now < deadline r) \<and>
    (\<forall>k. kind = Some k \<longrightarrow> lease_kind r = k)"
  using assms
  by (auto simp: require_lease_def result_iff holds_lease_def lease_valid_def split: option.splits)

lemma commitsI:
  "ticks d now \<Longrightarrow> effect now actor (set_clock now d) d1 \<Longrightarrow> logs now d1 es \<Longrightarrow> commits d (add_events es d1)"
  by (auto simp: commits_def)

lemma commits_quiet: "ticks d now \<Longrightarrow> effect now actor (set_clock now d) d1 \<Longrightarrow> commits d d1"
  using commitsI[of d now actor d1 "[]"] by (simp add: logs_def add_events_def)

lemma commits_record:
  assumes "ticks d now" and "effect now actor (set_clock now d) d1"
    and "record_event rid kind now own epoch details d1 = Inr d'"
  shows "commits d d'"
  using record_event_logs[OF assms(3)] commitsI[OF assms(1,2)] by metis

lemma terminal_exists_iff: "terminal_exists d rid \<longleftrightarrow> find_terminal d rid \<noteq> None"
  by (simp add: terminal_exists_def)

lemma create_run_commits:
  assumes "create_run_tx env (rid, prof) d = Inr (x, d')" and "RUN_LIMITS prof \<noteq> None"
  shows "commits d d'"
proof -
  from assms(1) obtain now where t: "ticks d now" and room: "now \<le> MAX_TIME - run_duration prof"
    and free: "find_run (set_clock now d) rid = None"
    and ev: "record_event rid ''run_created'' now None 0 [(''profile'', JStr prof)]
      (set_clock now d\<lparr>runs := runs (set_clock now d) @ [fresh_run rid prof now]\<rparr>) = Inr d'"
    by (auto simp: create_run_tx_def Let_def result_iff run_duration_def fresh_run_def)
  have "effect now None (set_clock now d) (set_clock now d\<lparr>runs := runs (set_clock now d) @ [fresh_run rid prof now]\<rparr>)"
    using room by (intro effect.Run_created[OF free assms(2)]) simp
  from commits_record[OF t this ev] show ?thesis .
qed

lemma claim_commits:
  assumes "claim_tx env (rid, own) d = Inr (x, d')"
  shows "commits d d'"
proof -
  from assms obtain now r where t: "ticks d now" and r: "find_run (set_clock now d) rid = Some r"
    and open': "now < deadline r" "lease_kind r = ''execution''" "\<not> hold r" "cancel_requested_at r = None"
      "stop_confirmed_at r = None" "find_terminal (set_clock now d) rid = None"
    and lease: "lease_valid r now \<longrightarrow> owner r = Some own"
    and rest: "(let epoch = (if lease_valid r now then owner_epoch r else owner_epoch r + 1);
          until = min (deadline r) (now + LEASE_SECONDS) in
        epoch \<le> MAX_INT64 \<and> record_event rid ''execution_claimed'' now (Some own) epoch
          [(''lease_until'', JInt until)]
          (update_run rid (leased own epoch until ''execution'') (set_clock now d)) = Inr d')"
    by (auto simp: claim_tx_def Let_def result_iff terminal_exists_iff leased_def[abs_def])
  show ?thesis
    using rest unfolding Let_def
    by (elim conjE) (erule commits_record[OF t, rotated], rule effect.Execution_leased[OF r open' lease refl _ refl])
qed

lemma claim_recovery_commits:
  assumes "claim_recovery_tx env (rid, own) d = Inr (x, d')"
  shows "commits d d'"
proof -
  from assms obtain now r where t: "ticks d now" and r: "find_run (set_clock now d) rid = Some r"
    and eligible: "recovery_eligible (set_clock now d) r now"
    and lease: "lease_valid r now \<longrightarrow> owner r = Some own"
    and rest: "(let epoch = (if lease_valid r now \<and> lease_kind r = ''recovery'' then owner_epoch r
            else owner_epoch r + 1); until = now + LEASE_SECONDS in
        epoch \<le> MAX_INT64 \<and> until \<le> MAX_TIME \<and> record_event rid ''recovery_claimed'' now (Some own) epoch
          [(''lease_until'', JInt until)]
          (update_run rid (leased own epoch until ''recovery'') (set_clock now d)) = Inr d')"
    by (auto simp: claim_recovery_tx_def Let_def result_iff leased_def[abs_def])
  show ?thesis
    using rest unfolding Let_def
    by (elim conjE) (erule commits_record[OF t, rotated], rule effect.Recovery_leased[OF r eligible lease refl _ refl])
qed

lemma stored_amount_parse: "parse_usd v = Inr (usd, micros) \<Longrightarrow> stored_amount usd = Inr micros"
  using parse_usd_again by (auto simp: stored_amount_def)

lemma run_limit_Inr [result_iff]: "run_limit r = Inr l \<longleftrightarrow> RUN_LIMITS (profile r) = Some l"
  by (auto simp: run_limit_def split: option.splits)

lemma reserve_new_commits:
  assumes "reserve_new_tx rid own epoch oid usd micros now r (set_clock now d) = Inr (x, d')"
    and t: "ticks d now" and lease: "find_run (set_clock now d) rid = Some r" "holds_lease r own epoch now"
      "now < deadline r" "lease_kind r = ''execution''"
    and open': "cancel_requested_at r = None" "stop_confirmed_at r = None"
    and t': "find_terminal (set_clock now d) rid = None" and o: "find_op (set_clock now d) oid = None"
    and usd: "stored_amount usd = Inr micros"
  shows "commits d d'"
proof -
  from assms(1) obtain run_total global_total limit where
    f: "run_accounted (set_clock now d) rid = Inr run_total"
      "global_accounted (set_clock now d) now = Inr global_total" "RUN_LIMITS (profile r) = Some limit"
      "run_total + micros \<le> limit" "global_total + micros \<le> GLOBAL_LIMIT" and h: "\<not> hold r"
    and ev: "record_event rid ''operation_reserved'' now (Some own) epoch
        [(''operation_id'', JStr oid), (''reserved_micros'', JInt micros)]
        (set_clock now d\<lparr>operations := operations (set_clock now d) @
          [fresh_op oid rid own epoch usd micros now]\<rparr>) = Inr d'"
    by (auto simp: reserve_new_tx_def Let_def result_iff fresh_op_def)
  from commits_record[OF t effect.Reserved[OF lease open' h t' o usd f] ev] show ?thesis .
qed

lemma reserve_commits:
  assumes "reserve_tx env epoch (rid, own, oid, usd, micros) d = Inr (x, d')" and "stored_amount usd = Inr micros"
  shows "commits d d'"
proof -
  from assms(1) obtain now r where t: "ticks d now"
    and lease: "require_lease (set_clock now d) rid own epoch now False (Some ''execution'') = Inr r"
    and open': "cancel_requested_at r = None" "stop_confirmed_at r = None"
      "find_terminal (set_clock now d) rid = None"
    and rest: "if find_op (set_clock now d) oid = None
      then reserve_new_tx rid own (int_of epoch) oid usd micros now r (set_clock now d) = Inr (x, d')
      else d' = set_clock now d"
    by (auto simp: reserve_tx_def result_iff terminal_exists_iff)
  show ?thesis
    using rest commits_quiet[OF t effect.Nothing] require_lease_Inr[OF lease] open' assms(2)
      reserve_new_commits[OF _ t _ _ _ _ open'] by (auto split: if_splits)
qed

lemma settle_first_commits:
  assumes "settle_first_tx rid own epoch now p usd micros (set_clock now d) = Inr (x, d')"
    and "ticks d now" and "find_run (set_clock now d) rid = Some r" and "holds_lease r own epoch now"
    and "find_op (set_clock now d) (operation_id p) = Some p" and "op_run_id p = rid" and "op_ok p"
    and "status p = ''reserved''" and "stored_amount usd = Inr micros"
  shows "commits d d'"
proof (cases "micros \<le> reserved_micros p")
  case True
  then have "record_event rid ''operation_settled'' now (Some own) epoch
      [(''operation_id'', JStr (operation_id p)), (''settled_micros'', JInt micros)]
      (update_operation (operation_id p) (settled_op usd micros now None) (set_clock now d)) = Inr d'"
    using assms(1) by (auto simp: settle_first_tx_def Let_def result_iff settled_op_def[abs_def])
  from commits_record[OF assms(2) effect.Settled[OF assms(3-9) True] this] show ?thesis .
next
  case False
  then have "record_event rid ''operation_settled_over_reservation'' now (Some own) epoch
      [(''operation_id'', JStr (operation_id p)), (''settled_micros'', JInt micros)]
      (hold_run rid ''settlement_over_reservation'' (update_operation (operation_id p)
        (settled_op usd micros now (Some ''settlement_over_reservation'')) (set_clock now d))) = Inr d'"
    using assms(1) by (auto simp: settle_first_tx_def Let_def result_iff settled_op_def[abs_def])
  moreover have "reserved_micros p < micros" using False by simp
  ultimately show ?thesis using commits_record[OF assms(2) effect.Settled_over[OF assms(3-9)]] by blast
qed

lemma settle_conflict_commits:
  assumes "settle_conflict_tx rid own epoch now p usd micros (set_clock now d) = Inr (x, d')"
    and "ticks d now" and "find_run (set_clock now d) rid = Some r" and "holds_lease r own epoch now"
    and "find_op (set_clock now d) (operation_id p) = Some p" and "op_run_id p = rid" and "op_ok p"
    and "status p = ''settled''" and "stored_amount usd = Inr micros"
  shows "commits d d'"
proof -
  let ?d1 = "hold_run rid ''settlement_conflict'' (update_operation (operation_id p)
      (exposed_op (fst (conflict_exposure p usd micros)) (snd (conflict_exposure p usd micros))) (set_clock now d))"
  from assms(1) have "d' = ?d1 \<or> (\<exists>details.
      record_event rid ''settlement_conflict'' now (Some own) epoch details ?d1 = Inr d')"
    by (auto simp: settle_conflict_tx_def Let_def result_iff exposed_op_def[abs_def] case_prod_beta
        split: if_splits)
  then show ?thesis
    using commits_quiet[OF assms(2) effect.Settlement_conflict[OF assms(3-9)]]
      commits_record[OF assms(2) effect.Settlement_conflict[OF assms(3-9)]] by blast
qed

lemma settle_commits:
  assumes "settle_tx env epoch (rid, own, oid, usd, micros) d = Inr (x, d')" and "stored_amount usd = Inr micros"
  shows "commits d d'"
proof -
  from assms(1) obtain now r p where t: "ticks d now"
    and lease: "require_lease (set_clock now d) rid own epoch now True None = Inr r"
    and p: "find_op (set_clock now d) oid = Some p" "op_run_id p = rid" "op_ok p"
    and rest: "if status p = ''settled'' then
        d' = set_clock now d \<or>
        settle_conflict_tx rid own (int_of epoch) now p usd micros (set_clock now d) = Inr (x, d')
      else status p = ''reserved'' \<and>
        settle_first_tx rid own (int_of epoch) now p usd micros (set_clock now d) = Inr (x, d')"
    by (auto simp: settle_tx_def result_iff split: if_splits)
  note L = require_lease_Inr[OF lease]
  have oid: "find_op (set_clock now d) (operation_id p) = Some p"
    using p(1) row_find_SomeD[OF p(1)] by simp
  show ?thesis
  proof (cases "status p = ''settled''")
    case True
    then show ?thesis
      using rest commits_quiet[OF t effect.Nothing] settle_conflict_commits[OF _ t _ _ oid p(2,3) True assms(2)] L
      by auto
  next
    case False
    then show ?thesis using rest settle_first_commits[OF _ t _ _ oid p(2,3) _ assms(2)] L by auto
  qed
qed

lemma note_after_terminal_commits:
  assumes "note_after_terminal rid own epoch kind now (set_clock now d) = Inr (x, d')" and "ticks d now"
  shows "commits d d'"
  using assms commits_quiet[OF assms(2) effect.Nothing] commits_record[OF assms(2) effect.Nothing]
  by (auto simp: note_after_terminal_def result_iff split: if_splits)

lemma request_cancel_commits:
  assumes "request_cancel_tx env epoch (rid, own) d = Inr (x, d')"
  shows "commits d d'"
proof -
  from assms obtain now r where t: "ticks d now"
    and lease: "require_lease (set_clock now d) rid own epoch now True None = Inr r"
    and rest: "if find_terminal (set_clock now d) rid \<noteq> None
      then note_after_terminal rid own (int_of epoch) ''cancel_after_terminal'' now (set_clock now d) = Inr (x, d')
      else if cancel_requested_at r = None
        then record_event rid ''cancel_requested'' now (Some own) (int_of epoch) []
          (update_run rid (\<lambda>r. r\<lparr>cancel_requested_at := Some now\<rparr>) (set_clock now d)) = Inr d'
        else d' = set_clock now d"
    by (auto simp: request_cancel_tx_def result_iff terminal_exists_iff split: if_splits)
  note L = require_lease_Inr[OF lease]
  show ?thesis
  proof (cases "find_terminal (set_clock now d) rid = None \<and> cancel_requested_at r = None")
    case True
    with L rest show ?thesis by (intro commits_record[OF t effect.Cancelled]) auto
  next
    case False
    with rest show ?thesis
      using note_after_terminal_commits[OF _ t] commits_quiet[OF t effect.Nothing] by (auto split: if_splits)
  qed
qed

lemma confirm_stopped_commits:
  assumes "confirm_stopped_tx env epoch (rid, own) d = Inr (x, d')"
  shows "commits d d'"
proof -
  from assms obtain now r where t: "ticks d now"
    and lease: "require_lease (set_clock now d) rid own epoch now True None = Inr r"
    and rest: "if find_terminal (set_clock now d) rid \<noteq> None
      then note_after_terminal rid own (int_of epoch) ''stop_after_terminal'' now (set_clock now d) = Inr (x, d')
      else if stop_confirmed_at r = None
        then record_event rid ''stopped_confirmed'' now (Some own) (int_of epoch) []
          (update_run rid (\<lambda>r. r\<lparr>stop_confirmed_at := Some now\<rparr>) (set_clock now d)) = Inr d'
        else d' = set_clock now d"
    by (auto simp: confirm_stopped_tx_def result_iff terminal_exists_iff split: if_splits)
  note L = require_lease_Inr[OF lease]
  show ?thesis
  proof (cases "find_terminal (set_clock now d) rid = None \<and> stop_confirmed_at r = None")
    case True
    with L rest show ?thesis by (intro commits_record[OF t effect.Stopped]) auto
  next
    case False
    with rest show ?thesis
      using note_after_terminal_commits[OF _ t] commits_quiet[OF t effect.Nothing] by (auto split: if_splits)
  qed
qed

lemma finalize_commits:
  assumes "finalize_tx rl env epoch av work_complete required_failure (rid, own) d = Inr (x, d')"
    and a: "parse_assurance av = Some a"
  shows "commits d d'"
proof -
  have av: "av = JStr (assurance_name a)" using a by (simp add: parse_assurance_Some)
  from assms obtain now r where t: "ticks d now"
    and lease: "require_lease (set_clock now d) rid own epoch now True None = Inr r"
    and rest: "d' = set_clock now d \<or> (find_terminal (set_clock now d) rid = None \<and>
      (\<exists>c dec text. budget_closure_of (set_clock now d) rid now = Inr c \<and>
        decide_terminal (JBool (cancel_requested_at r \<noteq> None)) (JBool (stop_confirmed_at r \<noteq> None))
          (JBool (deadline r \<le> now)) (JBool work_complete) (JBool required_failure)
          (JBool (budget_closed c)) (effective_assurance r av) = Inr dec \<and>
        execution_status dec \<noteq> WAITING \<and>
        report_text rl (terminal_body dec r own (int_of epoch) now c) = Inr text \<and>
        record_event rid ''terminal_finalized'' now (Some own) (int_of epoch)
          [(''execution_status'', JStr (status_name (execution_status dec))), (''exit_code'', opt_int (exit_code dec))]
          (set_clock now d\<lparr>terminal_records := terminal_records (set_clock now d) @ [stored rid text]\<rparr>) = Inr d'))"
    by (auto simp: finalize_tx_def Let_def result_iff stored_def split: if_splits)
  note L = require_lease_Inr[OF lease]
  have hv: "effective_assurance r av = JStr (assurance_name (if hold r then HOLD else a))"
    by (simp add: av effective_assurance_def)
  from rest show ?thesis
  proof (elim disjE exE conjE)
    fix c dec "text"
    assume f: "find_terminal (set_clock now d) rid = None" "budget_closure_of (set_clock now d) rid now = Inr c"
      and dec: "decide_terminal (JBool (cancel_requested_at r \<noteq> None)) (JBool (stop_confirmed_at r \<noteq> None))
          (JBool (deadline r \<le> now)) (JBool work_complete) (JBool required_failure)
          (JBool (budget_closed c)) (effective_assurance r av) = Inr dec"
      and w: "execution_status dec \<noteq> WAITING"
        "report_text rl (terminal_body dec r own (int_of epoch) now c) = Inr text"
      and ev: "record_event rid ''terminal_finalized'' now (Some own) (int_of epoch)
        [(''execution_status'', JStr (status_name (execution_status dec))), (''exit_code'', opt_int (exit_code dec))]
        (set_clock now d\<lparr>terminal_records := terminal_records (set_clock now d) @ [stored rid text]\<rparr>) = Inr d'"
    have "dec = decide (cancel_requested_at r \<noteq> None) (stop_confirmed_at r \<noteq> None) (deadline r \<le> now)
        work_complete required_failure (budget_closed c) (if hold r then HOLD else a)"
      using dec unfolding hv decide_terminal_bools by simp
    from commits_record[OF t effect.Finalized[OF _ _ f this w] ev] L show ?thesis by blast
  qed (use commits_quiet[OF t effect.Nothing] in simp)
qed

lemma store_report_commits:
  assumes "store_report_tx rl env (qid, text, report) d = Inr (x, d')" and "report_text rl report = Inr text"
    and "component_only report" and "is_obj report"
  shows "commits d d'"
proof -
  from assms(1) obtain now where t: "ticks d now"
    and rest: "d' = set_clock now d \<or> (find_report (set_clock now d) qid = None \<and>
      d' = set_clock now d\<lparr>reports := reports (set_clock now d) @ [stored qid text]\<rparr>)"
    by (auto simp: store_report_tx_def Let_def result_iff stored_def)
  from rest show ?thesis
    using commits_quiet[OF t effect.Nothing] commits_quiet[OF t effect.Report_stored[OF _ assms(2-4)]] by auto
qed

lemma reading_commits:
  "budget_closure_tx env rid d = Inr (x, d') \<Longrightarrow> commits d d'"
  "get_terminal_tx rl env rid d = Inr (x, d') \<Longrightarrow> commits d d'"
  "snapshot_tx env rid d = Inr (x, d') \<Longrightarrow> commits d d'"
  "get_report_tx rl env rid d = Inr (x, d') \<Longrightarrow> commits d d'"
  by (auto simp: budget_closure_tx_def get_terminal_tx_def snapshot_tx_def get_report_tx_def result_iff
      intro: commits_quiet effect.Nothing)

section \<open>Calls\<close>

lemma immediate_cases:
  assumes "immediate env body l = (res, l')"
  shows "l' = l \<and> (\<exists>e. res = Inl e) \<or>
    (\<not> closed l \<and> fault env = No_fault \<and> (\<exists>x d. body (db l) = Inr (x, d) \<and> res = Inr x \<and> l' = l\<lparr>db := d\<rparr>))"
  using assms by (cases "fault env") (auto simp: immediate_def split: if_splits sum.splits ledger_error.splits)

lemma with_input_cases:
  assumes "with_input m k l = (res, l')"
  shows "l' = l \<and> (\<exists>e. m = Inl e \<and> res = Inl e) \<or> (\<exists>x. m = Inr x \<and> k x l = (res, l'))"
  using assms by (auto simp: with_input_def split: sum.splits)

text \<open>A transaction run on checked input either changes nothing or commits its body.\<close>

lemma transaction_cases:
  assumes "with_input m (\<lambda>a. immediate env (body a)) l = (res, l')"
    and "\<And>a x d'. m = Inr a \<Longrightarrow> body a (db l) = Inr (x, d') \<Longrightarrow> commits (db l) d'"
  shows "l' = l \<and> (\<exists>e. res = Inl e) \<or> (\<not> closed l \<and> (\<exists>d'. commits (db l) d' \<and> l' = l\<lparr>db := d'\<rparr>))"
  using with_input_cases[OF assms(1)]
proof (elim disjE exE conjE)
  fix a
  assume m: "m = Inr a" and i: "immediate env (body a) l = (res, l')"
  show ?thesis using immediate_cases[OF i] assms(2)[OF m] by blast
qed blast

text \<open>
  A call leaves the ledger as it is and raises, closes it, or commits an effect.  Only the settlement
  of too large or of a conflicting amount both commits and raises.
\<close>

lemma operation_input_amount:
  "operation_input rid own oid usd = Inr (r, w, i, text, micros) \<Longrightarrow> stored_amount text = Inr micros"
  using stored_amount_parse by (auto simp: operation_input_def result_iff)

lemma settle_cases:
  assumes "settle env rid own epoch oid usd l = (res, l')"
  shows "l' = l \<and> (\<exists>e. res = Inl e) \<or> (\<not> closed l \<and> (\<exists>d'. commits (db l) d' \<and> l' = l\<lparr>db := d'\<rparr>))"
proof -
  obtain res0 where w: "with_input (operation_input rid own oid usd) (\<lambda>a. immediate env (settle_tx env epoch a)) l
      = (res0, l')" and r: "\<And>e. res0 = Inl e \<Longrightarrow> res = Inl e"
    using assms by (auto simp: settle_def split: prod.splits sum.splits)
  show ?thesis
    using transaction_cases[OF w] settle_commits operation_input_amount r by (metis prod_cases5)
qed

theorem call_ledger_cases:
  assumes "call_ledger rl (env, c) l = (res, l')"
  shows "l' = l \<and> (\<exists>e. res = Inl e) \<or> l' = l\<lparr>closed := True\<rparr> \<or>
    (\<not> closed l \<and> (\<exists>d'. commits (db l) d' \<and> l' = l\<lparr>db := d'\<rparr>))"
proof (cases c)
  case (Create_run rid prof)
  then have "with_input (ebind (validate_id rid) (\<lambda>rid'.
       ebind (guard (is_str prof \<and> RUN_LIMITS (str_of prof) \<noteq> None) invalid_input) (\<lambda>_.
       Inr (rid', str_of prof)))) (\<lambda>a. immediate env (create_run_tx env a)) l = (res, l')"
    using assms by (simp add: create_run_def)
  from transaction_cases[OF this] show ?thesis
    using create_run_commits by (auto simp: result_iff)
next
  case (Claim rid own)
  then have "with_input (two_ids rid own) (\<lambda>a. immediate env (claim_tx env a)) l = (res, l')"
    using assms by (simp add: claim_def)
  from transaction_cases[OF this] show ?thesis using claim_commits by auto
next
  case (Claim_recovery rid own)
  then have "with_input (two_ids rid own) (\<lambda>a. immediate env (claim_recovery_tx env a)) l = (res, l')"
    using assms by (simp add: claim_recovery_def)
  from transaction_cases[OF this] show ?thesis using claim_recovery_commits by auto
next
  case (Reserve rid own epoch oid usd)
  then have "with_input (operation_input rid own oid usd) (\<lambda>a. immediate env (reserve_tx env epoch a)) l = (res, l')"
    using assms by (simp add: reserve_def)
  from transaction_cases[OF this] show ?thesis
    using reserve_commits operation_input_amount by (metis prod_cases5)
next
  case (Settle rid own epoch oid usd)
  then show ?thesis using assms settle_cases[of env rid own epoch oid usd l res l'] by auto
next
  case (Request_cancel rid own epoch)
  then have "with_input (two_ids rid own) (\<lambda>a. immediate env (request_cancel_tx env epoch a)) l = (res, l')"
    using assms by (simp add: request_cancel_def)
  from transaction_cases[OF this] show ?thesis using request_cancel_commits by auto
next
  case (Confirm_stopped rid own epoch)
  then have "with_input (two_ids rid own) (\<lambda>a. immediate env (confirm_stopped_tx env epoch a)) l = (res, l')"
    using assms by (simp add: confirm_stopped_def)
  from transaction_cases[OF this] show ?thesis using confirm_stopped_commits by auto
next
  case (Budget_closure rid)
  then have "with_input (validate_id rid) (\<lambda>r. immediate env (budget_closure_tx env r)) l = (res, l')"
    using assms by (simp add: budget_closure_def)
  from transaction_cases[OF this] show ?thesis using reading_commits by auto
next
  case (Finalize rid own epoch a wc rf)
  then have "with_input (ebind (two_ids rid own) (\<lambda>ids.
       ebind (guard (is_bool wc \<and> is_bool rf \<and> parse_assurance a \<noteq> None) (PyError ''ValueError'')) (\<lambda>_. Inr ids)))
      (\<lambda>ids. immediate env (finalize_tx rl env epoch a (bool_of wc) (bool_of rf) ids)) l = (res, l')"
    using assms by (simp add: finalize_def)
  from transaction_cases[OF this] show ?thesis
    using finalize_commits by (fastforce simp: result_iff)
next
  case (Get_terminal rid)
  then have "with_input (validate_id rid) (\<lambda>r. immediate env (get_terminal_tx rl env r)) l = (res, l')"
    using assms by (simp add: get_terminal_def)
  from transaction_cases[OF this] show ?thesis using reading_commits by auto
next
  case (Snapshot rid)
  then have "with_input (validate_id rid) (\<lambda>r. immediate env (snapshot_tx env r)) l = (res, l')"
    using assms by (simp add: snapshot_def)
  from transaction_cases[OF this] show ?thesis using reading_commits by auto
next
  case (Store_report qid report)
  then have "with_input (ebind (validate_id qid) (\<lambda>q.
       ebind (guard (is_obj report) invalid_input) (\<lambda>_.
       ebind (guard (component_only report) (LedgerError ''invalid_report'' ''invalid report'')) (\<lambda>_.
       ebind (report_text rl report) (\<lambda>text. Inr (q, text, report))))))
      (\<lambda>a. immediate env (store_report_tx rl env a)) l = (res, l')"
    using assms by (simp add: store_report_def)
  from transaction_cases[OF this] show ?thesis using store_report_commits by (auto simp: result_iff)
next
  case (Get_report qid)
  then have "with_input (validate_id qid) (\<lambda>q. immediate env (get_report_tx rl env q)) l = (res, l')"
    using assms by (simp add: get_report_def)
  from transaction_cases[OF this] show ?thesis using reading_commits by auto
next
  case Close_ledger
  then show ?thesis using assms by (auto simp: close_ledger_def)
qed

end
