(* ===== verification/Ledger_Inv.thy ===== *)
theory Ledger_Inv
  imports Ledger_Refine Machine
begin

text \<open>
  The invariant of the ledger and the order in which its state grows, shown for every effect of
  \<open>Ledger_Spec\<close> and hence for every sequence of calls.
\<close>

lemma db_simps [simp]:
  "runs (set_clock now d) = runs d" "operations (set_clock now d) = operations d"
  "terminal_records (set_clock now d) = terminal_records d" "reports (set_clock now d) = reports d"
  "run_events (set_clock now d) = run_events d" "event_seq (set_clock now d) = event_seq d"
  "runs (add_events es d) = runs d" "operations (add_events es d) = operations d"
  "terminal_records (add_events es d) = terminal_records d" "reports (add_events es d) = reports d"
  "run_events (add_events es d) = run_events d @ es" "event_seq (add_events es d) = event_seq d + length es"
  "last_clock (add_events es d) = last_clock d"
  "runs (update_run rid f d) = row_update run_id rid f (runs d)"
  "operations (update_run rid f d) = operations d"
  "terminal_records (update_run rid f d) = terminal_records d" "reports (update_run rid f d) = reports d"
  "run_events (update_run rid f d) = run_events d" "event_seq (update_run rid f d) = event_seq d"
  "last_clock (update_run rid f d) = last_clock d"
  "runs (update_operation oid g d) = runs d"
  "operations (update_operation oid g d) = row_update operation_id oid g (operations d)"
  "terminal_records (update_operation oid g d) = terminal_records d"
  "reports (update_operation oid g d) = reports d" "run_events (update_operation oid g d) = run_events d"
  "event_seq (update_operation oid g d) = event_seq d" "last_clock (update_operation oid g d) = last_clock d"
  by (simp_all add: set_clock_def add_events_def update_run_def update_operation_def)

lemma row_simps_fields [simp]:
  "run_id (fresh_run rid prof now) = rid" "hold (fresh_run rid prof now) = False"
  "profile (fresh_run rid prof now) = prof"
  "run_id (leased own epoch until kind r) = run_id r" "profile (leased own epoch until kind r) = profile r"
  "hold (leased own epoch until kind r) = hold r"
  "operation_id (fresh_op oid rid own epoch usd micros now) = oid"
  "op_run_id (fresh_op oid rid own epoch usd micros now) = rid"
  "operation_id (settled_op usd micros now reason p) = operation_id p"
  "op_run_id (settled_op usd micros now reason p) = op_run_id p"
  "operation_id (exposed_op u m p) = operation_id p" "op_run_id (exposed_op u m p) = op_run_id p"
  "stored_key (stored k t) = k"
  by (simp_all add: fresh_run_def leased_def fresh_op_def settled_op_def exposed_op_def stored_def)

section \<open>Rows that pass the check\<close>

lemma stored_amount_bounds: "stored_amount u = Inr m \<Longrightarrow> 0 \<le> m \<and> m \<le> MAX_INT64"
  using parse_usd_bounds by (fastforce simp: stored_amount_def result_iff)

lemma op_ok_iff:
  "op_ok r \<longleftrightarrow>
    status r \<in> {''reserved'', ''settled''} \<and> stored_amount (reserved_usd r) = Inr (reserved_micros r) \<and>
    valid_timestamp (reserved_at r) \<and>
    (if status r = ''reserved''
     then settled_usd r = None \<and> settled_micros r = None \<and> settled_at r = None
     else \<exists>u m t. settled_usd r = Some u \<and> settled_micros r = Some m \<and> settled_at r = Some t \<and>
       stored_amount u = Inr m \<and> valid_timestamp t) \<and>
    (exposure_usd r = None \<and> exposure_micros r = None \<or>
     status r = ''settled'' \<and>
       (\<exists>u m. exposure_usd r = Some u \<and> exposure_micros r = Some m \<and> stored_amount u = Inr m))"
  by (auto simp: validate_operation_row_def result_iff split: option.splits)

lemma accounted_nonneg: "op_ok r \<Longrightarrow> 0 \<le> accounted r"
  by (auto simp: op_ok_iff accounted_def or_zero_def le_max_iff_disj dest!: stored_amount_bounds)

lemma fresh_op_ok:
  "stored_amount usd = Inr micros \<Longrightarrow> valid_timestamp now \<Longrightarrow> op_ok (fresh_op oid rid own epoch usd micros now)"
  by (simp add: op_ok_iff fresh_op_def)

lemma settled_op_ok:
  "op_ok p \<Longrightarrow> status p = ''reserved'' \<Longrightarrow> stored_amount usd = Inr micros \<Longrightarrow> valid_timestamp now \<Longrightarrow>
    op_ok (settled_op usd micros now reason p)"
  by (auto simp: op_ok_iff settled_op_def)

text \<open>The exposure is the text of the largest amount claimed so far.\<close>

lemma conflict_exposure_amount:
  assumes "op_ok p" and "status p = ''settled''" and "stored_amount usd = Inr micros"
  shows "\<exists>u m. conflict_exposure p usd micros = (Some u, m) \<and> stored_amount u = Inr m \<and> micros \<le> m \<and>
    or_zero (settled_micros p) \<le> m \<and> or_zero (exposure_micros p) \<le> m"
proof -
  from assms(1,2) obtain u m where s: "settled_usd p = Some u" "settled_micros p = Some m" "stored_amount u = Inr m"
    by (auto simp: op_ok_iff)
  have b: "0 \<le> m" "0 \<le> micros" using stored_amount_bounds[OF s(3)] stored_amount_bounds[OF assms(3)] by auto
  show ?thesis
  proof (cases "exposure_micros p")
    case None
    then show ?thesis using s b assms(3) by (auto simp: conflict_exposure_def Let_def or_zero_def max_def)
  next
    case (Some e)
    then obtain v where "exposure_usd p = Some v" "stored_amount v = Inr e" using assms(1) by (auto simp: op_ok_iff)
    with Some show ?thesis using s b assms(3) by (auto simp: conflict_exposure_def Let_def or_zero_def max_def)
  qed
qed

lemma exposed_op_ok:
  assumes "op_ok p" and "status p = ''settled''" and "stored_amount usd = Inr micros"
  shows "op_ok (exposed_op (fst (conflict_exposure p usd micros)) (snd (conflict_exposure p usd micros)) p)"
  using conflict_exposure_amount[OF assms] assms(1,2) by (auto simp: op_ok_iff exposed_op_def)

section \<open>Sums\<close>

definition run_sum :: "ledger_db \<Rightarrow> string \<Rightarrow> int" where
  "run_sum d rid = (\<Sum>p\<leftarrow>operations d. if op_run_id p = rid then accounted p else 0)"

definition global_sum :: "int \<Rightarrow> ledger_db \<Rightarrow> int" where
  "global_sum now d = (\<Sum>p\<leftarrow>operations d. if in_window now p then accounted p else 0)"

lemma account_efold:
  "efold (\<lambda>total r. ebind (validate_operation_row r) (\<lambda>_.
      Inr (if included r then total + accounted r else total))) t rows = Inr t' \<longleftrightarrow>
    (\<forall>r \<in> set rows. op_ok r) \<and> t' = t + (\<Sum>r\<leftarrow>rows. if included r then accounted r else 0)"
  by (induction rows arbitrary: t) (auto simp: result_iff)

lemma account_fold_Inr [result_iff]:
  "account_fold included rows = Inr t \<longleftrightarrow>
    (\<forall>r \<in> set rows. op_ok r) \<and> t = (\<Sum>r\<leftarrow>rows. if included r then accounted r else 0) \<and> t \<le> MAX_INT64"
  by (auto simp: account_fold_def account_efold result_iff)

lemma run_accounted_Inr:
  "run_accounted d rid = Inr t \<Longrightarrow> t = run_sum d rid"
  by (simp add: run_accounted_def account_fold_Inr run_operations_def run_sum_def sum_list_map_filter')

lemma global_accounted_Inr: "global_accounted d now = Inr t \<Longrightarrow> t = global_sum now d"
  by (simp add: global_accounted_def account_fold_Inr global_sum_def)

lemma sum_clock [simp]:
  "run_sum (set_clock now d) rid = run_sum d rid" "global_sum t (set_clock now d) = global_sum t d"
  "run_sum (add_events es d) rid = run_sum d rid" "global_sum t (add_events es d) = global_sum t d"
  "run_sum (update_run rid' f d) rid = run_sum d rid" "global_sum t (update_run rid' f d) = global_sum t d"
  "run_sum (d\<lparr>runs := R\<rparr>) rid = run_sum d rid" "global_sum t (d\<lparr>runs := R\<rparr>) = global_sum t d"
  "run_sum (d\<lparr>terminal_records := T\<rparr>) rid = run_sum d rid"
  "global_sum t (d\<lparr>terminal_records := T\<rparr>) = global_sum t d"
  "run_sum (d\<lparr>reports := Q\<rparr>) rid = run_sum d rid" "global_sum t (d\<lparr>reports := Q\<rparr>) = global_sum t d"
  by (simp_all add: run_sum_def global_sum_def)

lemma run_sum_update:
  assumes "distinct (map operation_id (operations d))" and "find_op d oid = Some p"
    and "\<And>p. operation_id (g p) = operation_id p" and "op_run_id (g p) = op_run_id p"
  shows "run_sum (update_operation oid g d) rid =
    (if op_run_id p = rid then run_sum d rid - accounted p + accounted (g p) else run_sum d rid)"
  using sum_list_row_update[OF assms(1,2), of "\<lambda>p. if op_run_id p = rid then accounted p else 0" g] assms(4)
  by (simp add: run_sum_def)

lemma global_sum_update:
  assumes "distinct (map operation_id (operations d))" and "find_op d oid = Some p"
  shows "global_sum now (update_operation oid g d) = global_sum now d
    - (if in_window now p then accounted p else 0) + (if in_window now (g p) then accounted (g p) else 0)"
  using sum_list_row_update[OF assms, of "\<lambda>p. if in_window now p then accounted p else 0" g]
  by (simp add: global_sum_def)

text \<open>With time, settlements leave the window and nothing enters it.\<close>

lemma global_sum_later:
  assumes "\<forall>p \<in> set (operations d). op_ok p \<and> (\<forall>t. settled_at p = Some t \<longrightarrow> t \<le> c)" and "c \<le> now"
  shows "global_sum now d \<le> global_sum c d"
  unfolding global_sum_def
proof (rule sum_list_mono)
  fix p assume "p \<in> set (operations d)"
  with assms accounted_nonneg[of p]
  show "(if in_window now p then accounted p else 0) \<le> (if in_window c p then accounted p else 0)"
    by (auto simp: in_window_def split: option.splits)
qed

section \<open>The invariant\<close>

definition run_ok :: "run_row \<Rightarrow> bool" where
  "run_ok r \<longleftrightarrow> RUN_LIMITS (profile r) \<noteq> None \<and> deadline r = started_at r + run_duration (profile r) \<and>
     0 \<le> started_at r \<and> deadline r \<le> MAX_TIME \<and> 0 \<le> owner_epoch r \<and> owner_epoch r \<le> MAX_INT64 \<and>
     lease_kind r \<in> {''execution'', ''recovery''} \<and> (owner r = None \<longleftrightarrow> owner_epoch r = 0) \<and>
     (owner r = None \<longleftrightarrow> lease_until r = None) \<and>
     (lease_kind r = ''execution'' \<longrightarrow> (\<forall>t. lease_until r = Some t \<longrightarrow> t \<le> deadline r)) \<and>
     (hold r \<longleftrightarrow> hold_reason r \<noteq> None)"

definition tables_ok :: "ledger_db \<Rightarrow> bool" where
  "tables_ok d \<longleftrightarrow> distinct (map run_id (runs d)) \<and> distinct (map operation_id (operations d)) \<and>
     distinct (map stored_key (terminal_records d)) \<and> distinct (map stored_key (reports d))"

definition refs_ok :: "ledger_db \<Rightarrow> bool" where
  "refs_ok d \<longleftrightarrow> op_run_id ` set (operations d) \<subseteq> run_id ` set (runs d) \<and>
     stored_key ` set (terminal_records d) \<subseteq> run_id ` set (runs d)"

definition events_ok :: "ledger_db \<Rightarrow> bool" where
  "events_ok d \<longleftrightarrow> map event_id (run_events d) = [1..<Suc (event_seq d)]"

definition ops_ok :: "int \<Rightarrow> ledger_db \<Rightarrow> bool" where
  "ops_ok now d \<longleftrightarrow> (\<forall>p \<in> set (operations d). op_ok p \<and> reserved_at p \<le> now \<and>
     (\<forall>t. settled_at p = Some t \<longrightarrow> t \<le> now))"

text \<open>A run not on hold has no exposure and no settlement above its reservation.\<close>

definition held :: "ledger_db \<Rightarrow> string \<Rightarrow> bool" where
  "held d rid \<longleftrightarrow> (\<exists>r. find_run d rid = Some r \<and> hold r)"

definition clean_op :: "op_row \<Rightarrow> bool" where
  "clean_op p \<longleftrightarrow> exposure_micros p = None \<and> (\<forall>m. settled_micros p = Some m \<longrightarrow> m \<le> reserved_micros p)"

definition holds_ok :: "ledger_db \<Rightarrow> bool" where
  "holds_ok d \<longleftrightarrow> (\<forall>p \<in> set (operations d). clean_op p \<or> held d (op_run_id p))"

definition budget_ok :: "int \<Rightarrow> ledger_db \<Rightarrow> bool" where
  "budget_ok now d \<longleftrightarrow>
     (\<forall>rid r. find_run d rid = Some r \<longrightarrow> \<not> hold r \<longrightarrow>
        (\<forall>limit. RUN_LIMITS (profile r) = Some limit \<longrightarrow> run_sum d rid \<le> limit)) \<and>
     ((\<forall>r \<in> set (runs d). \<not> hold r) \<longrightarrow> global_sum now d \<le> GLOBAL_LIMIT)"

definition inv_at :: "int \<Rightarrow> ledger_db \<Rightarrow> bool" where
  "inv_at now d \<longleftrightarrow> tables_ok d \<and> refs_ok d \<and> events_ok d \<and> (\<forall>r \<in> set (runs d). run_ok r) \<and>
     ops_ok now d \<and> holds_ok d \<and> budget_ok now d"

definition db_inv :: "ledger_db \<Rightarrow> bool" where
  "db_inv d \<longleftrightarrow> (\<exists>c. clock_of d = Some c \<and> - 1 \<le> c \<and> c \<le> MAX_TIME \<and> inv_at c d)"

lemma inv_at_later:
  assumes "inv_at c d" and "c \<le> now"
  shows "inv_at now (set_clock now d)"
proof -
  have "global_sum now d \<le> global_sum c d"
    using assms by (intro global_sum_later) (auto simp: inv_at_def ops_ok_def)
  with assms show ?thesis
    by (auto simp: inv_at_def tables_ok_def refs_ok_def events_ok_def ops_ok_def holds_ok_def held_def
        budget_ok_def intro: order_trans)
qed

lemma inv_at_events:
  assumes "inv_at now d" and "logs now d es"
  shows "inv_at now (add_events es d)"
  using assms
  by (auto simp: inv_at_def tables_ok_def refs_ok_def events_ok_def ops_ok_def holds_ok_def held_def
      budget_ok_def logs_def event_at_def)

lemma find_run_update:
  "(\<And>r. run_id (f r) = run_id r) \<Longrightarrow> find_run (update_run rid f d) rid' =
    (if rid' = rid then map_option f (find_run d rid) else find_run d rid')"
  by (simp add: row_find_update)

lemma find_op_update:
  "(\<And>p. operation_id (g p) = operation_id p) \<Longrightarrow> find_op (update_operation oid g d) oid' =
    (if oid' = oid then map_option g (find_op d oid) else find_op d oid')"
  by (simp add: row_find_update)

lemma none_held_update:
  "(\<And>r. hold (f r) = hold r) \<Longrightarrow>
    (\<forall>r \<in> set (row_update key k f rows). \<not> hold r) \<longleftrightarrow> (\<forall>r \<in> set rows. \<not> hold r)"
  by (induction rows) auto

text \<open>Updates of a run that leave its hold and profile alone.\<close>

lemma update_run_inv:
  assumes inv: "inv_at now d" and r: "find_run d rid = Some r" and ok: "run_ok (f r)"
    and f: "\<And>r. run_id (f r) = run_id r" "\<And>r. profile (f r) = profile r" "\<And>r. hold (f r) = hold r"
  shows "inv_at now (update_run rid f d)"
proof -
  have dist: "distinct (map run_id (runs d))" using inv by (simp add: inv_at_def tables_ok_def)
  have only: "r0 = r" if "r0 \<in> set (runs d)" "run_id r0 = rid" for r0
    using row_find_in_set[OF dist that(1)] that(2) r by simp
  have ids: "map run_id (row_update run_id rid f (runs d)) = map run_id (runs d)" by (rule row_update_keys) (rule f(1))
  have keys: "run_id ` set (row_update run_id rid f (runs d)) = run_id ` set (runs d)"
    using f(1) by (rule row_update_image)
  have same: "held (update_run rid f d) x = held d x" for x
    using f by (auto simp: held_def row_find_update)
  have holds: "(\<forall>r \<in> set (row_update run_id rid f (runs d)). \<not> hold r) \<longleftrightarrow> (\<forall>r \<in> set (runs d). \<not> hold r)"
    using f(3) by (rule none_held_update)
  have ok': "run_ok r0" if "r0 \<in> set (row_update run_id rid f (runs d))" for r0
    using set_row_updateD[OF that] only ok inv by (auto simp: inv_at_def)
  have budget: "budget_ok now (update_run rid f d)"
    unfolding budget_ok_def
  proof (intro conjI allI impI)
    fix x r' limit
    assume "find_run (update_run rid f d) x = Some r'" "\<not> hold r'" "RUN_LIMITS (profile r') = Some limit"
    then obtain r0 where "find_run d x = Some r0" "\<not> hold r0" "RUN_LIMITS (profile r0) = Some limit"
      using f by (auto simp: row_find_update split: if_splits)
    then show "run_sum (update_run rid f d) x \<le> limit" using inv by (simp add: inv_at_def budget_ok_def)
  next
    assume "\<forall>r \<in> set (runs (update_run rid f d)). \<not> hold r"
    then show "global_sum now (update_run rid f d) \<le> GLOBAL_LIMIT"
      using inv holds by (simp add: inv_at_def budget_ok_def)
  qed
  have "holds_ok (update_run rid f d)" using inv same by (simp add: inv_at_def holds_ok_def)
  then show ?thesis
    using inv ids keys budget ok'
    by (simp add: inv_at_def tables_ok_def refs_ok_def events_ok_def ops_ok_def)
qed

text \<open>Updates of an operation: a clean one, and one that puts the run on hold.\<close>

lemma update_op_inv:
  assumes inv: "inv_at now d" and p: "find_op d oid = Some p" and ok: "op_ok (g p)" "clean_op (g p)"
    and time: "reserved_at (g p) \<le> now" "\<forall>t. settled_at (g p) = Some t \<longrightarrow> t \<le> now"
    and g: "\<And>p. operation_id (g p) = operation_id p" "\<And>p. op_run_id (g p) = op_run_id p"
    and less: "accounted (g p) \<le> accounted p" and win: "in_window now p"
  shows "inv_at now (update_operation oid g d)"
proof -
  have dist: "distinct (map operation_id (operations d))" using inv by (simp add: inv_at_def tables_ok_def)
  have only: "p0 = p" if "p0 \<in> set (operations d)" "operation_id p0 = oid" for p0
    using row_find_in_set[OF dist that(1)] that(2) p by simp
  have ids: "map operation_id (row_update operation_id oid g (operations d)) = map operation_id (operations d)"
    by (rule row_update_keys) (rule g(1))
  have refs: "op_run_id ` set (row_update operation_id oid g (operations d)) = op_run_id ` set (operations d)"
    using g(2) by (rule row_update_image)
  have sums: "run_sum (update_operation oid g d) x \<le> run_sum d x" for x
    using run_sum_update[OF dist p g(1), of x] g(2) less by auto
  have nn: "0 \<le> accounted (g p)" using ok accounted_nonneg by blast
  have global: "global_sum now (update_operation oid g d) \<le> global_sum now d"
    using global_sum_update[OF dist p, of now g] less win nn by auto
  have ops: "\<forall>p0 \<in> set (row_update operation_id oid g (operations d)). op_ok p0 \<and> reserved_at p0 \<le> now \<and>
      (\<forall>t. settled_at p0 = Some t \<longrightarrow> t \<le> now)"
    using inv only ok time unfolding inv_at_def ops_ok_def by (fastforce dest!: set_row_updateD split: if_splits)
  have holds: "clean_op p0 \<or> held d (op_run_id p0)" if "p0 \<in> set (row_update operation_id oid g (operations d))" for p0
    using set_row_updateD[OF that] only ok inv by (auto simp: inv_at_def holds_ok_def split: if_splits)
  have "budget_ok now (update_operation oid g d)"
    unfolding budget_ok_def
  proof (intro conjI allI impI)
    fix x r limit
    assume "find_run (update_operation oid g d) x = Some r" "\<not> hold r" "RUN_LIMITS (profile r) = Some limit"
    then have "run_sum d x \<le> limit" using inv by (simp add: inv_at_def budget_ok_def)
    with sums[of x] show "run_sum (update_operation oid g d) x \<le> limit" by simp
  next
    assume "\<forall>r \<in> set (runs (update_operation oid g d)). \<not> hold r"
    then have "global_sum now d \<le> GLOBAL_LIMIT" using inv by (simp add: inv_at_def budget_ok_def)
    with global show "global_sum now (update_operation oid g d) \<le> GLOBAL_LIMIT" by simp
  qed
  moreover have "holds_ok (update_operation oid g d)"
    using holds by (auto simp: holds_ok_def held_def)
  ultimately show ?thesis
    using inv ids refs ops by (simp add: inv_at_def tables_ok_def refs_ok_def events_ok_def ops_ok_def)
qed

lemma hold_op_inv:
  assumes inv: "inv_at now d" and p: "find_op d oid = Some p" and ok: "op_ok (g p)"
    and time: "reserved_at (g p) \<le> now" "\<forall>t. settled_at (g p) = Some t \<longrightarrow> t \<le> now"
    and g: "\<And>p. operation_id (g p) = operation_id p" "\<And>p. op_run_id (g p) = op_run_id p"
    and r: "find_run d (op_run_id p) = Some r"
  shows "inv_at now (hold_run (op_run_id p) reason (update_operation oid g d))"
proof -
  let ?rid = "op_run_id p"
  let ?h = "\<lambda>r. r\<lparr>hold := True, hold_reason := Some reason\<rparr>"
  let ?d' = "hold_run ?rid reason (update_operation oid g d)"
  have dist: "distinct (map operation_id (operations d))" using inv by (simp add: inv_at_def tables_ok_def)
  have only: "p0 = p" if "p0 \<in> set (operations d)" "operation_id p0 = oid" for p0
    using row_find_in_set[OF dist that(1)] that(2) p by simp
  have ids: "map operation_id (row_update operation_id oid g (operations d)) = map operation_id (operations d)"
    by (rule row_update_keys) (rule g(1))
  have refs: "op_run_id ` set (row_update operation_id oid g (operations d)) = op_run_id ` set (operations d)"
    using g(2) by (rule row_update_image)
  have rids: "map run_id (row_update run_id ?rid ?h (runs d)) = map run_id (runs d)"
    by (rule row_update_keys) simp
  have rkeys: "run_id ` set (row_update run_id ?rid ?h (runs d)) = run_id ` set (runs d)"
    by (rule row_update_image) simp
  have ops: "\<forall>p0 \<in> set (row_update operation_id oid g (operations d)). op_ok p0 \<and> reserved_at p0 \<le> now \<and>
      (\<forall>t. settled_at p0 = Some t \<longrightarrow> t \<le> now)"
    using inv only ok time unfolding inv_at_def ops_ok_def by (fastforce dest!: set_row_updateD split: if_splits)
  have found: "find_run ?d' x = (if x = ?rid then Some (?h r) else find_run d x)" for x
    using r by (simp add: hold_run_def row_find_update)
  have held': "held ?d' x \<longleftrightarrow> x = ?rid \<or> held d x" for x by (auto simp: held_def found)
  have "?h r \<in> set (runs ?d')" using row_find_SomeD[of run_id ?rid "runs ?d'" "?h r"] found[of ?rid] by simp
  then have "\<exists>r' \<in> set (runs ?d'). hold r'" by (rule rev_bexI) simp
  then have heldrun: "\<not> (\<forall>r' \<in> set (runs ?d'). \<not> hold r')" by blast
  have sums: "run_sum ?d' x = run_sum d x" if "x \<noteq> ?rid" for x
    using run_sum_update[OF dist p g(1), of x] g(2) that by (simp add: hold_run_def)
  have budget: "budget_ok now ?d'"
    using inv sums heldrun by (auto simp: inv_at_def budget_ok_def found split: if_splits)
  have holds: "holds_ok ?d'"
    using inv only g(2) unfolding holds_ok_def held'
    by (fastforce simp: inv_at_def holds_ok_def hold_run_def dest!: set_row_updateD split: if_splits)
  have runs: "\<forall>r0 \<in> set (runs ?d'). run_ok r0"
    using inv by (auto simp: inv_at_def hold_run_def run_ok_def dest!: set_row_updateD split: if_splits)
  show ?thesis
    using inv ids refs rids rkeys ops budget holds runs
    by (simp add: inv_at_def tables_ok_def refs_ok_def events_ok_def ops_ok_def hold_run_def)
qed

section \<open>Every effect keeps the invariant\<close>

lemma find_run_ok: "inv_at now d \<Longrightarrow> find_run d rid = Some r \<Longrightarrow> run_ok r \<and> run_id r = rid"
  using row_find_SomeD[of run_id rid "runs d" r] by (auto simp: inv_at_def)

lemma find_op_inv:
  "inv_at now d \<Longrightarrow> find_op d oid = Some p \<Longrightarrow> op_ok p \<and> operation_id p = oid \<and> reserved_at p \<le> now \<and>
    (\<forall>t. settled_at p = Some t \<longrightarrow> t \<le> now)"
  using row_find_SomeD[of operation_id oid "operations d" p] by (auto simp: inv_at_def ops_ok_def)

lemma new_run_inv:
  assumes inv: "inv_at now d" and free: "find_run d rid = None" and prof: "RUN_LIMITS prof \<noteq> None"
    and room: "now + run_duration prof \<le> MAX_TIME" and now: "0 \<le> now"
  shows "inv_at now (d\<lparr>runs := runs d @ [fresh_run rid prof now]\<rparr>)"
proof -
  let ?d' = "d\<lparr>runs := runs d @ [fresh_run rid prof now]\<rparr>"
  have fresh: "rid \<notin> run_id ` set (runs d)" using free by (simp add: row_find_None_iff)
  have ok: "run_ok (fresh_run rid prof now)"
    using prof room now by (simp add: run_ok_def fresh_run_def MAX_INT64_def)
  have found: "find_run ?d' x = (case find_run d x of Some r \<Rightarrow> Some r
      | None \<Rightarrow> if x = rid then Some (fresh_run rid prof now) else None)" for x
    by (auto simp: row_find_append split: option.splits)
  have zero: "run_sum d rid = 0"
  proof -
    have "\<forall>p \<in> set (operations d). op_run_id p \<noteq> rid" using inv fresh by (auto simp: inv_at_def refs_ok_def)
    then have "map (\<lambda>p. if op_run_id p = rid then accounted p else 0) (operations d) = map (\<lambda>p. 0) (operations d)"
      by simp
    then show ?thesis by (simp only: run_sum_def sum_list_0)
  qed
  have lim: "0 \<le> limit" if "RUN_LIMITS prof = Some limit" for limit
    using that by (auto simp: RUN_LIMITS_def split: if_splits)
  have budget: "budget_ok now ?d'"
    using inv zero lim free unfolding inv_at_def budget_ok_def found by (auto split: option.splits)
  have "held ?d' x \<longleftrightarrow> held d x" for x
    unfolding held_def found using free by (auto split: option.splits)
  then have "holds_ok ?d'" using inv by (simp add: inv_at_def holds_ok_def)
  then show ?thesis
    using inv budget fresh ok by (auto simp: inv_at_def tables_ok_def refs_ok_def events_ok_def ops_ok_def)
qed

lemma new_op_inv:
  assumes inv: "inv_at now d" and r: "find_run d rid = Some r" and o: "find_op d oid = None"
    and usd: "stored_amount usd = Inr micros" and now: "valid_timestamp now"
    and limits: "RUN_LIMITS (profile r) = Some limit" "run_sum d rid + micros \<le> limit"
      "global_sum now d + micros \<le> GLOBAL_LIMIT"
  shows "inv_at now (d\<lparr>operations := operations d @ [fresh_op oid rid own epoch usd micros now]\<rparr>)"
proof -
  let ?p = "fresh_op oid rid own epoch usd micros now"
  let ?d' = "d\<lparr>operations := operations d @ [?p]\<rparr>"
  have fresh: "oid \<notin> operation_id ` set (operations d)" using o by (simp add: row_find_None_iff)
  have ref: "rid \<in> run_id ` set (runs d)" using row_find_SomeD[OF r] by auto
  have p: "op_ok ?p" "clean_op ?p" "accounted ?p = micros" "in_window now ?p" "reserved_at ?p = now" "settled_at ?p = None"
    using fresh_op_ok[OF usd now] by (auto simp: fresh_op_def clean_op_def accounted_def in_window_def)
  have sums: "run_sum ?d' x = run_sum d x + (if x = rid then micros else 0)"
    "global_sum now ?d' = global_sum now d + micros" for x
    using p(3,4) by (simp_all add: run_sum_def global_sum_def)
  have budget: "budget_ok now ?d'"
    using inv sums limits r by (auto simp: inv_at_def budget_ok_def)
  show ?thesis
    using inv budget fresh ref p
    by (simp add: inv_at_def tables_ok_def refs_ok_def events_ok_def ops_ok_def holds_ok_def held_def)
qed

lemma effect_inv:
  assumes "effect now actor d d'" and "inv_at now d" and "0 \<le> now" and "now \<le> MAX_TIME"
  shows "inv_at now d'"
  using assms
proof (induction rule: effect.induct)
  case (Run_created d rid prof now)
  then show ?case using new_run_inv by blast
next
  case (Execution_leased d rid r now own epoch until)
  then have "run_ok r" using find_run_ok by blast
  then have "run_ok (leased own epoch until ''execution'' r)"
    using Execution_leased by (auto simp: run_ok_def leased_def lease_valid_def split: if_splits)
  with Execution_leased.prems(1) Execution_leased.hyps(1) show ?case by (rule update_run_inv) simp_all
next
  case (Recovery_leased d rid r now own epoch until)
  then have "run_ok r" using find_run_ok by blast
  then have "run_ok (leased own epoch until ''recovery'' r)"
    using Recovery_leased by (auto simp: run_ok_def leased_def lease_valid_def split: if_splits)
  with Recovery_leased.prems(1) Recovery_leased.hyps(1) show ?case by (rule update_run_inv) simp_all
next
  case (Reserved d rid r own epoch now oid usd micros run_total global_total limit)
  have "valid_timestamp now" using Reserved.prems by (simp add: valid_timestamp_def)
  with Reserved show ?case
    using run_accounted_Inr global_accounted_Inr by (intro new_op_inv[where r = r and limit = limit]) auto
next
  case (Settled d rid r own epoch now oid p usd micros)
  have t: "valid_timestamp now" using Settled.prems by (simp add: valid_timestamp_def)
  have m: "0 \<le> micros" using stored_amount_bounds[OF Settled.hyps(7)] by simp
  show ?case
    using Settled.prems(1) Settled.hyps(3)
  proof (rule update_op_inv)
    show "op_ok (settled_op usd micros now None p)" using settled_op_ok[OF Settled.hyps(5-7) t] .
    show "clean_op (settled_op usd micros now None p)"
      using Settled.hyps by (auto simp: clean_op_def settled_op_def op_ok_iff)
    show "accounted (settled_op usd micros now None p) \<le> accounted p"
      using Settled.hyps m by (auto simp: accounted_def settled_op_def op_ok_iff or_zero_def)
    show "in_window now p" using Settled.hyps by (simp add: in_window_def)
  qed (use find_op_inv[OF Settled.prems(1) Settled.hyps(3)] in \<open>auto simp: settled_op_def\<close>)
next
  case (Settled_over d rid r own epoch now oid p usd micros)
  have t: "valid_timestamp now" using Settled_over.prems by (simp add: valid_timestamp_def)
  have "inv_at now (hold_run (op_run_id p) ''settlement_over_reservation'' (update_operation oid
      (settled_op usd micros now (Some ''settlement_over_reservation'')) d))"
    using Settled_over.prems(1) Settled_over.hyps(3) settled_op_ok[OF Settled_over.hyps(5-7) t]
      find_op_inv[OF Settled_over.prems(1) Settled_over.hyps(3)] Settled_over.hyps(1,4)
    by (intro hold_op_inv[where r = r]) (auto simp: settled_op_def)
  then show ?case using Settled_over.hyps(4) by simp
next
  case (Settlement_conflict d rid r own epoch now oid p usd micros)
  let ?g = "exposed_op (fst (conflict_exposure p usd micros)) (snd (conflict_exposure p usd micros))"
  have "inv_at now (hold_run (op_run_id p) ''settlement_conflict'' (update_operation oid ?g d))"
    using Settlement_conflict.prems(1) Settlement_conflict.hyps(3) exposed_op_ok[OF Settlement_conflict.hyps(5-7)]
      find_op_inv[OF Settlement_conflict.prems(1) Settlement_conflict.hyps(3)] Settlement_conflict.hyps(1,4)
    by (intro hold_op_inv[where r = r]) (auto simp: exposed_op_def)
  then show ?case using Settlement_conflict.hyps(4) by simp
next
  case (Cancelled d rid r own epoch now)
  then have "run_ok (r\<lparr>cancel_requested_at := Some now\<rparr>)" using find_run_ok by (fastforce simp: run_ok_def)
  with Cancelled.prems(1) Cancelled.hyps(1) show ?case by (rule update_run_inv) simp_all
next
  case (Stopped d rid r own epoch now)
  then have "run_ok (r\<lparr>stop_confirmed_at := Some now\<rparr>)" using find_run_ok by (fastforce simp: run_ok_def)
  with Stopped.prems(1) Stopped.hyps(1) show ?case by (rule update_run_inv) simp_all
next
  case (Finalized d rid r own epoch now c dec work_complete required_failure a rl "text")
  then have "rid \<notin> stored_key ` set (terminal_records d)" "rid \<in> run_id ` set (runs d)"
    using row_find_SomeD[OF Finalized.hyps(1)] by (auto simp: row_find_None_iff)
  with Finalized.prems show ?case
    by (auto simp: inv_at_def tables_ok_def refs_ok_def events_ok_def ops_ok_def holds_ok_def held_def budget_ok_def)
next
  case (Report_stored d qid rl report "text" now)
  then have "qid \<notin> stored_key ` set (reports d)" by (simp add: row_find_None_iff)
  with Report_stored.prems show ?case
    by (auto simp: inv_at_def tables_ok_def refs_ok_def events_ok_def ops_ok_def holds_ok_def held_def budget_ok_def)
qed

lemma effect_clock: "effect now actor d d' \<Longrightarrow> last_clock d' = last_clock d"
  by (induction rule: effect.induct) (simp_all add: hold_run_def)

theorem commits_inv:
  assumes "commits d d'" and "db_inv d"
  shows "db_inv d'"
proof -
  from assms(1) obtain now actor d1 es where t: "ticks d now" and e: "effect now actor (set_clock now d) d1"
    and l: "logs now d1 es" and d': "d' = add_events es d1" by (auto simp: commits_def)
  from assms(2) t obtain c where "clock_of d = Some c" "inv_at c d" "c \<le> now" and now: "0 \<le> now" "now \<le> MAX_TIME"
    by (auto simp: db_inv_def ticks_def)
  then have "inv_at now (set_clock now d)" using inv_at_later by blast
  then have "inv_at now d1" using effect_inv[OF e] now by blast
  then have "inv_at now d'" unfolding d' using inv_at_events[OF _ l] by blast
  moreover have "clock_of d' = Some now"
    using effect_clock[OF e] clock_of_set_clock[OF now, of d] by (simp add: d' clock_of_def)
  ultimately show ?thesis using now by (auto simp: db_inv_def)
qed

lemma empty_db_inv: "db_inv empty_db"
  by (simp add: db_inv_def empty_db_def clock_of_def py_int_minus_one MAX_TIME_def inv_at_def tables_ok_def
      refs_ok_def events_ok_def ops_ok_def holds_ok_def budget_ok_def global_sum_def GLOBAL_LIMIT_def)

end
