(* ===== verification/Ledger_Props.thy ===== *)
theory Ledger_Props
  imports Ledger_Inv
begin

text \<open>
  The order in which the ledger grows, the ledger as a \<open>machine\<close>, and its properties over sequences
  of calls: budgets, fencing of old leases, final settlements, holds and terminal records.
\<close>

section \<open>Growth\<close>

definition run_grows :: "run_row \<Rightarrow> run_row \<Rightarrow> bool" where
  "run_grows r r' \<longleftrightarrow> run_id r' = run_id r \<and> profile r' = profile r \<and> started_at r' = started_at r \<and>
     deadline r' = deadline r \<and> owner_epoch r \<le> owner_epoch r' \<and>
     (owner_epoch r' = owner_epoch r \<longrightarrow> owner r' = owner r \<and> lease_kind r' = lease_kind r) \<and>
     (lease_kind r = ''recovery'' \<longrightarrow> lease_kind r' = ''recovery'') \<and> (hold r \<longrightarrow> hold r') \<and>
     (\<forall>t. cancel_requested_at r = Some t \<longrightarrow> cancel_requested_at r' = Some t) \<and>
     (\<forall>t. stop_confirmed_at r = Some t \<longrightarrow> stop_confirmed_at r' = Some t)"

definition op_grows :: "op_row \<Rightarrow> op_row \<Rightarrow> bool" where
  "op_grows p p' \<longleftrightarrow> operation_id p' = operation_id p \<and> op_run_id p' = op_run_id p \<and>
     op_owner p' = op_owner p \<and> op_epoch p' = op_epoch p \<and> reserved_usd p' = reserved_usd p \<and>
     reserved_micros p' = reserved_micros p \<and> reserved_at p' = reserved_at p \<and>
     (status p = ''settled'' \<longrightarrow> status p' = ''settled'' \<and> settled_usd p' = settled_usd p \<and>
        settled_micros p' = settled_micros p \<and> settled_at p' = settled_at p) \<and>
     (exposure_micros p \<noteq> None \<longrightarrow> exposure_micros p' \<noteq> None) \<and>
     or_zero (exposure_micros p) \<le> or_zero (exposure_micros p')"

definition db_grows :: "ledger_db \<Rightarrow> ledger_db \<Rightarrow> bool" where
  "db_grows d d' \<longleftrightarrow>
     (\<forall>rid r. find_run d rid = Some r \<longrightarrow> (\<exists>r'. find_run d' rid = Some r' \<and> run_grows r r')) \<and>
     (\<forall>oid p. find_op d oid = Some p \<longrightarrow> (\<exists>p'. find_op d' oid = Some p' \<and> op_grows p p')) \<and>
     prefix (terminal_records d) (terminal_records d') \<and> prefix (reports d) (reports d') \<and>
     prefix (run_events d) (run_events d')"

lemma run_grows_refl [simp]: "run_grows r r"
  by (simp add: run_grows_def)

lemma run_grows_trans: "run_grows r s \<Longrightarrow> run_grows s t \<Longrightarrow> run_grows r t"
  by (auto simp: run_grows_def)

lemma op_grows_refl [simp]: "op_grows p p"
  by (simp add: op_grows_def)

lemma op_grows_trans: "op_grows p q \<Longrightarrow> op_grows q r \<Longrightarrow> op_grows p r"
  by (auto simp: op_grows_def)

lemma db_grows_refl [simp]: "db_grows d d"
  by (auto simp: db_grows_def)

lemma db_grows_run:
  "db_grows d e \<Longrightarrow> find_run d rid = Some r \<Longrightarrow> \<exists>r'. find_run e rid = Some r' \<and> run_grows r r'"
  by (simp add: db_grows_def)

lemma db_grows_op:
  "db_grows d e \<Longrightarrow> find_op d oid = Some p \<Longrightarrow> \<exists>p'. find_op e oid = Some p' \<and> op_grows p p'"
  by (simp add: db_grows_def)

lemma db_grows_trans:
  assumes "db_grows d e" and "db_grows e f"
  shows "db_grows d f"
  unfolding db_grows_def
proof (intro conjI allI impI)
  fix rid r assume "find_run d rid = Some r"
  with db_grows_run[OF assms(1)] obtain s where "find_run e rid = Some s" "run_grows r s" by blast
  with db_grows_run[OF assms(2)] show "\<exists>r'. find_run f rid = Some r' \<and> run_grows r r'"
    using run_grows_trans by blast
next
  fix oid p assume "find_op d oid = Some p"
  with db_grows_op[OF assms(1)] obtain q where "find_op e oid = Some q" "op_grows p q" by blast
  with db_grows_op[OF assms(2)] show "\<exists>p'. find_op f oid = Some p' \<and> op_grows p p'"
    using op_grows_trans by blast
qed (use assms in \<open>auto simp: db_grows_def intro: prefix_order.trans\<close>)

lemma update_run_grows:
  assumes "find_run d rid = Some r" and "run_grows r (f r)" and "\<And>r. run_id (f r) = run_id r"
  shows "db_grows d (update_run rid f d)"
  using assms by (auto simp: db_grows_def row_find_update)

lemma update_op_grows:
  assumes "find_op d oid = Some p" and "op_grows p (g p)" and "\<And>p. operation_id (g p) = operation_id p"
  shows "db_grows d (update_operation oid g d)"
  using assms by (auto simp: db_grows_def row_find_update)

lemma hold_run_grows: "db_grows d (hold_run rid reason d)"
  by (auto simp: db_grows_def hold_run_def row_find_update run_grows_def)

lemma conflict_grows:
  "snd (conflict_exposure p usd micros) = m \<Longrightarrow> or_zero (exposure_micros p) \<le> m"
  by (auto simp: conflict_exposure_def Let_def)

lemma effect_grows: "effect now actor d d' \<Longrightarrow> db_grows d d'"
proof (induction rule: effect.induct)
  case (Run_created d rid prof now)
  then show ?case by (auto simp: db_grows_def row_find_append)
next
  case (Execution_leased d rid r now own epoch until)
  then have "run_grows r (leased own epoch until ''execution'' r)"
    by (auto simp: run_grows_def leased_def split: if_splits)
  with Execution_leased.hyps(1) show ?case by (rule update_run_grows) simp
next
  case (Recovery_leased d rid r now own epoch until)
  then have "run_grows r (leased own epoch until ''recovery'' r)"
    by (auto simp: run_grows_def leased_def lease_valid_def split: if_splits)
  with Recovery_leased.hyps(1) show ?case by (rule update_run_grows) simp
next
  case (Reserved d rid r own epoch now oid usd micros run_total global_total limit)
  then show ?case by (auto simp: db_grows_def row_find_append)
next
  case (Settled d rid r own epoch now oid p usd micros)
  then have "op_grows p (settled_op usd micros now None p)" by (auto simp: op_grows_def settled_op_def)
  with Settled.hyps(3) show ?case by (rule update_op_grows) simp
next
  case (Settled_over d rid r own epoch now oid p usd micros)
  then have "op_grows p (settled_op usd micros now (Some ''settlement_over_reservation'') p)"
    by (auto simp: op_grows_def settled_op_def)
  with Settled_over.hyps(3) show ?case by (intro db_grows_trans[OF update_op_grows hold_run_grows]) simp_all
next
  case (Settlement_conflict d rid r own epoch now oid p usd micros)
  have "op_grows p (exposed_op (fst (conflict_exposure p usd micros)) (snd (conflict_exposure p usd micros)) p)"
    using conflict_grows[OF refl] by (auto simp: op_grows_def exposed_op_def or_zero_def)
  with Settlement_conflict.hyps(3) show ?case
    by (intro db_grows_trans[OF update_op_grows hold_run_grows]) simp_all
next
  case (Cancelled d rid r own epoch now)
  then have "run_grows r (r\<lparr>cancel_requested_at := Some now\<rparr>)" by (simp add: run_grows_def)
  with Cancelled.hyps(1) show ?case by (rule update_run_grows) simp
next
  case (Stopped d rid r own epoch now)
  then have "run_grows r (r\<lparr>stop_confirmed_at := Some now\<rparr>)" by (simp add: run_grows_def)
  with Stopped.hyps(1) show ?case by (rule update_run_grows) simp
qed (auto simp: db_grows_def)

lemma commits_grows:
  assumes "commits d d'"
  shows "db_grows d d'"
proof -
  from assms obtain now actor d1 es where e: "effect now actor (set_clock now d) d1"
    and d': "d' = add_events es d1" by (auto simp: commits_def)
  have "db_grows d (set_clock now d)" "db_grows d1 d'" by (auto simp: db_grows_def d')
  with effect_grows[OF e] show ?thesis using db_grows_trans by blast
qed

section \<open>The ledger as a machine\<close>

definition ledger_grows :: "ledger \<Rightarrow> ledger \<Rightarrow> bool" where
  "ledger_grows l l' \<longleftrightarrow> db_grows (db l) (db l') \<and> (closed l \<longrightarrow> l' = l)"

lemma call_ledger_grows: "ledger_grows l (snd (call_ledger rl c l))"
proof -
  obtain env k where c: "c = (env, k)" by (cases c)
  obtain res l' where "call_ledger rl (env, k) l = (res, l')" by (cases "call_ledger rl (env, k) l")
  with call_ledger_cases[OF this] c show ?thesis
    by (cases l) (auto simp: ledger_grows_def intro: commits_grows)
qed

lemma call_ledger_inv: "db_inv (db l) \<Longrightarrow> db_inv (db (snd (call_ledger rl c l)))"
proof -
  obtain env k where c: "c = (env, k)" by (cases c)
  obtain res l' where "call_ledger rl (env, k) l = (res, l')" by (cases "call_ledger rl (env, k) l")
  moreover assume "db_inv (db l)"
  ultimately show ?thesis using call_ledger_cases[of rl env k l res l'] c by (auto intro: commits_inv)
qed

interpretation ledger: machine "call_ledger rl" "\<lambda>l. db_inv (db l)" ledger_grows
proof unfold_locales
  show "ledger_grows s t \<Longrightarrow> ledger_grows t u \<Longrightarrow> ledger_grows s u" for s t u
    by (auto simp: ledger_grows_def intro: db_grows_trans)
  show "ledger_grows s s" for s by (simp add: ledger_grows_def)
qed (simp_all add: call_ledger_inv call_ledger_grows)

abbreviation after :: "nat \<Rightarrow> (env \<times> ledger_call) list \<Rightarrow> ledger \<Rightarrow> ledger" where
  "after rl cs l \<equiv> run_calls (call_ledger rl) cs l"

lemma new_ledger_inv: "db_inv (db new_ledger)"
  by (simp add: new_ledger_def empty_db_inv)

lemma find_run_after:
  assumes "db_inv (db l)" and "find_run (db l) rid = Some r"
  obtains r' where "find_run (db (after rl cs l)) rid = Some r'" and "run_grows r r'"
  using ledger.grows_calls[OF assms(1)] assms(2) by (fastforce simp: ledger_grows_def db_grows_def)

lemma find_op_after:
  assumes "db_inv (db l)" and "find_op (db l) oid = Some p"
  obtains p' where "find_op (db (after rl cs l)) oid = Some p'" and "op_grows p p'"
  using ledger.grows_calls[OF assms(1)] assms(2) by (fastforce simp: ledger_grows_def db_grows_def)

section \<open>Leases\<close>

text \<open>The run, owner and epoch a call has to prove its lease with.\<close>

fun acts_with :: "ledger_call \<Rightarrow> (json \<times> json \<times> json) option" where
  "acts_with (Reserve rid own epoch oid usd) = Some (rid, own, epoch)"
| "acts_with (Settle rid own epoch oid usd) = Some (rid, own, epoch)"
| "acts_with (Request_cancel rid own epoch) = Some (rid, own, epoch)"
| "acts_with (Confirm_stopped rid own epoch) = Some (rid, own, epoch)"
| "acts_with (Finalize rid own epoch a wc rf) = Some (rid, own, epoch)"
| "acts_with _ = None"

definition lease_at :: "env \<Rightarrow> ledger_db \<Rightarrow> string \<Rightarrow> string \<Rightarrow> json \<Rightarrow> bool" where
  "lease_at env d rid own epoch \<longleftrightarrow> (\<exists>now r. clock_reading env = Some (JInt now) \<and> ticks d now \<and>
     find_run d rid = Some r \<and> epoch = JInt (owner_epoch r) \<and> holds_lease r own (owner_epoch r) now)"

lemma require_lease_int:
  "require_lease d rid own epoch now late kind = Inr r \<Longrightarrow> epoch = JInt (owner_epoch r)"
  by (cases epoch) (auto simp: require_lease_def result_iff)

lemma require_lease_at:
  assumes "require_lease (set_clock now d) rid own epoch now after' kind = Inr r"
    and "clock_reading env = Some (JInt now)" and "ticks d now"
  shows "lease_at env d rid own epoch"
  using require_lease_Inr[OF assms(1)] require_lease_int[OF assms(1)] assms(2,3) by (auto simp: lease_at_def)

lemma lease_of_tx:
  "reserve_tx env epoch (rid, own, oid, usd, micros) d = Inr x \<Longrightarrow> lease_at env d rid own epoch"
  "settle_tx env epoch (rid, own, oid, usd, micros) d = Inr y \<Longrightarrow> lease_at env d rid own epoch"
  "request_cancel_tx env epoch (rid, own) d = Inr x \<Longrightarrow> lease_at env d rid own epoch"
  "confirm_stopped_tx env epoch (rid, own) d = Inr x \<Longrightarrow> lease_at env d rid own epoch"
  "finalize_tx rl env epoch a wc rf (rid, own) d = Inr x \<Longrightarrow> lease_at env d rid own epoch"
  unfolding reserve_tx_def settle_tx_def request_cancel_tx_def confirm_stopped_tx_def finalize_tx_def prod.case
  by (auto simp only: ebind_eq_Inr now_tick_Inr prod.case split_paired_Ex prod.inject intro: require_lease_at)

lemma transaction_result:
  assumes "with_input m (\<lambda>a. immediate env (body a)) l = (res, l')" and "l' \<noteq> l \<or> (\<exists>x. res = Inr x)"
  shows "\<exists>a x d'. m = Inr a \<and> body a (db l) = Inr (x, d') \<and> res = Inr x \<and> l' = l\<lparr>db := d'\<rparr>"
  using with_input_cases[OF assms(1)]
proof (elim disjE exE conjE)
  fix a
  assume m: "m = Inr a" and i: "immediate env (body a) l = (res, l')"
  show ?thesis using immediate_cases[OF i] assms(2) m by auto
qed (use assms(2) in auto)

lemma validate_id_Inr [result_iff]: "validate_id v = Inr s \<longleftrightarrow> v = JStr s \<and> token_ok 128 s"
  by (cases v) (auto simp: validate_id_def)

lemma validate_owner_Inr [result_iff]: "validate_owner v = Inr s \<longleftrightarrow> v = JStr s \<and> token_ok 256 s"
  by (cases v) (auto simp: validate_owner_def)

lemma two_ids_Inr: "two_ids a b = Inr (r, w) \<Longrightarrow> a = JStr r \<and> b = JStr w"
  by (auto simp: two_ids_def result_iff)

lemma operation_input_Inr: "operation_input a b c e = Inr (r, w, i, t, m) \<Longrightarrow> a = JStr r \<and> b = JStr w"
  by (auto simp: operation_input_def result_iff)

lemma settle_split:
  assumes "settle env rid own epoch oid usd l = (res, l')"
  obtains res0 where "with_input (operation_input rid own oid usd) (\<lambda>a. immediate env (settle_tx env epoch a)) l
      = (res0, l')" and "res = (case res0 of Inl e \<Rightarrow> Inl e | Inr r \<Rightarrow> r)"
  using assms by (auto simp: settle_def split: prod.splits sum.splits)

lemma call_needs_lease:
  assumes "call_ledger rl (env, c) l = (res, l')" and "acts_with c = Some (rid, own, epoch)"
    and "l' \<noteq> l \<or> (\<exists>x. res = Inr x)"
  shows "\<exists>i w. rid = JStr i \<and> own = JStr w \<and> lease_at env (db l) i w epoch"
proof (cases c)
  case (Reserve r w e oid usd)
  with assms have "with_input (operation_input rid own oid usd) (\<lambda>a. immediate env (reserve_tx env epoch a)) l = (res, l')"
    by (simp add: reserve_def)
  from transaction_result[OF this assms(3)] show ?thesis
    using lease_of_tx(1) operation_input_Inr by (metis prod_cases5)
next
  case (Settle r w e oid usd)
  with assms obtain res0 where w: "with_input (operation_input rid own oid usd)
      (\<lambda>a. immediate env (settle_tx env epoch a)) l = (res0, l')"
    and res: "res = (case res0 of Inl e \<Rightarrow> Inl e | Inr r \<Rightarrow> r)"
    using settle_split[of env r w e oid usd l res l'] by auto
  have "l' \<noteq> l \<or> (\<exists>x. res0 = Inr x)" using assms(3) res by (auto split: sum.splits)
  from transaction_result[OF w this] show ?thesis
    using lease_of_tx(2) operation_input_Inr by (metis prod_cases5)
next
  case (Request_cancel r w e)
  with assms have "with_input (two_ids rid own) (\<lambda>a. immediate env (request_cancel_tx env epoch a)) l = (res, l')"
    by (simp add: request_cancel_def)
  from transaction_result[OF this assms(3)] show ?thesis using lease_of_tx(3) two_ids_Inr by (metis surj_pair)
next
  case (Confirm_stopped r w e)
  with assms have "with_input (two_ids rid own) (\<lambda>a. immediate env (confirm_stopped_tx env epoch a)) l = (res, l')"
    by (simp add: confirm_stopped_def)
  from transaction_result[OF this assms(3)] show ?thesis using lease_of_tx(4) two_ids_Inr by (metis surj_pair)
next
  case (Finalize r w e a wc rf)
  with assms have "with_input (ebind (two_ids rid own) (\<lambda>ids.
       ebind (guard (is_bool wc \<and> is_bool rf \<and> parse_assurance a \<noteq> None) (PyError ''ValueError'')) (\<lambda>_. Inr ids)))
      (\<lambda>ids. immediate env (finalize_tx rl env epoch a (bool_of wc) (bool_of rf) ids)) l = (res, l')"
    by (simp add: finalize_def)
  from transaction_result[OF this assms(3)] show ?thesis
    using lease_of_tx(5) two_ids_Inr by (fastforce simp: result_iff)
qed (use assms(2) in auto)

text \<open>Calls that need no lease: a claim changes the lease of its run, the others no row of a run.\<close>

definition leased_only :: "env \<Rightarrow> ledger_call \<Rightarrow> ledger_db \<Rightarrow> ledger_db \<Rightarrow> bool" where
  "leased_only env c d d' \<longleftrightarrow> operations d' = operations d \<and> terminal_records d' = terminal_records d \<and>
     (\<forall>i r. find_run d i = Some r \<longrightarrow> find_run d' i = Some r \<or>
       (\<exists>w now e until kind. (c = Claim (JStr i) (JStr w) \<or> c = Claim_recovery (JStr i) (JStr w)) \<and>
         clock_reading env = Some (JInt now) \<and>
         find_run d' i = Some (r\<lparr>owner := Some w, owner_epoch := e, lease_until := Some until,
           lease_kind := kind\<rparr>) \<and>
         (owner r \<noteq> Some w \<longrightarrow> (\<forall>t. owner r \<noteq> None \<and> lease_until r = Some t \<longrightarrow> t \<le> now)) \<and>
         (e = owner_epoch r + 1 \<or>
           e = owner_epoch r \<and> owner r = Some w \<and> (\<exists>t. lease_until r = Some t \<and> now < t))))"

lemma leased_only_same:
  "operations d' = operations d \<Longrightarrow> terminal_records d' = terminal_records d \<Longrightarrow> runs d' = runs d \<Longrightarrow>
    leased_only env c d d'"
  by (simp add: leased_only_def)

lemma create_run_leases:
  assumes "create_run_tx env (rid, prof) d = Inr (x, d')"
  shows "leased_only env c d d'"
proof -
  from assms obtain now row where
    ev: "record_event rid ''run_created'' now None 0 [(''profile'', JStr prof)]
      (set_clock now d\<lparr>runs := runs (set_clock now d) @ [row]\<rparr>) = Inr d'"
    by (auto simp: create_run_tx_def Let_def result_iff)
  then show ?thesis by (auto simp: leased_only_def row_find_append dest!: record_event_Inr)
qed

lemma lease_written:
  assumes "record_event rid k now own' e0 details (update_run rid
      (\<lambda>r. r\<lparr>owner := Some own, owner_epoch := e, lease_until := Some until, lease_kind := kind\<rparr>)
      (set_clock now d)) = Inr d'"
    and "find_run d rid = Some r" and "clock_reading env = Some (JInt now)"
    and "lease_valid r now \<longrightarrow> owner r = Some own"
    and "e = owner_epoch r + 1 \<or> e = owner_epoch r \<and> lease_valid r now"
    and "c = Claim (JStr rid) (JStr own) \<or> c = Claim_recovery (JStr rid) (JStr own)"
  shows "leased_only env c d d'"
proof -
  from record_event_Inr[OF assms(1)] obtain es where d': "d' = add_events es (update_run rid
      (\<lambda>r. r\<lparr>owner := Some own, owner_epoch := e, lease_until := Some until, lease_kind := kind\<rparr>)
      (set_clock now d))" by blast
  have other: "find_run d' i = find_run d i" if "i \<noteq> rid" for i
    using that by (simp add: d' row_find_update)
  have this': "find_run d' rid = Some (r\<lparr>owner := Some own, owner_epoch := e, lease_until := Some until,
      lease_kind := kind\<rparr>)" using assms(2) by (simp add: d' row_find_update)
  have free: "owner r \<noteq> Some own \<longrightarrow> (\<forall>t. owner r \<noteq> None \<and> lease_until r = Some t \<longrightarrow> t \<le> now)"
    and epoch: "e = owner_epoch r + 1 \<or>
      e = owner_epoch r \<and> owner r = Some own \<and> (\<exists>t. lease_until r = Some t \<and> now < t)"
    using assms(4,5) by (auto simp: lease_valid_def split: option.splits)
  show ?thesis
    unfolding leased_only_def
  proof (intro conjI allI impI)
    fix i r0 assume r0: "find_run d i = Some r0"
    show "find_run d' i = Some r0 \<or>
       (\<exists>w now e until kind. (c = Claim (JStr i) (JStr w) \<or> c = Claim_recovery (JStr i) (JStr w)) \<and>
         clock_reading env = Some (JInt now) \<and>
         find_run d' i = Some (r0\<lparr>owner := Some w, owner_epoch := e, lease_until := Some until,
           lease_kind := kind\<rparr>) \<and>
         (owner r0 \<noteq> Some w \<longrightarrow> (\<forall>t. owner r0 \<noteq> None \<and> lease_until r0 = Some t \<longrightarrow> t \<le> now)) \<and>
         (e = owner_epoch r0 + 1 \<or>
           e = owner_epoch r0 \<and> owner r0 = Some w \<and> (\<exists>t. lease_until r0 = Some t \<and> now < t)))"
    proof (cases "i = rid")
      case True
      with r0 assms(2) have "r0 = r" by simp
      with True assms(3,6) this' free epoch show ?thesis by blast
    qed (use r0 other in simp)
  qed (simp_all add: d')
qed

lemma claims_lease:
  "claim_tx env (rid, own) d = Inr (x, d') \<Longrightarrow> leased_only env (Claim (JStr rid) (JStr own)) d d'"
  "claim_recovery_tx env (rid, own) d = Inr (x, d') \<Longrightarrow> leased_only env (Claim_recovery (JStr rid) (JStr own)) d d'"
  by (auto simp: claim_tx_def claim_recovery_tx_def Let_def result_iff split: if_splits elim!: lease_written)

lemma reading_leases:
  "budget_closure_tx env rid d = Inr (x, d') \<Longrightarrow> leased_only env c d d'"
  "get_terminal_tx rl env rid d = Inr (x, d') \<Longrightarrow> leased_only env c d d'"
  "snapshot_tx env rid d = Inr (x, d') \<Longrightarrow> leased_only env c d d'"
  "get_report_tx rl env rid d = Inr (x, d') \<Longrightarrow> leased_only env c d d'"
  "store_report_tx rl env (qid, text, report) d = Inr (x, d') \<Longrightarrow> leased_only env c d d'"
  by (auto simp: budget_closure_tx_def get_terminal_tx_def snapshot_tx_def get_report_tx_def store_report_tx_def
      Let_def result_iff intro!: leased_only_same)

lemma transaction_leases:
  assumes "with_input m (\<lambda>a. immediate env (body a)) l = (res, l')"
    and "\<And>a x d'. m = Inr a \<Longrightarrow> body a (db l) = Inr (x, d') \<Longrightarrow> leased_only env c (db l) d'"
  shows "leased_only env c (db l) (db l')"
proof (cases "l' = l")
  case False
  from transaction_result[OF assms(1)] False assms(2) show ?thesis by fastforce
qed (simp add: leased_only_same)

lemma call_without_lease:
  assumes "call_ledger rl (env, c) l = (res, l')" and "acts_with c = None"
  shows "leased_only env c (db l) (db l')"
proof (cases c)
  case (Create_run rid prof)
  with assms show ?thesis
    by (auto simp: create_run_def intro: create_run_leases elim!: transaction_leases)
next
  case (Claim rid own)
  with assms show ?thesis by (auto simp: claim_def claims_lease dest!: two_ids_Inr elim!: transaction_leases)
next
  case (Claim_recovery rid own)
  with assms show ?thesis by (auto simp: claim_recovery_def claims_lease dest!: two_ids_Inr elim!: transaction_leases)
next
  case Close_ledger
  with assms show ?thesis by (auto simp: close_ledger_def leased_only_same)
qed (use assms in \<open>auto simp: budget_closure_def get_terminal_def snapshot_def store_report_def get_report_def
    intro: reading_leases elim!: transaction_leases\<close>)

section \<open>Properties of sequences of calls\<close>

text \<open>C2.
  Whatever calls are made on a new ledger, in whatever order, with whatever arguments, clock readings
  and storage faults: keys stay unique, every operation belongs to a run and passes the stored-row check,
  the event log is numbered without gaps, a run with an exposure or an excess is on hold, and both
  budgets hold (\<open>db_inv\<close>).
\<close>

theorem ledger_invariant: "db_inv (db (after rl cs new_ledger))"
  by (rule ledger.inv_calls[OF new_ledger_inv])

text \<open>C1.
  Budgets are respected: after any calls, what is charged to a run that is not on hold is within the
  limit of its profile, and while no run is on hold the charges of the last 24 hours, with everything
  unsettled or disputed, are within the global limit.
\<close>

theorem budgets_respected:
  assumes "db_inv (db l)" and "find_run (db (after rl cs l)) rid = Some r" and "\<not> hold r"
  shows "\<exists>limit c. RUN_LIMITS (profile r) = Some limit \<and> run_sum (db (after rl cs l)) rid \<le> limit \<and>
    clock_of (db (after rl cs l)) = Some c \<and>
    ((\<forall>r \<in> set (runs (db (after rl cs l))). \<not> hold r) \<longrightarrow> global_sum c (db (after rl cs l)) \<le> GLOBAL_LIMIT)"
proof -
  from ledger.inv_calls[OF assms(1)] obtain c where c: "clock_of (db (after rl cs l)) = Some c"
    and i: "inv_at c (db (after rl cs l))" by (auto simp: db_inv_def)
  then have "run_ok r" using find_run_ok assms(2) by blast
  then obtain limit where "RUN_LIMITS (profile r) = Some limit" by (auto simp: run_ok_def)
  with i c assms(2,3) show ?thesis by (auto simp: inv_at_def budget_ok_def)
qed

text \<open>C3.
  Nothing of a run changes without its lease.  A reservation, settlement, cancellation, stop or
  finalisation that returns a value or changes the ledger was made by the current owner, with the current
  epoch, while the lease was running, and after the deadline only with a recovery lease.  Every other
  call leaves all operations and terminal records and every existing run as they are, but for a claim:
  a claim that changes a run changes its lease only, it is refused while a lease of somebody else is
  running, and a new holder gets a higher epoch, as does anybody whose lease had run out.
\<close>

theorem lease_required:
  assumes "call_ledger rl (env, c) l = (res, l')" and "l' \<noteq> l \<or> (\<exists>x. res = Inr x)"
  shows "case acts_with c of
      Some (rid, own, epoch) \<Rightarrow> (\<exists>i w r now. rid = JStr i \<and> own = JStr w \<and> find_run (db l) i = Some r \<and>
        clock_reading env = Some (JInt now) \<and> owner r = Some w \<and> epoch = JInt (owner_epoch r) \<and>
        (\<exists>until. lease_until r = Some until \<and> now < until) \<and> (now < deadline r \<or> lease_kind r = ''recovery''))
    | None \<Rightarrow> operations (db l') = operations (db l) \<and> terminal_records (db l') = terminal_records (db l) \<and>
        (\<forall>i r. find_run (db l) i = Some r \<longrightarrow> find_run (db l') i = Some r \<or>
          (\<exists>w now e until kind. (c = Claim (JStr i) (JStr w) \<or> c = Claim_recovery (JStr i) (JStr w)) \<and>
            clock_reading env = Some (JInt now) \<and>
            find_run (db l') i = Some (r\<lparr>owner := Some w, owner_epoch := e, lease_until := Some until,
              lease_kind := kind\<rparr>) \<and>
            (owner r \<noteq> Some w \<longrightarrow> (\<forall>t. owner r \<noteq> None \<and> lease_until r = Some t \<longrightarrow> t \<le> now)) \<and>
            (e = owner_epoch r + 1 \<or>
              e = owner_epoch r \<and> owner r = Some w \<and> (\<exists>t. lease_until r = Some t \<and> now < t))))"
proof (cases "acts_with c")
  case None
  then show ?thesis using call_without_lease[OF assms(1)] by (simp add: leased_only_def)
next
  case (Some a)
  then obtain rid own epoch where a: "acts_with c = Some (rid, own, epoch)" by (cases a) auto
  show ?thesis
    using call_needs_lease[OF assms(1) a assms(2)] a
    by (auto simp: lease_at_def holds_lease_def lease_valid_def split: option.splits)
qed

text \<open>
  Old leases are fenced off: once a run has moved to a newer epoch, every later call with an older epoch
  is refused without any effect, whatever happens in between.
\<close>

theorem stale_lease_fenced:
  assumes "db_inv (db l)" and "find_run (db l) i = Some r" and "e < owner_epoch r"
    and "acts_with c = Some (JStr i, own, JInt e)"
  shows "\<exists>err. call_ledger rl (env, c) (after rl cs l) = (Inl err, after rl cs l)"
proof -
  obtain r' where r': "find_run (db (after rl cs l)) i = Some r'" "run_grows r r'"
    using find_run_after[OF assms(1,2)] .
  obtain res l' where call: "call_ledger rl (env, c) (after rl cs l) = (res, l')"
    by (cases "call_ledger rl (env, c) (after rl cs l)")
  have "\<not> (l' \<noteq> after rl cs l \<or> (\<exists>x. res = Inr x))"
  proof
    assume "l' \<noteq> after rl cs l \<or> (\<exists>x. res = Inr x)"
    from call_needs_lease[OF call assms(4) this] r' have "e = owner_epoch r'" by (auto simp: lease_at_def)
    with r'(2) assms(3) show False by (simp add: run_grows_def)
  qed
  then show ?thesis using call by (cases res) auto
qed

text \<open>
  A running lease is exclusive: while it runs nobody else obtains a lease of the run, neither for
  execution nor for recovery, and the attempt changes nothing.
\<close>

theorem lease_exclusive:
  assumes "find_run (db l) i = Some r" and "owner r = Some w" and "lease_until r = Some until" and "now < until"
    and "clock_reading env = Some (JInt now)" and "own \<noteq> w"
    and "c = Claim (JStr i) (JStr own) \<or> c = Claim_recovery (JStr i) (JStr own)"
  shows "\<exists>err. call_ledger rl (env, c) l = (Inl err, l)"
proof -
  have v: "lease_valid r now" using assms by (simp add: lease_valid_def)
  have no: "claim_tx env (i, own) (db l) \<noteq> Inr (x, d)" "claim_recovery_tx env (i, own) (db l) \<noteq> Inr (x, d)" for x d
    using assms v by (auto simp: claim_tx_def claim_recovery_tx_def Let_def result_iff)
  obtain res l' where call: "call_ledger rl (env, c) l = (res, l')" by (cases "call_ledger rl (env, c) l")
  from assms(7) have "\<not> (l' \<noteq> l \<or> (\<exists>x. res = Inr x))"
  proof
    assume "c = Claim (JStr i) (JStr own)"
    with call have "with_input (two_ids (JStr i) (JStr own)) (\<lambda>a. immediate env (claim_tx env a)) l = (res, l')"
      by (simp add: claim_def)
    from transaction_result[OF this] show ?thesis using no(1) two_ids_Inr by fastforce
  next
    assume "c = Claim_recovery (JStr i) (JStr own)"
    with call have "with_input (two_ids (JStr i) (JStr own)) (\<lambda>a. immediate env (claim_recovery_tx env a)) l = (res, l')"
      by (simp add: claim_recovery_def)
    from transaction_result[OF this] show ?thesis using no(2) two_ids_Inr by fastforce
  qed
  then show ?thesis using call by (cases res) auto
qed

section \<open>Errors, settlements and holds\<close>

text \<open>The errors that \<open>settle\<close> raises after its transaction.\<close>

definition deferred_errors :: "ledger_error set" where
  "deferred_errors = {LedgerError ''conflict'' ''settlement conflict'',
     LedgerError ''budget_violation'' ''settlement exceeds reservation''}"

text \<open>
  What is on record when they are raised: the run is on hold, and the operation keeps the largest amount
  claimed as its exposure, or is settled with the amount that exceeds its reservation.
\<close>

definition refusal_recorded :: "ledger_error \<Rightarrow> string \<Rightarrow> string \<Rightarrow> int \<Rightarrow> ledger_db \<Rightarrow> ledger_db \<Rightarrow> bool" where
  "refusal_recorded e rid oid micros d d' \<longleftrightarrow> held d' rid \<and>
     (\<exists>p p'. find_op d oid = Some p \<and> find_op d' oid = Some p' \<and> op_run_id p = rid \<and>
       reserved_micros p' = reserved_micros p \<and> status p' = ''settled'' \<and>
       (if status p = ''settled''
        then e = LedgerError ''conflict'' ''settlement conflict'' \<and> settled_micros p' = settled_micros p \<and>
          exposure_micros p' = Some (max (max (or_zero (settled_micros p)) (or_zero (exposure_micros p))) micros)
        else e = LedgerError ''budget_violation'' ''settlement exceeds reservation'' \<and>
          settled_micros p' = Some micros \<and> reserved_micros p < micros))"

lemma not_deferred:
  "e \<in> deferred_errors \<Longrightarrow> validate_id v \<noteq> Inl e" "e \<in> deferred_errors \<Longrightarrow> validate_owner v \<noteq> Inl e"
  "e \<in> deferred_errors \<Longrightarrow> parse_usd v \<noteq> Inl e" "e \<in> deferred_errors \<Longrightarrow> now_tick env d \<noteq> Inl e"
  "e \<in> deferred_errors \<Longrightarrow> bind_text t \<noteq> Inl e" "e \<in> deferred_errors \<Longrightarrow> get_run d t \<noteq> Inl e"
  "e \<in> deferred_errors \<Longrightarrow> require_lease d rid own epoch now late kind \<noteq> Inl e"
  "e \<in> deferred_errors \<Longrightarrow> stored_amount t \<noteq> Inl e"
  "e \<in> deferred_errors \<Longrightarrow> record_event rid k now own' e0 details d \<noteq> Inl e"
proof -
  assume e: "e \<in> deferred_errors"
  show "validate_id v \<noteq> Inl e" "validate_owner v \<noteq> Inl e"
    using e by (auto simp: deferred_errors_def validate_id_def validate_owner_def)
  show "parse_usd v \<noteq> Inl e"
    using e by (auto simp: deferred_errors_def parse_usd_def Let_def split: json.splits option.splits if_splits)
  show "now_tick env d \<noteq> Inl e"
    using e by (auto simp: deferred_errors_def now_tick_def split: option.splits if_splits)
  show b: "bind_text t \<noteq> Inl e" for t using e by (auto simp: deferred_errors_def bind_text_def result_iff)
  show g: "get_run d t \<noteq> Inl e" for t
    using e b by (auto simp: deferred_errors_def get_run_def result_iff split: option.splits)
  show "require_lease d rid own epoch now late kind \<noteq> Inl e"
    using e g by (auto simp: deferred_errors_def require_lease_def result_iff)
  show "stored_amount t \<noteq> Inl e"
    using e by (auto simp: deferred_errors_def stored_amount_def on_error_def split: sum.splits)
  show "record_event rid k now own' e0 details d \<noteq> Inl e"
    using e b by (auto simp: deferred_errors_def record_event_def Let_def result_iff split: option.splits)
qed

lemma row_not_deferred:
  assumes "e \<in> deferred_errors"
  shows "validate_operation_row p \<noteq> Inl e"
proof
  have db: "e \<noteq> invalid_database" using assms by (auto simp: deferred_errors_def)
  assume "validate_operation_row p = Inl e"
  then show False
    by (auto simp: validate_operation_row_def result_iff db not_deferred(8)[OF assms] split: option.splits if_splits)
qed

lemma settle_tx_not_deferred:
  assumes "e \<in> deferred_errors"
  shows "settle_tx env epoch a d \<noteq> Inl e"
proof
  obtain rid own oid usd micros where a: "a = (rid, own, oid, usd, micros)" by (cases a) auto
  have other: "e \<noteq> LedgerError ''not_found'' t" "e \<noteq> LedgerError ''conflict'' ''operation state conflict''" for t
    using assms by (auto simp: deferred_errors_def)
  assume "settle_tx env epoch a d = Inl e"
  then show False
    by (auto simp: a settle_tx_def settle_conflict_tx_def settle_first_tx_def Let_def result_iff other
        not_deferred[OF assms] row_not_deferred[OF assms] split: option.splits if_splits prod.splits)
qed

lemma settle_deferred:
  assumes "settle_tx env epoch (rid, own, oid, usd, micros) d = Inr (Inl e, d')"
  shows "e \<in> deferred_errors \<and> refusal_recorded e rid oid micros d d'"
proof -
  from assms obtain now p r where lease: "require_lease (set_clock now d) rid own epoch now True None = Inr r"
    and p: "find_op d oid = Some p" "op_run_id p = rid" "operation_id p = oid"
    and rest: "if status p = ''settled''
      then settle_conflict_tx rid own (int_of epoch) now p usd micros (set_clock now d) = Inr (Inl e, d')
      else settle_first_tx rid own (int_of epoch) now p usd micros (set_clock now d) = Inr (Inl e, d')"
    by (auto simp: settle_tx_def result_iff split: if_splits dest: row_find_SomeD)
  have r: "find_run d rid = Some r" using require_lease_Inr[OF lease] by simp
  show ?thesis
  proof (cases "status p = ''settled''")
    case True
    let ?d = "hold_run rid ''settlement_conflict'' (update_operation oid
        (exposed_op (fst (conflict_exposure p usd micros)) (snd (conflict_exposure p usd micros))) (set_clock now d))"
    from True rest have e: "e = LedgerError ''conflict'' ''settlement conflict''"
      and d': "d' = ?d \<or> (\<exists>es. d' = add_events es ?d)"
      by (auto simp: settle_conflict_tx_def Let_def result_iff p exposed_op_def[abs_def] split: if_splits prod.splits
          dest!: record_event_Inr)
    show ?thesis using True p r d'
      by (auto simp: e deferred_errors_def refusal_recorded_def held_def hold_run_def row_find_update exposed_op_def
          conflict_exposure_def Let_def)
  next
    case False
    with rest obtain es where over: "reserved_micros p < micros"
      and e: "e = LedgerError ''budget_violation'' ''settlement exceeds reservation''"
      and d': "d' = add_events es (hold_run rid ''settlement_over_reservation'' (update_operation oid
        (settled_op usd micros now (Some ''settlement_over_reservation'')) (set_clock now d)))"
      by (auto simp: settle_first_tx_def Let_def result_iff p settled_op_def[abs_def] split: if_splits
          dest!: record_event_Inr)
    show ?thesis using False over p r
      by (simp add: e d' deferred_errors_def refusal_recorded_def held_def hold_run_def row_find_update settled_op_def)
  qed
qed

text \<open>
  An error of \<open>settle\<close> comes from outside the transaction, with the ledger as it was, or is a deferred
  one, with the refusal on record.
\<close>

lemma settle_error:
  assumes "settle env rid own epoch oid usd l = (Inl e, l')"
  shows "if e \<in> deferred_errors
    then \<exists>i o' text micros. rid = JStr i \<and> oid = JStr o' \<and> parse_usd usd = Inr (text, micros) \<and>
      refusal_recorded e i o' micros (db l) (db l')
    else l' = l"
proof -
  obtain res0 where w: "with_input (operation_input rid own oid usd)
      (\<lambda>a. immediate env (settle_tx env epoch a)) l = (res0, l')"
    and res: "Inl e = (case res0 of Inl e \<Rightarrow> Inl e | Inr r \<Rightarrow> r)"
    using settle_split[OF assms] by metis
  show ?thesis
  proof (cases res0)
    case (Inl e0)
    with res have r: "res0 = Inl e" by simp
    have "l' = l" using transaction_result[OF w] r by auto
    moreover have "e \<notin> deferred_errors"
    proof
      assume d: "e \<in> deferred_errors"
      then have s: "e \<noteq> storage_failure" "e \<noteq> LedgerError ''closed'' ''ledger is closed''"
        by (auto simp: deferred_errors_def)
      have "operation_input rid own oid usd \<noteq> Inl e"
        using not_deferred[OF d] by (auto simp: operation_input_def result_iff)
      with w r obtain a where "immediate env (settle_tx env epoch a) l = (Inl e, l')"
        by (auto simp: with_input_def split: sum.splits)
      with settle_tx_not_deferred[OF d] s show False
        by (auto simp: immediate_def split: if_splits sum.splits ledger_error.splits)
    qed
    ultimately show ?thesis by simp
  next
    case (Inr x)
    with res have r: "res0 = Inr (Inl e)" by simp
    from transaction_result[OF w] r obtain i w' o' t m d' where
      o: "operation_input rid own oid usd = Inr (i, w', o', t, m)"
      and tx: "settle_tx env epoch (i, w', o', t, m) (db l) = Inr (Inl e, d')" and l': "l' = l\<lparr>db := d'\<rparr>"
      by (metis prod_cases5 sum.inject(2))
    from settle_deferred[OF tx] o l' show ?thesis by (auto simp: operation_input_def result_iff)
  qed
qed

text \<open>C4.
  Errors are atomic: a call that raises leaves the ledger exactly as it was, with one intended
  exception.  The settlement of an operation that conflicts with an earlier one or exceeds its reservation
  is on record when its error is raised: its run is on hold, and the operation shows the disputed amount
  as its exposure or is settled with the amount in excess.  Only \<open>settle\<close> has this exception, and only
  for these two errors; whenever it raises one of them, the record is there.
\<close>

theorem errors_are_atomic:
  assumes "call_ledger rl (env, c) l = (Inl e, l')"
  shows "if e \<in> deferred_errors \<and> (\<exists>rid own epoch oid usd. c = Settle rid own epoch oid usd)
    then \<exists>i own epoch oid usd text micros. c = Settle (JStr i) own epoch (JStr oid) usd \<and>
      parse_usd usd = Inr (text, micros) \<and> refusal_recorded e i oid micros (db l) (db l')
    else l' = l"
proof (cases "\<exists>rid own epoch oid usd. c = Settle rid own epoch oid usd")
  case True
  then obtain rid own epoch oid usd where c: "c = Settle rid own epoch oid usd" by blast
  with assms settle_error[of env rid own epoch oid usd l e l'] show ?thesis by (auto split: if_splits)
next
  case False
  have unchanged: "l' = l" if "with_input m (\<lambda>a. immediate env (body a)) l = (Inl e, l')"
    for m :: "ledger_error + 'a" and body :: "'a \<Rightarrow> ledger_db \<Rightarrow> ledger_error + json \<times> ledger_db"
    using transaction_result[OF that] by auto
  have "l' = l"
  proof (cases c)
    case (Create_run a b)
    then show ?thesis using assms unchanged by (simp add: create_run_def)
  qed (use assms False in \<open>auto simp: claim_def claim_recovery_def reserve_def request_cancel_def confirm_stopped_def
      budget_closure_def finalize_def get_terminal_def snapshot_def store_report_def get_report_def
      dest: transaction_result\<close>)
  with False show ?thesis by auto
qed

text \<open>C7.
  A settlement is final: a settled operation keeps its settled amount, text and time for ever, the
  reservation it settled stays as it was made, and a disputed amount is never forgotten or reduced.
\<close>

theorem settlement_final:
  assumes "db_inv (db l)" and "find_op (db l) oid = Some p" and "status p = ''settled''"
  shows "\<exists>p'. find_op (db (after rl cs l)) oid = Some p' \<and> status p' = ''settled'' \<and>
    settled_micros p' = settled_micros p \<and> settled_usd p' = settled_usd p \<and> settled_at p' = settled_at p \<and>
    reserved_micros p' = reserved_micros p \<and> op_run_id p' = op_run_id p \<and>
    or_zero (exposure_micros p) \<le> or_zero (exposure_micros p') \<and> accounted p \<le> accounted p'"
proof -
  obtain p' where p': "find_op (db (after rl cs l)) oid = Some p'" "op_grows p p'"
    using find_op_after[OF assms(1,2)] .
  then show ?thesis using assms(3) by (intro exI[of _ p']) (auto simp: op_grows_def accounted_def)
qed

text \<open>
  A hold is permanent and stops spending: once a run is on hold it stays so, and no call reserves a new
  operation for it or leases it for execution again.
\<close>

theorem hold_is_permanent:
  assumes "db_inv (db l)" and "held (db l) i"
    and "c = Claim (JStr i) own \<or>
      c = Reserve (JStr i) own epoch (JStr oid) usd \<and> find_op (db (after rl cs l)) oid = None"
  shows "held (db (after rl cs l)) i \<and> (\<exists>err. call_ledger rl (env, c) (after rl cs l) = (Inl err, after rl cs l))"
proof -
  from assms(2) obtain r where r: "find_run (db l) i = Some r" "hold r" by (auto simp: held_def)
  obtain r' where r': "find_run (db (after rl cs l)) i = Some r'" "run_grows r r'"
    using find_run_after[OF assms(1) r(1)] .
  have h: "hold r'" using r(2) r'(2) by (simp add: run_grows_def)
  let ?l = "after rl cs l"
  obtain res l' where call: "call_ledger rl (env, c) ?l = (res, l')" by (cases "call_ledger rl (env, c) ?l")
  have no_claim: "claim_tx env (i, w) (db ?l) \<noteq> Inr x" for w x
    using r' h by (cases x) (auto simp: claim_tx_def Let_def result_iff)
  have no_reserve: "reserve_tx env epoch (i, w, oid, u, m) (db ?l) \<noteq> Inr x"
    if none: "find_op (db ?l) oid = None" for w u m x
  proof
    assume "reserve_tx env epoch (i, w, oid, u, m) (db ?l) = Inr x"
    then obtain now r0 where lease: "require_lease (set_clock now (db ?l)) i w epoch now False (Some ''execution'') = Inr r0"
      and new: "reserve_new_tx i w (int_of epoch) oid u m now r0 (set_clock now (db ?l)) = Inr x"
      using none by (cases x) (auto simp: reserve_tx_def result_iff)
    from require_lease_Inr[OF lease] r' have "r0 = r'" by simp
    with new h show False by (cases x) (auto simp: reserve_new_tx_def result_iff)
  qed
  have "\<not> (l' \<noteq> ?l \<or> (\<exists>x. res = Inr x))"
  proof
    assume changed: "l' \<noteq> ?l \<or> (\<exists>x. res = Inr x)"
    from assms(3) show False
    proof
      assume "c = Claim (JStr i) own"
      with call have "with_input (two_ids (JStr i) own) (\<lambda>a. immediate env (claim_tx env a)) ?l = (res, l')"
        by (simp add: claim_def)
      from transaction_result[OF this changed] show False using no_claim two_ids_Inr by fastforce
    next
      assume "c = Reserve (JStr i) own epoch (JStr oid) usd \<and> find_op (db ?l) oid = None"
      then have none: "find_op (db ?l) oid = None"
        and "with_input (operation_input (JStr i) own (JStr oid) usd) (\<lambda>a. immediate env (reserve_tx env epoch a)) ?l
          = (res, l')" using call by (auto simp: reserve_def)
      from transaction_result[OF this(2) changed] show False
        using no_reserve[OF none] by (auto simp: operation_input_def result_iff)
    qed
  qed
  then have "\<exists>err. call_ledger rl (env, c) ?l = (Inl err, ?l)" using call by (cases res) auto
  with r' h show ?thesis by (auto simp: held_def)
qed

text \<open>
  Redelivery is harmless: reserving the same operation again, with the amount in any spelling, returns
  the operation as it is recorded and changes nothing but the clock.
\<close>

theorem redelivery_harmless:
  assumes "db_inv (db l)" and "find_op (db l) oid = Some p"
    and "call_ledger rl (env, Reserve (JStr i) own epoch (JStr oid) usd) l = (Inr x, l')"
  shows "x = operation_dict p \<and> op_run_id p = i \<and>
    (\<exists>now text. clock_reading env = Some (JInt now) \<and> l' = l\<lparr>db := set_clock now (db l)\<rparr> \<and>
      parse_usd usd = Inr (text, reserved_micros p) \<and> decimal_equal (reserved_usd p) text)"
proof -
  have "with_input (operation_input (JStr i) own (JStr oid) usd) (\<lambda>a. immediate env (reserve_tx env epoch a)) l
      = (Inr x, l')" using assms(3) by (simp add: reserve_def)
  from transaction_result[OF this] obtain w t m d' where
    o: "parse_usd usd = Inr (t, m)" and tx: "reserve_tx env epoch (i, w, oid, t, m) (db l) = Inr (x, d')"
    and l': "l' = l\<lparr>db := d'\<rparr>" by (auto simp: operation_input_def result_iff)
  from tx assms(2) obtain now where "clock_reading env = Some (JInt now)" "d' = set_clock now (db l)"
    "x = operation_dict p" "op_run_id p = i" "reserved_micros p = m" "decimal_equal (reserved_usd p) t"
    by (auto simp: reserve_tx_def result_iff)
  with o l' show ?thesis by blast
qed

end
