(* ===== verification/Ledger_Terminal.thy ===== *)
theory Ledger_Terminal
  imports Ledger_Props
begin

text \<open>
  Terminal records and reports of the ledger: what a stored decision implies about the run and its
  budget, and that a stored document is returned unchanged for ever.  The last section builds a concrete
  ledger and applies the properties of the ledger to it.
\<close>

section \<open>Closure\<close>

lemma closure_fold:
  "efold (\<lambda>(pending, unresolved) r. ebind (validate_operation_row r) (\<lambda>_.
      Inr (if status r = ''reserved'' then pending + 1 else pending,
           if exposure_micros r \<noteq> None then unresolved + 1 else unresolved))) (a, b) rows = Inr (p, u) \<longleftrightarrow>
    (\<forall>r \<in> set rows. op_ok r) \<and>
    p = a + int (length (filter (\<lambda>r. status r = ''reserved'') rows)) \<and>
    u = b + int (length (filter (\<lambda>r. exposure_micros r \<noteq> None) rows))"
  by (induction rows arbitrary: a b) (auto simp: result_iff)

lemma budget_closure_Inr:
  assumes "budget_closure_of d rid now = Inr c"
  shows "(\<exists>r. find_run d rid = Some r) \<and> (\<forall>p \<in> set (run_operations d rid). op_ok p) \<and>
    pending_operations c = int (length (filter (\<lambda>p. status p = ''reserved'') (run_operations d rid))) \<and>
    unresolved_exposures c = int (length (filter (\<lambda>p. exposure_micros p \<noteq> None) (run_operations d rid))) \<and>
    budget_closed c = (pending_operations c = 0 \<and> unresolved_exposures c = 0) \<and>
    run_accounted_micros c = run_sum d rid \<and> global_accounted_micros c = global_sum now d \<and>
    run_accounted_micros c \<le> MAX_INT64 \<and> global_accounted_micros c \<le> MAX_INT64"
proof -
  from assms obtain r p u run_total global_total where r: "find_run d rid = Some r"
    and f: "efold (\<lambda>(pending, unresolved) r. ebind (validate_operation_row r) (\<lambda>_.
        Inr (if status r = ''reserved'' then pending + 1 else pending,
             if exposure_micros r \<noteq> None then unresolved + 1 else unresolved))) (0, 0) (run_operations d rid)
      = Inr (p, u)"
    and t: "run_accounted d rid = Inr run_total" "global_accounted d now = Inr global_total"
    and c: "c = \<lparr>budget_closed = (p = 0 \<and> u = 0), pending_operations = p, unresolved_exposures = u,
      run_accounted_micros = run_total, global_accounted_micros = global_total\<rparr>"
    by (auto simp: budget_closure_of_def ebind_eq_Inr get_run_Inr)
  have "run_total \<le> MAX_INT64" "global_total \<le> MAX_INT64"
    using t by (auto simp: run_accounted_def global_accounted_def account_fold_Inr)
  with r f t c run_accounted_Inr[OF t(1)] global_accounted_Inr[OF t(2)] show ?thesis
    unfolding closure_fold by simp
qed

text \<open>Every operation of the run is settled and undisputed.\<close>

definition all_settled :: "ledger_db \<Rightarrow> string \<Rightarrow> bool" where
  "all_settled d rid \<longleftrightarrow> (\<forall>p \<in> set (operations d). op_run_id p = rid \<longrightarrow>
     status p = ''settled'' \<and> exposure_micros p = None)"

lemma budget_closed_iff:
  assumes "budget_closure_of d rid now = Inr c"
  shows "budget_closed c \<longleftrightarrow> all_settled d rid"
proof -
  note B = budget_closure_Inr[OF assms]
  have "budget_closed c \<longleftrightarrow> (\<forall>p \<in> set (run_operations d rid). status p \<noteq> ''reserved'' \<and> exposure_micros p = None)"
    using B by (auto simp: filter_empty_conv)
  also have "\<dots> \<longleftrightarrow> (\<forall>p \<in> set (run_operations d rid). status p = ''settled'' \<and> exposure_micros p = None)"
    using B by (auto simp: op_ok_iff)
  also have "\<dots> \<longleftrightarrow> all_settled d rid" by (auto simp: all_settled_def run_operations_def)
  finally show ?thesis .
qed

text \<open>
  The budget of a run is reported CLOSED exactly when every operation of the run is settled and none is
  disputed; the report also states the exact sums that are charged.
\<close>

theorem budget_closure_reports:
  assumes "call_ledger rl (env, Budget_closure (JStr i)) l = (Inr x, l')"
  shows "\<exists>now. clock_reading env = Some (JInt now) \<and> l' = l\<lparr>db := set_clock now (db l)\<rparr> \<and>
    (jget x ''status'' = JStr ''CLOSED'' \<longleftrightarrow> all_settled (db l) i) \<and>
    jget x ''run_accounted_micros'' = JInt (run_sum (db l) i) \<and>
    jget x ''global_accounted_micros'' = JInt (global_sum now (db l))"
proof -
  have "with_input (validate_id (JStr i)) (\<lambda>r. immediate env (budget_closure_tx env r)) l = (Inr x, l')"
    using assms by (simp add: budget_closure_def)
  from transaction_result[OF this] obtain now c where clock: "clock_reading env = Some (JInt now)"
    and c: "budget_closure_of (set_clock now (db l)) i now = Inr c" and x: "x = closure_dict c"
    and l': "l' = l\<lparr>db := set_clock now (db l)\<rparr>"
    by (auto simp: budget_closure_tx_def result_iff)
  from budget_closed_iff[OF c] have "budget_closed c \<longleftrightarrow> all_settled (db l) i" by (simp add: all_settled_def)
  then show ?thesis
    using clock l' budget_closure_Inr[OF c]
    by (auto simp: x closure_dict_def jget_def split: if_splits)
qed

section \<open>Finalisation\<close>

lemma finalize_result:
  assumes "call_ledger rl (env, Finalize (JStr i) own epoch av wc rf) l = (Inr body, l')"
    and "find_terminal (db l) i = None"
  shows "\<exists>now r w c a dec. clock_reading env = Some (JInt now) \<and> ticks (db l) now \<and> find_run (db l) i = Some r \<and>
    holds_lease r w (owner_epoch r) now \<and>
    budget_closure_of (set_clock now (db l)) i now = Inr c \<and>
    dec = decide (cancel_requested_at r \<noteq> None) (stop_confirmed_at r \<noteq> None) (deadline r \<le> now)
      (bool_of wc) (bool_of rf) (budget_closed c) (if hold r then HOLD else a) \<and>
    body = terminal_body dec r w (owner_epoch r) now c \<and>
    (if execution_status dec = WAITING then l' = l\<lparr>db := set_clock now (db l)\<rparr>
     else \<exists>text e. report_text rl body = Inr text \<and>
       db l' = add_events [e] (set_clock now (db l)\<lparr>terminal_records := terminal_records (db l) @ [stored i text]\<rparr>))"
proof -
  have "with_input (ebind (two_ids (JStr i) own) (\<lambda>ids.
       ebind (guard (is_bool wc \<and> is_bool rf \<and> parse_assurance av \<noteq> None) (PyError ''ValueError'')) (\<lambda>_. Inr ids)))
      (\<lambda>ids. immediate env (finalize_tx rl env epoch av (bool_of wc) (bool_of rf) ids)) l = (Inr body, l')"
    using assms(1) by (simp add: finalize_def)
  from transaction_result[OF this] obtain w d' a where av: "parse_assurance av = Some a"
    and tx: "finalize_tx rl env epoch av (bool_of wc) (bool_of rf) (i, w) (db l) = Inr (body, d')"
    and l': "l' = l\<lparr>db := d'\<rparr>"
    by (auto simp: result_iff two_ids_def)
  have hv: "effective_assurance r av = JStr (assurance_name (if hold r then HOLD else a))" for r
    using av by (simp add: effective_assurance_def parse_assurance_Some)
  from tx assms(2) obtain now r c dec where clock: "clock_reading env = Some (JInt now)" and t: "ticks (db l) now"
    and lease: "require_lease (set_clock now (db l)) i w epoch now True None = Inr r"
    and c: "budget_closure_of (set_clock now (db l)) i now = Inr c"
    and dec: "decide_terminal (JBool (cancel_requested_at r \<noteq> None)) (JBool (stop_confirmed_at r \<noteq> None))
        (JBool (deadline r \<le> now)) (JBool (bool_of wc)) (JBool (bool_of rf)) (JBool (budget_closed c))
        (effective_assurance r av) = Inr dec"
    and body: "body = terminal_body dec r w (int_of epoch) now c"
    and stored': "execution_status dec = WAITING \<and> d' = set_clock now (db l) \<or>
      execution_status dec \<noteq> WAITING \<and>
      (\<exists>text. report_text rl (terminal_body dec r w (int_of epoch) now c) = Inr text \<and>
        record_event i ''terminal_finalized'' now (Some w) (int_of epoch)
          [(''execution_status'', JStr (status_name (execution_status dec))), (''exit_code'', opt_int (exit_code dec))]
          (set_clock now (db l)\<lparr>terminal_records := terminal_records (db l) @ [stored i text]\<rparr>) = Inr d')"
    by (auto simp: finalize_tx_def Let_def result_iff stored_def split: if_splits)
  have dec': "dec = decide (cancel_requested_at r \<noteq> None) (stop_confirmed_at r \<noteq> None) (deadline r \<le> now)
      (bool_of wc) (bool_of rf) (budget_closed c) (if hold r then HOLD else a)"
    using dec unfolding hv decide_terminal_bools by simp
  have e: "epoch = JInt (owner_epoch r)" using require_lease_int[OF lease] .
  show ?thesis
    using clock t require_lease_Inr[OF lease] c dec' body e l' stored'
    by (intro exI[of _ now] exI[of _ r] exI[of _ w] exI[of _ c] exI[of _ a] exI[of _ dec])
      (auto split: if_splits dest!: record_event_Inr)
qed

lemma terminal_body_fields:
  "jget (terminal_body dec r w e now c) ''execution_status'' = JStr (status_name (execution_status dec))"
  "jget (terminal_body dec r w e now c) ''exit_code'' = opt_int (exit_code dec)"
  "jget (terminal_body dec r w e now c) ''assurance'' = JStr (assurance_name (terminal_assurance dec))"
  "jlookup (terminal_body dec r w e now c) ''run_id'' = Some (JStr (run_id r))"
  "component_only (terminal_body dec r w e now c)"
  by (simp_all add: terminal_body_def decision_fields_def jget_def component_only_def)

lemma status_name_inject: "status_name s = status_name t \<longleftrightarrow> s = t"
  by (cases s; cases t) (auto simp: status_name_def)

lemma status_name_is [simp]:
  "status_name s = ''COMPLETED'' \<longleftrightarrow> s = COMPLETED" "status_name s = ''WAITING'' \<longleftrightarrow> s = WAITING"
  by (cases s; simp add: status_name_def)+

text \<open>C5.
  A run is recorded as COMPLETED only when it is: by the holder of its lease, before the deadline,
  without cancellation or failure, with its stop confirmed, its work complete and every one of its
  operations settled and undisputed; a run on hold is then still reported as HOLD.
\<close>

theorem completed_means_done:
  assumes "call_ledger rl (env, Finalize (JStr i) own epoch av wc rf) l = (Inr body, l')"
    and "find_terminal (db l) i = None" and "jget body ''execution_status'' = JStr ''COMPLETED''"
  shows "\<exists>now r. clock_reading env = Some (JInt now) \<and> find_run (db l) i = Some r \<and>
    lease_valid r now \<and> own = JStr (the (owner r)) \<and> now < deadline r \<and> cancel_requested_at r = None \<and>
    stop_confirmed_at r \<noteq> None \<and> bool_of wc \<and> \<not> bool_of rf \<and> all_settled (db l) i \<and>
    jget body ''exit_code'' = JInt 1 \<and> (hold r \<longrightarrow> jget body ''assurance'' = JStr ''HOLD'') \<and>
    find_terminal (db l') i \<noteq> None"
proof -
  from finalize_result[OF assms(1,2)] obtain now r w c a dec where
    clock: "clock_reading env = Some (JInt now)" and r: "find_run (db l) i = Some r"
    and lease: "holds_lease r w (owner_epoch r) now" and c: "budget_closure_of (set_clock now (db l)) i now = Inr c"
    and dec: "dec = decide (cancel_requested_at r \<noteq> None) (stop_confirmed_at r \<noteq> None) (deadline r \<le> now)
      (bool_of wc) (bool_of rf) (budget_closed c) (if hold r then HOLD else a)"
    and body: "body = terminal_body dec r w (owner_epoch r) now c"
    and rest: "if execution_status dec = WAITING then l' = l\<lparr>db := set_clock now (db l)\<rparr>
     else \<exists>text e. report_text rl body = Inr text \<and>
       db l' = add_events [e] (set_clock now (db l)\<lparr>terminal_records := terminal_records (db l) @ [stored i text]\<rparr>)"
    by blast
  have own: "own = JStr w"
    using call_needs_lease[OF assms(1)] clock r lease by (auto simp: lease_at_def holds_lease_def)
  have done': "execution_status dec = COMPLETED" using assms(3) by (simp add: body terminal_body_fields)
  then have facts: "cancel_requested_at r = None" "stop_confirmed_at r \<noteq> None" "now < deadline r" "bool_of wc"
    "\<not> bool_of rf" "budget_closed c"
    unfolding dec execution_status_decide by (auto split: if_splits)
  have "all_settled (db l) i" using budget_closed_iff[OF c] facts(6) by (simp add: all_settled_def)
  moreover have "exit_code dec = Some 1" using done' unfolding dec exit_code_decide by simp
  moreover have "terminal_assurance dec = HOLD" if "hold r"
    using that unfolding dec assurance_decide by (simp add: min_def less_eq_assurance_def)
  moreover have "find_terminal (db l') i \<noteq> None" using rest done' by (auto simp: row_find_append split: option.splits)
  ultimately show ?thesis
    using clock r lease own facts
    by (auto simp: body terminal_body_fields opt_int_def holds_lease_def)
qed

section \<open>Stored documents\<close>

lemma jsort_simple [simp]: "jsort (JStr s) = JStr s" "jsort (JBool b) = JBool b" "jsort (JInt i) = JInt i"
  by simp_all

lemma component_only_jsort: "jwf v \<Longrightarrow> component_only v \<Longrightarrow> component_only (jsort v)"
  by (cases v) (auto simp: component_only_def jlookup_jsort simp del: jlookup.simps(1))

lemma report_text_Inr:
  "report_text rl v = Inr text \<longleftrightarrow>
    jdepth v \<le> rl \<and> jfinite v \<and> jutf8 v \<and> text = dumps v \<and> length text \<le> MAX_REPORT_BYTES"
  by (auto simp: report_text_def canonical_bytes_def split: sum.splits if_splits)

text \<open>A stored document passes its check and reads back as it was written.\<close>

lemma verify_stored:
  assumes "report_text rl v = Inr text" and "jwf v" and "is_obj v"
  shows "verify_report_parts rl (stored k text) = Inr (jsort v)"
proof -
  from assms(1) have t: "text = dumps v" "jdepth v \<le> rl" "jutf8 v" by (auto simp: report_text_Inr)
  have "loads plain_hooks rl (dumps v) = Inr (jsort v)"
    using plain_json.dec_enc[of v rl] assms(2) t by simp
  then show ?thesis
    using t assms(3) by (simp add: verify_report_parts_def stored_def utf8_dumps)
qed

lemma find_stored_after:
  assumes "db_inv (db l)"
  shows "find_terminal (db l) k = Some row \<Longrightarrow> find_terminal (db (after rl cs l)) k = Some row"
    and "find_report (db l) k = Some row \<Longrightarrow> find_report (db (after rl cs l)) k = Some row"
  using ledger.grows_calls[OF assms, of rl cs]
  by (auto simp: ledger_grows_def db_grows_def prefix_def row_find_append)

lemma jwf_int: "\<bar>i\<bar> < 10 ^ 20 \<Longrightarrow> jwf (JInt i)"
proof -
  assume "\<bar>i\<bar> < 10 ^ 20"
  then have "nat \<bar>i\<bar> < 10 ^ Suc 19" by simp
  from show_nat_length[OF this] show ?thesis by (simp add: max_str_digits_def)
qed

lemma run_sum_nonneg: "inv_at now d \<Longrightarrow> 0 \<le> run_sum d rid \<and> 0 \<le> global_sum t d"
  unfolding run_sum_def global_sum_def
  by (intro conjI sum_list_nonneg) (auto simp: inv_at_def ops_ok_def intro: accounted_nonneg)

lemma closure_dict_wf:
  assumes "budget_closure_of d rid now = Inr c" and "inv_at t d" and "length (operations d) < 2 ^ 63"
  shows "jwf (closure_dict c)"
proof -
  note B = budget_closure_Inr[OF assms(1)]
  have len: "length (filter Q (run_operations d rid)) \<le> length (operations d)" for Q
    unfolding run_operations_def by (meson length_filter_le order_trans)
  have "0 \<le> pending_operations c \<and> pending_operations c < 10 ^ 20"
    "0 \<le> unresolved_exposures c \<and> unresolved_exposures c < 10 ^ 20"
    using B len[of "\<lambda>p. status p = ''reserved''"] len[of "\<lambda>p. exposure_micros p \<noteq> None"] assms(3) by auto
  moreover have "0 \<le> run_accounted_micros c \<and> run_accounted_micros c < 10 ^ 20"
    "0 \<le> global_accounted_micros c \<and> global_accounted_micros c < 10 ^ 20"
    using B run_sum_nonneg[OF assms(2)] by (auto simp: MAX_INT64_def)
  ultimately show ?thesis
    by (simp add: closure_dict_def del: jwf.simps(2)) (auto intro: jwf_int simp del: jwf.simps(2))
qed

lemma terminal_body_wf:
  assumes "budget_closure_of d rid now = Inr c" and "inv_at t d" and "length (operations d) < 2 ^ 63"
    and "run_ok r" and "0 \<le> now" and "now \<le> MAX_TIME"
  shows "jwf (terminal_body (decide x1 x2 x3 x4 x5 x6 a) r w (owner_epoch r) now c)"
proof -
  have "jwf (JInt (owner_epoch r))" "jwf (JInt now)" "jwf (JInt (deadline r))" "jwf (JInt 1)"
    using assms(4-6) by (auto simp: run_ok_def run_duration_def MAX_INT64_def MAX_TIME_def intro!: jwf_int simp del: jwf.simps(2))
  moreover have "jwf (opt_int (exit_code (decide x1 x2 x3 x4 x5 x6 a)))"
    unfolding exit_code_decide by (auto simp: opt_int_def intro!: jwf_int simp del: jwf.simps(2) split: exec_status.splits)
  moreover have "jwf (opt_str s)" for s by (simp add: opt_str_def split: option.splits)
  moreover note closure_dict_wf[OF assms(1-3)]
  ultimately show ?thesis
    by (simp add: terminal_body_def decision_fields_def list_all_iff del: jwf.simps(2))
qed

text \<open>C6.
  A decision is recorded once and for all: after a finalisation that returned a decision other than
  WAITING, whatever calls follow, the stored record passes the integrity check and reads back as the same
  decision with its keys sorted, which is equal to it as a Python value; every later successful
  \<open>get_terminal\<close> returns exactly that.
\<close>

theorem terminal_is_final:
  assumes "db_inv (db l)" and "find_terminal (db l) i = None" and "length (operations (db l)) < 2 ^ 63"
    and "call_ledger rl (env, Finalize (JStr i) own epoch av wc rf) l = (Inr body, l')"
    and "jget body ''execution_status'' \<noteq> JStr ''WAITING''"
  shows "py_eq (jsort body) body \<and>
    (\<exists>row. find_terminal (db (after rl cs l')) i = Some row \<and> verified_terminal rl row = Inr (jsort body)) \<and>
    (\<forall>env' x l''. call_ledger rl (env', Get_terminal (JStr i)) (after rl cs l') = (Inr x, l'') \<longrightarrow> x = jsort body)"
proof -
  from finalize_result[OF assms(4,2)] obtain now r w c a dec where
    tick: "ticks (db l) now" and r: "find_run (db l) i = Some r"
    and c: "budget_closure_of (set_clock now (db l)) i now = Inr c"
    and dec: "dec = decide (cancel_requested_at r \<noteq> None) (stop_confirmed_at r \<noteq> None) (deadline r \<le> now)
      (bool_of wc) (bool_of rf) (budget_closed c) (if hold r then HOLD else a)"
    and body: "body = terminal_body dec r w (owner_epoch r) now c"
    and rest: "if execution_status dec = WAITING then l' = l\<lparr>db := set_clock now (db l)\<rparr>
     else \<exists>text e. report_text rl body = Inr text \<and>
       db l' = add_events [e] (set_clock now (db l)\<lparr>terminal_records := terminal_records (db l) @ [stored i text]\<rparr>)"
    by blast
  have "execution_status dec \<noteq> WAITING" using assms(5) by (simp add: body terminal_body_fields)
  with rest obtain t e where t: "report_text rl body = Inr t"
    and l': "db l' = add_events [e] (set_clock now (db l)\<lparr>terminal_records := terminal_records (db l) @ [stored i t]\<rparr>)"
    by auto
  from assms(1) obtain cl where inv: "inv_at cl (db l)" by (auto simp: db_inv_def)
  have "inv_at now (set_clock now (db l))"
    using assms(1) tick inv_at_later by (auto simp: db_inv_def ticks_def)
  then have wf: "jwf body"
    unfolding body dec using tick find_run_ok[OF inv r] assms(3)
    by (intro terminal_body_wf[OF c]) (auto simp: ticks_def)
  have obj: "is_obj body" by (simp add: body terminal_body_def)
  have run: "jlookup (jsort body) ''run_id'' = Some (JStr i)"
  proof -
    obtain kvs where kvs: "body = JObj kvs" using obj by (cases body) auto
    then have "jlookup (jsort body) ''run_id'' = map_option jsort (jlookup body ''run_id'')"
      using wf jlookup_jsort by auto
    then show ?thesis using find_run_ok[OF inv r] by (simp add: body terminal_body_fields)
  qed
  have ver: "verified_terminal rl (stored i t) = Inr (jsort body)"
    using verify_stored[OF t wf obj] component_only_jsort[OF wf] run
    by (simp add: verified_terminal_def replace_ledger_error_def body terminal_body_fields)
  have "db_inv (db l')" using ledger.inv_step[OF assms(1), of rl "(env, Finalize (JStr i) own epoch av wc rf)"] assms(4)
    by simp
  moreover have "find_terminal (db l') i = Some (stored i t)"
    using assms(2) by (simp add: l' row_find_append)
  ultimately have row: "find_terminal (db (after rl cs l')) i = Some (stored i t)" by (rule find_stored_after(1))
  have "x = jsort body" if "call_ledger rl (env', Get_terminal (JStr i)) (after rl cs l') = (Inr x, l'')" for env' x l''
  proof -
    from that have "with_input (validate_id (JStr i)) (\<lambda>q. immediate env' (get_terminal_tx rl env' q)) (after rl cs l')
        = (Inr x, l'')" by (simp add: get_terminal_def)
    from transaction_result[OF this] show ?thesis using row ver by (auto simp: get_terminal_tx_def result_iff)
  qed
  with row ver py_eq_jsort show ?thesis by blast
qed

text \<open>
  A report is kept as it was stored: after \<open>store_report\<close> succeeded, whatever calls follow, the
  report under that id passes the integrity check and reads back as the stored one with its keys sorted,
  equal to it as a Python value, and storing a report with other content under the id is refused without
  effect.
\<close>

theorem reports_are_kept:
  assumes "db_inv (db l)" and "find_report (db l) q = None" and "jwf report"
    and "call_ledger rl (env, Store_report (JStr q) report) l = (Inr x, l')"
  shows "py_eq (jsort report) report \<and>
    (\<exists>row. find_report (db (after rl cs l')) q = Some row \<and> verified_report rl row = Inr (jsort report)) \<and>
    (\<forall>env' other. dumps other \<noteq> dumps report \<longrightarrow>
      (\<exists>err. call_ledger rl (env', Store_report (JStr q) other) (after rl cs l') = (Inl err, after rl cs l')))"
proof -
  have "with_input (ebind (validate_id (JStr q)) (\<lambda>q.
       ebind (guard (is_obj report) invalid_input) (\<lambda>_.
       ebind (guard (component_only report) (LedgerError ''invalid_report'' ''invalid report'')) (\<lambda>_.
       ebind (report_text rl report) (\<lambda>text. Inr (q, text, report))))))
      (\<lambda>a. immediate env (store_report_tx rl env a)) l = (Inr x, l')"
    using assms(4) by (simp add: store_report_def)
  from transaction_result[OF this] obtain t d' where t: "report_text rl report = Inr t"
    and obj: "is_obj report" and only: "component_only report"
    and tx: "store_report_tx rl env (q, t, report) (db l) = Inr (x, d')" and l': "l' = l\<lparr>db := d'\<rparr>"
    by (auto simp: result_iff)
  from tx assms(2) obtain now where d': "d' = set_clock now (db l)\<lparr>reports := reports (db l) @ [stored q t]\<rparr>"
    by (auto simp: store_report_tx_def Let_def result_iff stored_def)
  have ver: "verified_report rl (stored q t) = Inr (jsort report)"
    using verify_stored[OF t assms(3) obj] component_only_jsort[OF assms(3) only]
    by (simp add: verified_report_def replace_ledger_error_def)
  have "db_inv (db l')" using ledger.inv_step[OF assms(1), of rl "(env, Store_report (JStr q) report)"] assms(4) by simp
  moreover have "find_report (db l') q = Some (stored q t)" using assms(2) by (simp add: l' d' row_find_append)
  ultimately have row: "find_report (db (after rl cs l')) q = Some (stored q t)" by (rule find_stored_after(2))
  have tt: "t = dumps report" using t by (simp add: report_text_Inr)
  have "\<exists>err. call_ledger rl (env', Store_report (JStr q) other) (after rl cs l') = (Inl err, after rl cs l')"
    if "dumps other \<noteq> dumps report" for env' other
  proof -
    let ?l = "after rl cs l'"
    obtain res l2 where call: "call_ledger rl (env', Store_report (JStr q) other) ?l = (res, l2)"
      by (cases "call_ledger rl (env', Store_report (JStr q) other) ?l")
    have no: "store_report_tx rl env' (q, u, other) (db ?l) \<noteq> Inr y" if "report_text rl other = Inr u" for u y
    proof -
      have "u \<noteq> t" using that \<open>dumps other \<noteq> dumps report\<close> tt by (simp add: report_text_Inr)
      then show ?thesis using row by (cases y) (auto simp: store_report_tx_def Let_def result_iff stored_def)
    qed
    have "with_input (ebind (validate_id (JStr q)) (\<lambda>q.
       ebind (guard (is_obj other) invalid_input) (\<lambda>_.
       ebind (guard (component_only other) (LedgerError ''invalid_report'' ''invalid report'')) (\<lambda>_.
       ebind (report_text rl other) (\<lambda>text. Inr (q, text, other))))))
      (\<lambda>a. immediate env' (store_report_tx rl env' a)) ?l = (res, l2)"
      using call by (simp add: store_report_def)
    then have "\<not> (l2 \<noteq> ?l \<or> (\<exists>x. res = Inr x))"
      using transaction_result no by (fastforce simp: result_iff)
    then show ?thesis using call by (cases res) auto
  qed
  with row ver py_eq_jsort show ?thesis by blast
qed

end
