(* ===== verification/Ledger_Examples.thy ===== *)
theory Ledger_Examples
  imports Ledger_Terminal
begin

text \<open>
  A concrete ledger, with one run leased to \<open>w\<close> in epoch 2 and one settled operation, and the
  properties of the ledger applied to it.
\<close>

section \<open>Recording events\<close>

lemma record_event_ok:
  assumes "jutf8 (JObj details)" and "jlen (JObj details) \<le> 64 * 1024" and "utf8_ok rid" and "utf8_ok w"
  shows "\<exists>e. record_event rid kind at (Some w) epoch details d = Inr (add_events [e] d)"
proof -
  have "length (dumps (JObj details)) \<le> 64 * 1024" using length_dumps assms(2) order_trans by blast
  then show ?thesis using assms by (auto simp: record_event_def Let_def bind_text_def add_events_def simp del: jlen.simps)
qed

section \<open>The sample ledger\<close>

definition sample_op :: op_row where
  "sample_op = \<lparr>operation_id = ''o'', op_run_id = ''r'', op_owner = ''w'', op_epoch = 1,
    reserved_usd = ''0.5'', reserved_micros = 500000, reserved_at = 1, settled_usd = Some ''0.5'',
    settled_micros = Some 500000, settled_at = Some 2, status = ''settled'', op_hold_reason = None,
    exposure_usd = None, exposure_micros = None\<rparr>"

definition sample_run :: "int option \<Rightarrow> bool \<Rightarrow> run_row" where
  "sample_run stop h = \<lparr>run_id = ''r'', profile = ''pr'', started_at = 0, deadline = 1200, epoch0 = 0,
    owner = Some ''w'', owner_epoch = 2, lease_until = Some 60, lease_kind = ''execution'',
    cancel_requested_at = None, stop_confirmed_at = stop, hold = h,
    hold_reason = (if h then Some ''settlement_conflict'' else None)\<rparr>"

definition sample_ledger :: "int option \<Rightarrow> bool \<Rightarrow> ledger" where
  "sample_ledger stop h = \<lparr>db = \<lparr>last_clock = Some (show_int 5), runs = [sample_run stop h],
    operations = [sample_op], reports = [], terminal_records = [], run_events = [], event_seq = 0\<rparr>,
    closed = False\<rparr>"

definition at_time :: "int \<Rightarrow> env" where
  "at_time t = \<lparr>fault = No_fault, clock_reading = Some (JInt t)\<rparr>"

lemma sample_amount: "stored_amount ''0.5'' = Inr 500000"
  by (simp add: stored_amount_def parse_usd_def dec_parts_def is_digit_def digits_val_def py_len_ascii
      MAX_INT64_def Let_def)

lemma sample_op_ok: "op_ok sample_op"
  by (simp add: op_ok_iff sample_op_def sample_amount valid_timestamp_def MAX_TIME_def)

lemma sample_fields [simp]:
  "runs (db (sample_ledger stop h)) = [sample_run stop h]" "operations (db (sample_ledger stop h)) = [sample_op]"
  "terminal_records (db (sample_ledger stop h)) = []" "reports (db (sample_ledger stop h)) = []"
  "run_events (db (sample_ledger stop h)) = []" "closed (sample_ledger stop h) = False"
  "event_seq (db (sample_ledger stop h)) = 0"
  by (simp_all add: sample_ledger_def)

lemma sample_row_fields [simp]:
  "run_id (sample_run stop h) = ''r''" "hold (sample_run stop h) = h" "owner (sample_run stop h) = Some ''w''"
  "owner_epoch (sample_run stop h) = 2" "deadline (sample_run stop h) = 1200"
  "lease_until (sample_run stop h) = Some 60" "lease_kind (sample_run stop h) = ''execution''"
  "cancel_requested_at (sample_run stop h) = None" "stop_confirmed_at (sample_run stop h) = stop"
  "profile (sample_run stop h) = ''pr''" "operation_id sample_op = ''o''" "op_run_id sample_op = ''r''"
  "status sample_op = ''settled''" "exposure_micros sample_op = None" "settled_micros sample_op = Some 500000"
  "reserved_micros sample_op = 500000" "reserved_usd sample_op = ''0.5''" "settled_at sample_op = Some 2"
  "settled_usd sample_op = Some ''0.5''" "reserved_at sample_op = 1"
  by (simp_all add: sample_run_def sample_op_def)

lemma sample_clock: "clock_of (db (sample_ledger stop h)) = Some 5"
  using py_int_show[of 5] by (simp add: clock_of_def sample_ledger_def)

lemma sample_ticks: "ticks (db (sample_ledger stop h)) 10"
  by (simp add: ticks_def sample_clock MAX_TIME_def)

lemma sample_accounted: "accounted sample_op = 500000"
  by (simp add: accounted_def or_zero_def)

lemma sample_inv: "db_inv (db (sample_ledger stop h))"
proof -
  have "run_ok (sample_run stop h)"
    by (simp add: run_ok_def RUN_LIMITS_def run_duration_def MAX_TIME_def MAX_INT64_def) (simp add: sample_run_def)
  then show ?thesis
    using sample_op_ok sample_accounted
    by (simp add: db_inv_def sample_clock MAX_TIME_def inv_at_def tables_ok_def refs_ok_def events_ok_def
        ops_ok_def holds_ok_def clean_op_def budget_ok_def run_sum_def global_sum_def RUN_LIMITS_def GLOBAL_LIMIT_def)
qed

lemma sample_tokens: "token_ok n ''r''" "token_ok n ''w''" "token_ok n ''o''" "token_ok n ''q''"
  if "1 \<le> n"
  using that by (simp_all add: token_ok_def py_len_ascii cps_ascii py_space_def)

lemma sample_ids: "two_ids (JStr ''r'') (JStr ''w'') = Inr (''r'', ''w'')" "validate_id (JStr ''r'') = Inr ''r''"
  "validate_id (JStr ''q'') = Inr ''q''"
  using sample_tokens by (simp_all add: two_ids_def result_iff)

lemma utf8_letters [simp]: "utf8_ok ''r''" "utf8_ok ''w''" "utf8_ok ''o''" "utf8_ok ''q''"
  by (simp_all add: utf8_ok_ascii)

lemma at_time_fields [simp]: "fault (at_time t) = No_fault" "clock_reading (at_time t) = Some (JInt t)"
  by (simp_all add: at_time_def)

lemma sample_now [simp]:
  "now_tick (at_time 10) (db (sample_ledger stop h)) = Inr (10, set_clock 10 (db (sample_ledger stop h)))"
  by (simp add: now_tick_Inr sample_ticks)

lemma sample_lease [simp]:
  "require_lease (set_clock 10 (db (sample_ledger stop h))) ''r'' ''w'' (JInt 2) 10 late None
    = Inr (sample_run stop h)"
  "require_lease (set_clock 10 (db (sample_ledger stop h))) ''r'' ''w'' (JInt 2) 10 late (Some ''execution'')
    = Inr (sample_run stop h)"
  by (simp_all add: require_lease_def get_run_def bind_text_def MAX_INT64_def)

section \<open>The properties at work\<close>

lemma budgets_respected_witness:
  "\<exists>limit c. RUN_LIMITS ''pr'' = Some limit \<and> run_sum (db (sample_ledger None False)) ''r'' \<le> limit \<and>
    clock_of (db (sample_ledger None False)) = Some c"
  using budgets_respected[OF sample_inv[of None False], where cs = "[]" and rl = 0 and rid = "''r''"
      and r = "sample_run None False"] by auto

lemma sample_redelivery:
  "call_ledger rl (at_time 10, Reserve (JStr ''r'') (JStr ''w'') (JInt 2) (JStr ''o'') (JStr ''0.50''))
    (sample_ledger None h) = (Inr (operation_dict sample_op),
      sample_ledger None h\<lparr>db := set_clock 10 (db (sample_ledger None h))\<rparr>)"
proof -
  have usd: "parse_usd (JStr ''0.50'') = Inr (''0.50'', 500000)" and eq: "decimal_equal ''0.5'' ''0.50''"
    by (simp_all add: parse_usd_def dec_parts_def is_digit_def digits_val_def py_len_ascii MAX_INT64_def
        decimal_equal_def Let_def)
  have input: "operation_input (JStr ''r'') (JStr ''w'') (JStr ''o'') (JStr ''0.50'')
      = Inr (''r'', ''w'', ''o'', ''0.50'', 500000)"
    using sample_tokens by (simp add: operation_input_def result_iff usd)
  have "reserve_tx (at_time 10) (JInt 2) (''r'', ''w'', ''o'', ''0.50'', 500000) (db (sample_ledger None h))
      = Inr (operation_dict sample_op, set_clock 10 (db (sample_ledger None h)))"
    by (simp add: reserve_tx_def bind_text_def sample_op_ok eq terminal_exists_def)
  then show ?thesis by (simp add: reserve_def with_input_def input immediate_def)
qed

lemma lease_required_witness:
  "\<exists>r. find_run (db (sample_ledger None False)) ''r'' = Some r \<and> owner r = Some ''w'' \<and> owner_epoch r = 2"
  using lease_required[OF sample_redelivery] by auto

lemma stale_lease_fenced_witness:
  "\<exists>err. call_ledger 9 (at_time 10, Confirm_stopped (JStr ''r'') (JStr ''w'') (JInt 1)) (sample_ledger None False)
    = (Inl err, sample_ledger None False)"
  using stale_lease_fenced[OF sample_inv[of None False], where i = "''r''" and r = "sample_run None False" and e = 1
      and c = "Confirm_stopped (JStr ''r'') (JStr ''w'') (JInt 1)" and own = "JStr ''w''" and rl = 9
      and env = "at_time 10" and cs = "[]"] by simp

lemma lease_exclusive_witness:
  "\<exists>err. call_ledger 9 (at_time 10, Claim (JStr ''r'') (JStr ''x'')) (sample_ledger None False)
    = (Inl err, sample_ledger None False)"
  by (rule lease_exclusive[where r = "sample_run None False" and w = "''w''" and until = 60 and now = 10
      and i = "''r''" and own = "''x''"]) simp_all

text \<open>A second settlement of \<open>sample_op\<close> with a larger amount.\<close>

lemma sample_conflict:
  "\<exists>l'. call_ledger rl (at_time 10, Settle (JStr ''r'') (JStr ''w'') (JInt 2) (JStr ''o'') (JStr ''0.75''))
    (sample_ledger None False) = (Inl (LedgerError ''conflict'' ''settlement conflict''), l')"
proof -
  have usd: "parse_usd (JStr ''0.75'') = Inr (''0.75'', 750000)"
    by (simp add: parse_usd_def dec_parts_def is_digit_def digits_val_def py_len_ascii MAX_INT64_def Let_def)
  have input: "operation_input (JStr ''r'') (JStr ''w'') (JStr ''o'') (JStr ''0.75'')
      = Inr (''r'', ''w'', ''o'', ''0.75'', 750000)"
    using sample_tokens by (simp add: operation_input_def result_iff usd)
  let ?details = "[(''operation_id'', JStr ''o''), (''exposure_micros'', JInt 750000)]"
  have ev: "\<exists>d'. record_event ''r'' ''settlement_conflict'' 10 (Some ''w'') 2 ?details d = Inr d'" for d
    using record_event_ok[of ?details "''r''" "''w''"] by (fastforce simp: utf8_ok_ascii show_nat.simps)
  have c: "conflict_exposure sample_op ''0.75'' 750000 = (Some ''0.75'', 750000)"
    by (simp add: conflict_exposure_def or_zero_def)
  obtain d' where "settle_tx (at_time 10) (JInt 2) (''r'', ''w'', ''o'', ''0.75'', 750000) (db (sample_ledger None False))
      = Inr (Inl (LedgerError ''conflict'' ''settlement conflict''), d')"
    using ev[of "hold_run ''r'' ''settlement_conflict'' (update_operation ''o''
        (\<lambda>r. r\<lparr>exposure_usd := Some ''0.75'', exposure_micros := Some 750000\<rparr>)
        (set_clock 10 (db (sample_ledger None False))))"]
    by (fastforce simp: settle_tx_def bind_text_def sample_op_ok settle_conflict_tx_def c Let_def or_zero_def)
  then show ?thesis by (simp add: settle_def with_input_def input immediate_def)
qed

lemma errors_are_atomic_witness:
  "\<exists>l' p. call_ledger 9 (at_time 10, Settle (JStr ''r'') (JStr ''w'') (JInt 2) (JStr ''o'') (JStr ''0.75''))
      (sample_ledger None False) = (Inl (LedgerError ''conflict'' ''settlement conflict''), l') \<and>
    held (db l') ''r'' \<and> find_op (db l') ''o'' = Some p \<and> exposure_micros p = Some 750000 \<and> l' \<noteq> sample_ledger None False"
proof -
  obtain l' where call: "call_ledger 9 (at_time 10, Settle (JStr ''r'') (JStr ''w'') (JInt 2) (JStr ''o'') (JStr ''0.75''))
      (sample_ledger None False) = (Inl (LedgerError ''conflict'' ''settlement conflict''), l')"
    using sample_conflict by blast
  have usd: "parse_usd (JStr ''0.75'') = Inr (''0.75'', 750000)"
    by (simp add: parse_usd_def dec_parts_def is_digit_def digits_val_def py_len_ascii MAX_INT64_def Let_def)
  have "refusal_recorded (LedgerError ''conflict'' ''settlement conflict'') ''r'' ''o'' 750000
      (db (sample_ledger None False)) (db l')"
    using errors_are_atomic[OF call] by (auto simp: deferred_errors_def usd)
  then have "held (db l') ''r'' \<and> (\<exists>p. find_op (db l') ''o'' = Some p \<and> exposure_micros p = Some 750000)"
    by (auto simp: refusal_recorded_def or_zero_def)
  moreover from this have "l' \<noteq> sample_ledger None False" by (auto simp: held_def)
  ultimately show ?thesis using call by blast
qed

lemma settlement_final_witness:
  "\<exists>p'. find_op (db (sample_ledger None False)) ''o'' = Some p' \<and> settled_micros p' = Some 500000"
  using settlement_final[OF sample_inv[of None False], where oid = "''o''" and p = sample_op and rl = 9 and cs = "[]"] by auto

lemma hold_is_permanent_witness:
  "\<exists>err. call_ledger 9 (at_time 10, Claim (JStr ''r'') (JStr ''w'')) (sample_ledger None True)
    = (Inl err, sample_ledger None True)"
proof -
  have "held (db (sample_ledger None True)) ''r''" by (simp add: held_def)
  from hold_is_permanent[OF sample_inv this, where c = "Claim (JStr ''r'') (JStr ''w'')" and own = "JStr ''w''"
      and rl = 9 and cs = "[]" and env = "at_time 10"]
  show ?thesis by simp
qed

lemma redelivery_harmless_witness:
  "\<exists>now text. clock_reading (at_time 10) = Some (JInt now) \<and> parse_usd (JStr ''0.50'') = Inr (text, 500000)"
  using redelivery_harmless[OF sample_inv[of None False] _ sample_redelivery, where p = sample_op] by auto

lemma sample_closure:
  "budget_closure_of (set_clock 10 (db (sample_ledger stop h))) ''r'' 10 =
    Inr \<lparr>budget_closed = True, pending_operations = 0, unresolved_exposures = 0,
      run_accounted_micros = 500000, global_accounted_micros = 500000\<rparr>"
  by (simp add: budget_closure_of_def get_run_def bind_text_def run_operations_def sample_op_ok run_accounted_def
      global_accounted_def account_fold_def sample_accounted in_window_def WINDOW_SECONDS_def MAX_INT64_def)

lemma budget_closure_reports_witness: "all_settled (db (sample_ledger None False)) ''r''"
proof -
  have "call_ledger 9 (at_time 10, Budget_closure (JStr ''r'')) (sample_ledger None False) =
      (Inr (closure_dict \<lparr>budget_closed = True, pending_operations = 0, unresolved_exposures = 0,
        run_accounted_micros = 500000, global_accounted_micros = 500000\<rparr>),
       sample_ledger None False\<lparr>db := set_clock 10 (db (sample_ledger None False))\<rparr>)"
    by (simp add: budget_closure_def with_input_def sample_ids immediate_def budget_closure_tx_def sample_closure)
  from budget_closure_reports[OF this] show ?thesis by (auto simp: closure_dict_def jget_def)
qed

definition sample_body :: json where
  "sample_body = terminal_body (decide False True False True False True HEALTHY) (sample_run (Some 3) False) ''w'' 2 10
    \<lparr>budget_closed = True, pending_operations = 0, unresolved_exposures = 0,
      run_accounted_micros = 500000, global_accounted_micros = 500000\<rparr>"

lemma sample_body_text: "\<exists>text. report_text 9 sample_body = Inr text"
proof -
  have b: "jlen sample_body \<le> MAX_REPORT_BYTES" "jdepth sample_body \<le> 9" "jfinite sample_body" "jutf8 sample_body"
    by (simp_all add: sample_body_def terminal_body_def decision_fields_def decide_def reason_order_def Let_def
        closure_dict_def opt_int_def opt_str_def status_name_def show_nat.simps MAX_REPORT_BYTES_def utf8_ok_ascii)
  then show ?thesis using length_dumps[of sample_body] by (simp add: report_text_Inr)
qed

lemma sample_finalize:
  "\<exists>l'. call_ledger 9 (at_time 10, Finalize (JStr ''r'') (JStr ''w'') (JInt 2) (JStr ''HEALTHY'') (JBool True) (JBool False))
    (sample_ledger (Some 3) False) = (Inr sample_body, l')"
proof -
  let ?d = "set_clock 10 (db (sample_ledger (Some 3) False))"
  have dec: "decide_terminal (JBool False) (JBool True) (JBool False) (JBool True) (JBool False) (JBool True) (JStr ''HEALTHY'')
      = Inr (decide False True False True False True HEALTHY)"
    using decide_terminal_bools[of False True False True False True HEALTHY] by simp
  have done': "execution_status (decide False True False True False True HEALTHY) = COMPLETED"
    "exit_code (decide False True False True False True HEALTHY) = Some 1"
    by (simp_all add: execution_status_decide exit_code_decide)
  have a: "parse_assurance (JStr ''HEALTHY'') = Some HEALTHY" using parse_assurance_name[of HEALTHY] by simp
  obtain t where t: "report_text 9 sample_body = Inr t" using sample_body_text by blast
  obtain e where e: "record_event ''r'' ''terminal_finalized'' 10 (Some ''w'') 2
      [(''execution_status'', JStr ''COMPLETED''), (''exit_code'', JInt 1)]
      (?d\<lparr>terminal_records := [stored ''r'' t]\<rparr>) = Inr (add_events [e] (?d\<lparr>terminal_records := [stored ''r'' t]\<rparr>))"
    using record_event_ok[of "[(''execution_status'', JStr ''COMPLETED''), (''exit_code'', JInt 1)]" "''r''" "''w''"]
    by (fastforce simp: utf8_ok_ascii show_nat.simps)
  have "finalize_tx 9 (at_time 10) (JInt 2) (JStr ''HEALTHY'') True False (''r'', ''w'') (db (sample_ledger (Some 3) False))
      = Inr (sample_body, add_events [e] (?d\<lparr>terminal_records := [stored ''r'' t]\<rparr>))"
    using e t
    by (simp add: finalize_tx_def sample_closure effective_assurance_def dec Let_def done' sample_body_def [symmetric]
        stored_def status_name_def opt_int_def)
  then show ?thesis
    by (simp add: finalize_def with_input_def sample_ids a immediate_def)
qed

lemma sample_body_status: "jget sample_body ''execution_status'' = JStr ''COMPLETED''"
  by (simp add: sample_body_def terminal_body_fields execution_status_decide)

lemma completed_means_done_witness: "jget sample_body ''exit_code'' = JInt 1"
proof -
  obtain l' where call: "call_ledger 9 (at_time 10, Finalize (JStr ''r'') (JStr ''w'') (JInt 2) (JStr ''HEALTHY'')
      (JBool True) (JBool False)) (sample_ledger (Some 3) False) = (Inr sample_body, l')"
    using sample_finalize by blast
  from completed_means_done[OF call _ sample_body_status] show ?thesis by auto
qed

lemma terminal_is_final_witness:
  "\<exists>row. verified_terminal 9 row = Inr (jsort sample_body)"
proof -
  obtain l' where call: "call_ledger 9 (at_time 10, Finalize (JStr ''r'') (JStr ''w'') (JInt 2) (JStr ''HEALTHY'')
      (JBool True) (JBool False)) (sample_ledger (Some 3) False) = (Inr sample_body, l')"
    using sample_finalize by blast
  from terminal_is_final[OF sample_inv _ _ call, of "[]"] sample_body_status show ?thesis by auto
qed

definition sample_report :: json where
  "sample_report = JObj [(''purpose'', JStr ''component_validation''), (''ci_eligible'', JBool False)]"

lemma reports_are_kept_witness: "\<exists>row. verified_report 9 row = Inr (jsort sample_report)"
proof -
  have b: "jlen sample_report \<le> MAX_REPORT_BYTES" "jdepth sample_report \<le> 9" "jfinite sample_report" "jutf8 sample_report"
    by (simp_all add: sample_report_def MAX_REPORT_BYTES_def utf8_ok_ascii)
  then obtain t where t: "report_text 9 sample_report = Inr t"
    using length_dumps[of sample_report] by (auto simp: report_text_Inr)
  have "component_only sample_report" "is_obj sample_report" "jwf sample_report"
    by (simp_all add: sample_report_def component_only_def)
  moreover from this t obtain x l' where call: "call_ledger 9 (at_time 10, Store_report (JStr ''q'') sample_report)
      (sample_ledger None False) = (Inr x, l')"
    by (simp add: store_report_def with_input_def sample_ids immediate_def store_report_tx_def Let_def bind_text_def)
  ultimately show ?thesis using reports_are_kept[OF sample_inv _ _ call, of "[]"] by auto
qed

end
