(* ===== verification/Ledger_File.thy ===== *)
theory Ledger_File
  imports Ledger_Terminal
begin

text \<open>
  The database file behind the ledger (\<open>src/src/gah/ledger.py\<close>): creating the schema, opening an
  existing file, and the explicit migration from version 1.  A file is its \<open>user_version\<close>, its
  tables with their columns, and the rows; a field of a row whose column the file does not have carries
  no information.
\<close>

record ledger_file =
  user_version :: int
  tables :: "(string \<times> string list) list"
  content :: ledger_db

definition SCHEMA_VERSION :: int where
  "SCHEMA_VERSION = 2"

definition run_columns_v1 :: "string list" where
  "run_columns_v1 = [''run_id'', ''profile'', ''started_at'', ''deadline'', ''epoch0'', ''owner'',
     ''owner_epoch'', ''lease_until'', ''hold'', ''hold_reason'']"

definition run_columns_new :: "string list" where
  "run_columns_new = [''lease_kind'', ''cancel_requested_at'', ''stop_confirmed_at'']"

definition op_columns :: "string list" where
  "op_columns = [''operation_id'', ''run_id'', ''owner'', ''epoch'', ''reserved_usd'', ''reserved_micros'',
     ''reserved_at'', ''settled_usd'', ''settled_micros'', ''settled_at'', ''status'', ''hold_reason'',
     ''exposure_usd'', ''exposure_micros'']"

definition report_columns :: "string list" where
  "report_columns = [''request_id'', ''canonical_json'', ''payload'', ''sha256'']"

definition terminal_columns :: "string list" where
  "terminal_columns = [''run_id'', ''canonical_json'', ''payload'', ''sha256'']"

definition event_columns :: "string list" where
  "event_columns = [''event_id'', ''run_id'', ''event_kind'', ''observed_at'', ''owner'', ''owner_epoch'',
     ''details_json'']"

text \<open>The two \<open>expected\<close> dictionaries.\<close>

definition expected_v1 :: "(string \<times> string list) list" where
  "expected_v1 = [(''ledger_meta'', [''key'', ''value'']), (''runs'', run_columns_v1),
     (''operations'', op_columns), (''reports'', report_columns)]"

definition expected_v2 :: "(string \<times> string list) list" where
  "expected_v2 = [(''ledger_meta'', [''key'', ''value'']), (''runs'', run_columns_v1 @ run_columns_new),
     (''operations'', op_columns), (''reports'', report_columns), (''terminal_records'', terminal_columns),
     (''run_events'', event_columns)]"

text \<open>\<open>PRAGMA table_info\<close> of an absent table has no rows.\<close>

definition columns_of :: "ledger_file \<Rightarrow> string \<Rightarrow> string list" where
  "columns_of f t = (case map_of (tables f) t of None \<Rightarrow> [] | Some cs \<Rightarrow> cs)"

definition table_names :: "ledger_file \<Rightarrow> string list" where
  "table_names f = map fst (tables f)"

definition has_columns :: "ledger_file \<Rightarrow> (string \<times> string list) list \<Rightarrow> ledger_error + unit" where
  "has_columns f expected =
    eiter (\<lambda>(t, cs). guard (set cs \<subseteq> set (columns_of f t)) invalid_database) expected"

text \<open>\<open>_valid_clock_storage\<close>: the canonical text of a time, or \<open>-1\<close>.\<close>

definition valid_clock_storage :: "string \<Rightarrow> bool" where
  "valid_clock_storage text =
    (let neg = (text \<noteq> [] \<and> hd text = CHR ''-''); ds = (if neg then tl text else text);
         n = int (digits_val ds); number = (if neg then - n else n)
     in ds \<noteq> [] \<and> list_all is_digit ds \<and> (hd ds = CHR ''0'' \<longrightarrow> length ds = 1) \<and>
        length ds \<le> max_str_digits \<and> - 1 \<le> number \<and> number \<le> MAX_TIME)"

definition check_clock :: "ledger_file \<Rightarrow> ledger_error + unit" where
  "check_clock f = guard (case last_clock (content f) of None \<Rightarrow> False | Some t \<Rightarrow> valid_clock_storage t)
     invalid_database"

definition verify_stored_rows :: "nat \<Rightarrow> stored_row list \<Rightarrow> ledger_error + unit" where
  "verify_stored_rows rl rows = eiter (\<lambda>row. ebind (verify_report_parts rl row) (\<lambda>_. Inr ())) rows"

definition validate_v2 :: "nat \<Rightarrow> bool \<Rightarrow> ledger_file \<Rightarrow> ledger_error + unit" where
  "validate_v2 rl verify_reports f =
    ebind (guard (set (map fst expected_v2) \<subseteq> set (table_names f)) invalid_database) (\<lambda>_.
    ebind (has_columns f expected_v2) (\<lambda>_.
    ebind (check_clock f) (\<lambda>_.
    if verify_reports then
      ebind (verify_stored_rows rl (reports (content f))) (\<lambda>_.
      verify_stored_rows rl (terminal_records (content f)))
    else Inr ())))"

definition validate_v1 :: "nat \<Rightarrow> ledger_file \<Rightarrow> ledger_error + unit" where
  "validate_v1 rl f =
    ebind (guard (set [''terminal_records'', ''run_events''] \<inter> set (table_names f) = {}) invalid_database) (\<lambda>_.
    ebind (guard (set (map fst expected_v1) \<subseteq> set (table_names f)) invalid_database) (\<lambda>_.
    ebind (has_columns f expected_v1) (\<lambda>_.
    ebind (guard (set run_columns_new \<inter> set (columns_of f ''runs'') = {}) invalid_database) (\<lambda>_.
    ebind (check_clock f) (\<lambda>_.
    verify_stored_rows rl (reports (content f)))))))"

text \<open>
  A transaction on a file: as \<open>immediate\<close>, any error but a \<open>LedgerError\<close> becomes
  \<open>storage_failure\<close>, and any error leaves the file as it was.
\<close>

definition file_tx :: "io_fault \<Rightarrow> (ledger_file \<Rightarrow> ledger_error + 'a \<times> ledger_file) \<Rightarrow> ledger_file \<Rightarrow>
    (ledger_error + 'a) \<times> ledger_file" where
  "file_tx io body f =
    (if io \<in> {Begin_fails, Statement_fails} then (Inl storage_failure, f)
     else case body f of
         Inl (LedgerError code reason) \<Rightarrow> (Inl (LedgerError code reason), f)
       | Inl (PyError _) \<Rightarrow> (Inl storage_failure, f)
       | Inr (x, f') \<Rightarrow> if io = Commit_fails then (Inl storage_failure, f) else (Inr x, f'))"

text \<open>\<open>_create_schema\<close>; SQLite keeps the counter of the event table in \<open>sqlite_sequence\<close>.\<close>

definition new_file :: ledger_file where
  "new_file = \<lparr>user_version = SCHEMA_VERSION,
     tables = expected_v2 @ [(''sqlite_sequence'', [''name'', ''seq''])], content = empty_db\<rparr>"

definition create_schema_tx :: "nat \<Rightarrow> ledger_file \<Rightarrow> ledger_error + unit \<times> ledger_file" where
  "create_schema_tx rl f =
    (if user_version f = SCHEMA_VERSION \<and>
        set [''ledger_meta'', ''runs'', ''operations'', ''reports''] \<subseteq> set (table_names f)
     then ebind (validate_v2 rl False f) (\<lambda>_. Inr ((), f))
     else if user_version f \<noteq> 0 \<or> table_names f \<noteq> [] then Inl invalid_database
     else Inr ((), new_file))"

text \<open>
  \<open>__init__\<close>: \<open>seen\<close> is the file at the first \<open>PRAGMA user_version\<close>; another connection may
  have initialised it by the time the schema transaction begins.
\<close>

definition open_ledger :: "nat \<Rightarrow> io_fault \<Rightarrow> bool \<Rightarrow> ledger_file \<Rightarrow> ledger_file \<Rightarrow>
    (ledger_error + ledger) \<times> ledger_file" where
  "open_ledger rl io existed seen f =
    (if \<not> existed then
       if user_version seen \<noteq> 0 then
         (Inl (LedgerError ''unsupported_version'' ''unsupported database version''), f)
       else (case file_tx io (create_schema_tx rl) f of
           (Inl e, f') \<Rightarrow> (Inl e, f')
         | (Inr _, f') \<Rightarrow> (Inr \<lparr>db = content f', closed = False\<rparr>, f'))
     else if user_version f \<noteq> SCHEMA_VERSION then
       (Inl (LedgerError ''unsupported_version'' ''unsupported database version''), f)
     else (case validate_v2 rl False f of
         Inl e \<Rightarrow> (Inl e, f)
       | Inr _ \<Rightarrow> (Inr \<lparr>db = content f, closed = False\<rparr>, f)))"

text \<open>\<open>ALTER TABLE runs ADD COLUMN\<close> with the defaults, and the two new tables.\<close>

definition migrate_row :: "run_row \<Rightarrow> run_row" where
  "migrate_row r = r\<lparr>lease_kind := ''execution'', cancel_requested_at := None, stop_confirmed_at := None\<rparr>"

definition add_columns :: "string \<Rightarrow> string list \<Rightarrow> (string \<times> string list) list \<Rightarrow> (string \<times> string list) list" where
  "add_columns t new ts = map (\<lambda>(n, cs). (n, if n = t then cs @ filter (\<lambda>c. c \<notin> set cs) new else cs)) ts"

definition migrate_v1_tx :: "nat \<Rightarrow> ledger_file \<Rightarrow> ledger_error + bool \<times> ledger_file" where
  "migrate_v1_tx rl f =
    (if user_version f = SCHEMA_VERSION then ebind (validate_v2 rl True f) (\<lambda>_. Inr (False, f))
     else if user_version f \<noteq> 1 then
       Inl (LedgerError ''unsupported_version'' ''unsupported database version'')
     else
       ebind (validate_v1 rl f) (\<lambda>_.
       Inr (True, f\<lparr>user_version := 2,
         tables := add_columns ''runs'' run_columns_new (tables f) @
           [(''terminal_records'', terminal_columns), (''run_events'', event_columns)] @
           (if ''sqlite_sequence'' \<in> set (table_names f) then [] else [(''sqlite_sequence'', [''name'', ''seq''])]),
         content := (content f)\<lparr>runs := map migrate_row (runs (content f)), terminal_records := [],
           run_events := [], event_seq := 0\<rparr>\<rparr>)))"

text \<open>\<open>migrate_v1\<close>: the returned dict is its \<open>changed\<close> flag.\<close>

definition migrate_v1 :: "nat \<Rightarrow> io_fault \<Rightarrow> bool \<Rightarrow> ledger_file \<Rightarrow> (ledger_error + bool) \<times> ledger_file" where
  "migrate_v1 rl io is_file f =
    (if \<not> is_file then (Inl invalid_database, f) else file_tx io (migrate_v1_tx rl) f)"

section \<open>Properties\<close>

lemma guard_eq: "guard b e = Inr () \<longleftrightarrow> b"
  by (simp add: guard_def)

lemma validate_v2_Inr:
  "validate_v2 rl verify f = Inr u \<longleftrightarrow>
    set (map fst expected_v2) \<subseteq> set (table_names f) \<and> has_columns f expected_v2 = Inr () \<and>
    check_clock f = Inr () \<and>
    (verify \<longrightarrow> verify_stored_rows rl (reports (content f)) = Inr () \<and>
       verify_stored_rows rl (terminal_records (content f)) = Inr ())"
  by (auto simp: validate_v2_def result_iff)

lemma validate_v1_Inr:
  "validate_v1 rl f = Inr u \<longleftrightarrow>
    set [''terminal_records'', ''run_events''] \<inter> set (table_names f) = {} \<and>
    set (map fst expected_v1) \<subseteq> set (table_names f) \<and> has_columns f expected_v1 = Inr () \<and>
    set run_columns_new \<inter> set (columns_of f ''runs'') = {} \<and> check_clock f = Inr () \<and>
    verify_stored_rows rl (reports (content f)) = Inr ()"
  by (auto simp: validate_v1_def result_iff)

lemma has_columns_Inr:
  "has_columns f ex = Inr () \<longleftrightarrow> (\<forall>(t, cs) \<in> set ex. set cs \<subseteq> set (columns_of f t))"
  by (simp add: has_columns_def result_iff case_prod_beta)

lemma file_tx_cases:
  "file_tx io body f = (res, f') \<Longrightarrow>
    f' = f \<and> (\<exists>e. res = Inl e) \<or> (\<exists>x. body f = Inr (x, f') \<and> res = Inr x)"
  by (cases io) (auto simp: file_tx_def split: if_splits sum.splits ledger_error.splits)

lemma map_of_add_columns:
  "map_of (add_columns t new ts) n =
    map_option (\<lambda>cs. if n = t then cs @ filter (\<lambda>c. c \<notin> set cs) new else cs) (map_of ts n)"
  by (induction ts) (auto simp: add_columns_def)

lemma fst_add_columns: "map fst (add_columns t new ts) = map fst ts"
  by (induction ts) (auto simp: add_columns_def)

lemma migrated_schema:
  assumes v: "validate_v1 rl f = Inr ()"
    and f': "tables f' = add_columns ''runs'' run_columns_new (tables f) @
      [(''terminal_records'', terminal_columns), (''run_events'', event_columns)] @ rest"
  shows "set (map fst expected_v2) \<subseteq> set (table_names f') \<and> has_columns f' expected_v2 = Inr ()"
proof -
  note V = v[unfolded validate_v1_Inr has_columns_Inr]
  have names: "set (table_names f') = set (table_names f) \<union> {''terminal_records'', ''run_events''} \<union> fst ` set rest"
    by (auto simp: table_names_def f' fst_add_columns simp flip: set_map)
  have fresh: "map_of (tables f) ''terminal_records'' = None" "map_of (tables f) ''run_events'' = None"
    using V by (auto simp: table_names_def map_of_eq_None_iff)
  have present: "map_of (tables f) t \<noteq> None" if "t \<in> set (map fst expected_v1)" for t
    using V that by (auto simp: table_names_def map_of_eq_None_iff subset_iff)
  have old: "columns_of f' t = (if t = ''runs'' then columns_of f t @ filter (\<lambda>c. c \<notin> set (columns_of f t)) run_columns_new
      else columns_of f t)" if "t \<in> set (map fst expected_v1)" for t
    using present[OF that] by (auto simp: columns_of_def f' map_of_add_columns map_add_def)
  have new: "columns_of f' ''terminal_records'' = terminal_columns" "columns_of f' ''run_events'' = event_columns"
    using fresh by (auto simp: columns_of_def f' map_of_add_columns map_add_def)
  have mem: "''ledger_meta'' \<in> set (map fst expected_v1)" "''runs'' \<in> set (map fst expected_v1)"
    "''operations'' \<in> set (map fst expected_v1)" "''reports'' \<in> set (map fst expected_v1)"
    by (simp_all add: expected_v1_def)
  have cols: "set cs \<subseteq> set (columns_of f t)" if "(t, cs) \<in> set expected_v1" for t cs
    using V that by blast
  have "has_columns f' expected_v2 = Inr ()"
    unfolding has_columns_Inr expected_v2_def
    using cols[of "''ledger_meta''"] cols[of "''runs''"] cols[of "''operations''"] cols[of "''reports''"]
    by (auto simp: new old[OF mem(1)] old[OF mem(2)] old[OF mem(3)] old[OF mem(4)] expected_v1_def)
  moreover have "set (map fst expected_v2) \<subseteq> set (table_names f')"
    using V names by (auto simp: expected_v1_def expected_v2_def)
  ultimately show ?thesis by blast
qed

text \<open>C8.
  The migration of a version 1 file is all or nothing: when it reports a change, the file is a valid
  version 2 file with the same clock, operations and reports, the same runs with the default lease kind
  and no cancellation or stop, and no terminal record; migrating it again changes nothing.  When it
  fails, the file is as it was.
\<close>

theorem migration_all_or_nothing:
  assumes "migrate_v1 rl io is_file f = (res, f')"
  shows "(\<exists>e. res = Inl e \<and> f' = f) \<or> (res = Inr False \<and> f' = f \<and> user_version f = 2) \<or>
    (res = Inr True \<and> user_version f = 1 \<and> user_version f' = 2 \<and> validate_v2 rl True f' = Inr () \<and>
     last_clock (content f') = last_clock (content f) \<and> operations (content f') = operations (content f) \<and>
     reports (content f') = reports (content f) \<and> terminal_records (content f') = [] \<and>
     runs (content f') = map migrate_row (runs (content f)) \<and>
     migrate_v1 rl No_fault True f' = (Inr False, f'))"
proof (cases "is_file")
  case True
  with assms have "file_tx io (migrate_v1_tx rl) f = (res, f')" by (simp add: migrate_v1_def)
  from file_tx_cases[OF this] show ?thesis
  proof (elim disjE exE conjE)
    fix x assume tx: "migrate_v1_tx rl f = Inr (x, f')" and res: "res = Inr x"
    show ?thesis
    proof (cases "user_version f = 2")
      case True
      with tx res show ?thesis by (auto simp: migrate_v1_tx_def SCHEMA_VERSION_def result_iff)
    next
      case False
      with tx have one: "user_version f = 1" "x = True" and v1: "validate_v1 rl f = Inr ()"
        and f': "f' = f\<lparr>user_version := 2,
         tables := add_columns ''runs'' run_columns_new (tables f) @
           [(''terminal_records'', terminal_columns), (''run_events'', event_columns)] @
           (if ''sqlite_sequence'' \<in> set (table_names f) then [] else [(''sqlite_sequence'', [''name'', ''seq''])]),
         content := (content f)\<lparr>runs := map migrate_row (runs (content f)), terminal_records := [],
           run_events := [], event_seq := 0\<rparr>\<rparr>"
        by (auto simp: migrate_v1_tx_def SCHEMA_VERSION_def result_iff split: if_splits)
      have t: "tables f' = add_columns ''runs'' run_columns_new (tables f) @
           [(''terminal_records'', terminal_columns), (''run_events'', event_columns)] @
           (if ''sqlite_sequence'' \<in> set (table_names f) then [] else [(''sqlite_sequence'', [''name'', ''seq''])])"
        by (simp add: f')
      have v2: "validate_v2 rl True f' = Inr ()"
        using migrated_schema[OF v1 t] v1[unfolded validate_v1_Inr]
        by (simp add: validate_v2_Inr) (simp add: f' check_clock_def verify_stored_rows_def)
      then have "migrate_v1 rl No_fault True f' = (Inr False, f')"
        by (simp add: migrate_v1_def file_tx_def migrate_v1_tx_def SCHEMA_VERSION_def) (simp add: f')
      with v2 one res show ?thesis by (simp add: f')
    qed
  qed auto
qed (use assms in \<open>auto simp: migrate_v1_def\<close>)

text \<open>
  Opening never repairs: an existing file is left as it is, whether it is accepted or refused; a file is
  written only when none existed and it was still empty, and then it holds the empty ledger, which
  satisfies the invariant.
\<close>

theorem opening_never_repairs:
  assumes "open_ledger rl io existed seen f = (res, f')"
  shows "f' = f \<or> (\<not> existed \<and> user_version f = 0 \<and> tables f = [] \<and> f' = new_file \<and>
    res = Inr new_ledger \<and> db_inv (content new_file) \<and> validate_v2 rl True new_file = Inr ())"
proof (cases "existed \<or> user_version seen \<noteq> 0")
  case True
  with assms show ?thesis by (auto simp: open_ledger_def split: if_splits sum.splits)
next
  case False
  then obtain r where tx: "file_tx io (create_schema_tx rl) f = (r, f')"
    and res: "res = (case r of Inl e \<Rightarrow> Inl e | Inr _ \<Rightarrow> Inr \<lparr>db = content f', closed = False\<rparr>)"
    using assms by (auto simp: open_ledger_def split: prod.splits sum.splits)
  have v: "validate_v2 rl True new_file = Inr ()"
    by (auto simp: validate_v2_Inr has_columns_Inr new_file_def table_names_def columns_of_def expected_v2_def
        check_clock_def guard_eq empty_db_def valid_clock_storage_def is_digit_def digits_val_def
        max_str_digits_def MAX_TIME_def verify_stored_rows_def)
  from file_tx_cases[OF tx] show ?thesis
  proof (elim disjE exE conjE)
    fix x assume "create_schema_tx rl f = Inr (x, f')" "r = Inr x"
    then show ?thesis
      using False res v empty_db_inv
      by (auto simp: create_schema_tx_def result_iff table_names_def new_file_def new_ledger_def split: if_splits)
  qed simp
qed

definition sample_v1 :: ledger_file where
  "sample_v1 = \<lparr>user_version = 1, tables = expected_v1, content = empty_db\<rparr>"

lemma sample_v1_valid: "validate_v1 rl sample_v1 = Inr ()"
  by (simp add: validate_v1_Inr has_columns_Inr sample_v1_def table_names_def columns_of_def expected_v1_def
      check_clock_def guard_eq empty_db_def valid_clock_storage_def is_digit_def digits_val_def
      max_str_digits_def MAX_TIME_def verify_stored_rows_def run_columns_new_def run_columns_v1_def)

lemma migration_all_or_nothing_witness:
  "fst (migrate_v1 9 No_fault True sample_v1) = Inr True \<and>
   user_version (snd (migrate_v1 9 No_fault True sample_v1)) = 2"
proof -
  obtain f' where m: "migrate_v1 9 No_fault True sample_v1 = (Inr True, f')"
    using sample_v1_valid
    by (simp add: migrate_v1_def file_tx_def migrate_v1_tx_def SCHEMA_VERSION_def) (simp add: sample_v1_def)
  from migration_all_or_nothing[OF m] m show ?thesis by auto
qed

lemma opening_never_repairs_witness:
  "snd (open_ledger 9 No_fault True sample_v1 sample_v1) = sample_v1"
proof -
  obtain res f' where o: "open_ledger 9 No_fault True sample_v1 sample_v1 = (res, f')"
    by (cases "open_ledger 9 No_fault True sample_v1 sample_v1")
  from opening_never_repairs[OF o] o show ?thesis by auto
qed

end
