(* ===== verification/Registry.thy ===== *)
theory Registry
  imports Contracts "HOL-Library.AList" "HOL-Library.Multiset"
begin

text \<open>
  The control registry (\<open>src/src/gah/registry.py\<close>): the structural checks of a registry document, the
  iterative depth-first search that refuses cyclic dependencies, and the two work-list traversals that
  resolve the dependencies of selected controls and the controls a change affects.  A Python set is a
  list in the order its iteration takes; that order is not documented, so it is a parameter \<open>order\<close>,
  a function that permutes the list of the elements added (\<open>iteration_order\<close>).
\<close>

section \<open>Data and field checks\<close>

definition MAX_CONTROLS :: nat where
  "MAX_CONTROLS = 1000"

definition MAX_CONTROL_DEPENDENCIES :: nat where
  "MAX_CONTROL_DEPENDENCIES = 100"

definition MAX_CONTROL_OBLIGATIONS :: nat where
  "MAX_CONTROL_OBLIGATIONS = 100"

datatype color = WHITE | GRAY | BLACK

type_synonym edges = "(string \<times> string list) list"

datatype registry_error = Refused contract_error | RegistryKeyError

abbreviation CYCLE :: registry_error where
  "CYCLE \<equiv> Refused (ContractError ''CYCLE'')"

abbreviation UNKNOWN_REFERENCE :: registry_error where
  "UNKNOWN_REFERENCE \<equiv> Refused (ContractError ''UNKNOWN_REFERENCE'')"

definition require_list :: "nat \<Rightarrow> nat \<Rightarrow> json \<Rightarrow> contract_error + unit" where
  "require_list minimum maximum v =
    guard (is_list v \<and> minimum \<le> length (jitems v) \<and> length (jitems v) \<le> maximum) INVALID_CONTRACT"

definition require_flag :: "json \<Rightarrow> contract_error + unit" where
  "require_flag v = guard (is_bool v) INVALID_CONTRACT"

definition require_enum :: "string list \<Rightarrow> json \<Rightarrow> contract_error + unit" where
  "require_enum allowed v = guard (is_str v \<and> str_of v \<in> set allowed) INVALID_CONTRACT"

definition criticalities :: "string list" where
  "criticalities = [''critical'', ''noncritical'']"

definition obligation_kinds :: "string list" where
  "obligation_kinds = [''constraint'', ''mutation'', ''llm_metric'']"

definition event_policies :: "string list" where
  "event_policies = [''forbidden'', ''aggregate'', ''none'']"

definition mutation_statuses :: "string list" where
  "mutation_statuses = [''applicable'', ''not_applicable'']"

section \<open>Controls\<close>

definition validate_mutation_applicability :: "json \<Rightarrow> contract_error + string" where
  "validate_mutation_applicability v =
    ebind (require_object v [''status'', ''reason'']) (\<lambda>_.
    ebind (require_enum mutation_statuses (jget v ''status'')) (\<lambda>_.
    ebind (if jget v ''status'' = JStr ''applicable'' then guard (jget v ''reason'' = JNull) INVALID_CONTRACT
           else require_text 512 (jget v ''reason'')) (\<lambda>_.
    Inr (str_of (jget v ''status'')))))"

text \<open>The kind of the obligation and the identifiers seen so far.\<close>

definition validate_obligation :: "json \<Rightarrow> string list \<Rightarrow> contract_error + string \<times> string list" where
  "validate_obligation v obligation_ids =
    ebind (require_object v [''obligation_id'', ''kind'', ''required'', ''event_policy'', ''evaluator_ref'']) (\<lambda>_.
    ebind (require_id (jget v ''obligation_id'')) (\<lambda>_.
    ebind (guard (str_of (jget v ''obligation_id'') \<notin> set obligation_ids) (ContractError ''DUPLICATE_ID'')) (\<lambda>_.
    ebind (require_enum obligation_kinds (jget v ''kind'')) (\<lambda>_.
    ebind (require_flag (jget v ''required'')) (\<lambda>_.
    ebind (require_enum event_policies (jget v ''event_policy'')) (\<lambda>_.
    ebind (require_ref (jget v ''evaluator_ref'')) (\<lambda>_.
    Inr (str_of (jget v ''kind''), obligation_ids @ [str_of (jget v ''obligation_id'')]))))))))"

definition validate_dependency :: "string list \<Rightarrow> json \<Rightarrow> contract_error + string list" where
  "validate_dependency dependency_ids v =
    ebind (require_id v) (\<lambda>_.
    ebind (guard (str_of v \<notin> set dependency_ids) (ContractError ''DUPLICATE_REFERENCE'')) (\<lambda>_.
    Inr (dependency_ids @ [str_of v])))"

text \<open>One turn of the loop over the obligations: are there mutations so far, and the identifiers seen.\<close>

definition visit_obligation :: "bool \<times> string list \<Rightarrow> json \<Rightarrow> contract_error + bool \<times> string list" where
  "visit_obligation s v =
    ebind (validate_obligation v (snd s)) (\<lambda>(kind, obligation_ids).
    Inr (fst s \<or> kind = ''mutation'', obligation_ids))"

definition validate_control ::
  "json \<Rightarrow> string list \<Rightarrow> string list \<Rightarrow> contract_error + string \<times> string list \<times> string list \<times> string list" where
  "validate_control v control_ids obligation_ids =
    ebind (require_object v [''control_id'', ''owner'', ''invariant'', ''criticality'', ''target_ref'',
      ''dependencies'', ''obligations'', ''mutation_applicability'']) (\<lambda>_.
    ebind (require_id (jget v ''control_id'')) (\<lambda>_.
    ebind (guard (str_of (jget v ''control_id'') \<notin> set control_ids) (ContractError ''DUPLICATE_ID'')) (\<lambda>_.
    ebind (require_text 512 (jget v ''owner'')) (\<lambda>_.
    ebind (require_text 512 (jget v ''invariant'')) (\<lambda>_.
    ebind (require_enum criticalities (jget v ''criticality'')) (\<lambda>_.
    ebind (require_ref (jget v ''target_ref'')) (\<lambda>_.
    ebind (require_list 0 MAX_CONTROL_DEPENDENCIES (jget v ''dependencies'')) (\<lambda>_.
    ebind (efold validate_dependency [] (jitems (jget v ''dependencies''))) (\<lambda>dependency_ids.
    ebind (require_list 1 MAX_CONTROL_OBLIGATIONS (jget v ''obligations'')) (\<lambda>_.
    ebind (efold visit_obligation (False, obligation_ids) (jitems (jget v ''obligations''))) (\<lambda>after.
    ebind (guard (\<not> (jget v ''criticality'' = JStr ''critical'' \<and>
        list_ex (\<lambda>ob. jget ob ''required'' \<noteq> JBool True) (jitems (jget v ''obligations''))))
      (ContractError ''CRITICAL_OPTIONAL'')) (\<lambda>_.
    ebind (validate_mutation_applicability (jget v ''mutation_applicability'')) (\<lambda>status.
    ebind (guard (\<not> (status = ''applicable'' \<and> \<not> fst after)) (ContractError ''MUTATION_REQUIRED'')) (\<lambda>_.
    ebind (guard (\<not> (status = ''not_applicable'' \<and> fst after)) (ContractError ''MUTATION_NOT_APPLICABLE'')) (\<lambda>_.
    Inr (str_of (jget v ''control_id''), dependency_ids,
         control_ids @ [str_of (jget v ''control_id'')], snd after))))))))))))))))"

section \<open>The dependency graph\<close>

text \<open>The dependencies in the given order: a gray one closes a cycle, a white one is pushed.\<close>

fun push_dependencies ::
  "(string \<times> color) list \<Rightarrow> string list \<Rightarrow> (string \<times> bool) list \<Rightarrow> registry_error + (string \<times> bool) list" where
  "push_dependencies colors [] stack = Inr stack"
| "push_dependencies colors (d # ds) stack =
    (case map_of colors d of
       None \<Rightarrow> Inl RegistryKeyError
     | Some GRAY \<Rightarrow> Inl CYCLE
     | Some WHITE \<Rightarrow> push_dependencies colors ds ((d, False) # stack)
     | Some BLACK \<Rightarrow> push_dependencies colors ds stack)"

function search :: "edges \<Rightarrow> (string \<times> color) list \<Rightarrow> (string \<times> bool) list \<Rightarrow>
    registry_error + (string \<times> color) list" where
  "search edges colors [] = Inr colors"
| "search edges colors ((current, True) # stack) = search edges (AList.update current BLACK colors) stack"
| "search edges colors ((current, False) # stack) =
    (case map_of colors current of
       None \<Rightarrow> Inl RegistryKeyError
     | Some GRAY \<Rightarrow> Inl CYCLE
     | Some BLACK \<Rightarrow> search edges colors stack
     | Some WHITE \<Rightarrow>
         (case map_of edges current of
            None \<Rightarrow> Inl RegistryKeyError
          | Some ds \<Rightarrow>
              (case push_dependencies (AList.update current GRAY colors) (rev (sort ds)) ((current, True) # stack) of
                 Inl e \<Rightarrow> Inl e
               | Inr pushed \<Rightarrow> search edges (AList.update current GRAY colors) pushed)))"
  by pat_completeness auto

definition whites :: "(string \<times> color) list \<Rightarrow> string set" where
  "whites colors = {k. map_of colors k = Some WHITE}"

lemma finite_whites [simp]: "finite (whites colors)"
  by (rule finite_subset[OF _ finite_dom_map_of[of colors]]) (auto simp: whites_def)

lemma whites_update: "c \<noteq> WHITE \<Longrightarrow> whites (AList.update k c colors) = whites colors - {k}"
  by (auto simp: whites_def update_conv')

termination search
proof (relation "measures [\<lambda>(edges, colors, stack). card (whites colors), \<lambda>(edges, colors, stack). length stack]",
    goal_cases)
  case (2 edges colors current stack)
  show ?case by (auto simp: whites_update card_Diff1_le le_imp_less_or_eq)
next
  case (3 edges colors current stack)
  then have "current \<in> whites colors" by (simp add: whites_def)
  then have "card (whites colors) > 0" by (auto simp: card_gt_0_iff)
  with \<open>current \<in> whites colors\<close> show ?case by (simp add: whites_update)
qed auto

definition visit_root :: "edges \<Rightarrow> (string \<times> color) list \<Rightarrow> string \<Rightarrow> registry_error + (string \<times> color) list" where
  "visit_root edges colors root =
    (case map_of colors root of
       None \<Rightarrow> Inl RegistryKeyError
     | Some WHITE \<Rightarrow> search edges colors [(root, False)]
     | Some _ \<Rightarrow> Inr colors)"

definition validate_graph :: "(string list \<Rightarrow> string list) \<Rightarrow> string list \<Rightarrow> edges \<Rightarrow> registry_error + unit" where
  "validate_graph order control_ids edges =
    ebind (guard (list_all (\<lambda>(c, ds). set ds \<subseteq> set control_ids) edges) UNKNOWN_REFERENCE) (\<lambda>_.
    ebind (efold (visit_root edges) (map (\<lambda>i. (i, WHITE)) control_ids) (order control_ids)) (\<lambda>_. Inr ()))"

section \<open>Registry documents\<close>

text \<open>One turn of the loop over the controls.\<close>

definition visit_control :: "edges \<times> string list \<times> string list \<Rightarrow> json \<Rightarrow>
    contract_error + edges \<times> string list \<times> string list" where
  "visit_control s v =
    (case s of (edges, control_ids, obligation_ids) \<Rightarrow>
    ebind (validate_control v control_ids obligation_ids) (\<lambda>(i, ds, control_ids', obligation_ids').
    Inr (edges @ [(i, ds)], control_ids', obligation_ids')))"

definition registry_checks :: "json \<Rightarrow> contract_error + edges \<times> string list" where
  "registry_checks v =
    ebind (require_object v [''schema_version'', ''kind'', ''registry_id'', ''controls'']) (\<lambda>_.
    ebind (guard (jget v ''schema_version'' = JInt 1) (ContractError ''UNSUPPORTED_VERSION'')) (\<lambda>_.
    ebind (guard (jget v ''kind'' = JStr ''control_registry'') INVALID_CONTRACT) (\<lambda>_.
    ebind (require_id (jget v ''registry_id'')) (\<lambda>_.
    ebind (require_list 1 MAX_CONTROLS (jget v ''controls'')) (\<lambda>_.
    ebind (efold visit_control ([], [], []) (jitems (jget v ''controls''))) (\<lambda>(edges, control_ids, _).
    Inr (edges, control_ids)))))))"

definition validate_registry :: "(string list \<Rightarrow> string list) \<Rightarrow> json \<Rightarrow> registry_error + json" where
  "validate_registry order v =
    ebind (on_error (registry_checks v) Refused) (\<lambda>(edges, control_ids).
    ebind (validate_graph order control_ids edges) (\<lambda>_.
    ebind (on_error (canonical_bytes v) (\<lambda>_. Refused INVALID_CONTRACT)) (\<lambda>canonical.
    ebind (guard (length canonical \<le> MAX_DOCUMENT_BYTES) (Refused (ContractError ''DOCUMENT_SIZE''))) (\<lambda>_.
    Inr v))))"

text \<open>\<open>_validated_graph\<close>: the sets of dependencies, each in its iteration order.\<close>

definition control_edges :: "json \<Rightarrow> edges" where
  "control_edges v = map (\<lambda>c. (str_of (jget c ''control_id''), map str_of (jitems (jget c ''dependencies''))))
     (jitems (jget v ''controls''))"

definition validated_graph :: "(string list \<Rightarrow> string list) \<Rightarrow> json \<Rightarrow> registry_error + edges" where
  "validated_graph order v =
    ebind (validate_registry order v) (\<lambda>validated.
    Inr (map (\<lambda>(c, ds). (c, order ds)) (control_edges validated)))"

definition select_id :: "string list \<Rightarrow> json \<Rightarrow> contract_error + string list" where
  "select_id selected v =
    ebind (require_id v) (\<lambda>_.
    ebind (guard (str_of v \<notin> set selected) (ContractError ''DUPLICATE_REFERENCE'')) (\<lambda>_.
    Inr (selected @ [str_of v])))"

definition require_selected_ids :: "json \<Rightarrow> contract_error + string list" where
  "require_selected_ids v =
    ebind (require_list 1 MAX_CONTROLS v) (\<lambda>_. efold select_id [] (jitems v))"

section \<open>Traversals\<close>

definition visit :: "string \<Rightarrow> string list \<times> string list \<Rightarrow> string list \<times> string list" where
  "visit d s = (case s of (closure, pending) \<Rightarrow>
     if d \<in> set closure then (closure, pending) else (closure @ [d], pending @ [d]))"

text \<open>The loop over \<open>pending\<close>, last element first.\<close>

function explore :: "edges \<Rightarrow> string list \<Rightarrow> string list \<Rightarrow> registry_error + string list" where
  "explore edges closure pending =
    (if pending = [] then Inr closure
     else case map_of edges (last pending) of
         None \<Rightarrow> Inl RegistryKeyError
       | Some ds \<Rightarrow> explore edges (fst (fold visit ds (closure, butlast pending)))
                      (snd (fold visit ds (closure, butlast pending))))"
  by pat_completeness auto

definition all_targets :: "edges \<Rightarrow> string set" where
  "all_targets edges = (\<Union>(c, ds) \<in> set edges. set ds)"

lemma finite_all_targets [simp]: "finite (all_targets edges)"
  by (auto simp: all_targets_def)

lemma visit_measure:
  assumes "set ds \<subseteq> T" and "finite T"
  shows "2 * card (T - set (fst (fold visit ds (closure, pending)))) + length (snd (fold visit ds (closure, pending)))
    \<le> 2 * card (T - set closure) + length pending"
  using assms(1)
proof (induction ds arbitrary: closure pending)
  case (Cons d ds)
  show ?case
  proof (cases "d \<in> set closure")
    case True
    with Cons show ?thesis by (simp add: visit_def)
  next
    case False
    with Cons.prems have "d \<in> T - set closure" by auto
    then have "card (T - set (closure @ [d])) < card (T - set closure)"
      using assms(2) by (intro psubset_card_mono) auto
    with False Cons.IH[of "closure @ [d]" "pending @ [d]"] Cons.prems show ?thesis by (simp add: visit_def)
  qed
qed simp

termination explore
proof (relation "measure (\<lambda>(edges, closure, pending). 2 * card (all_targets edges - set closure) + length pending)",
    goal_cases)
  case (2 edges closure pending ds)
  then have "set ds \<subseteq> all_targets edges" by (auto simp: all_targets_def dest!: map_of_SomeD)
  from visit_measure[OF this, of closure "butlast pending"] 2(1) show ?case
    by (cases pending rule: rev_cases) (auto simp: split_beta)
qed simp

declare explore.simps [simp del]

definition dependency_closure :: "(string list \<Rightarrow> string list) \<Rightarrow> json \<Rightarrow> json \<Rightarrow> registry_error + string list" where
  "dependency_closure order v selected_ids =
    ebind (validated_graph order v) (\<lambda>edges.
    ebind (on_error (require_selected_ids selected_ids) Refused) (\<lambda>selected.
    ebind (guard (set selected \<subseteq> fst ` set edges) UNKNOWN_REFERENCE) (\<lambda>_.
    ebind (explore edges selected selected) (\<lambda>closure. Inr (sort closure)))))"

text \<open>\<open>reverse[dependency].add(control_id)\<close>.\<close>

definition add_reverse :: "string \<Rightarrow> edges \<Rightarrow> string \<Rightarrow> registry_error + edges" where
  "add_reverse c reverse d =
    (case map_of reverse d of
       None \<Rightarrow> Inl RegistryKeyError
     | Some cs \<Rightarrow> Inr (AList.update d (if c \<in> set cs then cs else cs @ [c]) reverse))"

definition reverse_edges :: "(string list \<Rightarrow> string list) \<Rightarrow> edges \<Rightarrow> registry_error + edges" where
  "reverse_edges order edges =
    ebind (efold (\<lambda>reverse (c, ds). efold (add_reverse c) reverse ds) (map (\<lambda>(c, ds). (c, [])) edges) edges) (\<lambda>reverse.
    Inr (map (\<lambda>(c, ds). (c, order ds)) reverse))"

definition affected_controls :: "(string list \<Rightarrow> string list) \<Rightarrow> json \<Rightarrow> json \<Rightarrow> registry_error + string list" where
  "affected_controls order v changed_ids =
    ebind (validated_graph order v) (\<lambda>edges.
    if changed_ids = JNull then Inr (sort (map fst edges))
    else
      ebind (on_error (require_selected_ids changed_ids) Refused) (\<lambda>changed.
      ebind (guard (set changed \<subseteq> fst ` set edges) UNKNOWN_REFERENCE) (\<lambda>_.
      ebind (reverse_edges order edges) (\<lambda>reverse.
      ebind (explore reverse changed changed) (\<lambda>affected. Inr (sort affected))))))"


end
