(* ===== verification/Registry_Search.thy ===== *)
theory Registry_Search
  imports Registry
begin

text \<open>
  Correctness of the depth-first search of \<open>_validate_graph\<close>.  The gray controls are the entries of the
  stack marked as leaving; they form a path, which is the cycle when a gray control is met again; the
  dependencies of a gray control are black or still above it on the stack, so black controls depend on
  black ones only and contain no cycle.
\<close>

definition edge_rel :: "edges \<Rightarrow> string rel" where
  "edge_rel edges = {(c, d). \<exists>ds. map_of edges c = Some ds \<and> d \<in> set ds}"

lemma edge_rel_iff: "(c, d) \<in> edge_rel edges \<longleftrightarrow> (\<exists>ds. map_of edges c = Some ds \<and> d \<in> set ds)"
  by (simp add: edge_rel_def)

section \<open>What is pushed\<close>

lemma push_dependencies_Inr:
  "push_dependencies colors ds stack = Inr pushed \<Longrightarrow>
    (\<forall>d \<in> set ds. map_of colors d \<in> {Some WHITE, Some BLACK}) \<and>
    pushed = map (\<lambda>d. (d, False)) (rev (filter (\<lambda>d. map_of colors d = Some WHITE) ds)) @ stack"
  by (induction ds arbitrary: stack) (auto split: option.splits color.splits)

lemma push_dependencies_Inl:
  "push_dependencies colors ds stack = Inl e \<Longrightarrow>
    e = CYCLE \<and> (\<exists>d \<in> set ds. map_of colors d = Some GRAY) \<or>
    e = RegistryKeyError \<and> (\<exists>d \<in> set ds. map_of colors d = None)"
  by (induction ds arbitrary: stack) (auto split: option.splits color.splits)

section \<open>The stack\<close>

text \<open>The nearest control being left, and that every entry is a dependency of it.\<close>

fun top_gray :: "(string \<times> bool) list \<Rightarrow> string option" where
  "top_gray [] = None"
| "top_gray ((x, leaving) # stack) = (if leaving then Some x else top_gray stack)"

fun linked :: "string rel \<Rightarrow> (string \<times> bool) list \<Rightarrow> bool" where
  "linked R [] = True"
| "linked R ((y, leaving) # stack) =
    ((case top_gray stack of None \<Rightarrow> True | Some x \<Rightarrow> (x, y) \<in> R) \<and> linked R stack)"

lemma top_gray_None: "top_gray stack = None \<longleftrightarrow> (\<forall>x. (x, True) \<notin> set stack)"
  by (induction stack rule: top_gray.induct) auto

lemma linked_path:
  "linked R stack \<Longrightarrow> (x, True) \<in> set stack \<Longrightarrow> top_gray stack = Some g \<Longrightarrow> (x, g) \<in> R\<^sup>*"
proof (induction stack arbitrary: g)
  case (Cons e stack)
  obtain y leaving where e: "e = (y, leaving)" by (cases e)
  show ?case
  proof (cases "leaving \<and> x \<noteq> y")
    case True
    with Cons.prems(2) e have x: "(x, True) \<in> set stack" by auto
    then obtain h where h: "top_gray stack = Some h" by (cases "top_gray stack") (auto simp: top_gray_None)
    from Cons.prems(1) e have "linked R stack" by simp
    from Cons.IH[OF this x h] Cons.prems(1,3) True e h show ?thesis by (auto intro: rtrancl_into_rtrancl)
  next
    case False
    with Cons e show ?thesis by (cases leaving) auto
  qed
qed simp

lemma linked_pushed:
  assumes "linked R stack" and "top_gray stack = Some g" and "\<forall>d \<in> set ds. (g, d) \<in> R"
  shows "linked R (map (\<lambda>d. (d, False)) ds @ stack) \<and> top_gray (map (\<lambda>d. (d, False)) ds @ stack) = Some g"
  using assms by (induction ds) auto

text \<open>The dependencies of a gray control are black or above it (\<open>over\<close> starts empty).\<close>

fun covered :: "string rel \<Rightarrow> string set \<Rightarrow> string set \<Rightarrow> (string \<times> bool) list \<Rightarrow> bool" where
  "covered R black over [] = True"
| "covered R black over ((y, leaving) # stack) =
    ((leaving \<longrightarrow> R `` {y} \<subseteq> black \<union> over) \<and> covered R black (insert y over) stack)"

lemma covered_mono: "covered R B A stack \<Longrightarrow> B \<union> A \<subseteq> B' \<union> A' \<Longrightarrow> covered R B' A' stack"
proof (induction R B A stack arbitrary: A' rule: covered.induct)
  case (2 R B A y leaving stack)
  from 2(3) have "B \<union> insert y A \<subseteq> B' \<union> insert y A'" by auto
  with 2 show ?case by auto
qed simp

lemma covered_pushed:
  "covered R B A (map (\<lambda>d. (d, False)) ds @ stack) = covered R B (set ds \<union> A) stack"
  by (induction ds arbitrary: A) (simp_all)

section \<open>The invariant\<close>

definition blacks :: "(string \<times> color) list \<Rightarrow> string set" where
  "blacks colors = {k. map_of colors k = Some BLACK}"

lemma blacks_update: "blacks (AList.update k c colors) = (if c = BLACK then insert k (blacks colors) else blacks colors - {k})"
  by (auto simp: blacks_def update_conv')

definition search_inv :: "string rel \<Rightarrow> (string \<times> color) list \<Rightarrow> (string \<times> bool) list \<Rightarrow> bool" where
  "search_inv R colors stack \<longleftrightarrow>
    (\<forall>x. map_of colors x = Some GRAY \<longleftrightarrow> (x, True) \<in> set stack) \<and>
    distinct (map fst (filter snd stack)) \<and> linked R stack \<and> covered R (blacks colors) {} stack \<and>
    R `` blacks colors \<subseteq> blacks colors \<and> acyclic {(x, y) \<in> R. x \<in> blacks colors}"

lemma acyclic_add_source:
  assumes "acyclic {(x, y) \<in> R. x \<in> B}" and "R `` B \<subseteq> B" and "R `` {k} \<subseteq> B" and "k \<notin> B"
  shows "acyclic {(x, y) \<in> R. x \<in> insert k B}"
proof -
  define S where "S = {(x, y) \<in> R. x \<in> insert k B}"
  have range: "y \<in> B" if "(x, y) \<in> S\<^sup>+" for x y
    using that by (induction) (use assms(2,3) in \<open>auto simp: S_def\<close>)
  have inside: "x \<in> B \<longrightarrow> (x, y) \<in> {(x, y) \<in> R. x \<in> B}\<^sup>+" if "(x, y) \<in> S\<^sup>+" for x y
    using that
  proof induction
    case (base y)
    with assms(4) show ?case by (auto simp: S_def)
  next
    case (step y z)
    from range[OF step(1)] step(2) assms(4) have "(y, z) \<in> {(x, y) \<in> R. x \<in> B}" by (auto simp: S_def)
    with step(3) show ?case by (auto intro: trancl_into_trancl)
  qed
  have "acyclic S"
    unfolding acyclic_def
  proof (intro allI notI)
    fix x assume "(x, x) \<in> S\<^sup>+"
    with inside[OF this] range[OF this] assms(1) show False by (simp add: acyclic_def)
  qed
  then show ?thesis by (simp add: S_def)
qed

lemma search_inv_leave:
  assumes "search_inv R colors ((x, True) # stack)"
  shows "search_inv R (AList.update x BLACK colors) stack"
proof -
  from assms have gray: "map_of colors x = Some GRAY" and deps: "R `` {x} \<subseteq> blacks colors"
    and cov: "covered R (blacks colors) {x} stack" and fresh: "(x, True) \<notin> set stack"
    by (auto simp: search_inv_def image_iff)
  from gray have "x \<notin> blacks colors" by (simp add: blacks_def)
  with assms deps acyclic_add_source[OF _ _ deps this]
  have "acyclic {(x', y) \<in> R. x' \<in> insert x (blacks colors)}" by (simp add: search_inv_def)
  moreover from cov have "covered R (insert x (blacks colors)) {} stack" by (rule covered_mono) auto
  ultimately show ?thesis using assms fresh deps
    by (auto simp: search_inv_def blacks_update update_conv')
qed

lemma search_inv_black:
  assumes "search_inv R colors ((x, False) # stack)" and "map_of colors x = Some BLACK"
  shows "search_inv R colors stack"
proof -
  from assms have "covered R (blacks colors) {x} stack" and "x \<in> blacks colors"
    by (auto simp: search_inv_def blacks_def)
  then have "covered R (blacks colors) {} stack" by (auto elim: covered_mono)
  with assms show ?thesis by (auto simp: search_inv_def)
qed

lemma search_inv_enter:
  assumes inv: "search_inv R colors ((x, False) # stack)" and white: "map_of colors x = Some WHITE"
    and deps: "\<forall>d. (x, d) \<in> R \<longleftrightarrow> d \<in> set ds"
    and clean: "\<forall>d \<in> set ds. map_of (AList.update x GRAY colors) d \<in> {Some WHITE, Some BLACK}"
  shows "search_inv R (AList.update x GRAY colors)
    (map (\<lambda>d. (d, False)) (filter (\<lambda>d. map_of (AList.update x GRAY colors) d = Some WHITE) ds) @ (x, True) # stack)"
proof -
  define fresh where "fresh = filter (\<lambda>d. map_of (AList.update x GRAY colors) d = Some WHITE) ds"
  from white have B: "blacks (AList.update x GRAY colors) = blacks colors"
    by (auto simp: blacks_update) (simp add: blacks_def)
  from white inv have new: "(x, True) \<notin> set stack"
    unfolding search_inv_def by (metis color.distinct(1) list.set_intros(2) option.inject)
  from inv have "linked R ((x, True) # stack)" by (auto simp: search_inv_def)
  moreover have "\<forall>d \<in> set fresh. (x, d) \<in> R" using deps by (auto simp: fresh_def)
  ultimately have link: "linked R (map (\<lambda>d. (d, False)) fresh @ (x, True) # stack)"
    using linked_pushed[of R "(x, True) # stack" x fresh] by simp
  have "R `` {x} \<subseteq> blacks colors \<union> set fresh"
    using deps clean by (auto simp: fresh_def blacks_def update_conv' split: if_splits)
  moreover from inv have "covered R (blacks colors) {x} stack" by (simp add: search_inv_def)
  ultimately have cov: "covered R (blacks colors) {} (map (\<lambda>d. (d, False)) fresh @ (x, True) # stack)"
    by (auto simp: covered_pushed elim: covered_mono)
  have [simp]: "filter snd (map (\<lambda>d. (d, False)) fresh) = []" by (simp add: filter_empty_conv)
  show ?thesis
    unfolding fresh_def[symmetric] using inv new link cov B
    by (auto simp: search_inv_def update_conv' image_iff)
qed

section \<open>The search decides acyclicity\<close>

lemma dom_update: "dom (map_of (AList.update k v al)) = insert k (dom (map_of al))"
  by (simp add: update_conv')

lemma cycle_back:
  assumes "search_inv R colors ((x, leaving) # stack)" and "(d, True) \<in> set ((x, leaving) # stack)"
    and "top_gray ((x, leaving) # stack) = Some g" and "(g, d) \<in> R"
  shows "\<not> acyclic R"
proof -
  from assms(1) have "linked R ((x, leaving) # stack)" by (simp add: search_inv_def)
  from linked_path[OF this assms(2,3)] assms(4) have "(d, d) \<in> R\<^sup>+" by (rule rtrancl_into_trancl1)
  then show ?thesis by (auto simp: acyclic_def)
qed

text \<open>The domain of the search: every control has a colour and an entry, and the stack holds controls.\<close>

definition search_domain :: "string set \<Rightarrow> edges \<Rightarrow> (string \<times> color) list \<Rightarrow> (string \<times> bool) list \<Rightarrow> bool" where
  "search_domain ids edges colors stack \<longleftrightarrow> dom (map_of edges) = ids \<and> dom (map_of colors) = ids \<and>
     fst ` set stack \<subseteq> ids \<and> edge_rel edges `` ids \<subseteq> ids"

lemma search_domain_update:
  assumes "search_domain ids edges colors ((x, b) # stack)" and "fst ` set stack' \<subseteq> ids"
  shows "search_domain ids edges (AList.update x c colors) stack'"
proof -
  from assms(1) have "x \<in> ids" "dom (map_of colors) = ids" by (simp_all add: search_domain_def)
  then have "dom (map_of (AList.update x c colors)) = ids" by (simp add: dom_update insert_absorb)
  with assms show ?thesis by (simp add: search_domain_def)
qed

lemma search_decides:
  assumes "search_inv (edge_rel edges) colors stack" and "search_domain ids edges colors stack"
  shows "case search edges colors stack of
      Inl e \<Rightarrow> e = CYCLE \<and> \<not> acyclic (edge_rel edges)
    | Inr colors' \<Rightarrow> search_inv (edge_rel edges) colors' [] \<and> dom (map_of colors') = ids \<and>
        whites colors' \<subseteq> whites colors - fst ` set stack"
  using assms
proof (induction edges colors stack rule: search.induct)
  case (1 edges colors)
  then show ?case by (simp add: search_domain_def)
next
  case (2 edges colors current stack)
  from 2(3) have "search_domain ids edges (AList.update current BLACK colors) stack"
    by (rule search_domain_update) (use 2(3) in \<open>simp add: search_domain_def\<close>)
  with 2(1)[OF search_inv_leave[OF 2(2)]] show ?case
    by (auto simp: whites_update split: sum.splits)
next
  case (3 edges colors current stack)
  from 3(4) have current: "current \<in> ids" "current \<in> dom (map_of colors)" "current \<in> dom (map_of edges)"
    by (auto simp: search_domain_def)
  from current(2) obtain c where c: "map_of colors current = Some c" by auto
  from current(3) obtain ds where ds: "map_of edges current = Some ds" by auto
  show ?case
  proof (cases c)
    case GRAY
    with c 3(3) have "(current, True) \<in> set stack" by (auto simp: search_inv_def)
    moreover from this obtain g where "top_gray stack = Some g" by (cases "top_gray stack") (auto simp: top_gray_None)
    ultimately have "\<not> acyclic (edge_rel edges)"
      using cycle_back[OF 3(3)] 3(3) by (auto simp: search_inv_def)
    with c GRAY show ?thesis by simp
  next
    case BLACK
    from 3(4) have dom: "search_domain ids edges colors stack" by (simp add: search_domain_def)
    from c BLACK have "current \<notin> whites colors" by (simp add: whites_def)
    with c BLACK 3(2)[OF _ _ search_inv_black[OF 3(3)] dom] show ?thesis by (auto split: sum.splits)
  next
    case WHITE
    define colors' where "colors' = AList.update current GRAY colors"
    have deps: "\<forall>d. (current, d) \<in> edge_rel edges \<longleftrightarrow> d \<in> set (rev (sort ds))"
      using ds by (simp add: edge_rel_iff)
    show ?thesis
    proof (cases "push_dependencies colors' (rev (sort ds)) ((current, True) # stack)")
      case (Inl e)
      have known: "\<forall>d \<in> set ds. map_of colors' d \<noteq> None"
      proof
        fix d assume "d \<in> set ds"
        with ds have "(current, d) \<in> edge_rel edges" by (auto simp: edge_rel_iff)
        with current(1) have "d \<in> edge_rel edges `` ids" by blast
        with 3(4) have "d \<in> dom (map_of colors)" unfolding search_domain_def by blast
        then show "map_of colors' d \<noteq> None" by (auto simp: colors'_def update_conv')
      qed
      from push_dependencies_Inl[OF Inl] known obtain d where e: "e = CYCLE" and d: "d \<in> set ds"
        "map_of colors' d = Some GRAY" by auto
      from d(2) 3(3) have gray: "d = current \<or> (d, True) \<in> set stack"
        by (auto simp: colors'_def update_conv' search_inv_def split: if_splits)
      have "linked (edge_rel edges) ((current, True) # stack)" using 3(3) by (auto simp: search_inv_def)
      from linked_path[OF this, of d current] gray have "(d, current) \<in> (edge_rel edges)\<^sup>*" by auto
      moreover have "(current, d) \<in> edge_rel edges" using d(1) ds by (auto simp: edge_rel_iff)
      ultimately have "(d, d) \<in> (edge_rel edges)\<^sup>+" by (rule rtrancl_into_trancl1)
      with e Inl c WHITE ds show ?thesis by (auto simp: colors'_def acyclic_def)
    next
      case (Inr pushed)
      from push_dependencies_Inr[OF Inr] have clean: "\<forall>d \<in> set (rev (rev (sort ds))). map_of colors' d \<in> {Some WHITE, Some BLACK}"
        and pushed: "pushed = map (\<lambda>d. (d, False)) (filter (\<lambda>d. map_of colors' d = Some WHITE) (rev (rev (sort ds)))) @ (current, True) # stack"
        by (auto simp: rev_filter)
      have inv: "search_inv (edge_rel edges) colors' pushed"
        unfolding pushed colors'_def
        by (rule search_inv_enter[OF 3(3) c[unfolded WHITE]]) (use deps clean in \<open>auto simp: colors'_def\<close>)
      have targets: "set ds \<subseteq> ids"
      proof
        fix d assume "d \<in> set ds"
        with ds have "(current, d) \<in> edge_rel edges" by (auto simp: edge_rel_iff)
        with current(1) have "d \<in> edge_rel edges `` ids" by blast
        with 3(4) show "d \<in> ids" unfolding search_domain_def by blast
      qed
      have "fst ` set pushed \<subseteq> set ds \<union> fst ` set ((current, False) # stack)"
        by (auto simp: pushed)
      moreover have "fst ` set ((current, False) # stack) \<subseteq> ids" using 3(4) by (simp only: search_domain_def)
      ultimately have "fst ` set pushed \<subseteq> ids" using targets by (meson Un_least order_trans)
      from search_domain_update[OF 3(4) this] have dom: "search_domain ids edges colors' pushed"
        by (simp add: colors'_def)
      have unfolded: "search edges colors ((current, False) # stack) = search edges colors' pushed"
        using c WHITE ds Inr by (simp add: colors'_def)
      have "whites colors' - fst ` set pushed \<subseteq> whites colors - fst ` set ((current, False) # stack)"
        by (auto simp: pushed colors'_def whites_update)
      with 3(1)[OF c WHITE ds, folded colors'_def, OF Inr inv dom] show ?thesis
        unfolding unfolded by (auto split: sum.splits)
    qed
  qed
qed

end
