(* ===== verification/Registry_Props.thy ===== *)
theory Registry_Props
  imports Registry_Search
begin

text \<open>
  The properties of the control registry: which documents are accepted, and that the two traversals
  return the reflexive transitive closure of the dependencies and of its converse, whatever the
  iteration order of the sets.
\<close>

definition iteration_order :: "(string list \<Rightarrow> string list) \<Rightarrow> bool" where
  "iteration_order order \<longleftrightarrow> (\<forall>xs. mset (order xs) = mset xs)"

lemma iteration_order_set: "iteration_order order \<Longrightarrow> set (order xs) = set xs"
  unfolding iteration_order_def by (metis set_mset_mset)

section \<open>The graph check\<close>

lemma visit_roots:
  assumes "search_inv (edge_rel edges) colors []" and "search_domain ids edges colors []" and "set roots \<subseteq> ids"
  shows "case efold (visit_root edges) colors roots of
      Inl e \<Rightarrow> e = CYCLE \<and> \<not> acyclic (edge_rel edges)
    | Inr colors' \<Rightarrow> search_inv (edge_rel edges) colors' [] \<and> dom (map_of colors') = ids \<and>
        whites colors' \<subseteq> whites colors - set roots"
  using assms
proof (induction roots arbitrary: colors)
  case Nil
  then show ?case by (simp add: search_domain_def)
next
  case (Cons root roots)
  from Cons.prems(2,3) have "root \<in> dom (map_of colors)" by (auto simp: search_domain_def)
  then obtain c where c: "map_of colors root = Some c" by auto
  show ?case
  proof (cases "c = WHITE")
    case False
    with c have "visit_root edges colors root = Inr colors" by (cases c) (simp_all add: visit_root_def)
    moreover from c False have "root \<notin> whites colors" by (simp add: whites_def)
    ultimately show ?thesis
      using Cons.IH[OF Cons.prems(1,2)] Cons.prems(3) by (auto split: sum.splits)
  next
    case True
    with c have step: "visit_root edges colors root = search edges colors [(root, False)]"
      by (simp add: visit_root_def)
    from Cons.prems(1,2,3) have "search_inv (edge_rel edges) colors [(root, False)]"
      and "search_domain ids edges colors [(root, False)]"
      by (simp_all add: search_inv_def search_domain_def)
    note found = search_decides[OF this]
    show ?thesis
    proof (cases "search edges colors [(root, False)]")
      case (Inr colors')
      with found have after_root: "search_inv (edge_rel edges) colors' []" "dom (map_of colors') = ids"
        "whites colors' \<subseteq> whites colors - {root}" by auto
      with Cons.prems(2) have "search_domain ids edges colors' []" by (simp add: search_domain_def)
      from Cons.IH[OF after_root(1) this] Cons.prems(3) after_root(3) step Inr show ?thesis
        by (auto split: sum.splits)
    qed (use found in \<open>simp add: step\<close>)
  qed
qed

definition closed_edges :: "edges \<Rightarrow> bool" where
  "closed_edges edges \<longleftrightarrow> list_all (\<lambda>(c, ds). set ds \<subseteq> fst ` set edges) edges"

lemma closed_edgesD: "closed_edges edges \<Longrightarrow> map_of edges c = Some ds \<Longrightarrow> set ds \<subseteq> fst ` set edges"
  by (auto simp: closed_edges_def list_all_iff dest!: map_of_SomeD)

lemma validate_graph_decides:
  assumes "iteration_order order" and "control_ids = map fst edges"
  shows "validate_graph order control_ids edges =
    (if \<not> closed_edges edges then Inl UNKNOWN_REFERENCE
     else if acyclic (edge_rel edges) then Inr () else Inl CYCLE)"
proof (cases "closed_edges edges")
  case False
  with assms(2) show ?thesis by (simp add: validate_graph_def closed_edges_def guard_def)
next
  case True
  define ids where "ids = set control_ids"
  define colors where "colors = map (\<lambda>i. (i, WHITE)) control_ids"
  have lookup: "map_of colors x = (if x \<in> ids then Some WHITE else None)" for x
    by (auto simp: colors_def ids_def map_of_map_restrict restrict_map_def)
  have "blacks colors = {}" by (simp add: blacks_def lookup)
  then have "search_inv (edge_rel edges) colors []"
    by (simp add: search_inv_def lookup acyclic_def)
  moreover from True have "edge_rel edges `` ids \<subseteq> ids"
    using closed_edgesD[OF True] assms(2) by (fastforce simp: edge_rel_iff ids_def)
  then have "search_domain ids edges colors []"
    by (auto simp: search_domain_def lookup ids_def assms(2) dom_map_of_conv_image_fst[of edges] dom_def[of "map_of colors"])
  ultimately have roots: "case efold (visit_root edges) colors (order control_ids) of
      Inl e \<Rightarrow> e = CYCLE \<and> \<not> acyclic (edge_rel edges)
    | Inr colors' \<Rightarrow> search_inv (edge_rel edges) colors' [] \<and> dom (map_of colors') = ids \<and>
        whites colors' \<subseteq> whites colors - set (order control_ids)"
    by (rule visit_roots) (simp add: iteration_order_set[OF assms(1)] ids_def)
  have check: "list_all (\<lambda>(c, ds). set ds \<subseteq> set control_ids) edges"
    using True assms(2) by (simp add: closed_edges_def)
  show ?thesis
  proof (cases "efold (visit_root edges) colors (order control_ids)")
    case (Inl e)
    with roots True check show ?thesis by (auto simp: validate_graph_def colors_def)
  next
    case (Inr colors')
    with roots have inv: "search_inv (edge_rel edges) colors' []" and dom: "dom (map_of colors') = ids"
      and "whites colors' \<subseteq> whites colors - ids" by (auto simp: iteration_order_set[OF assms(1)] ids_def)
    then have "whites colors' = {}" by (auto simp: whites_def lookup split: if_splits)
    have "ids \<subseteq> blacks colors'"
    proof
      fix x assume "x \<in> ids"
      with dom obtain c where "map_of colors' x = Some c" by auto
      with inv \<open>whites colors' = {}\<close> show "x \<in> blacks colors'"
        by (cases c) (auto simp: search_inv_def whites_def blacks_def)
    qed
    moreover have "x \<in> ids" if "(x, y) \<in> edge_rel edges" for x y
      using that by (force simp: edge_rel_iff ids_def assms(2) dest: map_of_SomeD)
    ultimately have "{(x, y) \<in> edge_rel edges. x \<in> blacks colors'} = edge_rel edges" by blast
    with inv have "acyclic (edge_rel edges)" by (simp add: search_inv_def)
    with Inr True check show ?thesis by (simp add: validate_graph_def colors_def)
  qed
qed

section \<open>The traversals\<close>

lemma fold_visit:
  "\<exists>new. fold visit ds (closure, pending) = (closure @ new, pending @ new) \<and> set new = set ds - set closure \<and> distinct new"
proof (induction ds arbitrary: closure pending)
  case (Cons d ds)
  show ?case
  proof (cases "d \<in> set closure")
    case True
    with Cons.IH[of closure pending] show ?thesis by (auto simp: visit_def)
  next
    case False
    from Cons.IH[of "closure @ [d]" "pending @ [d]"] obtain new where
      "fold visit ds (closure @ [d], pending @ [d]) = (closure @ d # new, pending @ d # new)"
      "set new = set ds - set (closure @ [d])" "distinct new" by auto
    then have "fold visit (d # ds) (closure, pending) = (closure @ d # new, pending @ d # new)"
      "set (d # new) = set (d # ds) - set closure" "distinct (d # new)"
      using False by (auto simp: visit_def)
    then show ?thesis by blast
  qed
qed simp

definition explore_inv :: "edges \<Rightarrow> string set \<Rightarrow> string list \<Rightarrow> string list \<Rightarrow> bool" where
  "explore_inv edges selected closure pending \<longleftrightarrow>
    selected \<subseteq> set closure \<and> set closure \<subseteq> fst ` set edges \<and> set closure \<subseteq> (edge_rel edges)\<^sup>* `` selected \<and>
    set pending \<subseteq> set closure \<and> edge_rel edges `` (set closure - set pending) \<subseteq> set closure \<and> distinct closure"

lemma explore_result:
  assumes "closed_edges edges" and "explore_inv edges selected closure pending"
  shows "\<exists>result. explore edges closure pending = Inr result \<and> set result = (edge_rel edges)\<^sup>* `` selected \<and>
    distinct result \<and> set result \<subseteq> fst ` set edges"
  using assms
proof (induction edges closure pending rule: explore.induct)
  case (1 edges closure pending)
  show ?case
  proof (cases "pending = []")
    case True
    with 1(3) have "edge_rel edges `` set closure \<subseteq> set closure" "selected \<subseteq> set closure"
      by (auto simp: explore_inv_def)
    then have "(edge_rel edges)\<^sup>* `` selected \<subseteq> set closure" by (metis Image_closed_trancl Image_mono order_refl)
    with True 1(3) show ?thesis by (auto simp: explore_inv_def explore.simps[of edges closure "[]"])
  next
    case False
    then have x: "last pending \<in> set closure" "set pending = insert (last pending) (set (butlast pending))"
      using 1(3) by (auto simp: explore_inv_def) (metis append_butlast_last_id insert_iff list.simps(15) rotate1.simps(2) set_rotate1)+
    with 1(3) obtain ds where ds: "map_of edges (last pending) = Some ds"
      by (metis explore_inv_def map_of_eq_None_iff not_None_eq subset_iff)
    obtain new where new: "fold visit ds (closure, butlast pending) = (closure @ new, butlast pending @ new)"
      "set new = set ds - set closure" "distinct new" using fold_visit by blast
    have edges_of: "edge_rel edges `` {last pending} = set ds" by (auto simp: edge_rel_iff ds)
    have "set ds \<subseteq> (edge_rel edges)\<^sup>* `` selected"
    proof
      fix d assume "d \<in> set ds"
      then have "(last pending, d) \<in> edge_rel edges" by (simp add: edge_rel_iff ds)
      moreover from x(1) 1(3) have "last pending \<in> (edge_rel edges)\<^sup>* `` selected"
        by (auto simp: explore_inv_def)
      ultimately show "d \<in> (edge_rel edges)\<^sup>* `` selected" by (blast intro: rtrancl_into_rtrancl)
    qed
    moreover have "edge_rel edges `` (set closure \<union> set ds - (set (butlast pending) \<union> set new)) \<subseteq> set closure \<union> set ds"
    proof -
      have "set closure \<union> set ds - (set (butlast pending) \<union> set new) \<subseteq> insert (last pending) (set closure - set pending)"
        using x(2) new(2) by auto
      then have "edge_rel edges `` (set closure \<union> set ds - (set (butlast pending) \<union> set new))
          \<subseteq> edge_rel edges `` insert (last pending) (set closure - set pending)" by (rule Image_mono[OF order_refl])
      also have "\<dots> = set ds \<union> edge_rel edges `` (set closure - set pending)"
        by (subst insert_is_Un) (simp only: Image_Un edges_of)
      also have "\<dots> \<subseteq> set closure \<union> set ds" using 1(3) by (simp add: explore_inv_def le_supI1)
      finally show ?thesis .
    qed
    ultimately have "explore_inv edges selected (closure @ new) (butlast pending @ new)"
      using 1(3) new x closed_edgesD[OF 1(2) ds] by (auto simp: explore_inv_def)
    with 1(1)[OF False ds] 1(2) new(1) have IH: "\<exists>result. explore edges (closure @ new) (butlast pending @ new) = Inr result \<and>
        set result = (edge_rel edges)\<^sup>* `` selected \<and> distinct result \<and> set result \<subseteq> fst ` set edges" by simp
    from False ds new(1) have "explore edges closure pending = explore edges (closure @ new) (butlast pending @ new)"
      by (subst explore.simps) simp
    with IH show ?thesis by simp
  qed
qed

lemma explore_closure:
  assumes "closed_edges edges" and "distinct selected" and "set selected \<subseteq> fst ` set edges"
  shows "\<exists>result. explore edges selected selected = Inr result \<and> set result = (edge_rel edges)\<^sup>* `` set selected \<and>
    distinct result"
proof -
  from assms(2,3) have "explore_inv edges (set selected) selected selected" by (auto simp: explore_inv_def)
  from explore_result[OF assms(1) this] show ?thesis by auto
qed

lemma edge_rel_order:
  "iteration_order order \<Longrightarrow> edge_rel (map (\<lambda>(c, ds). (c, order ds)) edges) = edge_rel edges"
  by (auto simp: edge_rel_def map_of_map iteration_order_set)

lemma closed_edges_order:
  "iteration_order order \<Longrightarrow> closed_edges (map (\<lambda>(c, ds). (c, order ds)) edges) = closed_edges edges"
  by (force simp: closed_edges_def list_all_iff iteration_order_set)

lemma add_reverse_Inr:
  assumes "d \<in> dom (map_of reverse)"
  shows "\<exists>reverse'. add_reverse c reverse d = Inr reverse' \<and> map fst reverse' = map fst reverse \<and>
    edge_rel reverse' = insert (d, c) (edge_rel reverse)"
proof -
  from assms obtain cs where cs: "map_of reverse d = Some cs" by auto
  define new where "new = (if c \<in> set cs then cs else cs @ [c])"
  have "set new = insert c (set cs)" by (auto simp: new_def)
  with cs have "edge_rel (AList.update d new reverse) = insert (d, c) (edge_rel reverse)"
    by (auto simp: edge_rel_def update_conv' split: if_splits)
  moreover from cs have "d \<in> fst ` set reverse" by (force dest: map_of_SomeD)
  then have "map fst (AList.update d new reverse) = map fst reverse" by (simp add: update_keys)
  ultimately show ?thesis using cs by (simp add: add_reverse_def new_def)
qed

lemma add_reverses_Inr:
  assumes "set ds \<subseteq> fst ` set reverse"
  shows "\<exists>reverse'. efold (add_reverse c) reverse ds = Inr reverse' \<and> map fst reverse' = map fst reverse \<and>
    edge_rel reverse' = {(d, c) |d. d \<in> set ds} \<union> edge_rel reverse"
  using assms
proof (induction ds arbitrary: reverse)
  case (Cons d ds)
  from Cons.prems have "d \<in> dom (map_of reverse)" by (simp add: dom_map_of_conv_image_fst)
  from add_reverse_Inr[OF this, of c] obtain r where r: "add_reverse c reverse d = Inr r"
    "map fst r = map fst reverse" "edge_rel r = insert (d, c) (edge_rel reverse)" by auto
  from r(2) Cons.prems have "set ds \<subseteq> fst ` set r" by (metis list.set_map set_subset_Cons subset_trans)
  from Cons.IH[OF this] r show ?case by auto
qed auto

lemma reverse_edges_Inr:
  assumes "iteration_order order" and "closed_edges edges" and "distinct (map fst edges)"
  shows "\<exists>reverse. reverse_edges order edges = Inr reverse \<and> map fst reverse = map fst edges \<and>
    edge_rel reverse = (edge_rel edges)\<inverse> \<and> closed_edges reverse"
proof -
  have step: "set es \<subseteq> set edges \<Longrightarrow> map fst r = map fst edges \<Longrightarrow>
      \<exists>r'. efold (\<lambda>reverse (c, ds). efold (add_reverse c) reverse ds) r es = Inr r' \<and> map fst r' = map fst edges \<and>
        edge_rel r' = {(d, c) |d c. \<exists>ds. (c, ds) \<in> set es \<and> d \<in> set ds} \<union> edge_rel r" for es r
  proof (induction es arbitrary: r)
    case (Cons e es)
    obtain c ds where e: "e = (c, ds)" by (cases e)
    with Cons.prems assms(2) have "set ds \<subseteq> fst ` set edges" by (auto simp: closed_edges_def list_all_iff)
    with Cons.prems(2) have "set ds \<subseteq> fst ` set r" by (metis list.set_map)
    from add_reverses_Inr[OF this, of c] obtain r1 where r1: "efold (add_reverse c) r ds = Inr r1"
      "map fst r1 = map fst r" "edge_rel r1 = {(d, c) |d. d \<in> set ds} \<union> edge_rel r" by auto
    with Cons.IH[of r1] Cons.prems e show ?case by auto
  qed auto
  have start: "map fst (map (\<lambda>(c, ds). (c, [])) edges) = map fst edges" by (induction edges) auto
  have empty: "edge_rel (map (\<lambda>(c, ds). (c, [])) edges) = {}"
    by (auto simp: edge_rel_def dest!: map_of_SomeD)
  from step[OF order_refl start] empty obtain r where r: "map fst r = map fst edges"
    "efold (\<lambda>reverse (c, ds). efold (add_reverse c) reverse ds) (map (\<lambda>(c, ds). (c, [])) edges) edges = Inr r"
    "edge_rel r = {(d, c) |d c. \<exists>ds. (c, ds) \<in> set edges \<and> d \<in> set ds}" by auto
  define reverse where "reverse = map (\<lambda>(c, ds). (c, order ds)) r"
  have keys: "map fst reverse = map fst edges" using r(1) by (simp add: reverse_def comp_def split_beta)
  have "edge_rel reverse = (edge_rel edges)\<inverse>"
    using assms(3) by (auto simp: reverse_def edge_rel_order[OF assms(1)] r(3) edge_rel_iff map_of_eq_Some_iff)
  moreover have "closed_edges reverse"
    unfolding closed_edges_def list_all_iff
  proof clarify
    fix d cs c assume "(d, cs) \<in> set reverse" and "c \<in> set cs"
    moreover have "distinct (map fst reverse)" using keys assms(3) by simp
    ultimately have "(d, c) \<in> edge_rel reverse" by (auto simp: edge_rel_iff map_of_eq_Some_iff)
    with \<open>edge_rel reverse = _\<close> have "c \<in> set (map fst edges)" by (force simp: edge_rel_iff dest: map_of_SomeD)
    with keys show "c \<in> fst ` set reverse" by (metis list.set_map)
  qed
  ultimately show ?thesis using r(2) keys by (simp add: reverse_edges_def reverse_def)
qed

section \<open>Accepted registries\<close>

text \<open>A critical control requires all its obligations, and mutations are named exactly when they apply.\<close>

definition control_sound :: "json \<Rightarrow> bool" where
  "control_sound c \<longleftrightarrow>
    (jget c ''criticality'' = JStr ''critical'' \<longrightarrow>
      list_all (\<lambda>ob. jget ob ''required'' = JBool True) (jitems (jget c ''obligations''))) \<and>
    (jget (jget c ''mutation_applicability'') ''status'' = JStr ''applicable'' \<longleftrightarrow>
      list_ex (\<lambda>ob. jget ob ''kind'' = JStr ''mutation'') (jitems (jget c ''obligations'')))"

lemma require_enum_Inr: "require_enum allowed v = Inr u \<longleftrightarrow> (\<exists>s. v = JStr s \<and> s \<in> set allowed)"
  by (cases v) (simp_all add: require_enum_def result_iff)

lemma validate_mutation_applicability_Inr:
  "validate_mutation_applicability m = Inr status \<Longrightarrow>
    jget m ''status'' = JStr status \<and> (status = ''applicable'' \<or> status = ''not_applicable'')"
  by (auto simp: validate_mutation_applicability_def require_enum_Inr ebind_eq_Inr mutation_statuses_def)

lemma visit_obligation_Inr: "visit_obligation s ob = Inr s' \<longleftrightarrow>
    (\<exists>kind seen. validate_obligation ob (snd s) = Inr (kind, seen) \<and> s' = (fst s \<or> kind = ''mutation'', seen))"
  by (auto simp: visit_obligation_def result_iff)

lemma validate_dependency_Inr: "validate_dependency ds v = Inr ds' \<longleftrightarrow>
    require_id v = Inr () \<and> str_of v \<notin> set ds \<and> ds' = ds @ [str_of v]"
  by (auto simp: validate_dependency_def result_iff)

lemma visit_control_Inr: "visit_control (es, ids, obs) c = Inr s' \<longleftrightarrow>
    (\<exists>i ds ids' obs'. validate_control c ids obs = Inr (i, ds, ids', obs') \<and> s' = (es @ [(i, ds)], ids', obs'))"
  by (auto simp: visit_control_def result_iff)

lemma select_id_Inr: "select_id s v = Inr s' \<longleftrightarrow>
    require_id v = Inr () \<and> str_of v \<notin> set s \<and> s' = s @ [str_of v]"
  by (auto simp: select_id_def result_iff)

lemma visit_obligation_mutations:
  "efold visit_obligation s obs = Inr s' \<Longrightarrow>
    fst s' \<longleftrightarrow> fst s \<or> list_ex (\<lambda>ob. jget ob ''kind'' = JStr ''mutation'') obs"
proof (induction obs arbitrary: s)
  case (Cons ob obs)
  from Cons.prems obtain kind seen where ob: "validate_obligation ob (snd s) = Inr (kind, seen)"
    and rest: "efold visit_obligation (fst s \<or> kind = ''mutation'', seen) obs = Inr s'"
    by (auto simp: visit_obligation_Inr ebind_eq_Inr)
  from ob have "jget ob ''kind'' = JStr kind"
    by (cases "jget ob ''kind''") (auto simp: validate_obligation_def require_enum_def result_iff)
  with Cons.IH[OF rest] show ?case by auto
qed simp

text \<open>The identifiers of the obligations of a control, and of all controls of a registry.\<close>

definition obligation_names :: "json \<Rightarrow> string list" where
  "obligation_names c = map (\<lambda>ob. str_of (jget ob ''obligation_id'')) (jitems (jget c ''obligations''))"

definition registry_obligation_names :: "json \<Rightarrow> string list" where
  "registry_obligation_names v = concat (map obligation_names (jitems (jget v ''controls'')))"

lemma validate_obligation_id:
  "validate_obligation ob seen = Inr (kind, seen') \<Longrightarrow>
    str_of (jget ob ''obligation_id'') \<notin> set seen \<and> seen' = seen @ [str_of (jget ob ''obligation_id'')]"
  by (auto simp: validate_obligation_def result_iff)

lemma visit_obligation_ids:
  "efold visit_obligation s obs = Inr s' \<Longrightarrow> distinct (snd s) \<Longrightarrow>
    snd s' = snd s @ map (\<lambda>ob. str_of (jget ob ''obligation_id'')) obs \<and> distinct (snd s')"
proof (induction obs arbitrary: s)
  case (Cons ob obs)
  from Cons.prems(1) obtain kind seen where ob: "validate_obligation ob (snd s) = Inr (kind, seen)"
    and rest: "efold visit_obligation (fst s \<or> kind = ''mutation'', seen) obs = Inr s'"
    by (auto simp: visit_obligation_Inr ebind_eq_Inr)
  note new = validate_obligation_id[OF ob]
  with Cons.prems(2) have "distinct (snd (fst s \<or> kind = ''mutation'', seen))" by simp
  note ih = Cons.IH[OF rest this]
  show ?case by (rule conjI[OF _ conjunct2[OF ih]]) (simp add: conjunct1[OF ih] new)
qed simp

lemma validate_dependencies:
  "efold validate_dependency ds vs = Inr ds' \<Longrightarrow> distinct ds \<Longrightarrow> ds' = ds @ map str_of vs \<and> distinct ds'"
proof (induction vs arbitrary: ds)
  case (Cons v vs)
  then have rest: "efold validate_dependency (ds @ [str_of v]) vs = Inr ds'" and "distinct (ds @ [str_of v])"
    by (auto simp: validate_dependency_Inr ebind_eq_Inr)
  from Cons.IH[OF this] show ?case unfolding append_assoc append_Cons append_Nil list.map .
qed simp

lemma validate_control_Inr:
  assumes "validate_control c ids obs = Inr (i, ds, ids', obs')"
  shows "i = str_of (jget c ''control_id'') \<and> ds = map str_of (jitems (jget c ''dependencies'')) \<and> distinct ds \<and>
    ids' = ids @ [i] \<and> i \<notin> set ids \<and> control_sound c"
proof -
  from assms obtain s status where
    ds: "efold validate_dependency [] (jitems (jget c ''dependencies'')) = Inr ds" and
    obligations: "efold visit_obligation (False, obs) (jitems (jget c ''obligations'')) = Inr s" and
    critical: "\<not> (jget c ''criticality'' = JStr ''critical'' \<and>
      list_ex (\<lambda>ob. jget ob ''required'' \<noteq> JBool True) (jitems (jget c ''obligations'')))" and
    status: "validate_mutation_applicability (jget c ''mutation_applicability'') = Inr status"
      "\<not> (status = ''applicable'' \<and> \<not> fst s)" "\<not> (status = ''not_applicable'' \<and> fst s)" and
    ids: "i = str_of (jget c ''control_id'')" "ids' = ids @ [i]" "i \<notin> set ids"
    unfolding validate_control_def ebind_eq_Inr guard_eq_Inr prod.inject sum.inject by blast
  have "jget c ''criticality'' = JStr ''critical'' \<longrightarrow>
      list_all (\<lambda>ob. jget ob ''required'' = JBool True) (jitems (jget c ''obligations''))"
    using critical unfolding list_all_iff list_ex_iff by blast
  moreover have "status = ''applicable'' \<longleftrightarrow> fst s"
    using validate_mutation_applicability_Inr[OF status(1)] status(2,3) by blast
  ultimately have "control_sound c"
    using validate_mutation_applicability_Inr[OF status(1)] visit_obligation_mutations[OF obligations]
    unfolding control_sound_def by simp
  moreover have "ds = map str_of (jitems (jget c ''dependencies'')) \<and> distinct ds"
    using validate_dependencies[OF ds] by (metis append_Nil distinct.simps(1))
  ultimately show ?thesis using ids by blast
qed

lemma validate_control_obligations:
  assumes "validate_control c ids obs = Inr (i, ds, ids', obs')" and "distinct obs"
  shows "obs' = obs @ obligation_names c \<and> distinct obs'"
proof -
  from assms(1) obtain s where "efold visit_obligation (False, obs) (jitems (jget c ''obligations'')) = Inr s"
    and "obs' = snd s"
    unfolding validate_control_def ebind_eq_Inr guard_eq_Inr prod.inject sum.inject by blast
  with visit_obligation_ids[of "(False, obs)", unfolded snd_conv] assms(2) show ?thesis
    unfolding obligation_names_def by blast
qed

lemma visit_controls_obligations:
  assumes "efold visit_control (es, ids, obs) cs = Inr (es', ids', obs')" and "distinct obs"
  shows "obs' = obs @ concat (map obligation_names cs) \<and> distinct obs'"
  using assms
proof (induction cs arbitrary: es ids obs)
  case (Cons c cs)
  from Cons.prems(1) obtain i ds ids1 obs1 where c: "validate_control c ids obs = Inr (i, ds, ids1, obs1)"
    and rest: "efold visit_control (es @ [(i, ds)], ids1, obs1) cs = Inr (es', ids', obs')"
    by (auto simp: visit_control_Inr ebind_eq_Inr)
  note new = validate_control_obligations[OF c Cons.prems(2)]
  note ih = Cons.IH[OF rest conjunct2[OF new]]
  show ?case by (rule conjI[OF _ conjunct2[OF ih]]) (simp add: conjunct1[OF ih] conjunct1[OF new])
qed simp

lemma visit_controls_dependencies:
  assumes "efold visit_control (es, ids, obs) cs = Inr (es', ids', obs')" and "list_all (\<lambda>(c, ds). distinct ds) es"
  shows "list_all (\<lambda>(c, ds). distinct ds) es'"
  using assms
proof (induction cs arbitrary: es ids obs)
  case (Cons c cs)
  from Cons.prems(1) obtain i ds ids1 obs1 where c: "validate_control c ids obs = Inr (i, ds, ids1, obs1)"
    and rest: "efold visit_control (es @ [(i, ds)], ids1, obs1) cs = Inr (es', ids', obs')"
    by (auto simp: visit_control_Inr ebind_eq_Inr)
  have "distinct ds" using validate_control_Inr[OF c] by blast
  with Cons.prems(2) have "list_all (\<lambda>(c, ds). distinct ds) (es @ [(i, ds)])" by simp
  from Cons.IH[OF rest this] show ?case .
qed simp

lemma visit_controls_Inr:
  assumes "efold visit_control (es, map fst es, obs) cs = Inr (es', ids, obs')" and "distinct (map fst es)"
  shows "es' = es @ map (\<lambda>c. (str_of (jget c ''control_id''), map str_of (jitems (jget c ''dependencies'')))) cs \<and>
    ids = map fst es' \<and> distinct ids \<and> list_all control_sound cs"
  using assms
proof (induction cs arbitrary: es obs)
  case (Cons c cs)
  from Cons.prems(1) obtain i ds ids1 obs1 where c: "validate_control c (map fst es) obs = Inr (i, ds, ids1, obs1)"
    and rest: "efold visit_control (es @ [(i, ds)], ids1, obs1) cs = Inr (es', ids, obs')"
    by (auto simp: visit_control_Inr ebind_eq_Inr)
  from validate_control_Inr[OF c] Cons.prems(2) Cons.IH[of "es @ [(i, ds)]" obs1] rest show ?case by auto
qed auto

lemma registry_checks_Inr:
  assumes "registry_checks v = Inr (edges, ids)"
  shows "edges = control_edges v \<and> ids = map fst edges \<and> distinct ids \<and> list_all control_sound (jitems (jget v ''controls''))"
proof -
  from assms obtain obs where "efold visit_control ([], map fst ([] :: edges), []) (jitems (jget v ''controls'')) = Inr (edges, ids, obs)"
    by (auto simp: registry_checks_def result_iff)
  from visit_controls_Inr[OF this] have
    "edges = [] @ control_edges v \<and> ids = map fst edges \<and> distinct ids \<and> list_all control_sound (jitems (jget v ''controls''))"
    unfolding control_edges_def by (metis distinct.simps(1) list.map(1))
  then show ?thesis unfolding append_Nil .
qed

lemma registry_checks_names:
  assumes "registry_checks v = Inr (edges, ids)"
  shows "distinct (registry_obligation_names v) \<and> list_all (\<lambda>(c, ds). distinct ds) (control_edges v)"
proof -
  from assms obtain obs where fold: "efold visit_control ([], [], []) (jitems (jget v ''controls'')) = Inr (edges, ids, obs)"
    by (auto simp: registry_checks_def result_iff)
  have "edges = control_edges v" using registry_checks_Inr[OF assms] by blast
  with visit_controls_obligations[OF fold] visit_controls_dependencies[OF fold] show ?thesis
    by (auto simp: registry_obligation_names_def)
qed

abbreviation registry_rel :: "json \<Rightarrow> string rel" where
  "registry_rel v \<equiv> edge_rel (control_edges v)"

lemma canonical_bytes_Inr: "canonical_bytes v = Inr s \<longleftrightarrow> jfinite v \<and> jutf8 v \<and> s = dumps v"
  by (auto simp: canonical_bytes_def)

lemma validate_registry_Inr:
  assumes "iteration_order order"
  shows "validate_registry order v = Inr w \<longleftrightarrow> w = v \<and> (\<exists>p. registry_checks v = Inr p) \<and>
    closed_edges (control_edges v) \<and> acyclic (registry_rel v) \<and>
    jfinite v \<and> jutf8 v \<and> length (dumps v) \<le> MAX_DOCUMENT_BYTES"
proof (cases "registry_checks v")
  case (Inr p)
  obtain edges ids where p: "p = (edges, ids)" by (cases p)
  from registry_checks_Inr[OF Inr[unfolded p]] have e: "edges = control_edges v" "ids = map fst (control_edges v)" by auto
  from Inr p e validate_graph_decides[OF assms e(2)] show ?thesis
    by (auto simp: validate_registry_def result_iff canonical_bytes_Inr)
qed (simp add: validate_registry_def)

text \<open>C15.
  Which registries are accepted.  A document is accepted exactly when it passes the field checks, every
  dependency names a control of the document, the dependencies contain no cycle and the canonical text
  is within the limit; it is returned unchanged.  Then no two controls have the same identifier, no two
  obligations of the whole registry have the same identifier, no control names a dependency twice, a
  critical control requires all its obligations, and mutation obligations occur exactly where mutations
  apply.  The iteration order of the sets makes no difference.
\<close>

theorem registry_accepted:
  assumes "iteration_order order"
  shows "(validate_registry order v = Inr w \<longleftrightarrow> w = v \<and> (\<exists>p. registry_checks v = Inr p) \<and>
      closed_edges (control_edges v) \<and> acyclic (registry_rel v) \<and>
      jfinite v \<and> jutf8 v \<and> length (dumps v) \<le> MAX_DOCUMENT_BYTES) \<and>
    (validate_registry order v = Inr w \<longrightarrow>
      distinct (map fst (control_edges v)) \<and> distinct (registry_obligation_names v) \<and>
      list_all (\<lambda>(c, ds). distinct ds) (control_edges v) \<and> list_all control_sound (jitems (jget v ''controls'')))"
proof (cases "registry_checks v")
  case (Inr p)
  obtain edges ids where p: "p = (edges, ids)" by (cases p)
  from registry_checks_Inr[OF Inr[unfolded p]] registry_checks_names[OF Inr[unfolded p]]
    validate_registry_Inr[OF assms, of v w] show ?thesis by blast
qed (simp add: validate_registry_Inr[OF assms])

text \<open>C16.
  The depth-first search decides acyclicity: on a document that passes the field checks, an unknown
  reference is reported exactly when some dependency names no control, a cycle exactly when the
  references are known and the dependencies contain a cycle, and neither error otherwise; the
  search always ends and never looks up a missing key.
\<close>

theorem cycle_check_decides:
  assumes "iteration_order order" and "registry_checks v = Inr (edges, ids)"
  shows "validate_graph order ids edges =
    (if \<not> closed_edges (control_edges v) then Inl UNKNOWN_REFERENCE
     else if acyclic (registry_rel v) then Inr () else Inl CYCLE)"
  using registry_checks_Inr[OF assms(2)] validate_graph_decides[OF assms(1), of ids edges] by simp

lemma select_ids: "efold select_id s vs = Inr s' \<Longrightarrow> distinct s \<Longrightarrow> s' = s @ map str_of vs \<and> distinct s'"
proof (induction vs arbitrary: s)
  case (Cons v vs)
  then have rest: "efold select_id (s @ [str_of v]) vs = Inr s'" and "distinct (s @ [str_of v])"
    by (auto simp: select_id_Inr ebind_eq_Inr)
  from Cons.IH[OF this] show ?case unfolding append_assoc append_Cons append_Nil list.map .
qed simp

lemma require_selected_ids_Inr:
  "require_selected_ids w = Inr s \<Longrightarrow> s = map str_of (jitems w) \<and> distinct s"
  by (auto simp: require_selected_ids_def result_iff dest: select_ids)

lemma validated_graph_Inr:
  assumes "iteration_order order"
  shows "validated_graph order v = Inr edges \<longleftrightarrow> validate_registry order v = Inr v \<and>
    edges = map (\<lambda>(c, ds). (c, order ds)) (control_edges v)"
  using validate_registry_Inr[OF assms] by (auto simp: validated_graph_def result_iff)

lemma validated_graph_ok:
  assumes "iteration_order order" and "validated_graph order v = Inr edges"
  shows "closed_edges edges \<and> edge_rel edges = registry_rel v \<and> map fst edges = map fst (control_edges v) \<and>
    distinct (map fst edges) \<and> acyclic (registry_rel v)"
proof -
  from assms validated_graph_Inr[OF assms(1)] have valid: "validate_registry order v = Inr v"
    and edges: "edges = map (\<lambda>(c, ds). (c, order ds)) (control_edges v)" by auto
  from registry_accepted[OF assms(1), of v v] valid have "closed_edges (control_edges v)"
    "distinct (map fst (control_edges v))" "acyclic (registry_rel v)" by auto
  with edges assms(1) show ?thesis
    by (simp add: closed_edges_order edge_rel_order comp_def split_beta)
qed

text \<open>The identifiers selected.\<close>

abbreviation selected_set :: "json \<Rightarrow> string set" where
  "selected_set w \<equiv> str_of ` set (jitems w)"

lemma sort_closure: "distinct xs \<Longrightarrow> set xs = A \<Longrightarrow> sorted (sort xs) \<and> distinct (sort xs) \<and> set (sort xs) = A"
  by simp

lemma dependency_closure_Inr:
  assumes "iteration_order order" and "validated_graph order v = Inr edges"
    and "require_selected_ids w = Inr selected" and "selected_set w \<subseteq> fst ` set (control_edges v)"
  shows "\<exists>cs. dependency_closure order v w = Inr cs \<and> sorted cs \<and> distinct cs \<and>
    set cs = (registry_rel v)\<^sup>* `` selected_set w"
proof -
  from validated_graph_ok[OF assms(1,2)] have ok: "closed_edges edges" "edge_rel edges = registry_rel v"
    "map fst edges = map fst (control_edges v)" by auto
  from require_selected_ids_Inr[OF assms(3)] have sel: "set selected = selected_set w" "distinct selected" by auto
  have known: "set selected \<subseteq> fst ` set edges" using assms(4) sel(1) ok(3) by (metis list.set_map)
  from explore_closure[OF ok(1) sel(2) known] assms(2,3) known ok(2) sel(1) show ?thesis
    by (auto simp: dependency_closure_def)
qed

lemma converse_reach: "c \<in> (R\<inverse>)\<^sup>* `` S \<longleftrightarrow> (\<exists>d \<in> S. (c, d) \<in> R\<^sup>*)"
  by (simp only: rtrancl_converse Image_iff converse_iff)

lemma affected_controls_Inr:
  assumes "iteration_order order" and "validated_graph order v = Inr edges" and "w \<noteq> JNull"
    and "require_selected_ids w = Inr changed" and "selected_set w \<subseteq> fst ` set (control_edges v)"
  shows "\<exists>cs. affected_controls order v w = Inr cs \<and> sorted cs \<and> distinct cs \<and>
    set cs = ((registry_rel v)\<inverse>)\<^sup>* `` selected_set w"
proof -
  from validated_graph_ok[OF assms(1,2)] have ok: "closed_edges edges" "edge_rel edges = registry_rel v"
    "map fst edges = map fst (control_edges v)" "distinct (map fst edges)" by auto
  from require_selected_ids_Inr[OF assms(4)] have sel: "set changed = selected_set w" "distinct changed" by auto
  from reverse_edges_Inr[OF assms(1) ok(1,4)] obtain reverse where reverse: "reverse_edges order edges = Inr reverse"
    "map fst reverse = map fst edges" "edge_rel reverse = (registry_rel v)\<inverse>" "closed_edges reverse"
    by (auto simp: ok(2))
  have known: "set changed \<subseteq> fst ` set edges" "set changed \<subseteq> fst ` set reverse"
    using assms(5) sel(1) ok(3) reverse(2) by (metis list.set_map)+
  from explore_closure[OF reverse(4) sel(2) known(2)] assms(2,3,4) known(1) reverse(1,3) sel(1) show ?thesis
    by (auto simp: affected_controls_def)
qed

text \<open>C17.
  The selected controls resolve to exactly the controls they reach.  For an accepted registry and a
  selection of known controls, \<open>dependency_closure\<close> returns (its loop ends and no lookup fails) the
  sorted list, without repetition, of the controls reachable from the selection by dependencies; the
  result does not depend on the iteration order of the sets.
\<close>

theorem dependency_closure_exact:
  assumes "iteration_order order" and "validate_registry order v = Inr v"
    and "require_selected_ids w = Inr selected" and "selected_set w \<subseteq> fst ` set (control_edges v)"
  shows "\<exists>cs. dependency_closure order v w = Inr cs \<and> sorted cs \<and> distinct cs \<and>
    set cs = (registry_rel v)\<^sup>* `` selected_set w"
  using dependency_closure_Inr[OF assms(1) _ assms(3,4)] assms(2) by (simp add: validated_graph_def)

text \<open>
  The controls a change affects are those that depend on a changed one: a control is affected by a
  change exactly when some changed control is in its dependency closure; without a selection
  every control is affected.
\<close>

theorem affected_iff_depends:
  assumes "iteration_order order" and "validate_registry order v = Inr v" and "w \<noteq> JNull"
    and "require_selected_ids w = Inr changed" and "selected_set w \<subseteq> fst ` set (control_edges v)"
  shows "\<exists>cs. affected_controls order v w = Inr cs \<and> sorted cs \<and> distinct cs \<and>
    (\<forall>c. c \<in> set cs \<longleftrightarrow> (\<exists>d \<in> selected_set w. (c, d) \<in> (registry_rel v)\<^sup>*)) \<and>
    affected_controls order v JNull = Inr (sort (map fst (control_edges v)))"
proof -
  have graph: "validated_graph order v = Inr (map (\<lambda>(c, ds). (c, order ds)) (control_edges v))"
    using assms(2) by (simp add: validated_graph_def)
  have "affected_controls order v JNull = Inr (sort (map fst (control_edges v)))"
    by (simp add: affected_controls_def graph comp_def split_beta)
  moreover from affected_controls_Inr[OF assms(1) graph assms(3,4,5)] obtain cs where
    "affected_controls order v w = Inr cs" "sorted cs" "distinct cs"
    "set cs = ((registry_rel v)\<inverse>)\<^sup>* `` selected_set w" by blast
  ultimately show ?thesis by (intro exI[of _ cs]) (simp only: converse_reach simp_thms)
qed

section \<open>An instance\<close>

definition sample_ref :: json where
  "sample_ref = JObj [(''kind'', JStr ''target''), (''id'', JStr ''t''), (''digest'', JStr (replicate 64 (CHR ''a'')))]"

definition sample_control :: "string \<Rightarrow> string list \<Rightarrow> json" where
  "sample_control i ds = JObj
    [(''control_id'', JStr i), (''owner'', JStr ''o''), (''invariant'', JStr ''n''), (''criticality'', JStr ''critical''),
     (''target_ref'', sample_ref), (''dependencies'', JList (map JStr ds)),
     (''obligations'', JList [JObj [(''obligation_id'', JStr (CHR ''o'' # i)), (''kind'', JStr ''constraint''),
        (''required'', JBool True), (''event_policy'', JStr ''forbidden''), (''evaluator_ref'', sample_ref)]]),
     (''mutation_applicability'', JObj [(''status'', JStr ''not_applicable''), (''reason'', JStr ''r'')])]"

definition sample_registry :: json where
  "sample_registry = JObj
    [(''schema_version'', JInt 1), (''kind'', JStr ''control_registry''), (''registry_id'', JStr ''g''),
     (''controls'', JList [sample_control ''a'' [''b''], sample_control ''b'' []])]"

lemma sample_ref_ok: "require_ref sample_ref = Inr ()"
  by (simp add: require_ref_def require_object_def require_id_def require_digest_def sample_ref_def jget_def id_ok_def
      digest_ok_def alnum_def hex_lower_def is_digit_def list_all_iff insert_commute)

lemma sample_control_ok:
  "c \<in> {CHR ''a'', CHR ''b''} \<Longrightarrow> ds \<in> {[], [''b'']} \<Longrightarrow> [c] \<notin> set ids \<Longrightarrow> ''o'' @ [c] \<notin> set obs \<Longrightarrow>
    validate_control (sample_control [c] ds) ids obs = Inr ([c], ds, ids @ [[c]], obs @ [''o'' @ [c]])"
  by (auto simp: validate_control_def sample_control_def require_object_def require_id_def id_ok_def alnum_def is_digit_def
      require_text_def text_ok_def py_len_def py_space_def require_enum_def criticalities_def require_list_def
      validate_dependency_def visit_obligation_def validate_obligation_def obligation_kinds_def require_flag_def
      event_policies_def validate_mutation_applicability_def mutation_statuses_def sample_ref_ok jget_def
      MAX_CONTROL_DEPENDENCIES_def MAX_CONTROL_OBLIGATIONS_def insert_commute)

lemma sample_registry_checks: "registry_checks sample_registry = Inr ([(''a'', [''b'']), (''b'', [])], [''a'', ''b''])"
  by (simp add: registry_checks_def sample_registry_def require_object_def require_id_def id_ok_def alnum_def
      is_digit_def require_list_def visit_control_def sample_control_ok jget_def MAX_CONTROLS_def insert_commute)

lemma sample_registry_edges: "control_edges sample_registry = [(''a'', [''b'']), (''b'', [])]"
  using registry_checks_Inr[OF sample_registry_checks] by simp

lemma iteration_order_id: "iteration_order (\<lambda>xs. xs)"
  by (simp add: iteration_order_def)

lemma sample_registry_acyclic: "acyclic (registry_rel sample_registry)"
proof -
  have "registry_rel sample_registry = {(''a'', ''b'')}"
    by (auto simp: sample_registry_edges edge_rel_def split: if_splits)
  then show ?thesis by (auto simp: acyclic_def elim!: tranclE converse_tranclE)
qed

lemma sample_registry_small: "length (dumps sample_registry) \<le> MAX_DOCUMENT_BYTES"
  by (rule order_trans[OF length_dumps])
    (simp add: sample_registry_def sample_control_def sample_ref_def MAX_DOCUMENT_BYTES_def show_nat.simps)

lemma sample_registry_valid: "validate_registry (\<lambda>xs. xs) sample_registry = Inr sample_registry"
  using validate_registry_Inr[OF iteration_order_id, of sample_registry sample_registry]
    sample_registry_checks sample_registry_acyclic sample_registry_small
  by (simp add: closed_edges_def sample_registry_edges)
    (simp add: sample_registry_def sample_control_def sample_ref_def utf8_ok_ascii ascii_def)

lemma sample_selection: "require_selected_ids (JList [JStr ''a'']) = Inr [''a'']"
  by (simp add: require_selected_ids_def require_list_def select_id_def require_id_def id_ok_def alnum_def is_digit_def
      MAX_CONTROLS_def)

theorem registry_accepted_witness:
  "distinct (map fst (control_edges sample_registry)) \<and> distinct (registry_obligation_names sample_registry)"
  using registry_accepted[OF iteration_order_id, of sample_registry sample_registry] sample_registry_valid by blast

theorem cycle_check_decides_witness:
  "validate_graph (\<lambda>xs. xs) [''a'', ''b''] [(''a'', [''b'']), (''b'', [])] = Inr ()"
  using cycle_check_decides[OF iteration_order_id sample_registry_checks] sample_registry_acyclic
  by (simp add: closed_edges_def sample_registry_edges)

theorem dependency_closure_exact_witness:
  "\<exists>cs. dependency_closure (\<lambda>xs. xs) sample_registry (JList [JStr ''a'']) = Inr cs \<and> ''b'' \<in> set cs"
proof -
  have "(''a'', ''b'') \<in> (registry_rel sample_registry)\<^sup>*"
    by (rule r_into_rtrancl) (simp add: edge_rel_iff sample_registry_edges)
  then show ?thesis
    using dependency_closure_exact[OF iteration_order_id sample_registry_valid sample_selection]
    by (auto simp: sample_registry_edges)
qed

lemma sample_change: "require_selected_ids (JList [JStr ''b'']) = Inr [''b'']"
  by (simp add: require_selected_ids_def require_list_def select_id_def require_id_def id_ok_def alnum_def is_digit_def
      MAX_CONTROLS_def)

theorem affected_iff_depends_witness:
  "\<exists>cs. affected_controls (\<lambda>xs. xs) sample_registry (JList [JStr ''b'']) = Inr cs \<and> ''a'' \<in> set cs"
proof -
  have "(''a'', ''b'') \<in> (registry_rel sample_registry)\<^sup>*"
    by (rule r_into_rtrancl) (simp add: edge_rel_iff sample_registry_edges)
  then show ?thesis
    using affected_iff_depends[OF iteration_order_id sample_registry_valid _ sample_change]
    by (auto simp: sample_registry_edges)
qed

end
