(* ===== verification/Decision.thy ===== *)
theory Decision
  imports Complex_Main Termination "HOL-Library.Product_Lexorder"
begin

text \<open>
  The decision on one set of measurements (\<open>src/src/gah/decision.py\<close>).  A request is checked field by
  field and read into records; rates are exact rationals (\<open>Fraction\<close>); the reasons are sorted by the
  priority of their state, their code and their metric, and the assurance is the state of the first.
  The lemmas restate the thresholds in integers and show what HEALTHY means.
\<close>

section \<open>Data\<close>

datatype metric_name = RECALL | FNR | FPR | ASR | MUTATION_SCORE

fun metric_name_text :: "metric_name \<Rightarrow> string" where
  "metric_name_text RECALL = ''recall''"
| "metric_name_text FNR = ''fnr''"
| "metric_name_text FPR = ''fpr''"
| "metric_name_text ASR = ''asr''"
| "metric_name_text MUTATION_SCORE = ''mutation_score''"

record metric =
  metric_id :: string
  metric_name :: metric_name
  critical :: bool
  numerator :: int
  denominator :: int
  baseline :: "(int \<times> int) option"

record request =
  request_id :: string
  target_digest :: string
  contract_digest :: string
  evidence_at :: int
  assessed_at :: int
  metrics :: "metric list"
  required_missing :: bool
  critical_missing :: bool
  integrity_failure :: bool
  forbidden_violation :: bool
  critical_violation :: bool
  warning :: bool

record reason =
  code :: string
  state :: assurance
  reason_metric :: "string option"

datatype decision_error = InvalidRequest | DecisionKeyError

section \<open>Checks\<close>

definition MAX_COUNT :: int where
  "MAX_COUNT = 10 ^ 12"

definition MAX_METRICS :: nat where
  "MAX_METRICS = 100"

definition MAX_AGE :: int where
  "MAX_AGE = 86400"

definition MAX_TIMESTAMP :: int where
  "MAX_TIMESTAMP = 9007199254740991"

definition lower_alnum :: "char \<Rightarrow> bool" where
  "lower_alnum c \<longleftrightarrow> is_digit c \<or> 97 \<le> ord c \<and> ord c \<le> 122"

text \<open>The pattern \<open>[a-z0-9][a-z0-9_-]{0,63}\<close>.\<close>

definition decision_id_ok :: "string \<Rightarrow> bool" where
  "decision_id_ok s \<longleftrightarrow> s \<noteq> [] \<and> length s \<le> 64 \<and> lower_alnum (hd s) \<and>
     list_all (\<lambda>c. lower_alnum c \<or> c = CHR ''_'' \<or> c = CHR ''-'') (tl s)"

definition check :: "bool \<Rightarrow> decision_error + unit" where
  "check b = guard b InvalidRequest"

definition require_keys :: "json \<Rightarrow> string list \<Rightarrow> decision_error + unit" where
  "require_keys v expected = check (is_obj v \<and> set (jkeys v) = set expected)"

definition require_bool :: "json \<Rightarrow> decision_error + bool" where
  "require_bool v = ebind (check (is_bool v)) (\<lambda>_. Inr (bool_of v))"

text \<open>\<open>_require_uint(value, bounded=True)\<close>, the only way it is called.\<close>

definition require_count :: "json \<Rightarrow> decision_error + int" where
  "require_count v = ebind (check (is_int v \<and> 0 \<le> int_of v \<and> int_of v \<le> MAX_COUNT)) (\<lambda>_. Inr (int_of v))"

definition require_timestamp :: "json \<Rightarrow> decision_error + int" where
  "require_timestamp v = ebind (check (is_int v \<and> 0 \<le> int_of v \<and> int_of v \<le> MAX_TIMESTAMP)) (\<lambda>_. Inr (int_of v))"

definition require_decision_id :: "json \<Rightarrow> decision_error + string" where
  "require_decision_id v = ebind (check (is_str v \<and> decision_id_ok (str_of v))) (\<lambda>_. Inr (str_of v))"

definition require_decision_digest :: "json \<Rightarrow> decision_error + string" where
  "require_decision_digest v = ebind (check (is_str v \<and> digest_ok (str_of v))) (\<lambda>_. Inr (str_of v))"

definition parse_metric_name :: "json \<Rightarrow> decision_error + metric_name" where
  "parse_metric_name v =
    (case find (\<lambda>n. v = JStr (metric_name_text n)) [RECALL, FNR, FPR, ASR, MUTATION_SCORE] of
       None \<Rightarrow> Inl InvalidRequest | Some n \<Rightarrow> Inr n)"

text \<open>A share: the part is at most the whole.\<close>

definition require_share :: "json \<Rightarrow> decision_error + int \<times> int" where
  "require_share v =
    ebind (require_count (jget v ''numerator'')) (\<lambda>n.
    ebind (require_count (jget v ''denominator'')) (\<lambda>d.
    ebind (check (n \<le> d)) (\<lambda>_. Inr (n, d))))"

definition require_baseline :: "metric_name \<Rightarrow> json \<Rightarrow> decision_error + (int \<times> int) option" where
  "require_baseline name v =
    (if v = JNull then Inr None
     else ebind (check (name \<noteq> FNR)) (\<lambda>_.
       ebind (require_keys v [''numerator'', ''denominator'']) (\<lambda>_.
       ebind (require_share v) (\<lambda>share. Inr (Some share)))))"

definition require_metric :: "metric list \<Rightarrow> json \<Rightarrow> decision_error + metric list" where
  "require_metric seen v =
    ebind (require_keys v [''metric_id'', ''name'', ''critical'', ''numerator'', ''denominator'', ''baseline'']) (\<lambda>_.
    ebind (require_decision_id (jget v ''metric_id'')) (\<lambda>i.
    ebind (check (i \<notin> set (map metric_id seen))) (\<lambda>_.
    ebind (parse_metric_name (jget v ''name'')) (\<lambda>name.
    ebind (require_bool (jget v ''critical'')) (\<lambda>crit.
    ebind (require_share v) (\<lambda>(n, d).
    ebind (require_baseline name (jget v ''baseline'')) (\<lambda>base.
    Inr (seen @ [\<lparr>metric_id = i, metric_name = name, critical = crit, numerator = n, denominator = d,
                  baseline = base\<rparr>]))))))))"

definition request_fields :: "string list" where
  "request_fields = [''schema_version'', ''request_id'', ''target_digest'', ''contract_digest'', ''purpose'',
     ''observed_at'', ''assessed_at'', ''metrics'', ''required_missing'', ''critical_missing'',
     ''integrity_failure'', ''forbidden_violation'', ''critical_violation'', ''warning'']"

text \<open>The checks of \<open>_assess\<close>, with the request they let through.\<close>

definition read_decision_request :: "bool \<Rightarrow> json \<Rightarrow> decision_error + request" where
  "read_decision_request event_only v =
    ebind (require_keys v request_fields) (\<lambda>_.
    ebind (check (jget v ''schema_version'' = JInt 1)) (\<lambda>_.
    ebind (require_decision_id (jget v ''request_id'')) (\<lambda>rid.
    ebind (require_decision_digest (jget v ''target_digest'')) (\<lambda>target.
    ebind (require_decision_digest (jget v ''contract_digest'')) (\<lambda>contract.
    ebind (check (jget v ''purpose'' = JStr ''component_validation'')) (\<lambda>_.
    ebind (require_timestamp (jget v ''observed_at'')) (\<lambda>observed.
    ebind (require_timestamp (jget v ''assessed_at'')) (\<lambda>assessed.
    ebind (require_bool (jget v ''required_missing'')) (\<lambda>rm.
    ebind (require_bool (jget v ''critical_missing'')) (\<lambda>cm.
    ebind (require_bool (jget v ''integrity_failure'')) (\<lambda>integ.
    ebind (require_bool (jget v ''forbidden_violation'')) (\<lambda>fv.
    ebind (require_bool (jget v ''critical_violation'')) (\<lambda>cv.
    ebind (require_bool (jget v ''warning'')) (\<lambda>warn.
    ebind (check (is_list (jget v ''metrics'') \<and> length (jitems (jget v ''metrics'')) \<le> MAX_METRICS \<and>
        (if event_only then jitems (jget v ''metrics'') = [] else jitems (jget v ''metrics'') \<noteq> []))) (\<lambda>_.
    ebind (efold require_metric [] (jitems (jget v ''metrics''))) (\<lambda>ms.
    Inr \<lparr>request_id = rid, target_digest = target, contract_digest = contract, evidence_at = observed,
         assessed_at = assessed, metrics = ms, required_missing = rm, critical_missing = cm,
         integrity_failure = integ, forbidden_violation = fv, critical_violation = cv, warning = warn\<rparr>))))))))))))))))"

section \<open>Thresholds\<close>

definition fraction :: "int \<Rightarrow> int \<Rightarrow> rat option" where
  "fraction n d = (if d = 0 then None else Some (Fract n d))"

text \<open>\<open>_LIMITS\<close>: the direction, the normal and the critical limit.\<close>

fun LIMITS :: "metric_name \<Rightarrow> bool \<times> rat \<times> rat" where
  "LIMITS RECALL = (True, Fract 95 100, Fract 99 100)"
| "LIMITS FNR = (False, Fract 5 100, Fract 1 100)"
| "LIMITS FPR = (False, Fract 5 100, Fract 2 100)"
| "LIMITS ASR = (False, Fract 3 100, Fract 1 100)"
| "LIMITS MUTATION_SCORE = (True, Fract 95 100, Fract 1 1)"

text \<open>\<open>_DELTA_LIMITS\<close>, which has no entry for the false negative rate.\<close>

fun DELTA_LIMITS :: "metric_name \<Rightarrow> (bool \<times> rat \<times> rat) option" where
  "DELTA_LIMITS RECALL = Some (True, Fract 2 100, Fract 1 100)"
| "DELTA_LIMITS FNR = None"
| "DELTA_LIMITS FPR = Some (False, Fract 1 100, Fract 1 200)"
| "DELTA_LIMITS ASR = Some (False, Fract 1 100, Fract 1 200)"
| "DELTA_LIMITS MUTATION_SCORE = Some (True, Fract 2 100, Fract 0 1)"

definition check_absolute :: "rat \<Rightarrow> metric_name \<Rightarrow> bool \<Rightarrow> bool" where
  "check_absolute val name crit =
    (case LIMITS name of (direction, normal, critical_limit) \<Rightarrow>
       let limit = (if crit then critical_limit else normal)
       in if direction then val \<ge> limit else val \<le> limit)"

definition check_delta :: "rat \<Rightarrow> rat \<Rightarrow> metric_name \<Rightarrow> bool \<Rightarrow> decision_error + bool" where
  "check_delta val base name crit =
    (case DELTA_LIMITS name of
       None \<Rightarrow> Inl DecisionKeyError
     | Some (direction, normal, critical_allowance) \<Rightarrow>
         let allowance = (if crit then critical_allowance else normal)
         in Inr (if direction then val \<ge> base - allowance else val \<le> base + allowance))"

section \<open>Reasons\<close>

definition metric_reason :: "string \<Rightarrow> assurance \<Rightarrow> string \<Rightarrow> reason" where
  "metric_reason c st m = \<lparr>code = c, state = st, reason_metric = Some m\<rparr>"

definition plain_reason :: "string \<Rightarrow> assurance \<Rightarrow> reason" where
  "plain_reason c st = \<lparr>code = c, state = st, reason_metric = None\<rparr>"

definition reason_sort_key :: "reason \<Rightarrow> nat \<times> string \<times> string" where
  "reason_sort_key r = (assurance_priority (state r), code r, case reason_metric r of None \<Rightarrow> [] | Some m \<Rightarrow> m)"

definition event_reasons :: "request \<Rightarrow> reason list" where
  "event_reasons q =
    (if integrity_failure q then [plain_reason ''integrity_failure'' HOLD] else []) @
    (if critical_violation q then [plain_reason ''critical_violation'' HOLD] else []) @
    (if critical_missing q then [plain_reason ''critical_missing'' HOLD] else []) @
    (if forbidden_violation q then [plain_reason ''forbidden_violation'' DEGRADED] else []) @
    (if required_missing q then [plain_reason ''required_missing'' UNKNOWN] else []) @
    (let age = assessed_at q - evidence_at q in
     if age < 0 then [plain_reason ''future_observation'' HOLD]
     else if age > MAX_AGE then
       [plain_reason ''stale_evidence'' (if \<exists>m \<in> set (metrics q). critical m then HOLD else UNKNOWN)]
     else [])"

record metric_result =
  result_id :: string
  result_name :: metric_name
  metric_value :: "rat option"
  baseline_value :: "rat option"
  absolute_pass :: "bool option"
  delta_pass :: "bool option"

definition baseline_fraction :: "metric \<Rightarrow> rat option" where
  "baseline_fraction m = (case baseline m of None \<Rightarrow> None | Some (n, d) \<Rightarrow> fraction n d)"

text \<open>One turn of the loop over the metrics.\<close>

definition assess_metric :: "metric \<Rightarrow> decision_error + reason list \<times> metric_result" where
  "assess_metric m =
    (let missing = (if critical m then HOLD else UNKNOWN);
         failure = (if critical m then HOLD else DEGRADED);
         result = \<lparr>result_id = metric_id m, result_name = metric_name m,
                   metric_value = fraction (numerator m) (denominator m), baseline_value = baseline_fraction m,
                   absolute_pass = None, delta_pass = None\<rparr>
     in case fraction (numerator m) (denominator m) of
          None \<Rightarrow> Inr ([metric_reason ''metric_missing'' missing (metric_id m)], result)
        | Some current \<Rightarrow>
            let abs_ok = check_absolute current (metric_name m) (critical m);
                abs_reasons = (if abs_ok then [] else
                  [metric_reason ''metric_absolute_threshold'' failure (metric_id m)]);
                result1 = result\<lparr>absolute_pass := Some abs_ok\<rparr>
            in if baseline m = None then Inr (abs_reasons, result1)
               else (case baseline_fraction m of
                   None \<Rightarrow> Inr (abs_reasons @ [metric_reason ''metric_delta_missing'' missing (metric_id m)], result1)
                 | Some base \<Rightarrow>
                     ebind (check_delta current base (metric_name m) (critical m)) (\<lambda>delta_ok.
                     Inr (abs_reasons @ (if delta_ok then [] else
                            [metric_reason ''metric_delta_threshold'' failure (metric_id m)]),
                          result1\<lparr>delta_pass := Some delta_ok\<rparr>))))"

record decision =
  decision_assurance :: assurance
  decision_reasons :: "reason list"
  decision_metrics :: "metric_result list"

definition assess_metrics :: "metric list \<Rightarrow> decision_error + (reason list \<times> metric_result) list" where
  "assess_metrics ms = emap assess_metric ms"

definition judge :: "request \<Rightarrow> decision_error + decision" where
  "judge q =
    ebind (assess_metrics (metrics q)) (\<lambda>outcomes.
    let reasons = sort_key reason_sort_key (event_reasons q @ concat (map fst outcomes) @
          (if warning q then [plain_reason ''warning'' WARNING] else []))
    in Inr \<lparr>decision_assurance = (case reasons of [] \<Rightarrow> HEALTHY | r # _ \<Rightarrow> state r),
            decision_reasons = reasons, decision_metrics = map snd outcomes\<rparr>)"

definition rat_json :: "rat option \<Rightarrow> json" where
  "rat_json x = (case x of None \<Rightarrow> JNull | Some r \<Rightarrow> (case quotient_of r of (n, d) \<Rightarrow> JList [JInt n, JInt d]))"

definition opt_bool :: "bool option \<Rightarrow> json" where
  "opt_bool x = (case x of None \<Rightarrow> JNull | Some b \<Rightarrow> JBool b)"

definition reason_dict :: "reason \<Rightarrow> json" where
  "reason_dict r = JObj [(''code'', JStr (code r)), (''state'', JStr (assurance_name (state r))),
     (''metric_id'', opt_str (reason_metric r))]"

definition metric_dict :: "metric_result \<Rightarrow> json" where
  "metric_dict r = JObj
    [(''metric_id'', JStr (result_id r)), (''name'', JStr (metric_name_text (result_name r))),
     (''value'', rat_json (metric_value r)), (''baseline_value'', rat_json (baseline_value r)),
     (''absolute_pass'', opt_bool (absolute_pass r)), (''delta_pass'', opt_bool (delta_pass r))]"

text \<open>\<open>_assess\<close> and its two callers.\<close>

definition assess_with :: "bool \<Rightarrow> json \<Rightarrow> decision_error + json" where
  "assess_with event_only v =
    ebind (read_decision_request event_only v) (\<lambda>q.
    ebind (judge q) (\<lambda>d.
    Inr (JObj
      [(''schema_version'', JInt 1), (''request_id'', JStr (request_id q)),
       (''request_digest'', JStr (sha256_of v)), (''target_digest'', JStr (target_digest q)),
       (''contract_digest'', JStr (contract_digest q)), (''assessed_at'', JInt (assessed_at q)),
       (''purpose'', JStr ''component_validation''),
       (''assurance'', JStr (assurance_name (decision_assurance d))), (''ci_eligible'', JBool False),
       (''metrics'', JList (map metric_dict (decision_metrics d))),
       (''reasons'', JList (map reason_dict (decision_reasons d)))])))"

definition assess :: "json \<Rightarrow> decision_error + json" where
  "assess = assess_with False"

definition assess_constraint_events :: "json \<Rightarrow> decision_error + json" where
  "assess_constraint_events = assess_with True"

section \<open>Every valid request is decided\<close>

lemma check_Inr [result_iff]: "check b = Inr u \<longleftrightarrow> b"
  by (simp add: check_def result_iff)

lemma check_Inl [result_iff]: "check b = Inl e \<longleftrightarrow> \<not> b \<and> e = InvalidRequest"
  by (simp add: check_def result_iff)

lemmas decision_checks = require_keys_def require_bool_def require_count_def require_timestamp_def
  require_decision_id_def require_decision_digest_def require_share_def

text \<open>What the reader guarantees of a metric.\<close>

definition metric_ok :: "metric \<Rightarrow> bool" where
  "metric_ok m \<longleftrightarrow> decision_id_ok (metric_id m) \<and> 0 \<le> numerator m \<and> numerator m \<le> denominator m \<and> denominator m \<le> MAX_COUNT \<and>
     (case baseline m of None \<Rightarrow> True | Some (n, d) \<Rightarrow> metric_name m \<noteq> FNR \<and> 0 \<le> n \<and> n \<le> d \<and> d \<le> MAX_COUNT)"

definition metrics_ok :: "metric list \<Rightarrow> bool" where
  "metrics_ok ms \<longleftrightarrow> list_all metric_ok ms \<and> distinct (map metric_id ms)"

lemma require_share_Inr:
  "require_share v = Inr p \<Longrightarrow> 0 \<le> fst p \<and> fst p \<le> snd p \<and> snd p \<le> MAX_COUNT"
  by (auto simp: decision_checks result_iff)

lemma require_baseline_Inr:
  "require_baseline name v = Inr b \<Longrightarrow>
    (case b of None \<Rightarrow> True | Some (n, d) \<Rightarrow> name \<noteq> FNR \<and> 0 \<le> n \<and> n \<le> d \<and> d \<le> MAX_COUNT)"
  by (auto simp: require_baseline_def result_iff split: if_splits option.splits dest: require_share_Inr)

lemma require_metric_ok: "metrics_ok seen \<Longrightarrow> require_metric seen v = Inr ms \<Longrightarrow> metrics_ok ms"
  by (auto simp: require_metric_def metrics_ok_def metric_ok_def require_decision_id_def result_iff
      split: option.splits dest!: require_share_Inr require_baseline_Inr)

lemma read_metrics_ok: "efold require_metric [] vs = Inr ms \<Longrightarrow> metrics_ok ms"
  by (erule efold_invariant[where P = metrics_ok]) (simp_all add: metrics_ok_def[of "[]"] require_metric_ok)

lemma require_metric_length: "require_metric seen v = Inr ms \<Longrightarrow> length ms = Suc (length seen)"
  by (auto simp: require_metric_def result_iff)

lemma read_metrics_length:
  "efold require_metric seen vs = Inr ms \<Longrightarrow> length ms = length seen + length vs"
  by (induction vs arbitrary: seen) (auto simp: result_iff dest!: require_metric_length)

definition request_ok :: "bool \<Rightarrow> request \<Rightarrow> bool" where
  "request_ok event_only q \<longleftrightarrow> metrics_ok (metrics q) \<and> length (metrics q) \<le> MAX_METRICS \<and>
     (metrics q = [] \<longleftrightarrow> event_only) \<and>
     0 \<le> evidence_at q \<and> evidence_at q \<le> MAX_TIMESTAMP \<and> 0 \<le> assessed_at q \<and> assessed_at q \<le> MAX_TIMESTAMP"

lemma read_decision_request_ok:
  assumes "read_decision_request event_only v = Inr q"
  shows "request_ok event_only q"
proof -
  from assms obtain ms where ms: "efold require_metric [] (jitems (jget v ''metrics'')) = Inr ms"
    and q: "metrics q = ms" "length (jitems (jget v ''metrics'')) \<le> MAX_METRICS"
      "jitems (jget v ''metrics'') = [] \<longleftrightarrow> event_only"
      "0 \<le> evidence_at q" "evidence_at q \<le> MAX_TIMESTAMP" "0 \<le> assessed_at q" "assessed_at q \<le> MAX_TIMESTAMP"
    by (auto simp: read_decision_request_def require_timestamp_def result_iff split: if_splits)
  from read_metrics_length[OF ms] have "length ms = length (jitems (jget v ''metrics''))" by simp
  with q read_metrics_ok[OF ms] show ?thesis by (auto simp: request_ok_def)
qed

text \<open>The reader raises nothing but the generic refusal.\<close>

lemma only_invalid [simp]:
  "check b \<noteq> Inl DecisionKeyError" "require_keys v ks \<noteq> Inl DecisionKeyError"
  "require_bool v \<noteq> Inl DecisionKeyError" "require_timestamp v \<noteq> Inl DecisionKeyError"
  "require_decision_id v \<noteq> Inl DecisionKeyError" "require_decision_digest v \<noteq> Inl DecisionKeyError"
  "parse_metric_name v \<noteq> Inl DecisionKeyError" "require_share v \<noteq> Inl DecisionKeyError"
  by (auto simp: decision_checks parse_metric_name_def result_iff split: option.splits)

lemma require_metric_only_invalid [simp]: "require_metric seen v \<noteq> Inl DecisionKeyError"
  by (simp add: require_metric_def require_baseline_def result_iff split_beta)

lemma require_metrics_only_invalid [simp]: "efold require_metric seen vs \<noteq> Inl DecisionKeyError"
  by (induction vs arbitrary: seen) (auto simp: result_iff)

lemma read_decision_request_error: "read_decision_request event_only v = Inl e \<Longrightarrow> e = InvalidRequest"
  by (cases e) (simp_all add: read_decision_request_def result_iff)

lemma check_delta_total: "name \<noteq> FNR \<Longrightarrow> \<exists>b. check_delta x y name c = Inr b"
  by (cases name) (auto simp: check_delta_def)

lemma assess_metric_total: "metric_ok m \<Longrightarrow> \<exists>p. assess_metric m = Inr p"
  using check_delta_total[of "metric_name m"]
  by (fastforce simp: assess_metric_def metric_ok_def Let_def result_iff baseline_fraction_def
      split: option.splits)

lemma assess_metrics_total: "list_all metric_ok ms \<Longrightarrow> \<exists>ps. assess_metrics ms = Inr ps"
  unfolding assess_metrics_def by (induction ms) (auto dest!: assess_metric_total)

lemma judge_total: "request_ok event_only q \<Longrightarrow> \<exists>d. judge q = Inr d"
  using assess_metrics_total[of "metrics q"]
  by (auto simp: judge_def request_ok_def metrics_ok_def Let_def)

text \<open>C14.
  A request is refused or decided: whatever document comes in, the only error is the generic refusal
  of the reader, and it comes exactly when the reader refuses.  In particular the lookup in
  \<open>_DELTA_LIMITS\<close>, which has no entry for the false negative rate, never raises.
\<close>

theorem assess_is_total:
  "assess_with event_only v \<noteq> Inl DecisionKeyError \<and>
   (assess_with event_only v = Inl InvalidRequest \<longleftrightarrow> read_decision_request event_only v = Inl InvalidRequest)"
proof (cases "read_decision_request event_only v")
  case (Inl e)
  then have "e = InvalidRequest" by (rule read_decision_request_error)
  with Inl show ?thesis by (simp add: assess_with_def)
next
  case (Inr q)
  with judge_total[OF read_decision_request_ok[OF Inr]] show ?thesis
    by (auto simp: assess_with_def)
qed

section \<open>The assurance is the worst reason\<close>

lemma assurance_le_HEALTHY [simp]: "(a::assurance) \<le> HEALTHY"
  by (cases a) (auto simp: less_eq_assurance_def)

lemma assurance_HOLD_le [simp]: "HOLD \<le> (a::assurance)"
  by (cases a) (auto simp: less_eq_assurance_def)

lemma reason_sort_key_state: "reason_sort_key r \<le> reason_sort_key r' \<Longrightarrow> state r \<le> state r'"
  by (auto simp: reason_sort_key_def less_eq_assurance_def)

definition unsorted_reasons :: "request \<Rightarrow> (reason list \<times> metric_result) list \<Rightarrow> reason list" where
  "unsorted_reasons q outcomes = event_reasons q @ concat (map fst outcomes) @
     (if warning q then [plain_reason ''warning'' WARNING] else [])"

lemma judge_Inr:
  "judge q = Inr d \<longleftrightarrow> (\<exists>outcomes. assess_metrics (metrics q) = Inr outcomes \<and>
     decision_reasons d = sort_key reason_sort_key (unsorted_reasons q outcomes) \<and>
     decision_assurance d = (case decision_reasons d of [] \<Rightarrow> HEALTHY | r # _ \<Rightarrow> state r) \<and>
     decision_metrics d = map snd outcomes)"
  by (cases d) (auto simp: judge_def Let_def unsorted_reasons_def result_iff)

lemma reasons_never_healthy:
  assumes "judge q = Inr d" and "r \<in> set (decision_reasons d)"
  shows "state r \<noteq> HEALTHY"
proof -
  have metric: "\<forall>p \<in> set ps. \<forall>r \<in> set (fst p). state r \<noteq> HEALTHY" if "assess_metrics ms = Inr ps" for ms ps
    using that unfolding assess_metrics_def
    by (induction ms arbitrary: ps)
      (auto simp: result_iff assess_metric_def metric_reason_def Let_def split: option.splits if_splits)
  have "\<forall>r \<in> set (event_reasons q). state r \<noteq> HEALTHY"
    by (auto simp: event_reasons_def plain_reason_def Let_def split: if_splits)
  with assms metric show ?thesis
    by (auto simp: judge_Inr unsorted_reasons_def plain_reason_def split: if_splits)
qed

lemma worst_head:
  assumes "sorted (map reason_sort_key rs)" and "\<forall>r \<in> set rs. state r \<noteq> HEALTHY"
  shows "(case rs of [] \<Rightarrow> HEALTHY | r # _ \<Rightarrow> state r) = Min (insert HEALTHY (state ` set rs)) \<and>
    ((case rs of [] \<Rightarrow> HEALTHY | r # _ \<Rightarrow> state r) = HEALTHY \<longleftrightarrow> rs = [])"
proof (cases rs)
  case (Cons r rest)
  with assms(1) have "\<forall>r' \<in> set rs. state r \<le> state r'" by (auto intro: reason_sort_key_state)
  with Cons have "Min (insert HEALTHY (state ` set rs)) = state r"
    by (intro Min_eqI) auto
  with Cons assms(2) show ?thesis by auto
qed simp

text \<open>
  The assurance of a decision is the worst state among its reasons, and HEALTHY exactly when there is
  no reason at all; the reasons are reported in the order of the sort key, worst state first.
\<close>

theorem assurance_is_worst_reason:
  assumes "judge q = Inr d"
  shows "decision_assurance d = Min (insert HEALTHY (state ` set (decision_reasons d))) \<and>
    (decision_assurance d = HEALTHY \<longleftrightarrow> decision_reasons d = []) \<and>
    sorted (map reason_sort_key (decision_reasons d))"
proof -
  from assms have sorted: "sorted (map reason_sort_key (decision_reasons d))"
    and head: "decision_assurance d = (case decision_reasons d of [] \<Rightarrow> HEALTHY | r # _ \<Rightarrow> state r)"
    by (auto simp: judge_Inr)
  have "\<forall>r \<in> set (decision_reasons d). state r \<noteq> HEALTHY" using reasons_never_healthy[OF assms] by simp
  from worst_head[OF sorted this] sorted show ?thesis unfolding head by blast
qed

section \<open>What HEALTHY means\<close>

text \<open>The thresholds in integers: per cent of the whole, and per mille of both wholes for the change.\<close>

fun absolute_met :: "metric_name \<Rightarrow> bool \<Rightarrow> int \<Rightarrow> int \<Rightarrow> bool" where
  "absolute_met RECALL c n d \<longleftrightarrow> (if c then 99 else 95) * d \<le> 100 * n"
| "absolute_met FNR c n d \<longleftrightarrow> 100 * n \<le> (if c then 1 else 5) * d"
| "absolute_met FPR c n d \<longleftrightarrow> 100 * n \<le> (if c then 2 else 5) * d"
| "absolute_met ASR c n d \<longleftrightarrow> 100 * n \<le> (if c then 1 else 3) * d"
| "absolute_met MUTATION_SCORE c n d \<longleftrightarrow> (if c then 100 else 95) * d \<le> 100 * n"

fun delta_met :: "metric_name \<Rightarrow> bool \<Rightarrow> int \<Rightarrow> int \<Rightarrow> int \<Rightarrow> int \<Rightarrow> bool" where
  "delta_met RECALL c n d bn bd \<longleftrightarrow> 1000 * bn * d \<le> 1000 * n * bd + (if c then 10 else 20) * d * bd"
| "delta_met FNR c n d bn bd \<longleftrightarrow> False"
| "delta_met FPR c n d bn bd \<longleftrightarrow> 1000 * n * bd \<le> 1000 * bn * d + (if c then 5 else 10) * d * bd"
| "delta_met ASR c n d bn bd \<longleftrightarrow> 1000 * n * bd \<le> 1000 * bn * d + (if c then 5 else 10) * d * bd"
| "delta_met MUTATION_SCORE c n d bn bd \<longleftrightarrow> 1000 * bn * d \<le> 1000 * n * bd + (if c then 0 else 20) * d * bd"

definition metric_met :: "metric \<Rightarrow> bool" where
  "metric_met m \<longleftrightarrow> 0 < denominator m \<and> absolute_met (metric_name m) (critical m) (numerator m) (denominator m) \<and>
     (case baseline m of None \<Rightarrow> True
      | Some (bn, bd) \<Rightarrow> 0 < bd \<and>
          delta_met (metric_name m) (critical m) (numerator m) (denominator m) bn bd)"

lemma Fract_le_pos:
  assumes "0 < b" and "0 < d"
  shows "Fract a b \<le> Fract c d \<longleftrightarrow> a * d \<le> c * b"
proof -
  from assms have "Fract a b \<le> Fract c d \<longleftrightarrow> (a * d) * (b * d) \<le> (c * b) * (b * d)" by (subst le_rat) auto
  also have "\<dots> \<longleftrightarrow> a * d \<le> c * b" using assms by (simp only: mult_le_cancel_right_pos mult_pos_pos)
  finally show ?thesis .
qed

lemma check_absolute_met:
  "0 < d \<Longrightarrow> check_absolute (Fract n d) name c \<longleftrightarrow> absolute_met name c n d"
  by (cases name) (auto simp: check_absolute_def Let_def Fract_le_pos simp del: le_rat)

lemma check_delta_met:
  assumes "0 < d" and "0 < bd" and "name \<noteq> FNR"
  shows "check_delta (Fract n d) (Fract bn bd) name c = Inr (delta_met name c n d bn bd)"
proof -
  have minus: "Fract bn bd - Fract k l \<le> Fract n d \<longleftrightarrow> l * bn * d \<le> l * n * bd + k * d * bd"
    if "0 < l" for k l :: int
  proof -
    from that assms(2) have "Fract bn bd - Fract k l = Fract (bn * l - k * bd) (bd * l)" by simp
    moreover from that assms(2) have "0 < bd * l" by simp
    ultimately show ?thesis using Fract_le_pos[OF _ assms(1)] by (simp add: algebra_simps del: le_rat)
  qed
  have plus: "Fract n d \<le> Fract bn bd + Fract k l \<longleftrightarrow> l * n * bd \<le> l * bn * d + k * d * bd"
    if "0 < l" for k l :: int
  proof -
    from that assms(2) have "Fract bn bd + Fract k l = Fract (bn * l + k * bd) (bd * l)" by simp
    moreover from that assms(2) have "0 < bd * l" by simp
    ultimately show ?thesis using Fract_le_pos[OF assms(1)] by (simp add: algebra_simps del: le_rat)
  qed
  from assms show ?thesis
    by (cases name) (auto simp: check_delta_def Let_def minus plus mult_ac simp del: le_rat diff_rat add_rat)
qed

text \<open>One metric adds a reason exactly when it does not meet its thresholds, and the state of the
  reason depends on whether the metric is critical.\<close>

definition metric_states :: "metric \<Rightarrow> assurance set" where
  "metric_states m = (if critical m then {HOLD} else {UNKNOWN, DEGRADED})"

lemma assess_metric_reasons:
  assumes "metric_ok m" and "assess_metric m = Inr (rs, result)"
  shows "(rs = [] \<longleftrightarrow> metric_met m) \<and> state ` set rs \<subseteq> metric_states m \<and> result_id result = metric_id m"
proof (cases "denominator m = 0")
  case True
  with assms show ?thesis
    by (auto simp: assess_metric_def fraction_def metric_met_def metric_states_def metric_reason_def)
next
  case False
  with assms(1) have d: "0 < denominator m" by (auto simp: metric_ok_def)
  have base: "0 < bd" if "baseline m = Some (bn, bd)" and "bd \<noteq> 0" for bn bd
    using that assms(1) by (auto simp: metric_ok_def)
  from assms d base show ?thesis
    by (fastforce simp: assess_metric_def fraction_def metric_met_def metric_states_def metric_reason_def
        metric_ok_def baseline_fraction_def Let_def check_absolute_met check_delta_met result_iff
        split: option.splits if_splits)
qed

text \<open>The outcomes in the order of the metrics.\<close>

lemma assess_metrics_reasons:
  assumes "list_all metric_ok ms" and "assess_metrics ms = Inr ps"
  shows "(concat (map fst ps) = [] \<longleftrightarrow> list_all metric_met ms) \<and> map (result_id \<circ> snd) ps = map metric_id ms \<and>
    (\<forall>m \<in> set ms. \<not> metric_met m \<longrightarrow> (\<exists>r \<in> set (concat (map fst ps)). state r \<in> metric_states m))"
  using assms unfolding assess_metrics_def
proof (induction ms arbitrary: ps)
  case (Cons m ms)
  from Cons.prems obtain rs result ps' where m: "assess_metric m = Inr (rs, result)"
    and rest: "emap assess_metric ms = Inr ps'" and ps: "ps = (rs, result) # ps'"
    by (auto simp: result_iff)
  from Cons.prems have "metric_ok m" and "list_all metric_ok ms" by auto
  from assess_metric_reasons[OF this(1) m] have head: "rs = [] \<longleftrightarrow> metric_met m"
    "state ` set rs \<subseteq> metric_states m" "result_id result = metric_id m" by auto
  have "\<exists>r \<in> set rs. state r \<in> metric_states m" if "\<not> metric_met m"
    using head(1,2) that by (cases rs) auto
  with Cons.IH[OF \<open>list_all metric_ok ms\<close> rest] ps
  have "\<forall>m' \<in> set (m # ms). \<not> metric_met m' \<longrightarrow> (\<exists>r \<in> set (concat (map fst ps)). state r \<in> metric_states m')"
    by (simp add: bex_Un)
  with head Cons.IH[OF \<open>list_all metric_ok ms\<close> rest] ps show ?case by simp
qed simp

lemma event_reasons_Nil: "event_reasons q = [] \<longleftrightarrow>
    \<not> integrity_failure q \<and> \<not> critical_violation q \<and> \<not> critical_missing q \<and> \<not> forbidden_violation q \<and>
    \<not> required_missing q \<and> 0 \<le> assessed_at q - evidence_at q \<and> assessed_at q - evidence_at q \<le> MAX_AGE"
  by (auto simp: event_reasons_def Let_def)

lemma no_reasons_iff:
  assumes "read_decision_request event_only v = Inr q" and "judge q = Inr d"
  shows "decision_reasons d = [] \<longleftrightarrow>
    \<not> integrity_failure q \<and> \<not> critical_violation q \<and> \<not> critical_missing q \<and> \<not> forbidden_violation q \<and>
    \<not> required_missing q \<and> \<not> warning q \<and>
    evidence_at q \<le> assessed_at q \<and> assessed_at q \<le> evidence_at q + MAX_AGE \<and>
    list_all metric_met (metrics q)"
proof -
  from assms(2) obtain outcomes where outcomes: "assess_metrics (metrics q) = Inr outcomes"
    and reasons: "decision_reasons d = sort_key reason_sort_key (unsorted_reasons q outcomes)"
    by (auto simp: judge_Inr)
  have "decision_reasons d = [] \<longleftrightarrow> set (unsorted_reasons q outcomes) = {}" unfolding reasons by (metis set_empty set_sort)
  also have "\<dots> \<longleftrightarrow> event_reasons q = [] \<and> concat (map fst outcomes) = [] \<and> \<not> warning q"
    by (auto simp: unsorted_reasons_def)
  finally show ?thesis
    using assess_metrics_reasons[OF _ outcomes] read_decision_request_ok[OF assms(1)] event_reasons_Nil[of q]
    by (auto simp: request_ok_def metrics_ok_def)
qed

text \<open>C12.
  HEALTHY is earned.  A decision on a valid request is HEALTHY exactly when none of the six adverse
  flags is set, the evidence is neither from the future nor older than a day, and every metric was
  measured (its denominator is positive), meets its absolute threshold and, where a baseline is given,
  the baseline was measured and the change stays within its allowance; the thresholds are stated in
  integers, so no rounding can decide.
\<close>

theorem healthy_iff_all_met:
  assumes "read_decision_request event_only v = Inr q" and "judge q = Inr d"
  shows "decision_assurance d = HEALTHY \<longleftrightarrow>
    \<not> integrity_failure q \<and> \<not> critical_violation q \<and> \<not> critical_missing q \<and> \<not> forbidden_violation q \<and>
    \<not> required_missing q \<and> \<not> warning q \<and>
    evidence_at q \<le> assessed_at q \<and> assessed_at q \<le> evidence_at q + MAX_AGE \<and>
    list_all metric_met (metrics q)"
proof -
  from assms(2) have sorted: "sorted (map reason_sort_key (decision_reasons d))"
    and head: "decision_assurance d = (case decision_reasons d of [] \<Rightarrow> HEALTHY | r # _ \<Rightarrow> state r)" by (auto simp: judge_Inr)
  have "\<forall>r \<in> set (decision_reasons d). state r \<noteq> HEALTHY" using reasons_never_healthy[OF assms(2)] by simp
  from worst_head[OF sorted this] no_reasons_iff[OF assms] show ?thesis unfolding head by blast
qed

text \<open>C13.
  Critical findings stop everything.  A valid request whose integrity failed, with a critical violation
  or critical evidence missing, observed in the future, or with a critical metric that is missing or
  misses a threshold, is decided as HOLD, whatever else it says; and a metric that is not critical and
  misses a threshold is decided as UNKNOWN or worse, never as WARNING or HEALTHY.
\<close>

theorem critical_findings_hold:
  assumes "read_decision_request event_only v = Inr q" and "judge q = Inr d"
  shows "(integrity_failure q \<or> critical_violation q \<or> critical_missing q \<or> assessed_at q < evidence_at q \<or>
      (\<exists>m \<in> set (metrics q). critical m \<and> \<not> metric_met m) \<longrightarrow> decision_assurance d = HOLD) \<and>
    (list_ex (\<lambda>m. \<not> metric_met m) (metrics q) \<longrightarrow> decision_assurance d \<le> UNKNOWN)"
proof -
  from assms(2) obtain outcomes where outcomes: "assess_metrics (metrics q) = Inr outcomes"
    and reasons: "decision_reasons d = sort_key reason_sort_key (unsorted_reasons q outcomes)"
    and head: "decision_assurance d = (case decision_reasons d of [] \<Rightarrow> HEALTHY | r # _ \<Rightarrow> state r)"
    by (auto simp: judge_Inr)
  have sorted: "sorted (map reason_sort_key (decision_reasons d))" by (simp add: reasons)
  have "\<forall>r \<in> set (decision_reasons d). state r \<noteq> HEALTHY" using reasons_never_healthy[OF assms(2)] by simp
  from worst_head[OF sorted this] have worst: "decision_assurance d \<le> state r" if "r \<in> set (unsorted_reasons q outcomes)" for r
    using that unfolding head by (simp add: reasons)
  have hold: "decision_assurance d = HOLD" if "r \<in> set (unsorted_reasons q outcomes)" and "state r = HOLD" for r
    using worst[OF that(1)] that(2) by (simp add: antisym)
  have bad: "\<exists>r \<in> set (unsorted_reasons q outcomes). state r \<in> metric_states m"
    if "m \<in> set (metrics q)" and "\<not> metric_met m" for m
    using assess_metrics_reasons[OF _ outcomes] read_decision_request_ok[OF assms(1)] that
    by (fastforce simp: request_ok_def metrics_ok_def unsorted_reasons_def)
  have event: "\<exists>r \<in> set (event_reasons q). state r = HOLD"
    if "integrity_failure q \<or> critical_violation q \<or> critical_missing q \<or> assessed_at q < evidence_at q"
    using that by (auto simp: event_reasons_def plain_reason_def Let_def)
  have "decision_assurance d = HOLD" if "m \<in> set (metrics q)" "critical m" "\<not> metric_met m" for m
    using bad[OF that(1,3)] that(2) hold by (auto simp: metric_states_def)
  moreover have "decision_assurance d \<le> UNKNOWN" if "m \<in> set (metrics q)" "\<not> metric_met m" for m
    using bad[OF that] worst by (fastforce simp: metric_states_def less_eq_assurance_def split: if_splits)
  ultimately show ?thesis
    using event hold by (fastforce simp: unsorted_reasons_def list_ex_iff)
qed

section \<open>An instance\<close>

definition sample_request :: json where
  "sample_request = JObj
    [(''schema_version'', JInt 1), (''request_id'', JStr ''r1''),
     (''target_digest'', JStr (replicate 64 (CHR ''a''))), (''contract_digest'', JStr (replicate 64 (CHR ''b''))),
     (''purpose'', JStr ''component_validation''), (''observed_at'', JInt 1000), (''assessed_at'', JInt 2000),
     (''metrics'', JList [JObj
        [(''metric_id'', JStr ''m1''), (''name'', JStr ''recall''), (''critical'', JBool True),
         (''numerator'', JInt 98), (''denominator'', JInt 100),
         (''baseline'', JObj [(''numerator'', JInt 99), (''denominator'', JInt 100)])]]),
     (''required_missing'', JBool False), (''critical_missing'', JBool False),
     (''integrity_failure'', JBool False), (''forbidden_violation'', JBool False),
     (''critical_violation'', JBool False), (''warning'', JBool False)]"

definition sample_read :: request where
  "sample_read = \<lparr>request_id = ''r1'', target_digest = replicate 64 (CHR ''a''),
     contract_digest = replicate 64 (CHR ''b''), evidence_at = 1000, assessed_at = 2000,
     metrics = [\<lparr>metric_id = ''m1'', metric_name = RECALL, critical = True, numerator = 98, denominator = 100,
       baseline = Some (99, 100)\<rparr>],
     required_missing = False, critical_missing = False, integrity_failure = False, forbidden_violation = False,
     critical_violation = False, warning = False\<rparr>"

definition sample_decision :: decision where
  "sample_decision = \<lparr>decision_assurance = HOLD,
     decision_reasons = [metric_reason ''metric_absolute_threshold'' HOLD ''m1''],
     decision_metrics = [\<lparr>result_id = ''m1'', result_name = RECALL, metric_value = Some (Fract 98 100),
       baseline_value = Some (Fract 99 100), absolute_pass = Some False, delta_pass = Some True\<rparr>]\<rparr>"

lemma sample_request_read: "read_decision_request False sample_request = Inr sample_read"
  by (simp add: read_decision_request_def sample_request_def sample_read_def request_fields_def decision_checks
      check_def require_metric_def require_baseline_def parse_metric_name_def decision_id_ok_def lower_alnum_def
      is_digit_def digest_ok_def list_all_iff MAX_TIMESTAMP_def MAX_COUNT_def MAX_METRICS_def insert_commute
      jget_def hex_lower_def)

lemma sample_request_judged: "judge sample_read = Inr sample_decision"
  by (simp add: judge_def sample_read_def sample_decision_def assess_metrics_def assess_metric_def
      check_absolute_met check_delta_met event_reasons_def MAX_AGE_def baseline_fraction_def fraction_def
      metric_reason_def)

theorem assurance_is_worst_reason_witness:
  "decision_assurance sample_decision =
     Min (insert HEALTHY (state ` set (decision_reasons sample_decision)))"
  using assurance_is_worst_reason[OF sample_request_judged] by blast

theorem healthy_iff_all_met_witness: "decision_assurance sample_decision \<noteq> HEALTHY"
  using healthy_iff_all_met[OF sample_request_read sample_request_judged]
  by (simp add: sample_read_def metric_met_def)

theorem critical_findings_hold_witness: "decision_assurance sample_decision = HOLD"
  using critical_findings_hold[OF sample_request_read sample_request_judged]
  by (simp add: sample_read_def metric_met_def)

end
