(* ===== verification/Policy_Props.thy ===== *)
theory Policy_Props
  imports Policy Decision
begin

text \<open>
  The properties of the policy: a profile is accepted exactly when it is well-formed and no limit of the
  initial policy is relaxed, read as rationals; its thresholds are those of the decision; and a
  managing model's reply changes nothing but one timeout.
\<close>

section \<open>Facts of the checks\<close>

lemma policy_check_Inr [result_iff]: "policy_check ok = Inr u \<longleftrightarrow> ok"
  by (simp add: policy_check_def result_iff)

lemma policy_checks_Inr [result_iff]:
  "require_fields v names = Inr u \<longleftrightarrow> is_obj v \<and> set (jkeys v) = set names"
  "require_string v = Inr u \<longleftrightarrow> (\<exists>s. v = JStr s \<and> s \<noteq> [])"
  "require_policy_bool v = Inr u \<longleftrightarrow> is_bool v"
  "require_positive_integer v = Inr u \<longleftrightarrow> is_int v \<and> 0 < int_of v \<and> int_of v \<le> MAX_INTEGER"
  "require_nonnegative_integer v = Inr u \<longleftrightarrow> is_int v \<and> 0 \<le> int_of v \<and> int_of v \<le> MAX_INTEGER"
  by (auto simp: require_fields_def require_string_def require_policy_bool_def require_positive_integer_def
      require_nonnegative_integer_def result_iff split: json.splits) (cases v; simp)+

lemma require_fraction_denom: "require_fraction v = Inr u \<Longrightarrow> 0 < denom v"
  by (simp add: require_fraction_def result_iff)

lemma jget_in_values: "is_obj v \<Longrightarrow> k \<in> set (jkeys v) \<Longrightarrow> jget v k \<in> set (jvalues v)"
proof -
  assume obj: "is_obj v" and "k \<in> set (jkeys v)"
  from jget_present[OF this] obtain x where x: "jlookup v k = Some x" "jget v k = x" by blast
  from obj obtain kvs where "v = JObj kvs" by (cases v) auto
  with x show ?thesis by (force dest: map_of_SomeD)
qed

text \<open>A loop over keys with one special key.\<close>

lemma ball_except:
  "u \<in> S \<Longrightarrow> (\<forall>f \<in> S. (if f = u then policy_check (A f) else policy_check (B f)) = Inr ()) \<longleftrightarrow>
    A u \<and> (\<forall>f \<in> S - {u}. B f)"
  by (auto simp: policy_check_Inr)

text \<open>The rate a pair stands for.\<close>

definition rate :: "json \<Rightarrow> rat" where
  "rate v = Fract (numer v) (denom v)"

lemma at_least_rate: "0 < denom a \<Longrightarrow> 0 < denom b \<Longrightarrow> at_least a b \<longleftrightarrow> rate b \<le> rate a"
  by (simp add: at_least_def rate_def Fract_le_pos del: le_rat)

lemma at_most_rate: "0 < denom a \<Longrightarrow> 0 < denom b \<Longrightarrow> at_most a b \<longleftrightarrow> rate a \<le> rate b"
  by (simp add: at_most_def rate_def Fract_le_pos del: le_rat)

section \<open>Nothing is relaxed\<close>

text \<open>A threshold of a profile, and its ceilings and floors compared with those of another.\<close>

definition threshold :: "json \<Rightarrow> string \<Rightarrow> string \<Rightarrow> json" where
  "threshold v level f = jget (jget (jget v ''thresholds'') level) f"

definition within_ceilings :: "json \<Rightarrow> json \<Rightarrow> bool" where
  "within_ceilings candidate initial \<longleftrightarrow> (\<forall>f \<in> set (jkeys initial). int_of (jget candidate f) \<le> int_of (jget initial f))"

definition above_floors :: "json \<Rightarrow> json \<Rightarrow> bool" where
  "above_floors candidate initial \<longleftrightarrow>
    (\<forall>f \<in> set (jkeys initial) - {unique_flag}. int_of (jget initial f) \<le> int_of (jget candidate f))"

definition thresholds_tight :: "json \<Rightarrow> bool" where
  "thresholds_tight v \<longleftrightarrow> (\<forall>level \<in> {''noncritical'', ''critical''}.
     (\<forall>f \<in> set minimum_rates. rate (threshold INITIAL_POLICY level f) \<le> rate (threshold v level f)) \<and>
     (\<forall>f \<in> set maximum_rates. rate (threshold v level f) \<le> rate (threshold INITIAL_POLICY level f)))"

definition never_laxer :: "json \<Rightarrow> bool" where
  "never_laxer v \<longleftrightarrow>
     thresholds_tight v \<and> rate (jget INITIAL_POLICY ''mandatory_coverage_min'') \<le> rate (jget v ''mandatory_coverage_min'') \<and>
     rate (jget v ''warning_usage_min'') \<le> rate (jget INITIAL_POLICY ''warning_usage_min'') \<and>
     jget v ''forbidden_event_count_max'' = JInt 0 \<and> jget v ''population_inference_enabled'' = JBool False \<and>
     (\<forall>f \<in> {''assurance_priority'', ''ci_success_states'', ''warning_dimensions'', ''management''}.
        py_eq (jget v f) (jget INITIAL_POLICY f)) \<and>
     above_floors (jget v ''corpus_minimum'') initial_corpus \<and>
     jget (jget v ''corpus_minimum'') unique_flag = JBool False \<and>
     above_floors (jget v ''mvp_acceptance_scale'') initial_scale \<and>
     within_ceilings (jget v ''freshness_seconds'') initial_freshness \<and>
     within_ceilings (jget (jget v ''profiles'') ''pr'') initial_pr \<and>
     within_ceilings (jget (jget v ''profiles'') ''full'') initial_full \<and>
     within_ceilings (jget v ''per_call'') initial_per_call \<and>
     int_of (jget (jget v ''global_api_budget'') ''usd_micros_max'') \<le> 20000000 \<and>
     (\<forall>f \<in> set (jkeys initial_budget) - {''usd_micros_max''}.
        py_eq (jget (jget v ''global_api_budget'') f) (jget initial_budget f))"

lemma shape_facts:
  assumes "validate_shape p = Inr ()"
  shows "is_obj p \<and> set (jkeys p) = set (jkeys INITIAL_POLICY) \<and>
    is_obj (jget p ''per_call'') \<and> set (jkeys (jget p ''per_call'')) = set (jkeys initial_per_call) \<and>
    (\<forall>f \<in> set (jkeys (jget p ''per_call'')).
      (if suffix ''_retries_max'' f then require_nonnegative_integer (jget (jget p ''per_call'') f)
       else require_positive_integer (jget (jget p ''per_call'') f)) = Inr ())"
  using assms unfolding validate_shape_def ebind_eq_Inr unit_ex eiter_eq_Inr policy_checks_Inr(1)
  by (elim conjE) (intro conjI; assumption)

lemma shape_denominators:
  assumes "validate_shape v = Inr ()"
  shows "0 < denom (jget v ''mandatory_coverage_min'') \<and> 0 < denom (jget v ''warning_usage_min'') \<and>
    (\<forall>level \<in> {''noncritical'', ''critical''}. \<forall>f \<in> set minimum_rates \<union> set maximum_rates. 0 < denom (threshold v level f))"
proof -
  from assms have frac: "require_fraction (jget v ''mandatory_coverage_min'') = Inr ()"
      "require_fraction (jget v ''warning_usage_min'') = Inr ()"
    and levels: "is_obj (jget v ''thresholds'')" "set (jkeys (jget v ''thresholds'')) = set [''noncritical'', ''critical'']"
      "\<forall>l \<in> set (jvalues (jget v ''thresholds'')). require_level l = Inr ()"
    unfolding validate_shape_def ebind_eq_Inr policy_checks_Inr eiter_eq_Inr unit_ex by blast+
  have "0 < denom (threshold v level f)"
    if "level \<in> {''noncritical'', ''critical''}" and "f \<in> set minimum_rates \<union> set maximum_rates" for level f
  proof -
    from that(1) levels(2) have "level \<in> set (jkeys (jget v ''thresholds''))" by auto
    from jget_in_values[OF levels(1) this] levels(3) have "require_level (jget (jget v ''thresholds'') level) = Inr ()" by blast
    then have level: "is_obj (jget (jget v ''thresholds'') level)"
      "set (jkeys (jget (jget v ''thresholds'') level)) = set (jkeys initial_noncritical)"
      "\<forall>x \<in> set (jvalues (jget (jget v ''thresholds'') level)). require_fraction x = Inr ()"
      unfolding require_level_def ebind_eq_Inr policy_checks_Inr eiter_eq_Inr unit_ex by blast+
    from that(2) have "f \<in> set (jkeys initial_noncritical)"
      by (auto simp: minimum_rates_def maximum_rates_def initial_noncritical_def)
    with level jget_in_values[OF level(1)] show ?thesis
      unfolding threshold_def by (blast intro: require_fraction_denom)
  qed
  with frac show ?thesis by (blast intro: require_fraction_denom)
qed

lemma initial_thresholds:
  "threshold INITIAL_POLICY ''noncritical'' f = jget initial_noncritical f"
  "threshold INITIAL_POLICY ''critical'' f = jget initial_critical f"
  by (simp_all add: threshold_def INITIAL_POLICY_def jget_def)

lemma initial_threshold_denom:
  assumes "level \<in> {''noncritical'', ''critical''}" and "f \<in> set minimum_rates \<union> set maximum_rates"
  shows "0 < denom (threshold INITIAL_POLICY level f)"
proof -
  have "list_all (\<lambda>f. 0 < denom (jget initial_noncritical f) \<and> 0 < denom (jget initial_critical f))
      (minimum_rates @ maximum_rates)"
    by (simp add: minimum_rates_def maximum_rates_def initial_noncritical_def initial_critical_def jget_def pct_def denom_def)
  with assms(2) have "0 < denom (jget initial_noncritical f)" "0 < denom (jget initial_critical f)"
    unfolding list_all_iff by auto
  with assms(1) show ?thesis by (auto simp: initial_thresholds)
qed

lemma enforce_levels:
  assumes "validate_shape v = Inr ()"
  shows "eiter (enforce_level v) [''noncritical'', ''critical''] = Inr () \<longleftrightarrow> thresholds_tight v"
proof -
  have "enforce_level v level = Inr () \<longleftrightarrow>
      (\<forall>f \<in> set minimum_rates. rate (threshold INITIAL_POLICY level f) \<le> rate (threshold v level f)) \<and>
      (\<forall>f \<in> set maximum_rates. rate (threshold v level f) \<le> rate (threshold INITIAL_POLICY level f))"
    if level: "level \<in> {''noncritical'', ''critical''}" for level
  proof -
    have pos: "0 < denom (threshold v level f)" "0 < denom (threshold INITIAL_POLICY level f)"
      if "f \<in> set minimum_rates \<union> set maximum_rates" for f
      using shape_denominators[OF assms] initial_threshold_denom[OF level that] level that by blast+
    show ?thesis
      using pos at_least_rate at_most_rate
      unfolding enforce_level_def Let_def ebind_eq_Inr eiter_eq_Inr policy_check_Inr threshold_def[symmetric] by auto
  qed
  then show ?thesis unfolding eiter_eq_Inr thresholds_tight_def by simp
qed

lemma profile_accepted_iff:
  "validate_policy_profile v = Inr w \<longleftrightarrow> w = v \<and> validate_shape v = Inr () \<and> never_laxer v"
proof (cases "validate_shape v = Inr ()")
  case False
  then show ?thesis by (auto simp: validate_policy_profile_def ebind_eq_Inr)
next
  case True
  note pos = shape_denominators[OF True]
  have cov: "0 < denom (jget INITIAL_POLICY ''mandatory_coverage_min'')" "0 < denom (jget INITIAL_POLICY ''warning_usage_min'')"
    by (simp_all add: INITIAL_POLICY_def jget_def pct_def denom_def)
  have coverage: "at_least (jget v ''mandatory_coverage_min'') (jget INITIAL_POLICY ''mandatory_coverage_min'') \<longleftrightarrow>
      rate (jget INITIAL_POLICY ''mandatory_coverage_min'') \<le> rate (jget v ''mandatory_coverage_min'')"
    using pos cov at_least_rate by blast
  have warning: "at_most (jget v ''warning_usage_min'') (jget INITIAL_POLICY ''warning_usage_min'') \<longleftrightarrow>
      rate (jget v ''warning_usage_min'') \<le> rate (jget INITIAL_POLICY ''warning_usage_min'')"
    using pos cov at_most_rate by blast
  have forbidden: "jget INITIAL_POLICY ''forbidden_event_count_max'' = JInt 0"
    and management: "jget INITIAL_POLICY ''management'' = initial_management"
    by (simp_all add: INITIAL_POLICY_def jget_def)
  have corpus: "(\<forall>f \<in> set (jkeys initial_corpus). (if f = unique_flag then policy_check (jget c f = JBool False)
      else policy_check (int_of (jget c f) \<ge> int_of (jget initial_corpus f))) = Inr ()) \<longleftrightarrow>
    jget c unique_flag = JBool False \<and> above_floors c initial_corpus" for c
    unfolding above_floors_def by (rule ball_except) (simp add: initial_corpus_def)
  have "unique_flag \<notin> set (jkeys initial_scale)"
    by (simp add: initial_scale_def jints_def unique_flag_def)
  then have scale: "(\<forall>f \<in> set (jkeys initial_scale). int_of (jget c f) \<ge> int_of (jget initial_scale f)) \<longleftrightarrow>
    above_floors c initial_scale" for c
    unfolding above_floors_def by blast
  have kept: "(\<forall>f \<in> {''assurance_priority'', ''ci_success_states'', ''warning_dimensions'', ''management''}. Q f) \<longleftrightarrow>
    Q ''assurance_priority'' \<and> Q ''ci_success_states'' \<and> Q ''warning_dimensions'' \<and> Q ''management''" for Q
    by simp
  have budget: "(\<forall>f \<in> set (jkeys initial_budget). (if f = ''usd_micros_max''
        then policy_check (int_of (jget c f) \<le> int_of (jget initial_budget f))
        else policy_check (py_eq (jget c f) (jget initial_budget f))) = Inr ()) \<longleftrightarrow>
      int_of (jget c ''usd_micros_max'') \<le> int_of (jget initial_budget ''usd_micros_max'') \<and>
      (\<forall>f \<in> set (jkeys initial_budget) - {''usd_micros_max''}. py_eq (jget c f) (jget initial_budget f))" for c
    by (rule ball_except) (simp add: initial_budget_def)
  have usd: "int_of (jget initial_budget ''usd_micros_max'') = 20000000" by (simp add: initial_budget_def jget_def)
  have ceilings: "enforce_ceilings c i = Inr () \<longleftrightarrow> within_ceilings c i" for c i
    by (simp add: enforce_ceilings_def within_ceilings_def eiter_eq_Inr policy_check_Inr)
  have "enforce_initial_boundaries v = Inr () \<longleftrightarrow> never_laxer v"
    unfolding enforce_initial_boundaries_def ebind_eq_Inr enforce_levels[OF True] eiter_eq_Inr[of _ "jkeys initial_corpus"]
      eiter_eq_Inr[of _ "jkeys initial_scale"] eiter_eq_Inr[of _ "jkeys initial_budget"] ceilings
      unit_ex corpus scale budget policy_check_Inr coverage warning forbidden never_laxer_def kept management usd
    by blast
  with True show ?thesis by (auto simp: validate_policy_profile_def ebind_eq_Inr)
qed

text \<open>C18.
  No profile relaxes the initial policy.  A profile is accepted exactly when it has the shape of the
  initial policy and, reading every pair as the rational it stands for, every minimum is at least and
  every maximum at most the initial one, for both levels of thresholds, the coverage, the corpus, the
  acceptance scale, the freshness, both budgets of resources, the limits of a call and the global
  budget; the rules of management, the states that pass and the order of the states are unchanged.
  It is returned as it was given.
\<close>

theorem accepted_iff_never_laxer:
  "validate_policy_profile v = Inr w \<longleftrightarrow> w = v \<and> validate_shape v = Inr () \<and> never_laxer v"
  by (rule profile_accepted_iff)

section \<open>The initial policy and the decision\<close>

lemma initial_lookup:
  "jget INITIAL_POLICY ''schema_version'' = JInt 1"
  "jget INITIAL_POLICY ''kind'' = JStr ''policy_profile''"
  "jget INITIAL_POLICY ''policy_id'' = JStr ''gah-initial-policy-v1''"
  "jget INITIAL_POLICY ''evaluation_mode'' = JStr ''finite_corpus_regression''"
  "jget INITIAL_POLICY ''population_inference_enabled'' = JBool False"
  "jget INITIAL_POLICY ''assurance_priority'' = JList [JStr ''HOLD'', JStr ''DEGRADED'', JStr ''UNKNOWN'', JStr ''WARNING'', JStr ''HEALTHY'']"
  "jget INITIAL_POLICY ''ci_success_states'' = JList [JStr ''HEALTHY'', JStr ''WARNING'']"
  "jget INITIAL_POLICY ''thresholds'' = JObj [(''noncritical'', initial_noncritical), (''critical'', initial_critical)]"
  "jget INITIAL_POLICY ''mandatory_coverage_min'' = pct 1 1"
  "jget INITIAL_POLICY ''forbidden_event_count_max'' = JInt 0"
  "jget INITIAL_POLICY ''corpus_minimum'' = initial_corpus"
  "jget INITIAL_POLICY ''mvp_acceptance_scale'' = initial_scale"
  "jget INITIAL_POLICY ''freshness_seconds'' = initial_freshness"
  "jget INITIAL_POLICY ''warning_usage_min'' = pct 4 5"
  "jget INITIAL_POLICY ''warning_dimensions'' = initial_warning_dimensions"
  "jget INITIAL_POLICY ''profiles'' = JObj [(''pr'', initial_pr), (''full'', initial_full)]"
  "jget INITIAL_POLICY ''management_profile'' = JStr ''full''"
  "jget INITIAL_POLICY ''per_call'' = initial_per_call"
  "jget INITIAL_POLICY ''global_api_budget'' = initial_budget"
  "jget INITIAL_POLICY ''management'' = initial_management"
  by (simp_all add: INITIAL_POLICY_def jget_def)

lemma initial_shape: "validate_shape INITIAL_POLICY = Inr ()"
proof -
  have obj: "is_obj INITIAL_POLICY" by (simp add: INITIAL_POLICY_def)
  have levels: "require_level initial_noncritical = Inr ()" "require_level initial_critical = Inr ()"
    by (simp_all add: require_level_def require_fields_def require_fraction_def policy_check_def initial_noncritical_def
        initial_critical_def pct_def numer_def denom_def MAX_INTEGER_def)
  have counts: "require_counts initial_scale (jkeys initial_scale) = Inr ()"
    "require_counts initial_freshness (jkeys initial_freshness) = Inr ()"
    "require_counts initial_pr (jkeys initial_pr) = Inr ()" "require_counts initial_full (jkeys initial_pr) = Inr ()"
    by (simp_all add: require_counts_def require_fields_def require_positive_integer_def policy_check_def initial_scale_def
        initial_freshness_def initial_pr_def initial_full_def jints_def MAX_INTEGER_def)
  have corpus: "eiter (\<lambda>f. if f = unique_flag then require_policy_bool (jget (jget INITIAL_POLICY ''corpus_minimum'') f)
      else require_positive_integer (jget (jget INITIAL_POLICY ''corpus_minimum'') f)) (jkeys initial_corpus) = Inr ()"
    unfolding initial_lookup by (simp add: initial_corpus_def unique_flag_def jget_def require_policy_bool_def require_positive_integer_def
        policy_check_def MAX_INTEGER_def)
  have per_call: "eiter (\<lambda>f. if suffix ''_retries_max'' f then require_nonnegative_integer (jget (jget INITIAL_POLICY ''per_call'') f)
      else require_positive_integer (jget (jget INITIAL_POLICY ''per_call'') f)) (jkeys initial_per_call) = Inr ()"
    unfolding initial_lookup by (simp add: initial_per_call_def jints_def jget_def suffix_to_prefix require_nonnegative_integer_def
        require_positive_integer_def policy_check_def MAX_INTEGER_def)
  have rest: "is_obj initial_corpus" "is_obj initial_per_call" "is_obj initial_budget" "is_obj initial_management"
    "eiter require_policy_bool (jvalues initial_management) = Inr ()"
    by (simp_all add: initial_corpus_def initial_per_call_def initial_budget_def initial_management_def jints_def
        require_policy_bool_def policy_check_def)
  show ?thesis
    unfolding validate_shape_def
    by (simp add: initial_lookup obj levels counts corpus per_call rest require_fields_def require_string_def
        require_policy_bool_def require_nonnegative_integer_def require_fraction_def require_names_def policy_check_def
        pct_def numer_def denom_def MAX_INTEGER_def initial_warning_dimensions_def)
      (simp add: initial_budget_def jget_def require_positive_integer_def policy_check_def MAX_INTEGER_def)
qed

lemma initial_policy_accepted: "validate_policy_profile INITIAL_POLICY = Inr INITIAL_POLICY"
proof -
  have "jget initial_corpus unique_flag = JBool False" "int_of (jget initial_budget ''usd_micros_max'') = 20000000"
    by (simp_all add: initial_corpus_def initial_budget_def unique_flag_def jget_def)
  then have "never_laxer INITIAL_POLICY"
    by (simp add: never_laxer_def thresholds_tight_def above_floors_def within_ceilings_def initial_lookup)
      (simp add: jget_def)
  with initial_shape show ?thesis by (simp add: profile_accepted_iff)
qed

definition level_name :: "bool \<Rightarrow> string" where
  "level_name crit = (if crit then ''critical'' else ''noncritical'')"

fun absolute_field :: "metric_name \<Rightarrow> string" where
  "absolute_field RECALL = ''recall_min''"
| "absolute_field FNR = ''fnr_max''"
| "absolute_field FPR = ''fpr_max''"
| "absolute_field ASR = ''asr_max''"
| "absolute_field MUTATION_SCORE = ''mutation_score_min''"

fun delta_field :: "metric_name \<Rightarrow> string" where
  "delta_field RECALL = ''recall_drop_max''"
| "delta_field FNR = []"
| "delta_field FPR = ''fpr_increase_max''"
| "delta_field ASR = ''asr_increase_max''"
| "delta_field MUTATION_SCORE = ''mutation_score_drop_max''"

text \<open>The limit the decision applies to a metric, and the change it allows.\<close>

definition limit_of :: "metric_name \<Rightarrow> bool \<Rightarrow> rat" where
  "limit_of name crit = (case LIMITS name of (d, n, c) \<Rightarrow> if crit then c else n)"

definition allowance_of :: "metric_name \<Rightarrow> bool \<Rightarrow> rat" where
  "allowance_of name crit = (case DELTA_LIMITS name of None \<Rightarrow> 0 | Some (d, n, c) \<Rightarrow> if crit then c else n)"

lemma initial_limit: "rate (threshold INITIAL_POLICY (level_name crit) (absolute_field name)) = limit_of name crit"
  by (cases name; cases crit)
    (simp_all add: level_name_def initial_thresholds initial_noncritical_def initial_critical_def jget_def rate_def pct_def
      numer_def denom_def limit_of_def eq_rat)

lemma initial_allowance:
  "name \<noteq> FNR \<Longrightarrow> rate (threshold INITIAL_POLICY (level_name crit) (delta_field name)) = allowance_of name crit"
  by (cases name; cases crit)
    (simp_all add: level_name_def initial_thresholds initial_noncritical_def initial_critical_def jget_def rate_def pct_def
      numer_def denom_def allowance_of_def eq_rat)

text \<open>A value is on the right side of a bound.\<close>

definition on_side :: "bool \<Rightarrow> rat \<Rightarrow> rat \<Rightarrow> bool" where
  "on_side direction bound x \<longleftrightarrow> (if direction then bound \<le> x else x \<le> bound)"

lemma check_absolute_side: "check_absolute x name crit \<longleftrightarrow> on_side (fst (LIMITS name)) (limit_of name crit) x"
  by (cases name) (auto simp: check_absolute_def on_side_def limit_of_def Let_def)

lemma thresholds_level:
  "thresholds_tight v \<Longrightarrow> f \<in> set minimum_rates \<Longrightarrow>
    rate (threshold INITIAL_POLICY (level_name crit) f) \<le> rate (threshold v (level_name crit) f)"
  "thresholds_tight v \<Longrightarrow> f \<in> set maximum_rates \<Longrightarrow>
    rate (threshold v (level_name crit) f) \<le> rate (threshold INITIAL_POLICY (level_name crit) f)"
  by (auto simp: thresholds_tight_def level_name_def)

lemma profile_limit:
  assumes "thresholds_tight v"
    and "on_side (fst (LIMITS name)) (rate (threshold v (level_name crit) (absolute_field name))) x"
  shows "check_absolute x name crit"
proof -
  have "(if fst (LIMITS name) then limit_of name crit \<le> rate (threshold v (level_name crit) (absolute_field name))
      else rate (threshold v (level_name crit) (absolute_field name)) \<le> limit_of name crit)"
    using thresholds_level[OF assms(1), of "absolute_field name" crit] initial_limit[of crit name]
    by (cases name) (simp_all add: minimum_rates_def maximum_rates_def)
  with assms(2) show ?thesis by (auto simp: check_absolute_side on_side_def split: if_splits)
qed

lemma profile_allowance:
  assumes "thresholds_tight v" and "name \<noteq> FNR"
  shows "rate (threshold v (level_name crit) (delta_field name)) \<le> allowance_of name crit"
  using thresholds_level(2)[OF assms(1), of "delta_field name" crit] initial_allowance[OF assms(2), of crit] assms(2)
  by (cases name) (simp_all add: maximum_rates_def)

text \<open>
  The decision never passes less than an accepted profile demands to fail: with any accepted profile, a
  metric whose value is on the right side of the threshold of the profile passes the absolute check of
  the decision, and a change within the allowance of the profile passes its delta check; so tightening
  the policy can never contradict a decision that was made.
\<close>

theorem accepted_profile_bounds_decision:
  assumes "validate_policy_profile v = Inr w"
  shows "(on_side (fst (LIMITS name)) (rate (threshold v (level_name crit) (absolute_field name))) x \<longrightarrow>
      check_absolute x name crit) \<and>
    (name \<noteq> FNR \<and> (if fst (LIMITS name) then base - x else x - base) \<le> rate (threshold v (level_name crit) (delta_field name)) \<longrightarrow>
      check_delta x base name crit = Inr True)"
proof -
  from assms have tight: "thresholds_tight v" by (simp add: profile_accepted_iff never_laxer_def)
  have "check_delta x base name crit = Inr True"
    if "name \<noteq> FNR" and "(if fst (LIMITS name) then base - x else x - base) \<le> allowance_of name crit"
    using that by (cases name) (auto simp: check_delta_def allowance_of_def Let_def)
  with profile_limit[OF tight] profile_allowance[OF tight, of name crit] show ?thesis
    by (metis order_trans)
qed

section \<open>Proposals\<close>

lemma dict_set_lookup: "map_of (dict_set kvs k x) = (map_of kvs)(k \<mapsto> x)"
  by (induction kvs) (auto simp: fun_eq_iff)

lemma jget_jset: "is_obj v \<Longrightarrow> jget (jset v k x) f = (if f = k then x else jget v f)"
  by (cases v) (auto simp: jget_def dict_set_lookup)

lemma usage_Inr:
  "usage v = Inr (p, c, t) \<Longrightarrow> 0 \<le> p \<and> p \<le> 32768 \<and> 0 \<le> c \<and> c \<le> MAX_COMPLETION_TOKENS \<and> t = p + c"
  by (auto simp: usage_def Let_def ebind_eq_Inr guard_eq_Inr usage_fields_def)

lemma selection_Inr:
  "selection rl content = Inr (t, r) \<Longrightarrow> t \<in> set ALLOWED_TIMEOUTS \<and> r \<in> set ALLOWED_REASONS"
  by (auto simp: selection_def ebind_eq_Inr guard_eq_Inr)

lemma apply_policy_Inr:
  assumes "apply_policy rl config t = Inr policy"
  shows "\<exists>profile. initial_policy_profile rl config = Inr profile \<and> py_eq profile INITIAL_POLICY \<and>
    validate_policy_profile policy = Inr policy \<and>
    (\<forall>f. f \<noteq> ''per_call'' \<longrightarrow> jget policy f = jget profile f) \<and>
    (\<forall>f. jget (jget policy ''per_call'') f = (if f = ''timeout_seconds'' then JInt t else jget (jget profile ''per_call'') f))"
proof -
  from assms obtain profile where profile: "initial_policy_profile rl config = Inr profile"
    and valid: "validate_policy_profile (jset profile ''per_call'' (jset (jget profile ''per_call'') ''timeout_seconds'' (JInt t))) = Inr policy"
    unfolding apply_policy_def on_error_eq_Inr ebind_eq_Inr by blast
  from profile have read: "read_config rl config = Inr profile" and eq: "py_eq profile INITIAL_POLICY"
    by (auto simp: initial_policy_profile_def ebind_eq_Inr policy_check_Inr)
  from read have "validate_policy_profile profile = Inr profile"
    by (auto simp: read_config_def ebind_eq_Inr profile_accepted_iff split: option.splits)
  then have "validate_shape profile = Inr ()" by (simp add: profile_accepted_iff)
  from shape_facts[OF this] have obj: "is_obj profile" "is_obj (jget profile ''per_call'')" by blast+
  from valid have "policy = jset profile ''per_call'' (jset (jget profile ''per_call'') ''timeout_seconds'' (JInt t))"
    by (simp add: profile_accepted_iff)
  with profile eq valid obj show ?thesis by (auto simp: jget_jset)
qed

text \<open>C19.
  A managing model only ever chooses a timeout.  When a reply is accepted, the policy that is proposed
  is the initial policy of the bootstrap file with the timeout of a call set to one of the four allowed
  values, which is at most the initial one, and everything else unchanged; the result is itself an
  accepted profile, so nothing is relaxed; and the usage reported adds up and is within the limits.
\<close>

theorem proposal_only_sets_timeout:
  assumes "parse_response rl config raw = Inr out"
  shows "\<exists>profile t p c.
    initial_policy_profile rl config = Inr profile \<and> py_eq profile INITIAL_POLICY \<and>
    t \<in> set ALLOWED_TIMEOUTS \<and> t \<le> int_of (jget initial_per_call ''timeout_seconds'') \<and>
    jget out ''selection'' = JObj [(''timeout_seconds'', JInt t), (''reason'', jget (jget out ''selection'') ''reason'')] \<and>
    (\<forall>f. f \<noteq> ''per_call'' \<longrightarrow> jget (jget out ''policy'') f = jget profile f) \<and>
    (\<forall>f. jget (jget (jget out ''policy'') ''per_call'') f =
       (if f = ''timeout_seconds'' then JInt t else jget (jget profile ''per_call'') f)) \<and>
    validate_policy_profile (jget out ''policy'') = Inr (jget out ''policy'') \<and> never_laxer (jget out ''policy'') \<and>
    jget out ''usage'' = jints [(''prompt_tokens'', p), (''completion_tokens'', c), (''total_tokens'', p + c)] \<and>
    0 \<le> p \<and> p \<le> 32768 \<and> 0 \<le> c \<and> c \<le> MAX_COMPLETION_TOKENS"
proof -
  from assms obtain content v t r p c total policy where sel: "selection rl content = Inr (t, r)"
    and use: "usage v = Inr (p, c, total)" and pol: "apply_policy rl config t = Inr policy"
    and out: "out = JObj [(''schema_version'', JInt 1), (''kind'', JStr ''management_proposal''),
       (''selection'', JObj [(''timeout_seconds'', JInt t), (''reason'', JStr r)]),
       (''policy'', policy), (''model'', JStr MODEL),
       (''usage'', jints [(''prompt_tokens'', p), (''completion_tokens'', c), (''total_tokens'', total)])]"
    by (auto simp: parse_response_def Let_def ebind_eq_Inr)
  have "t \<le> int_of (jget initial_per_call ''timeout_seconds'')"
    using selection_Inr[OF sel] by (auto simp: ALLOWED_TIMEOUTS_def initial_per_call_def jints_def jget_def)
  moreover have "jget out ''policy'' = policy" "jget out ''selection'' = JObj [(''timeout_seconds'', JInt t), (''reason'', JStr r)]"
    "jget out ''usage'' = jints [(''prompt_tokens'', p), (''completion_tokens'', c), (''total_tokens'', total)]"
    by (simp_all add: out jget_def)
  moreover have "jget (JObj [(''timeout_seconds'', JInt t), (''reason'', JStr r)]) ''reason'' = JStr r"
    by (simp add: jget_def)
  moreover from apply_policy_Inr[OF pol] obtain profile where "initial_policy_profile rl config = Inr profile"
    "py_eq profile INITIAL_POLICY" "validate_policy_profile policy = Inr policy"
    "\<forall>f. f \<noteq> ''per_call'' \<longrightarrow> jget policy f = jget profile f"
    "\<forall>f. jget (jget policy ''per_call'') f = (if f = ''timeout_seconds'' then JInt t else jget (jget profile ''per_call'') f)"
    by blast
  ultimately show ?thesis
    using selection_Inr[OF sel] usage_Inr[OF use]
    by (intro exI[of _ profile] exI[of _ t] exI[of _ p] exI[of _ c]) (simp add: profile_accepted_iff)
qed

section \<open>The order of keys\<close>

lemma numer_jsort [simp]: "numer (jsort v) = numer v" "denom (jsort v) = denom v" "rate (jsort v) = rate v"
  by (simp_all add: numer_def denom_def rate_def split: list.splits)

lemma require_jsort [simp]:
  "require_fields (jsort v) names = require_fields v names" "require_string (jsort v) = require_string v"
  "require_policy_bool (jsort v) = require_policy_bool v"
  "require_positive_integer (jsort v) = require_positive_integer v"
  "require_nonnegative_integer (jsort v) = require_nonnegative_integer v"
  "require_fraction (jsort v) = require_fraction v" "require_names (jsort v) = require_names v"
  by (simp_all add: require_fields_def require_string_def require_policy_bool_def require_positive_integer_def
      require_nonnegative_integer_def require_fraction_def require_names_def list_all_iff)

lemma require_parts_jsort:
  "require_level v = Inr () \<Longrightarrow> require_level (jsort v) = Inr ()"
  "require_counts v names = Inr () \<Longrightarrow> require_counts (jsort v) names = Inr ()"
  by (auto simp: require_level_def require_counts_def ebind_eq_Inr eiter_eq_Inr set_jvalues_jsort)

lemma validate_shape_jsort:
  assumes "jwf v" and "validate_shape v = Inr ()"
  shows "validate_shape (jsort v) = Inr ()"
  using assms
  unfolding validate_shape_def ebind_eq_Inr unit_ex eiter_eq_Inr policy_check_Inr
  by (simp add: jget_jsort jwf_jget set_jvalues_jsort require_parts_jsort list_all_iff initial_lookup
      policy_checks_Inr(2) cong: if_cong)

lemma never_laxer_jsort: "jwf v \<Longrightarrow> never_laxer v \<Longrightarrow> never_laxer (jsort v)"
  by (simp add: never_laxer_def thresholds_tight_def threshold_def above_floors_def within_ceilings_def jget_jsort jwf_jget)

lemma validate_policy_jsort:
  "jwf v \<Longrightarrow> validate_policy_profile v = Inr v \<Longrightarrow> validate_policy_profile (jsort v) = Inr (jsort v)"
  by (simp add: profile_accepted_iff validate_shape_jsort never_laxer_jsort)

section \<open>Every allowed timeout is applied\<close>

lemma set_jkeys_jset: "is_obj v \<Longrightarrow> set (jkeys (jset v k x)) = insert k (set (jkeys v))"
  by (cases v) (auto simp: dict_set_lookup simp flip: dom_map_of_conv_image_fst)

lemma is_obj_jset [simp]: "is_obj (jset v k x) = is_obj v"
  by (cases v) auto

definition with_timeout :: "int \<Rightarrow> json \<Rightarrow> json" where
  "with_timeout t p = jset p ''per_call'' (jset (jget p ''per_call'') ''timeout_seconds'' (JInt t))"

lemma with_timeout_shape:
  assumes "validate_shape p = Inr ()" and "0 < t" and "t \<le> 120"
  shows "validate_shape (with_timeout t p) = Inr ()"
proof -
  from shape_facts[OF assms(1)] have obj: "is_obj p" "set (jkeys p) = set (jkeys INITIAL_POLICY)"
    "is_obj (jget p ''per_call'')" "set (jkeys (jget p ''per_call'')) = set (jkeys initial_per_call)" by blast+
  have "''per_call'' \<in> set (jkeys INITIAL_POLICY)" "''timeout_seconds'' \<in> set (jkeys initial_per_call)"
    by (simp_all add: INITIAL_POLICY_def initial_per_call_def jints_def)
  with obj have keys: "set (jkeys (with_timeout t p)) = set (jkeys INITIAL_POLICY)"
    "set (jkeys (jset (jget p ''per_call'') ''timeout_seconds'' (JInt t))) = set (jkeys initial_per_call)"
    by (auto simp: with_timeout_def set_jkeys_jset)
  have look: "jget (with_timeout t p) f = (if f = ''per_call'' then jset (jget p ''per_call'') ''timeout_seconds'' (JInt t) else jget p f)"
    "jget (jset (jget p ''per_call'') ''timeout_seconds'' (JInt t)) f = (if f = ''timeout_seconds'' then JInt t else jget (jget p ''per_call'') f)" for f
    using obj by (simp_all add: with_timeout_def jget_jset)
  have timeout: "\<not> suffix ''_retries_max'' ''timeout_seconds''" "require_positive_integer (JInt t) = Inr ()"
    using assms(2,3) by (simp_all add: suffix_to_prefix require_positive_integer_def policy_check_def MAX_INTEGER_def)
  have obj': "is_obj (with_timeout t p)" using obj by (simp add: with_timeout_def)
  let ?call = "jset (jget p ''per_call'') ''timeout_seconds'' (JInt t)"
  from shape_facts[OF assms(1)] have "\<forall>f \<in> set (jkeys (jget p ''per_call'')).
      (if suffix ''_retries_max'' f then require_nonnegative_integer (jget (jget p ''per_call'') f)
       else require_positive_integer (jget (jget p ''per_call'') f)) = Inr ()" by blast
  with timeout have call: "\<forall>f \<in> set (jkeys ?call). (if suffix ''_retries_max'' f then require_nonnegative_integer (jget ?call f)
       else require_positive_integer (jget ?call f)) = Inr ()"
    unfolding keys obj(4) look(2) by auto
  from assms(1) call show ?thesis
    unfolding validate_shape_def ebind_eq_Inr unit_ex eiter_eq_Inr policy_check_Inr policy_checks_Inr(1)
    by (simp add: look(1) keys obj obj' initial_lookup policy_checks_Inr(2) split del: if_split cong: if_cong)
qed

lemma with_timeout_never_laxer:
  assumes "validate_shape p = Inr ()" and "never_laxer p" and "t \<le> 120"
  shows "never_laxer (with_timeout t p)"
proof -
  from shape_facts[OF assms(1)] have obj: "is_obj p" "is_obj (jget p ''per_call'')" by blast+
  have look: "jget (with_timeout t p) f = (if f = ''per_call'' then jset (jget p ''per_call'') ''timeout_seconds'' (JInt t) else jget p f)"
    "jget (jset (jget p ''per_call'') ''timeout_seconds'' (JInt t)) f = (if f = ''timeout_seconds'' then JInt t else jget (jget p ''per_call'') f)" for f
    using obj by (simp_all add: with_timeout_def jget_jset)
  have "int_of (jget initial_per_call ''timeout_seconds'') = 120" by (simp add: initial_per_call_def jints_def jget_def)
  with assms(2,3) show ?thesis
    by (simp add: never_laxer_def thresholds_tight_def threshold_def within_ceilings_def look)
qed

lemma apply_policy_allowed:
  assumes "initial_policy_profile rl config = Inr p" and "t \<in> set ALLOWED_TIMEOUTS"
  shows "\<exists>policy. apply_policy rl config t = Inr policy"
proof -
  from assms(1) have "validate_policy_profile p = Inr p"
    by (auto simp: initial_policy_profile_def read_config_def ebind_eq_Inr profile_accepted_iff split: option.splits)
  then have "validate_policy_profile (with_timeout t p) = Inr (with_timeout t p)"
    using assms(2) with_timeout_shape with_timeout_never_laxer
    by (auto simp: profile_accepted_iff ALLOWED_TIMEOUTS_def)
  with assms(1) show ?thesis by (simp add: apply_policy_def with_timeout_def)
qed

section \<open>An instance\<close>

lemmas initial_parts = INITIAL_POLICY_def initial_noncritical_def initial_critical_def initial_corpus_def initial_scale_def
  initial_freshness_def initial_pr_def initial_full_def initial_per_call_def initial_budget_def initial_management_def
  initial_warning_dimensions_def pct_def jints_def unique_flag_def

lemma initial_parts_jwf:
  "jwf initial_noncritical \<and> jwf initial_critical \<and> jwf initial_corpus \<and> jwf initial_scale \<and> jwf initial_freshness \<and>
   jwf initial_pr \<and> jwf initial_full \<and> jwf initial_per_call \<and> jwf initial_budget \<and> jwf initial_management \<and>
   jwf initial_warning_dimensions"
  by (intro conjI; simp add: initial_parts(2-) max_str_digits_def show_nat.simps)

lemma initial_parts_jlen:
  "jlen initial_noncritical \<le> 1500 \<and> jlen initial_critical \<le> 1500 \<and> jlen initial_corpus \<le> 1500 \<and>
   jlen initial_scale \<le> 1500 \<and> jlen initial_freshness \<le> 1500 \<and> jlen initial_pr \<le> 1500 \<and> jlen initial_full \<le> 1500 \<and>
   jlen initial_per_call \<le> 1500 \<and> jlen initial_budget \<le> 1500 \<and> jlen initial_management \<le> 2500 \<and>
   jlen initial_warning_dimensions \<le> 1500"
  by (intro conjI; simp add: initial_parts(2-) show_nat.simps)

lemma initial_policy_document:
  "jwf INITIAL_POLICY \<and> jdepth INITIAL_POLICY \<le> 17 \<and> jutf8 INITIAL_POLICY \<and> jlen INITIAL_POLICY \<le> MAX_CONFIG_BYTES"
proof (intro conjI)
  show "jwf INITIAL_POLICY" using initial_parts_jwf
    by (simp add: INITIAL_POLICY_def pct_def max_str_digits_def show_nat.simps)
  show "jdepth INITIAL_POLICY \<le> 17" by (simp add: initial_parts)
  show "jutf8 INITIAL_POLICY" by (simp add: initial_parts utf8_ok_ascii)
  show "jlen INITIAL_POLICY \<le> MAX_CONFIG_BYTES" using initial_parts_jlen
    by (simp add: INITIAL_POLICY_def pct_def show_nat.simps MAX_CONFIG_BYTES_def)
qed

lemma policy_hooks_build: "builds_objects policy_hooks"
  by (simp add: builds_objects_def policy_hooks_def pairs_hook_eq)

lemma management_hooks_build: "builds_objects management_hooks"
  by (simp add: builds_objects_def management_hooks_def pairs_hook_eq)

definition sample_config :: string where
  "sample_config = dumps INITIAL_POLICY"

lemma sample_profile: "initial_policy_profile 17 (Some sample_config) = Inr (jsort INITIAL_POLICY)"
proof -
  have "loads policy_hooks 17 sample_config = Inr (jsort INITIAL_POLICY)"
    unfolding sample_config_def using initial_policy_document by (intro loads_dumps policy_hooks_build) auto
  moreover have "length sample_config \<le> MAX_CONFIG_BYTES"
    unfolding sample_config_def using length_dumps initial_policy_document order_trans by blast
  moreover have "utf8_ok sample_config" unfolding sample_config_def using utf8_dumps initial_policy_document by blast
  moreover have "validate_policy_profile (jsort INITIAL_POLICY) = Inr (jsort INITIAL_POLICY)"
    using validate_policy_jsort initial_policy_document initial_policy_accepted by blast
  ultimately show ?thesis by (simp add: initial_policy_profile_def read_config_def policy_check_def)
qed

definition sample_selection_json :: json where
  "sample_selection_json = JObj [(''timeout_seconds'', JInt 90), (''reason'', JStr ''lower_latency'')]"

definition sample_response :: json where
  "sample_response = JObj
    [(''model'', JStr MODEL),
     (''choices'', JList [JObj [(''finish_reason'', JStr ''stop''),
        (''message'', JObj [(''content'', JStr (dumps sample_selection_json))])]]),
     (''usage'', jints [(''prompt_tokens'', 10), (''completion_tokens'', 5), (''total_tokens'', 15)])]"

lemma sample_selection_text: "ascii (dumps sample_selection_json) \<and> hd (dumps sample_selection_json) = CHR ''{'' \<and>
    length (dumps sample_selection_json) \<le> 1000"
proof -
  have "length (dumps sample_selection_json) \<le> jlen sample_selection_json" by (rule length_dumps)
  also have "\<dots> \<le> 1000" by (simp add: sample_selection_json_def show_nat.simps)
  finally show ?thesis
    by (simp add: sample_selection_json_def dumps_obj quote_def esc_def show_int_def show_nat.simps digit_char_def
        char_of_def bit_0 Let_def)
qed

lemma sample_selected: "selection 17 (dumps sample_selection_json) = Inr (90, ''lower_latency'')"
proof -
  have "loads management_hooks 17 (dumps sample_selection_json) = Inr (jsort sample_selection_json)"
    by (intro loads_dumps management_hooks_build) (simp_all add: sample_selection_json_def max_str_digits_def show_nat.simps)
  moreover have "jwf sample_selection_json" by (simp add: sample_selection_json_def max_str_digits_def show_nat.simps)
  moreover have "\<not> prefix BOM (dumps sample_selection_json)"
    using sample_selection_text by (cases "dumps sample_selection_json") (auto simp: BOM_def)
  ultimately show ?thesis
    by (simp add: selection_def management_loads_def jget_jsort)
      (simp add: sample_selection_json_def jget_def ALLOWED_TIMEOUTS_def ALLOWED_REASONS_def)
qed

lemma ascii_quote_free: "ascii s \<Longrightarrow> jutf8 (JStr s)"
  by (simp add: utf8_ok_ascii)

lemma sample_response_document:
  "jwf sample_response \<and> jdepth sample_response \<le> 17 \<and> jutf8 sample_response \<and> jlen sample_response \<le> MAX_RESPONSE_BYTES"
  using sample_selection_text
  by (simp add: sample_response_def jints_def max_str_digits_def show_nat.simps utf8_ok_ascii MODEL_def ascii_def
      MAX_RESPONSE_BYTES_def)

lemma dumps_obj_opens: "\<exists>r. dumps (JObj kvs) = CHR ''{'' # r"
  by (simp add: dumps_obj)

lemma sample_response_decoded: "decode_response 17 (dumps sample_response) = Inr (jsort sample_response)"
proof -
  have "loads management_hooks 17 (dumps sample_response) = Inr (jsort sample_response)"
    using sample_response_document by (intro loads_dumps management_hooks_build) auto
  moreover have "length (dumps sample_response) \<le> MAX_RESPONSE_BYTES"
    using length_dumps sample_response_document order_trans by blast
  moreover have "\<not> prefix BOM (dumps sample_response)"
  proof -
    obtain r where "dumps sample_response = CHR ''{'' # r"
      using dumps_obj_opens unfolding sample_response_def by blast
    then show ?thesis by (simp add: BOM_def)
  qed
  moreover have "utf8_ok (dumps sample_response)" using utf8_dumps sample_response_document by blast
  moreover have "is_obj sample_response" by (simp add: sample_response_def)
  ultimately show ?thesis by (simp add: decode_response_def management_loads_def)
qed

lemma sample_applied: "\<exists>policy. apply_policy 17 (Some sample_config) 90 = Inr policy"
  using apply_policy_allowed[OF sample_profile, of 90] by (simp add: ALLOWED_TIMEOUTS_def)

theorem proposal_only_sets_timeout_witness:
  "\<exists>out. parse_response 17 (Some sample_config) (dumps sample_response) = Inr out \<and> never_laxer (jget out ''policy'')"
proof -
  obtain policy where policy: "apply_policy 17 (Some sample_config) 90 = Inr policy" using sample_applied by blast
  have "jwf sample_response" using sample_response_document by blast
  moreover have "jget sample_response ''model'' = JStr MODEL" "jget sample_response ''choices'' = JList [JObj [(''finish_reason'', JStr ''stop''),
        (''message'', JObj [(''content'', JStr (dumps sample_selection_json))])]]"
    "jget sample_response ''usage'' = jints [(''prompt_tokens'', 10), (''completion_tokens'', 5), (''total_tokens'', 15)]"
    by (simp_all add: sample_response_def jget_def)
  moreover have "jget (jsort (JObj [(''finish_reason'', JStr ''stop''), (''message'', m)])) ''finish_reason'' = JStr ''stop''"
    "jget (jsort (JObj [(''finish_reason'', JStr ''stop''), (''message'', m)])) ''message'' = jsort m" if "jwf m" for m
    using that by (simp_all add: jget_jsort) (simp_all add: jget_def)
  moreover have "jget (jsort (JObj [(''content'', JStr c)])) ''content'' = JStr c" for c
    by (simp add: jget_jsort) (simp add: jget_def)
  moreover have "usage (jsort (jints [(''prompt_tokens'', 10), (''completion_tokens'', 5), (''total_tokens'', 15)])) = Inr (10, 5, 15)"
    by (simp add: usage_def usage_fields_def usage_optional_def jget_jsort jints_def max_str_digits_def show_nat.simps)
      (simp add: jget_def MAX_COMPLETION_TOKENS_def)
  ultimately have "\<exists>out. parse_response 17 (Some sample_config) (dumps sample_response) = Inr out"
    using policy by (simp add: parse_response_def sample_response_decoded jget_jsort sample_selected Let_def)
  then show ?thesis using proposal_only_sets_timeout by blast
qed

theorem accepted_profile_bounds_decision_witness: "check_absolute (Fract 97 100) RECALL False"
proof -
  have "on_side (fst (LIMITS RECALL)) (rate (threshold INITIAL_POLICY (level_name False) (absolute_field RECALL))) (Fract 97 100)"
    unfolding initial_limit by (simp add: on_side_def limit_of_def)
  then show ?thesis using accepted_profile_bounds_decision[OF initial_policy_accepted] by blast
qed

end
