(* ===== verification/Normalized.thy ===== *)
theory Normalized
  imports Contracts
begin

text \<open>
  The reader of one raw result (\<open>src/src/gah/normalized.py\<close>): a raw document is bound to the execution
  it belongs to and turned into a normalized result, only after an execution that completed, with exit
  code 0 and a confirmed stop.  The lemmas give the outcome of every branch.
\<close>

definition MAX_RAW_BYTES :: nat where
  "MAX_RAW_BYTES = 256 * 1024"

definition binding_fields :: "string list" where
  "binding_fields =
    [''run_id'', ''operation_id'', ''owner_epoch'', ''contract_digest'', ''target_digest'', ''obligation_id'', ''case_id'',
     ''trial_id'', ''stage_id'', ''fixture_digest'', ''adapter_digest'', ''policy_digest'', ''evaluator_digest'',
     ''isolation_digest'']"

definition modes :: "string list" where
  "modes = [''constraint'', ''mutation'', ''llm'']"

definition execution_statuses :: "string list" where
  "execution_statuses = [''COMPLETED'', ''FAILED'', ''TIMEOUT'', ''CANCELLED'']"

definition checks :: "string list" where
  "checks = [''PASS'', ''FAIL'', ''UNKNOWN'']"

definition detections :: "string list" where
  "detections = [''detect'', ''allow'', ''indeterminate'']"

definition enum_check :: "string list \<Rightarrow> json \<Rightarrow> contract_error + unit" where
  "enum_check allowed v = guard (is_str v \<and> str_of v \<in> set allowed) INVALID_CONTRACT"

definition bool_check :: "json \<Rightarrow> contract_error + unit" where
  "bool_check v = guard (is_bool v) INVALID_CONTRACT"

section \<open>Bindings\<close>

definition binding_field :: "json \<Rightarrow> string \<Rightarrow> contract_error + unit" where
  "binding_field b f =
    (if f = ''owner_epoch'' then
       ebind (require_uint MAX_INTEGER (jget b f)) (\<lambda>_. guard (1 \<le> int_of (jget b f)) INVALID_CONTRACT)
     else if suffix ''_digest'' f then require_digest (jget b f)
     else require_id (jget b f))"

definition validate_binding :: "json \<Rightarrow> contract_error + json" where
  "validate_binding b =
    ebind (require_object b binding_fields) (\<lambda>_.
    ebind (eiter (binding_field b) binding_fields) (\<lambda>_. Inr b))"

section \<open>Results\<close>

definition normal_result :: "json \<Rightarrow> json \<Rightarrow> json \<Rightarrow> json \<Rightarrow> json \<Rightarrow> json \<Rightarrow> json \<Rightarrow> json \<Rightarrow> json" where
  "normal_result binding mode observation outcome detection deviation error_class raw_digest = JObj
    [(''schema_version'', JInt 1), (''kind'', JStr ''normalized_result''), (''binding'', binding), (''mode'', mode),
     (''observation'', observation), (''mutation_outcome'', outcome), (''detection'', detection),
     (''deviation'', deviation), (''error_class'', error_class), (''raw_digest'', raw_digest)]"

definition error_result :: "json \<Rightarrow> string \<Rightarrow> json" where
  "error_result binding error_class =
    normal_result binding JNull JNull (JStr ''ERROR'') JNull JNull (JStr error_class) JNull"

text \<open>\<open>raw\<close> is \<open>None\<close> when it is not a \<open>bytes\<close> object.\<close>

definition parse_raw :: "nat \<Rightarrow> string option \<Rightarrow> contract_error + json \<times> string" where
  "parse_raw rl raw =
    (case raw of
       None \<Rightarrow> Inl (ContractError ''RAW_SIZE'')
     | Some bytes \<Rightarrow>
         ebind (guard (length bytes \<le> MAX_RAW_BYTES) (ContractError ''RAW_SIZE'')) (\<lambda>_.
         ebind (decode_document rl bytes) (\<lambda>parsed.
         ebind (guard (length bytes \<le> MAX_DOCUMENT_BYTES) (ContractError ''RAW_SIZE'')) (\<lambda>_.
         Inr (parsed, sha256_hex bytes)))))"

definition validate_raw_shape :: "json \<Rightarrow> contract_error + json \<times> string \<times> json" where
  "validate_raw_shape v =
    ebind (require_object v [''schema_version'', ''kind'', ''binding'', ''mode'', ''observations'']) (\<lambda>_.
    ebind (guard (jget v ''schema_version'' = JInt 1) (ContractError ''UNSUPPORTED_VERSION'')) (\<lambda>_.
    ebind (guard (jget v ''kind'' = JStr ''gah_generic_result'') INVALID_CONTRACT) (\<lambda>_.
    ebind (validate_binding (jget v ''binding'')) (\<lambda>binding.
    ebind (enum_check modes (jget v ''mode'')) (\<lambda>_.
    ebind (guard (is_obj (jget v ''observations'')) INVALID_CONTRACT) (\<lambda>_.
    Inr (binding, str_of (jget v ''mode''), jget v ''observations'')))))))"

definition normalize_constraint :: "json \<Rightarrow> json \<Rightarrow> string \<Rightarrow> contract_error + json" where
  "normalize_constraint obs binding digest =
    ebind (require_object obs [''check'']) (\<lambda>_.
    ebind (enum_check checks (jget obs ''check'')) (\<lambda>_.
    Inr (normal_result binding (JStr ''constraint'') (jget obs ''check'') JNull JNull JNull JNull (JStr digest))))"

text \<open>The outcome of a mutation, with the class of the error.\<close>

definition mutation_result :: "bool \<Rightarrow> bool \<Rightarrow> bool \<Rightarrow> bool \<Rightarrow> bool \<Rightarrow> string \<times> string option" where
  "mutation_result baseline_pass applied reached detected unrelated =
    (if \<not> baseline_pass then (''ERROR'', Some ''BASELINE_NOT_PASS'')
     else if unrelated then (''ERROR'', Some ''UNRELATED_FAILURE'')
     else if \<not> applied then (''ERROR'', Some ''MUTATION_NOT_APPLIED'')
     else if \<not> reached then (''NO_COVERAGE'', None)
     else if detected then (''KILLED'', None)
     else (''SURVIVED'', None))"

definition normalize_mutation :: "json \<Rightarrow> json \<Rightarrow> string \<Rightarrow> contract_error + json" where
  "normalize_mutation obs binding digest =
    ebind (require_object obs [''baseline'', ''mutation_applied'', ''reached'', ''detected'', ''unrelated_failure'']) (\<lambda>_.
    ebind (enum_check checks (jget obs ''baseline'')) (\<lambda>_.
    ebind (eiter (\<lambda>f. bool_check (jget obs f)) [''mutation_applied'', ''reached'', ''detected'', ''unrelated_failure'']) (\<lambda>_.
    ebind (guard (\<not> (bool_of (jget obs ''detected'') \<and> \<not> bool_of (jget obs ''reached'')))
      (ContractError ''CONTRADICTORY_OBSERVATION'')) (\<lambda>_.
    let outcome = mutation_result (jget obs ''baseline'' = JStr ''PASS'') (bool_of (jget obs ''mutation_applied''))
      (bool_of (jget obs ''reached'')) (bool_of (jget obs ''detected'')) (bool_of (jget obs ''unrelated_failure''))
    in Inr (normal_result binding (JStr ''mutation'') (jget obs ''baseline'') (JStr (fst outcome)) JNull JNull
         (opt_str (snd outcome)) (JStr digest))))))"

definition normalize_llm :: "json \<Rightarrow> json \<Rightarrow> string \<Rightarrow> contract_error + json" where
  "normalize_llm obs binding digest =
    ebind (require_object obs [''detection'', ''deviation'']) (\<lambda>_.
    ebind (enum_check detections (jget obs ''detection'')) (\<lambda>_.
    ebind (if jget obs ''deviation'' = JNull then Inr () else bool_check (jget obs ''deviation'')) (\<lambda>_.
    Inr (normal_result binding (JStr ''llm'') JNull JNull (jget obs ''detection'') (jget obs ''deviation'') JNull
      (JStr digest)))))"

definition exit_code_ok :: "json \<Rightarrow> bool" where
  "exit_code_ok v \<longleftrightarrow> v = JNull \<or> is_int v \<and> 0 \<le> int_of v \<and> int_of v \<le> 255"

definition normalize_generic :: "nat \<Rightarrow> string option \<Rightarrow> json \<Rightarrow> json \<Rightarrow> json \<Rightarrow> json \<Rightarrow> contract_error + json" where
  "normalize_generic rl raw expected_binding execution_status exit_code stop_confirmed =
    ebind (validate_binding expected_binding) (\<lambda>binding.
    ebind (enum_check execution_statuses execution_status) (\<lambda>_.
    ebind (guard (exit_code_ok exit_code) INVALID_CONTRACT) (\<lambda>_.
    ebind (bool_check stop_confirmed) (\<lambda>_.
    if execution_status \<noteq> JStr ''COMPLETED'' \<or> exit_code \<noteq> JInt 0 \<or> \<not> bool_of stop_confirmed
    then Inr (error_result binding ''EXECUTION_FAILURE'')
    else
      ebind (parse_raw rl raw) (\<lambda>(raw_value, digest).
      ebind (validate_raw_shape raw_value) (\<lambda>(raw_binding, mode, obs).
      ebind (guard (py_eq raw_binding binding) (ContractError ''BINDING_MISMATCH'')) (\<lambda>_.
      if mode = ''constraint'' then normalize_constraint obs binding digest
      else if mode = ''mutation'' then normalize_mutation obs binding digest
      else normalize_llm obs binding digest)))))))"

section \<open>Facts\<close>

lemma enum_check_Inr [result_iff]: "enum_check allowed v = Inr u \<longleftrightarrow> (\<exists>s. v = JStr s \<and> s \<in> set allowed)"
  by (cases v) (simp_all add: enum_check_def result_iff)

lemma bool_check_Inr [result_iff]: "bool_check v = Inr u \<longleftrightarrow> (\<exists>b. v = JBool b)"
  by (cases v) (simp_all add: bool_check_def result_iff)

lemma validate_binding_Inr:
  "validate_binding b = Inr b' \<longleftrightarrow> b' = b \<and> is_obj b \<and> set (jkeys b) = set binding_fields \<and>
    (\<forall>f \<in> set binding_fields. binding_field b f = Inr ())"
  by (auto simp: validate_binding_def result_iff)

lemma normal_result_get:
  "jget (normal_result b m ob ou de dv er dg) ''binding'' = b" "jget (normal_result b m ob ou de dv er dg) ''mode'' = m"
  "jget (normal_result b m ob ou de dv er dg) ''observation'' = ob"
  "jget (normal_result b m ob ou de dv er dg) ''mutation_outcome'' = ou"
  "jget (normal_result b m ob ou de dv er dg) ''detection'' = de" "jget (normal_result b m ob ou de dv er dg) ''deviation'' = dv"
  "jget (normal_result b m ob ou de dv er dg) ''error_class'' = er"
  "jget (normal_result b m ob ou de dv er dg) ''raw_digest'' = dg"
  "jget (normal_result b m ob ou de dv er dg) ''schema_version'' = JInt 1"
  "jget (normal_result b m ob ou de dv er dg) ''kind'' = JStr ''normalized_result''"
  by (simp_all add: normal_result_def jget_def)

text \<open>The four shapes a result has.\<close>

definition trusted :: "json \<Rightarrow> json \<Rightarrow> json \<Rightarrow> bool" where
  "trusted status code stop \<longleftrightarrow> status = JStr ''COMPLETED'' \<and> code = JInt 0 \<and> stop = JBool True"

lemma normalize_generic_cases:
  assumes "normalize_generic rl raw b status code stop = Inr r"
  shows "validate_binding b = Inr b \<and>
    (r = error_result b ''EXECUTION_FAILURE'' \<and> \<not> trusted status code stop \<or>
     trusted status code stop \<and>
     (\<exists>bytes v mode obs. raw = Some bytes \<and> length bytes \<le> MAX_RAW_BYTES \<and> decode_document rl bytes = Inr v \<and>
        validate_raw_shape v = Inr (jget v ''binding'', mode, obs) \<and> py_eq (jget v ''binding'') b \<and>
        (if mode = ''constraint'' then normalize_constraint obs b (sha256_hex bytes) = Inr r
         else if mode = ''mutation'' then normalize_mutation obs b (sha256_hex bytes) = Inr r
         else mode = ''llm'' \<and> normalize_llm obs b (sha256_hex bytes) = Inr r)))"
proof -
  from assms have b: "validate_binding b = Inr b" and stop: "\<exists>x. stop = JBool x"
    by (auto simp: normalize_generic_def result_iff validate_binding_Inr)
  show ?thesis
  proof (cases "trusted status code stop")
    case False
    with assms b stop show ?thesis by (auto simp: normalize_generic_def result_iff trusted_def)
  next
    case True
    with assms b obtain v digest raw_binding mode obs where parsed: "parse_raw rl raw = Inr (v, digest)"
      and shape: "validate_raw_shape v = Inr (raw_binding, mode, obs)" and eq: "py_eq raw_binding b"
      and result: "(if mode = ''constraint'' then normalize_constraint obs b digest
        else if mode = ''mutation'' then normalize_mutation obs b digest else normalize_llm obs b digest) = Inr r"
      by (auto simp: normalize_generic_def ebind_eq_Inr guard_eq_Inr trusted_def)
    from shape have "raw_binding = jget v ''binding''" and "mode \<in> set modes"
      by (auto simp: validate_raw_shape_def ebind_eq_Inr enum_check_Inr validate_binding_Inr)
    from parsed obtain bytes where bytes: "raw = Some bytes" "length bytes \<le> MAX_RAW_BYTES" "decode_document rl bytes = Inr v"
      "digest = sha256_hex bytes"
      by (auto simp: parse_raw_def ebind_eq_Inr guard_eq_Inr split: option.splits)
    from result \<open>mode \<in> set modes\<close> have "if mode = ''constraint'' then normalize_constraint obs b digest = Inr r
         else if mode = ''mutation'' then normalize_mutation obs b digest = Inr r
         else mode = ''llm'' \<and> normalize_llm obs b digest = Inr r"
      unfolding modes_def by (cases "mode = ''constraint''"; cases "mode = ''mutation''") simp_all
    with bytes shape eq b True \<open>raw_binding = jget v ''binding''\<close> show ?thesis by blast
  qed
qed

section \<open>What a result says\<close>

text \<open>C24.
  Only a trusted execution is believed.  A normalized result carries the expected binding; it reports
  anything but an execution failure only if the execution completed with exit code 0 and a confirmed
  stop, the raw document is within the limit, decodes and names the same binding, and then the result
  records the digest of exactly these bytes.
\<close>

theorem only_trusted_results:
  assumes "normalize_generic rl raw b status code stop = Inr r"
  shows "jget r ''binding'' = b \<and> validate_binding b = Inr b \<and>
    (r = error_result b ''EXECUTION_FAILURE'' \<longleftrightarrow> \<not> trusted status code stop) \<and>
    (trusted status code stop \<longrightarrow> (\<exists>bytes v. raw = Some bytes \<and> length bytes \<le> MAX_RAW_BYTES \<and>
       decode_document rl bytes = Inr v \<and> py_eq (jget v ''binding'') b \<and> jget v ''mode'' = jget r ''mode'' \<and>
       jget r ''raw_digest'' = JStr (sha256_hex bytes)))"
proof -
  note cases = normalize_generic_cases[OF assms]
  have mode: "jget v ''mode'' = JStr mode" if "validate_raw_shape v = Inr (x, mode, obs)" for v x mode obs
    using that by (auto simp: validate_raw_shape_def ebind_eq_Inr enum_check_Inr)
  have result: "jget r ''binding'' = b \<and> jget r ''mode'' = JStr mode \<and> jget r ''raw_digest'' = JStr dg"
    if "if mode = ''constraint'' then normalize_constraint obs b dg = Inr r
      else if mode = ''mutation'' then normalize_mutation obs b dg = Inr r
      else mode = ''llm'' \<and> normalize_llm obs b dg = Inr r" for mode obs dg
    using that by (auto simp: normalize_constraint_def normalize_mutation_def normalize_llm_def ebind_eq_Inr Let_def
        normal_result_get split: if_splits)
  have "jget (error_result b e) ''binding'' = b" "jget (error_result b e) ''mode'' = JNull" for e
    by (simp_all add: error_result_def normal_result_get)
  with cases result mode show ?thesis by fastforce
qed

text \<open>
  A mutation counts as killed only if the baseline passed, the mutation was applied and reached, it was
  detected and nothing unrelated failed; with an unreached mutation the result is no coverage, and when
  the baseline did not pass, something unrelated failed or the mutation was not applied it is an error
  with its class.  Contradictory observations are refused.
\<close>

theorem mutation_outcome_table:
  assumes "normalize_mutation obs b digest = Inr r"
  shows "(jget r ''mutation_outcome'' = JStr ''KILLED'' \<longleftrightarrow>
      jget obs ''baseline'' = JStr ''PASS'' \<and> jget obs ''mutation_applied'' = JBool True \<and> jget obs ''reached'' = JBool True \<and>
      jget obs ''detected'' = JBool True \<and> jget obs ''unrelated_failure'' = JBool False) \<and>
    (jget r ''mutation_outcome'' = JStr ''ERROR'' \<longleftrightarrow>
      jget obs ''baseline'' \<noteq> JStr ''PASS'' \<or> jget obs ''unrelated_failure'' = JBool True \<or>
      jget obs ''mutation_applied'' = JBool False) \<and>
    (jget r ''error_class'' = JNull \<longleftrightarrow> jget r ''mutation_outcome'' \<noteq> JStr ''ERROR'') \<and>
    (jget obs ''detected'' = JBool True \<longrightarrow> jget obs ''reached'' = JBool True)"
proof -
  from assms obtain ap re de un where flags: "jget obs ''mutation_applied'' = JBool ap" "jget obs ''reached'' = JBool re"
      "jget obs ''detected'' = JBool de" "jget obs ''unrelated_failure'' = JBool un" and consistent: "de \<longrightarrow> re"
    and r: "r = normal_result b (JStr ''mutation'') (jget obs ''baseline'')
        (JStr (fst (mutation_result (jget obs ''baseline'' = JStr ''PASS'') ap re de un))) JNull JNull
        (opt_str (snd (mutation_result (jget obs ''baseline'' = JStr ''PASS'') ap re de un))) (JStr digest)"
    by (auto simp: normalize_mutation_def result_iff Let_def)
  from consistent show ?thesis
    unfolding r normal_result_get flags
    by (cases "jget obs ''baseline'' = JStr ''PASS''"; cases ap; cases re; cases de; cases un)
      (simp_all add: mutation_result_def opt_str_def)
qed

section \<open>An instance\<close>

definition sample_binding :: json where
  "sample_binding = JObj
    [(''run_id'', JStr ''r''), (''operation_id'', JStr ''p''), (''owner_epoch'', JInt 1),
     (''contract_digest'', JStr (replicate 64 (CHR ''a''))), (''target_digest'', JStr (replicate 64 (CHR ''a''))),
     (''obligation_id'', JStr ''o''), (''case_id'', JStr ''c''), (''trial_id'', JStr ''t''), (''stage_id'', JStr ''s''),
     (''fixture_digest'', JStr (replicate 64 (CHR ''a''))), (''adapter_digest'', JStr (replicate 64 (CHR ''a''))),
     (''policy_digest'', JStr (replicate 64 (CHR ''a''))), (''evaluator_digest'', JStr (replicate 64 (CHR ''a''))),
     (''isolation_digest'', JStr (replicate 64 (CHR ''a'')))]"

definition sample_observations :: json where
  "sample_observations = JObj
    [(''baseline'', JStr ''PASS''), (''mutation_applied'', JBool True), (''reached'', JBool True),
     (''detected'', JBool True), (''unrelated_failure'', JBool False)]"

definition sample_raw :: json where
  "sample_raw = JObj
    [(''schema_version'', JInt 1), (''kind'', JStr ''gah_generic_result''), (''binding'', sample_binding),
     (''mode'', JStr ''mutation''), (''observations'', sample_observations)]"

lemma sample_binding_fields: "binding_field sample_binding f = Inr ()" if "f \<in> set binding_fields"
proof -
  have digest: "digest_ok (replicate 64 (CHR ''a''))"
    by (simp add: digest_ok_def list_all_iff hex_lower_def is_digit_def)
  have "list_all (\<lambda>f. binding_field sample_binding f = Inr ()) binding_fields"
    by (simp add: binding_fields_def binding_field_def sample_binding_def jget_def suffix_to_prefix require_uint_def
        require_digest_def require_id_def digest id_ok_def alnum_def is_digit_def MAX_INTEGER_def)
  with that show ?thesis by (simp add: list_all_iff)
qed

lemma sample_binding_valid: "validate_binding sample_binding = Inr sample_binding"
proof -
  have "is_obj sample_binding" "set (jkeys sample_binding) = set binding_fields"
    by (simp_all add: sample_binding_def binding_fields_def)
  then show ?thesis by (simp add: validate_binding_Inr sample_binding_fields)
qed

lemma binding_field_jsort: "jwf b \<Longrightarrow> binding_field (jsort b) f = binding_field b f"
  by (simp add: binding_field_def jget_jsort require_uint_def require_digest_def require_id_def)

lemma validate_binding_jsort: "jwf b \<Longrightarrow> validate_binding b = Inr b \<Longrightarrow> validate_binding (jsort b) = Inr (jsort b)"
  by (simp add: validate_binding_Inr binding_field_jsort)

lemma sample_raw_ok: "document_ok sample_raw" "length (dumps sample_raw) \<le> 10000"
proof -
  show "document_ok sample_raw"
    by (simp add: document_ok_def sample_raw_def sample_binding_def sample_observations_def int_bad_def MAX_INTEGER_def
        utf8_ok_ascii ascii_def)
  show "length (dumps sample_raw) \<le> 10000"
    by (rule order_trans[OF length_dumps])
      (simp add: sample_raw_def sample_binding_def sample_observations_def show_nat.simps)
qed

lemma sample_raw_decoded: "decode_document 17 (dumps sample_raw) = Inr (jsort sample_raw)"
  using decode_document_dumps[OF sample_raw_ok(1)] sample_raw_ok(2) by (simp add: MAX_DOCUMENT_BYTES_def)

lemma sample_raw_jwf: "jwf sample_raw \<and> jwf sample_binding \<and> jwf sample_observations"
  by (simp add: sample_raw_def sample_binding_def sample_observations_def max_str_digits_def show_nat.simps)

lemma sample_raw_parts:
  "jget sample_raw ''schema_version'' = JInt 1" "jget sample_raw ''kind'' = JStr ''gah_generic_result''"
  "jget sample_raw ''binding'' = sample_binding" "jget sample_raw ''mode'' = JStr ''mutation''"
  "jget sample_raw ''observations'' = sample_observations"
  by (simp_all add: sample_raw_def jget_def)

lemma sample_mutation:
  "normalize_mutation (jsort sample_observations) sample_binding digest =
    Inr (normal_result sample_binding (JStr ''mutation'') (JStr ''PASS'') (JStr ''KILLED'') JNull JNull JNull (JStr digest))"
  using sample_raw_jwf
  by (simp add: normalize_mutation_def require_object_def enum_check_def bool_check_def jget_jsort)
    (simp add: sample_observations_def jget_def checks_def mutation_result_def opt_str_def)

lemma sample_normalized:
  "normalize_generic 17 (Some (dumps sample_raw)) sample_binding (JStr ''COMPLETED'') (JInt 0) (JBool True) =
    Inr (normal_result sample_binding (JStr ''mutation'') (JStr ''PASS'') (JStr ''KILLED'') JNull JNull JNull
      (JStr (sha256_hex (dumps sample_raw))))"
proof -
  have "validate_raw_shape (jsort sample_raw) = Inr (jsort sample_binding, ''mutation'', jsort sample_observations)"
    using sample_raw_jwf validate_binding_jsort[OF _ sample_binding_valid]
    by (simp add: validate_raw_shape_def require_object_def jget_jsort sample_raw_parts enum_check_def modes_def)
      (simp add: sample_raw_def sample_observations_def)
  then show ?thesis
    using sample_raw_ok(2)
    by (simp add: normalize_generic_def sample_binding_valid enum_check_def bool_check_def execution_statuses_def
        exit_code_ok_def parse_raw_def sample_raw_decoded MAX_RAW_BYTES_def MAX_DOCUMENT_BYTES_def sample_mutation)
qed

theorem only_trusted_results_witness:
  "trusted (JStr ''COMPLETED'') (JInt 0) (JBool True) \<and> validate_binding sample_binding = Inr sample_binding"
  using only_trusted_results[OF sample_normalized] by (simp add: trusted_def)

theorem mutation_outcome_table_witness:
  "jget (jsort sample_observations) ''unrelated_failure'' = JBool False"
  using mutation_outcome_table[OF sample_mutation[of digest]] unfolding normal_result_get by blast

end
