(* ===== verification/Journal_Checks.thy ===== *)
theory Journal_Checks
  imports Normalized
begin

text \<open>
  The checks of the execution journal (\<open>src/src/gah/execution_journal.py\<close>): the identifiers of an
  execution, normalized results, isolation probes and receipts.  Whether a guardrail case bundle is
  admissible is decided by \<open>guardrail_results.py\<close> against generated corpora and a lock file; it is the
  parameter \<open>bundle_ok\<close>.
\<close>

section \<open>Constants\<close>

definition MAX_RECEIPT_BYTES :: nat where
  "MAX_RECEIPT_BYTES = 512 * 1024"

definition STATES :: "string list" where
  "STATES = [''INTENT'', ''CREATED'', ''STARTING'', ''RUNNING'', ''STOPPED'', ''FINISHED'']"

definition constraint_scenarios :: "string list" where
  "constraint_scenarios = concat (map (\<lambda>n. [''constraint:C'' @ n @ '':good'', ''constraint:C'' @ n @ '':bad''])
     [''01'', ''02'', ''03'', ''04'', ''05'', ''06'', ''07'', ''08'', ''09'', ''10''])"

definition mutation_scenarios :: "string list" where
  "mutation_scenarios = concat (map (\<lambda>n. [''mutation:F'' @ n @ '':healthy'', ''mutation:F'' @ n @ '':decayed''])
     [''01'', ''02'', ''03'', ''04'', ''05''])"

definition probe_scenarios :: "string list" where
  "probe_scenarios = map (\<lambda>n. ''probe:'' @ n)
     [''isolation'', ''child_timeout'', ''oversized'', ''malformed'', ''rejected_marker'', ''crash'']"

definition is_guardrail :: "string \<Rightarrow> bool" where
  "is_guardrail s = prefix ''guardrail:'' s"

text \<open>\<open>_SCENARIO\<close>, \<open>_IMAGE\<close>, \<open>_TOKEN\<close>, \<open>_CONTAINER\<close>; \<open>_CONTAINER_ID\<close> is \<open>digest_ok\<close>.\<close>

definition scenario_ok :: "string \<Rightarrow> bool" where
  "scenario_ok s \<longleftrightarrow> s \<in> set constraint_scenarios \<or> s \<in> set mutation_scenarios \<or> s \<in> set probe_scenarios \<or>
     is_guardrail s \<and> digest_ok (drop 10 s)"

definition image_ok :: "string \<Rightarrow> bool" where
  "image_ok s \<longleftrightarrow> prefix ''sha256:'' s \<and> digest_ok (drop 7 s)"

definition hex_token_ok :: "string \<Rightarrow> bool" where
  "hex_token_ok s \<longleftrightarrow> length s = 32 \<and> list_all hex_lower s"

definition container_name_ok :: "string \<Rightarrow> bool" where
  "container_name_ok s \<longleftrightarrow> prefix ''gah-'' s \<and> hex_token_ok (drop 4 s)"

definition receipt_fields :: "string list" where
  "receipt_fields =
    [''schema_version'', ''kind'', ''binding'', ''scenario'', ''image_id'', ''container_id'', ''execution_status'',
     ''exit_code'', ''stop_confirmed'', ''reason'', ''elapsed_millis'', ''isolation_config_verified'',
     ''output_disposition'', ''cleanup_confirmed'', ''recovered'', ''normalized_result'', ''probe_result'', ''ci_eligible'']"

definition receipt_reasons :: "string list" where
  "receipt_reasons =
    [''DOCKER_UNAVAILABLE'', ''IMAGE_MISMATCH'', ''CONFIG_MISMATCH'', ''TIMEOUT'', ''RUN_DEADLINE'', ''CANCEL_REQUESTED'',
     ''OUTPUT_TOO_LARGE'', ''OUTPUT_REJECTED'', ''EXECUTION_FAILURE'', ''STOP_UNCONFIRMED'', ''CLEANUP_FAILED'',
     ''INTERRUPTED'', ''CLOCK_FAILURE'']"

definition output_dispositions :: "string list" where
  "output_dispositions = [''ADMITTED'', ''REJECTED'', ''NOT_COLLECTED'']"

definition normalized_fields :: "string list" where
  "normalized_fields =
    [''schema_version'', ''kind'', ''binding'', ''mode'', ''observation'', ''mutation_outcome'', ''detection'', ''deviation'',
     ''error_class'', ''raw_digest'']"

definition normalized_outcomes :: "string list" where
  "normalized_outcomes = [''KILLED'', ''SURVIVED'', ''NO_COVERAGE'', ''ERROR'']"

definition normalized_errors :: "string list" where
  "normalized_errors = [''EXECUTION_FAILURE'', ''BASELINE_NOT_PASS'', ''UNRELATED_FAILURE'', ''MUTATION_NOT_APPLIED'']"

definition probe_checks :: "string list" where
  "probe_checks =
    [''nonroot'', ''root_readonly'', ''network_unreachable'', ''capabilities_dropped'', ''no_new_privileges'',
     ''seccomp_filter'', ''pid_limit'', ''memory_limit'', ''cpu_limit'']"

section \<open>Identifiers\<close>

definition require_scenario :: "json \<Rightarrow> contract_error + unit" where
  "require_scenario v = guard (is_str v \<and> scenario_ok (str_of v)) (ContractError ''INVALID_SCENARIO'')"

definition require_image :: "json \<Rightarrow> contract_error + unit" where
  "require_image v = guard (is_str v \<and> image_ok (str_of v)) (ContractError ''INVALID_IMAGE_ID'')"

definition require_container_id :: "json \<Rightarrow> contract_error + unit" where
  "require_container_id v =
    guard (v = JNull \<or> is_str v \<and> digest_ok (str_of v)) (ContractError ''INVALID_CONTAINER_ID'')"

text \<open>The value as a document, with its canonical text.\<close>

definition canonical_object :: "nat \<Rightarrow> nat option \<Rightarrow> json \<Rightarrow> contract_error + json \<times> string" where
  "canonical_object rl maximum v =
    ebind (guard (is_obj v) INVALID_CONTRACT) (\<lambda>_.
    ebind (on_error (canonical_bytes v) (\<lambda>_. INVALID_CONTRACT)) (\<lambda>payload.
    ebind (guard (case maximum of None \<Rightarrow> True | Some m \<Rightarrow> length payload \<le> m) (ContractError ''RECEIPT_TOO_LARGE'')) (\<lambda>_.
    ebind (on_error (decode_document rl payload) (\<lambda>_. INVALID_CONTRACT)) (\<lambda>parsed.
    ebind (guard (py_eq parsed v) INVALID_CONTRACT) (\<lambda>_. Inr (parsed, payload))))))"

section \<open>Normalized results and probes\<close>

definition opt_member :: "json \<Rightarrow> string list \<Rightarrow> bool" where
  "opt_member v allowed \<longleftrightarrow> v = JNull \<or> is_str v \<and> str_of v \<in> set allowed"

text \<open>What each mode leaves empty and fills.\<close>

definition normalized_shape :: "json \<Rightarrow> bool" where
  "normalized_shape n =
    (let mode = jget n ''mode''; observation = jget n ''observation''; outcome = jget n ''mutation_outcome'';
         detection = jget n ''detection''; deviation = jget n ''deviation''; error_class = jget n ''error_class'';
         raw_digest = jget n ''raw_digest''
     in if mode = JNull then
          observation = JNull \<and> outcome = JStr ''ERROR'' \<and> detection = JNull \<and> deviation = JNull \<and> raw_digest = JNull \<and>
          error_class \<noteq> JNull
        else if mode = JStr ''constraint'' then
          observation \<noteq> JNull \<and> outcome = JNull \<and> detection = JNull \<and> deviation = JNull \<and> error_class = JNull \<and>
          raw_digest \<noteq> JNull
        else if mode = JStr ''mutation'' then
          observation \<noteq> JNull \<and> outcome \<noteq> JNull \<and> detection = JNull \<and> deviation = JNull \<and> raw_digest \<noteq> JNull
        else if mode = JStr ''llm'' then
          observation = JNull \<and> outcome = JNull \<and> detection \<noteq> JNull \<and> error_class = JNull \<and> raw_digest \<noteq> JNull
        else True)"

abbreviation INVALID_NORMALIZED :: contract_error where
  "INVALID_NORMALIZED \<equiv> ContractError ''INVALID_NORMALIZED_RESULT''"

definition validate_normalized :: "nat \<Rightarrow> json \<Rightarrow> json \<Rightarrow> contract_error + unit" where
  "validate_normalized rl v binding =
    ebind (canonical_object rl None v) (\<lambda>(n, _).
    ebind (guard (set (jkeys n) = set normalized_fields) INVALID_NORMALIZED) (\<lambda>_.
    ebind (guard (jget n ''schema_version'' = JInt 1 \<and> jget n ''kind'' = JStr ''normalized_result'') INVALID_NORMALIZED) (\<lambda>_.
    ebind (on_error (validate_binding (jget n ''binding'')) (\<lambda>_. INVALID_NORMALIZED)) (\<lambda>b.
    ebind (guard (py_eq b binding) (ContractError ''BINDING_MISMATCH'')) (\<lambda>_.
    ebind (guard (opt_member (jget n ''mode'') modes \<and> opt_member (jget n ''observation'') checks \<and>
        opt_member (jget n ''mutation_outcome'') normalized_outcomes \<and> opt_member (jget n ''detection'') detections \<and>
        (jget n ''deviation'' = JNull \<or> is_bool (jget n ''deviation'')) \<and>
        opt_member (jget n ''error_class'') normalized_errors) INVALID_NORMALIZED) (\<lambda>_.
    ebind (if jget n ''raw_digest'' = JNull then Inr ()
           else on_error (require_digest (jget n ''raw_digest'')) (\<lambda>_. INVALID_NORMALIZED)) (\<lambda>_.
    guard (normalized_shape n) INVALID_NORMALIZED)))))))"

abbreviation INVALID_PROBE :: contract_error where
  "INVALID_PROBE \<equiv> ContractError ''INVALID_PROBE_RESULT''"

definition validate_probe :: "nat \<Rightarrow> json \<Rightarrow> json \<Rightarrow> contract_error + unit" where
  "validate_probe rl v binding =
    ebind (canonical_object rl None v) (\<lambda>(p, _).
    ebind (guard (set (jkeys p) = {''schema_version'', ''kind'', ''binding'', ''checks''}) INVALID_PROBE) (\<lambda>_.
    ebind (guard (jget p ''schema_version'' = JInt 1 \<and> jget p ''kind'' = JStr ''gah_isolation_probe'') INVALID_PROBE) (\<lambda>_.
    ebind (on_error (validate_binding (jget p ''binding'')) (\<lambda>_. INVALID_PROBE)) (\<lambda>b.
    ebind (guard (py_eq b binding) (ContractError ''BINDING_MISMATCH'')) (\<lambda>_.
    ebind (guard (is_obj (jget p ''checks'') \<and> set (jkeys (jget p ''checks'')) = set probe_checks) INVALID_PROBE) (\<lambda>_.
    guard (list_all is_bool (jvalues (jget p ''checks''))) INVALID_PROBE))))))"

section \<open>Receipts\<close>

abbreviation INVALID_RECEIPT :: contract_error where
  "INVALID_RECEIPT \<equiv> ContractError ''INVALID_RECEIPT''"

text \<open>The case of a guardrail receipt: admissible, and its request is the one the scenario names.\<close>

definition case_result_check :: "(json \<Rightarrow> bool) \<Rightarrow> json \<Rightarrow> json \<Rightarrow> string \<Rightarrow> string \<Rightarrow> contract_error + unit" where
  "case_result_check bundle_ok v binding scenario image_id =
    (let request = jget v ''request'' in
     guard (bundle_ok v \<and> ''guardrail:'' @ sha256_of request = scenario \<and>
       (case jitems (jget request ''stages'') of [] \<Rightarrow> False | stage # _ \<Rightarrow> py_eq (jget stage ''binding'') binding) \<and>
       jget (jget request ''target'') ''runtime_image_id'' = JStr image_id) INVALID_RECEIPT)"

text \<open>The text before the first colon.\<close>

definition scenario_mode :: "string \<Rightarrow> string" where
  "scenario_mode s = takeWhile (\<lambda>c. c \<noteq> CHR '':'') s"

text \<open>The status against the other fields: what a completed execution has to show, and what a failed one
  may claim.\<close>

definition completed_ok :: "json \<Rightarrow> string \<Rightarrow> bool" where
  "completed_ok r scenario \<longleftrightarrow>
     jget r ''exit_code'' = JInt 0 \<and> jget r ''container_id'' \<noteq> JNull \<and> jget r ''stop_confirmed'' = JBool True \<and>
     jget r ''cleanup_confirmed'' = JBool True \<and> jget r ''isolation_config_verified'' = JBool True \<and>
     jget r ''reason'' = JNull \<and> jget r ''recovered'' = JBool False \<and> jget r ''output_disposition'' = JStr ''ADMITTED'' \<and>
     (if is_guardrail scenario then jget r ''case_result'' \<noteq> JNull
      else if scenario = ''probe:isolation'' then jget r ''probe_result'' \<noteq> JNull \<and> jget r ''normalized_result'' = JNull
      else jget r ''normalized_result'' \<noteq> JNull \<and> jget r ''probe_result'' = JNull) \<and>
     (if scenario = ''probe:isolation'' then
        list_all (\<lambda>c. c = JBool True) (jvalues (jget (jget r ''probe_result'') ''checks''))
      else is_guardrail scenario \<or>
        \<not> prefix ''probe:'' scenario \<and> jget (jget r ''normalized_result'') ''mode'' = JStr (scenario_mode scenario))"

definition valid_reasons :: "string \<Rightarrow> string list" where
  "valid_reasons status =
    (if status = ''CANCELLED'' then [''CANCEL_REQUESTED'']
     else if status = ''TIMEOUT'' then [''TIMEOUT'', ''RUN_DEADLINE'']
     else filter (\<lambda>x. x \<notin> {''TIMEOUT'', ''RUN_DEADLINE'', ''CANCEL_REQUESTED''}) receipt_reasons)"

definition failed_ok :: "json \<Rightarrow> string \<Rightarrow> bool" where
  "failed_ok r scenario \<longleftrightarrow>
     jget r ''normalized_result'' = JNull \<and> jget r ''probe_result'' = JNull \<and>
     (is_guardrail scenario \<longrightarrow> jget r ''case_result'' = JNull) \<and>
     jget r ''output_disposition'' \<noteq> JStr ''ADMITTED'' \<and>
     is_str (jget r ''reason'') \<and> str_of (jget r ''reason'') \<in> set (valid_reasons (str_of (jget r ''execution_status''))) \<and>
     jget r ''output_disposition'' =
       JStr (if str_of (jget r ''reason'') \<in> {''OUTPUT_REJECTED'', ''OUTPUT_TOO_LARGE''} then ''REJECTED'' else ''NOT_COLLECTED'')"

text \<open>The fields of a receipt, before the parts it contains.\<close>

definition receipt_field_checks :: "json \<Rightarrow> json \<Rightarrow> string \<Rightarrow> string \<Rightarrow> json \<Rightarrow> contract_error + unit" where
  "receipt_field_checks r binding scenario image_id container_id =
    ebind (guard (set (jkeys r) = set receipt_fields \<union> (if is_guardrail scenario then {''case_result''} else {})) INVALID_RECEIPT) (\<lambda>_.
    ebind (guard (jget r ''schema_version'' = JInt 1) (ContractError ''UNSUPPORTED_VERSION'')) (\<lambda>_.
    ebind (guard (jget r ''kind'' = JStr (if is_guardrail scenario then ''guardrail_execution'' else ''fixture_execution'') \<and>
      jget r ''ci_eligible'' = JBool False) INVALID_RECEIPT) (\<lambda>_.
    ebind (on_error (validate_binding (jget r ''binding'')) (\<lambda>_. INVALID_RECEIPT)) (\<lambda>b.
    ebind (guard (py_eq b binding \<and> jget r ''scenario'' = JStr scenario \<and> jget r ''image_id'' = JStr image_id)
      (ContractError ''BINDING_MISMATCH'')) (\<lambda>_.
    ebind (require_container_id (jget r ''container_id'')) (\<lambda>_.
    ebind (guard (jget r ''container_id'' = container_id) (ContractError ''BINDING_MISMATCH'')) (\<lambda>_.
    ebind (on_error (enum_check execution_statuses (jget r ''execution_status'')) (\<lambda>_. INVALID_RECEIPT)) (\<lambda>_.
    ebind (guard (exit_code_ok (jget r ''exit_code'')) INVALID_RECEIPT) (\<lambda>_.
    ebind (guard (is_bool (jget r ''stop_confirmed'')) INVALID_RECEIPT) (\<lambda>_.
    ebind (guard (opt_member (jget r ''reason'') receipt_reasons) INVALID_RECEIPT) (\<lambda>_.
    ebind (on_error (require_uint MAX_INTEGER (jget r ''elapsed_millis'')) (\<lambda>_. INVALID_RECEIPT)) (\<lambda>_.
    ebind (guard (is_bool (jget r ''isolation_config_verified'')) INVALID_RECEIPT) (\<lambda>_.
    ebind (on_error (enum_check output_dispositions (jget r ''output_disposition'')) (\<lambda>_. INVALID_RECEIPT)) (\<lambda>_.
    guard (is_bool (jget r ''cleanup_confirmed'') \<and> is_bool (jget r ''recovered'')) INVALID_RECEIPT))))))))))))))"

definition receipt_part_checks :: "nat \<Rightarrow> (json \<Rightarrow> bool) \<Rightarrow> json \<Rightarrow> json \<Rightarrow> string \<Rightarrow> string \<Rightarrow> contract_error + unit" where
  "receipt_part_checks rl bundle_ok r binding scenario image_id =
    ebind (if \<not> is_guardrail scenario then Inr ()
           else
             ebind (guard (jget r ''normalized_result'' = JNull \<and> jget r ''probe_result'' = JNull) INVALID_RECEIPT) (\<lambda>_.
             if jget r ''case_result'' = JNull then Inr ()
             else case_result_check bundle_ok (jget r ''case_result'') binding scenario image_id)) (\<lambda>_.
    ebind (if jget r ''normalized_result'' = JNull then Inr ()
           else validate_normalized rl (jget r ''normalized_result'') binding) (\<lambda>_.
    ebind (if jget r ''probe_result'' = JNull then Inr () else validate_probe rl (jget r ''probe_result'') binding) (\<lambda>_.
    guard (if jget r ''execution_status'' = JStr ''COMPLETED'' then completed_ok r scenario else failed_ok r scenario)
      INVALID_RECEIPT)))"

definition validate_receipt :: "nat \<Rightarrow> (json \<Rightarrow> bool) \<Rightarrow> json \<Rightarrow> json \<Rightarrow> string \<Rightarrow> string \<Rightarrow> json \<Rightarrow>
    contract_error + json \<times> string \<times> string" where
  "validate_receipt rl bundle_ok v binding scenario image_id container_id =
    ebind (canonical_object rl (Some MAX_RECEIPT_BYTES) v) (\<lambda>(receipt, payload).
    ebind (receipt_field_checks receipt binding scenario image_id container_id) (\<lambda>_.
    ebind (receipt_part_checks rl bundle_ok receipt binding scenario image_id) (\<lambda>_.
    Inr (receipt, payload, sha256_hex payload))))"

end
