(* ===== verification/Journal.thy ===== *)
theory Journal
  imports Journal_Checks Machine
begin

text \<open>
  The journal of supervised executions (\<open>ExecutionJournal\<close> in \<open>src/src/gah/execution_journal.py\<close>).
  The table \<open>executions\<close> is a list of rows in insertion order with the key (run, operation).  A call
  maps the journal to the returned document or raised error and the journal afterwards; the body of its
  transaction is the function with the suffix \<open>_tx\<close>, on the rows alone.  Inputs of the environment
  are what SQLite does with the transaction and the two random identifiers of \<open>uuid4\<close>.
\<close>

datatype journal_error = JournalError string | Contract contract_error

record execution =
  ex_run_id :: string
  ex_operation_id :: string
  request_digest :: string
  binding_json :: string
  scenario :: string
  image_id :: string
  run_deadline :: int
  timeout_seconds :: int
  container_name :: string
  owner_token :: string
  container_id :: "string option"
  ex_state :: string
  receipt_json :: "string option"
  receipt_digest :: "string option"

record journal =
  executions :: "execution list"
  journal_open :: bool

definition ex_key :: "execution \<Rightarrow> string \<times> string" where
  "ex_key r = (ex_run_id r, ex_operation_id r)"

abbreviation STORAGE_CORRUPT :: journal_error where
  "STORAGE_CORRUPT \<equiv> JournalError ''STORAGE_CORRUPT''"

section \<open>Transactions\<close>

text \<open>\<open>_transaction\<close>: whatever is raised inside rolls back.\<close>

definition journal_transaction :: "io_fault \<Rightarrow> (execution list \<Rightarrow> journal_error + 'a \<times> execution list) \<Rightarrow> journal \<Rightarrow>
    (journal_error + 'a) \<times> journal" where
  "journal_transaction fault body j =
    (if \<not> journal_open j then (Inl (JournalError ''JOURNAL_CLOSED''), j)
     else if fault \<in> {Begin_fails, Statement_fails} then (Inl (JournalError ''STORAGE_FAILURE''), j)
     else case body (executions j) of
         Inl e \<Rightarrow> (Inl e, j)
       | Inr (x, rows) \<Rightarrow>
           if fault = Commit_fails then (Inl (JournalError ''STORAGE_FAILURE''), j)
           else (Inr x, j\<lparr>executions := rows\<rparr>))"

definition checked :: "contract_error + 'a \<Rightarrow> ('a \<Rightarrow> journal \<Rightarrow> (journal_error + 'b) \<times> journal) \<Rightarrow> journal \<Rightarrow>
    (journal_error + 'b) \<times> journal" where
  "checked m k j = (case m of Inl e \<Rightarrow> (Inl (Contract e), j) | Inr x \<Rightarrow> k x j)"

definition close_journal :: "journal \<Rightarrow> journal" where
  "close_journal j = j\<lparr>journal_open := False\<rparr>"

section \<open>Rows\<close>

text \<open>\<open>_request\<close>: the digest of what was asked for.  The text of a validated binding is ASCII.\<close>

definition request_document :: "json \<Rightarrow> string \<Rightarrow> string \<Rightarrow> int \<Rightarrow> int \<Rightarrow> json" where
  "request_document binding scen img deadline timeout = JObj
    [(''binding'', binding), (''scenario'', JStr scen), (''image_id'', JStr img),
     (''run_deadline'', JInt deadline), (''timeout_seconds'', JInt timeout)]"

text \<open>The arguments of \<open>begin\<close>; the text of the binding and the digest are returned as a pair.\<close>

definition validate_begin :: "json \<Rightarrow> json \<Rightarrow> json \<Rightarrow> json \<Rightarrow> json \<Rightarrow> contract_error + string \<times> string" where
  "validate_begin binding scen img deadline timeout =
    ebind (validate_binding binding) (\<lambda>validated.
    ebind (require_scenario scen) (\<lambda>_.
    ebind (require_image img) (\<lambda>_.
    ebind (require_uint MAX_INTEGER deadline) (\<lambda>_.
    ebind (guard (is_int timeout \<and> 1 \<le> int_of timeout \<and> int_of timeout \<le> 120) (ContractError ''INVALID_TIMEOUT'')) (\<lambda>_.
    Inr (dumps validated,
      sha256_of (request_document validated (str_of scen) (str_of img) (int_of deadline) (int_of timeout))))))))"

text \<open>The receipt stored in a row.\<close>

definition verify_stored_receipt :: "nat \<Rightarrow> (json \<Rightarrow> bool) \<Rightarrow> json \<Rightarrow> execution \<Rightarrow> journal_error + json option" where
  "verify_stored_receipt rl bundle_ok binding row =
    (case (receipt_json row, receipt_digest row) of
       (None, None) \<Rightarrow> Inr None
     | (Some text, Some digest) \<Rightarrow>
         ebind (on_error (decode_document rl text) (\<lambda>_. STORAGE_CORRUPT)) (\<lambda>v.
         ebind (on_error (validate_receipt rl bundle_ok v binding (scenario row) (image_id row) (opt_str (container_id row)))
           (\<lambda>_. STORAGE_CORRUPT)) (\<lambda>receipt.
         ebind (guard (snd receipt = (text, digest)) STORAGE_CORRUPT) (\<lambda>_.
         Inr (Some (fst receipt)))))
     | _ \<Rightarrow> Inl STORAGE_CORRUPT)"

text \<open>The scalar columns of a row.\<close>

definition row_columns_ok :: "execution \<Rightarrow> bool" where
  "row_columns_ok row \<longleftrightarrow>
     scenario_ok (scenario row) \<and> image_ok (image_id row) \<and> 0 \<le> run_deadline row \<and> run_deadline row \<le> MAX_INTEGER \<and>
     1 \<le> timeout_seconds row \<and> timeout_seconds row \<le> 120 \<and> container_name_ok (container_name row) \<and>
     hex_token_ok (owner_token row) \<and> (case container_id row of None \<Rightarrow> True | Some c \<Rightarrow> digest_ok c) \<and>
     ex_state row \<in> set STATES"

text \<open>\<open>_verify_row\<close>: the binding and the receipt of a row that is as the journal wrote it.\<close>

definition verify_row :: "nat \<Rightarrow> (json \<Rightarrow> bool) \<Rightarrow> execution \<Rightarrow> journal_error + json \<times> json option" where
  "verify_row rl bundle_ok row =
    ebind (guard (id_ok (ex_run_id row) \<and> id_ok (ex_operation_id row)) STORAGE_CORRUPT) (\<lambda>_.
    ebind (on_error (decode_document rl (binding_json row)) (\<lambda>_. STORAGE_CORRUPT)) (\<lambda>decoded.
    ebind (on_error (validate_binding decoded) (\<lambda>_. STORAGE_CORRUPT)) (\<lambda>binding.
    ebind (guard (jget binding ''run_id'' = JStr (ex_run_id row) \<and> jget binding ''operation_id'' = JStr (ex_operation_id row))
      STORAGE_CORRUPT) (\<lambda>_.
    ebind (guard (row_columns_ok row) STORAGE_CORRUPT) (\<lambda>_.
    ebind (guard (dumps binding = binding_json row \<and>
        sha256_of (request_document binding (scenario row) (image_id row) (run_deadline row) (timeout_seconds row)) =
          request_digest row) STORAGE_CORRUPT) (\<lambda>_.
    ebind (verify_stored_receipt rl bundle_ok binding row) (\<lambda>receipt.
    ebind (guard ((ex_state row = ''FINISHED'') = (receipt \<noteq> None)) STORAGE_CORRUPT) (\<lambda>_.
    Inr (binding, receipt)))))))))"

definition output_of :: "execution \<Rightarrow> json \<times> json option \<Rightarrow> bool option \<Rightarrow> json" where
  "output_of row verified new = JObj
    ([(''run_id'', JStr (ex_run_id row)), (''operation_id'', JStr (ex_operation_id row)),
      (''request_digest'', JStr (request_digest row)), (''binding'', fst verified), (''scenario'', JStr (scenario row)),
      (''image_id'', JStr (image_id row)), (''run_deadline'', JInt (run_deadline row)),
      (''timeout_seconds'', JInt (timeout_seconds row)), (''container_name'', JStr (container_name row)),
      (''owner_token'', JStr (owner_token row)), (''container_id'', opt_str (container_id row)),
      (''state'', JStr (ex_state row))] @
     (case snd verified of None \<Rightarrow> [] | Some receipt \<Rightarrow> [(''receipt'', receipt)]) @
     (case new of None \<Rightarrow> [] | Some b \<Rightarrow> [(''new'', JBool b)]))"

text \<open>The row is read back after the write and verified; a missing row is a \<open>TypeError\<close> there.\<close>

definition reread :: "nat \<Rightarrow> (json \<Rightarrow> bool) \<Rightarrow> string \<times> string \<Rightarrow> bool option \<Rightarrow> execution list \<Rightarrow>
    journal_error + json \<times> execution list" where
  "reread rl bundle_ok k new rows =
    (case row_find ex_key k rows of
       None \<Rightarrow> Inl STORAGE_CORRUPT
     | Some row \<Rightarrow> ebind (verify_row rl bundle_ok row) (\<lambda>verified. Inr (output_of row verified new, rows)))"

text \<open>The row a method starts from.\<close>

definition with_row :: "nat \<Rightarrow> (json \<Rightarrow> bool) \<Rightarrow> string \<times> string \<Rightarrow>
    (execution \<Rightarrow> json \<times> json option \<Rightarrow> journal_error + 'a) \<Rightarrow> execution list \<Rightarrow> journal_error + 'a" where
  "with_row rl bundle_ok k body rows =
    (case row_find ex_key k rows of
       None \<Rightarrow> Inl (JournalError ''NOT_FOUND'')
     | Some row \<Rightarrow> ebind (verify_row rl bundle_ok row) (body row))"

section \<open>Operations\<close>

record uuids =
  uuid_token :: string
  uuid_container :: string

definition begin_tx :: "nat \<Rightarrow> (json \<Rightarrow> bool) \<Rightarrow> uuids \<Rightarrow> json \<Rightarrow> json \<Rightarrow> json \<Rightarrow> json \<Rightarrow> json \<Rightarrow> string \<times> string \<Rightarrow>
    execution list \<Rightarrow> journal_error + json \<times> execution list" where
  "begin_tx rl bundle_ok ids binding scen img deadline timeout packed rows =
    (let k = (str_of (jget binding ''run_id''), str_of (jget binding ''operation_id'')) in
     case row_find ex_key k rows of
       Some row \<Rightarrow>
         ebind (verify_row rl bundle_ok row) (\<lambda>verified.
         ebind (guard (request_digest row = snd packed) (JournalError ''REQUEST_CONFLICT'')) (\<lambda>_.
         Inr (output_of row verified (Some False), rows)))
     | None \<Rightarrow>
         reread rl bundle_ok k (Some True) (rows @
           [\<lparr>ex_run_id = fst k, ex_operation_id = snd k, request_digest = snd packed, binding_json = fst packed,
             scenario = str_of scen, image_id = str_of img, run_deadline = int_of deadline,
             timeout_seconds = int_of timeout, container_name = ''gah-'' @ uuid_container ids,
             owner_token = uuid_token ids, container_id = None, ex_state = ''INTENT'', receipt_json = None,
             receipt_digest = None\<rparr>]))"

definition begin_execution :: "nat \<Rightarrow> (json \<Rightarrow> bool) \<Rightarrow> io_fault \<Rightarrow> uuids \<Rightarrow> json \<Rightarrow> json \<Rightarrow> json \<Rightarrow> json \<Rightarrow> json \<Rightarrow>
    journal \<Rightarrow> (journal_error + json) \<times> journal" where
  "begin_execution rl bundle_ok fault ids binding scen img deadline timeout =
    checked (validate_begin binding scen img deadline timeout) (\<lambda>packed.
    journal_transaction fault (begin_tx rl bundle_ok ids binding scen img deadline timeout packed))"

text \<open>\<open>_ADVANCE\<close>.\<close>

definition state_index :: "string \<Rightarrow> nat" where
  "state_index s = length (takeWhile (\<lambda>t. t \<noteq> s) STATES)"

definition require_token :: "json \<Rightarrow> contract_error + unit" where
  "require_token v = guard (is_str v \<and> hex_token_ok (str_of v)) (ContractError ''INVALID_OWNER_TOKEN'')"

definition json_text :: "json \<Rightarrow> string option" where
  "json_text v = (if is_str v then Some (str_of v) else None)"

definition advance_checks :: "execution \<Rightarrow> string \<Rightarrow> string option \<Rightarrow> journal_error + unit" where
  "advance_checks row target cid =
    (let current = state_index (ex_state row); index = state_index target;
         direct_stop = (target = ''STOPPED'' \<and> ex_state row \<in> {''CREATED'', ''STARTING'', ''RUNNING''})
     in
     ebind (guard (\<not> (index < current \<or> index > current + 1 \<and> \<not> direct_stop)) (JournalError ''INVALID_TRANSITION'')) (\<lambda>_.
     if index = current then guard (cid = container_id row) (JournalError ''STATE_CONFLICT'')
     else
       ebind (guard (target \<noteq> ''INTENT'') (JournalError ''INVALID_TRANSITION'')) (\<lambda>_.
       ebind (guard (cid \<noteq> None) (Contract (ContractError ''CONTAINER_ID_REQUIRED''))) (\<lambda>_.
       guard (container_id row = None \<or> container_id row = cid) (JournalError ''CONTAINER_CONFLICT'')))))"

definition advance_tx :: "nat \<Rightarrow> (json \<Rightarrow> bool) \<Rightarrow> string \<times> string \<Rightarrow> string \<Rightarrow> string \<Rightarrow> string option \<Rightarrow>
    execution list \<Rightarrow> journal_error + json \<times> execution list" where
  "advance_tx rl bundle_ok k token target cid rows =
    with_row rl bundle_ok k (\<lambda>row verified.
      ebind (guard (owner_token row = token) (JournalError ''OWNER_MISMATCH'')) (\<lambda>_.
      ebind (guard (ex_state row \<noteq> ''FINISHED'') (JournalError ''ALREADY_FINISHED'')) (\<lambda>_.
      ebind (advance_checks row target cid) (\<lambda>_.
      if state_index target = state_index (ex_state row) then Inr (output_of row verified None, rows)
      else reread rl bundle_ok k None
        (row_update ex_key k (\<lambda>r. r\<lparr>ex_state := target, container_id := cid\<rparr>) rows))))) rows"

definition advance :: "nat \<Rightarrow> (json \<Rightarrow> bool) \<Rightarrow> io_fault \<Rightarrow> json \<Rightarrow> json \<Rightarrow> json \<Rightarrow> json \<Rightarrow> json \<Rightarrow>
    journal \<Rightarrow> (journal_error + json) \<times> journal" where
  "advance rl bundle_ok fault run op token target cid =
    checked
      (ebind (require_id run) (\<lambda>_. ebind (require_id op) (\<lambda>_. ebind (require_token token) (\<lambda>_.
       ebind (guard (is_str target \<and> str_of target \<in> set (butlast STATES)) (ContractError ''INVALID_STATE'')) (\<lambda>_.
       require_container_id cid)))))
      (\<lambda>_. journal_transaction fault
        (advance_tx rl bundle_ok (str_of run, str_of op) (str_of token) (str_of target) (json_text cid)))"

definition finish_tx :: "nat \<Rightarrow> (json \<Rightarrow> bool) \<Rightarrow> string \<times> string \<Rightarrow> string \<Rightarrow> json \<Rightarrow>
    execution list \<Rightarrow> journal_error + json \<times> execution list" where
  "finish_tx rl bundle_ok k token receipt rows =
    with_row rl bundle_ok k (\<lambda>row verified.
      ebind (guard (owner_token row = token) (JournalError ''OWNER_MISMATCH'')) (\<lambda>_.
      ebind (on_error (validate_receipt rl bundle_ok receipt (fst verified) (scenario row) (image_id row)
        (opt_str (container_id row))) Contract) (\<lambda>(parsed, payload, digest).
      ebind (guard (jget parsed ''stop_confirmed'' = JBool True \<and> jget parsed ''cleanup_confirmed'' = JBool True)
        (Contract INVALID_RECEIPT)) (\<lambda>_.
      if ex_state row = ''FINISHED'' then
        ebind (guard (case snd verified of None \<Rightarrow> False | Some previous \<Rightarrow> py_eq previous parsed)
          (JournalError ''RECEIPT_CONFLICT'')) (\<lambda>_. Inr (output_of row verified None, rows))
      else
        ebind (guard (container_id row = None \<or> ex_state row = ''STOPPED'') (JournalError ''INVALID_STATE'')) (\<lambda>_.
        reread rl bundle_ok k None (row_update ex_key k
          (\<lambda>r. r\<lparr>ex_state := ''FINISHED'', receipt_json := Some payload, receipt_digest := Some digest\<rparr>) rows)))))) rows"

definition finish :: "nat \<Rightarrow> (json \<Rightarrow> bool) \<Rightarrow> io_fault \<Rightarrow> json \<Rightarrow> json \<Rightarrow> json \<Rightarrow> json \<Rightarrow>
    journal \<Rightarrow> (journal_error + json) \<times> journal" where
  "finish rl bundle_ok fault run op token receipt =
    checked (ebind (require_id run) (\<lambda>_. ebind (require_id op) (\<lambda>_. require_token token)))
      (\<lambda>_. journal_transaction fault (finish_tx rl bundle_ok (str_of run, str_of op) (str_of token) receipt))"

definition get_execution :: "nat \<Rightarrow> (json \<Rightarrow> bool) \<Rightarrow> io_fault \<Rightarrow> json \<Rightarrow> json \<Rightarrow> journal \<Rightarrow> (journal_error + json) \<times> journal" where
  "get_execution rl bundle_ok fault run op =
    checked (ebind (require_id run) (\<lambda>_. require_id op))
      (\<lambda>_. journal_transaction fault (\<lambda>rows.
        with_row rl bundle_ok (str_of run, str_of op) (\<lambda>row verified. Inr (output_of row verified None, rows)) rows))"

text \<open>\<open>ORDER BY run_id, operation_id\<close>; the sort of the library is stable.\<close>

definition pending_tx :: "nat \<Rightarrow> (json \<Rightarrow> bool) \<Rightarrow> execution list \<Rightarrow> journal_error + json \<times> execution list" where
  "pending_tx rl bundle_ok rows =
    ebind (emap (\<lambda>row. ebind (verify_row rl bundle_ok row) (\<lambda>verified. Inr (row, verified)))
      (sort_key ex_run_id (sort_key ex_operation_id rows))) (\<lambda>found.
    Inr (JList (map (\<lambda>(row, verified). output_of row verified None)
      (filter (\<lambda>(row, verified). ex_state row \<noteq> ''FINISHED'') found)), rows))"

definition pending :: "nat \<Rightarrow> (json \<Rightarrow> bool) \<Rightarrow> io_fault \<Rightarrow> journal \<Rightarrow> (journal_error + json) \<times> journal" where
  "pending rl bundle_ok fault = journal_transaction fault (pending_tx rl bundle_ok)"

section \<open>Calls\<close>

datatype journal_call =
    Begin io_fault uuids json json json json json
  | Advance io_fault json json json json json
  | Finish io_fault json json json json
  | Get io_fault json json
  | Pending io_fault
  | Close

fun call_journal :: "nat \<Rightarrow> (json \<Rightarrow> bool) \<Rightarrow> journal_call \<Rightarrow> journal \<Rightarrow> (journal_error + json) \<times> journal" where
  "call_journal rl bundle_ok (Begin fault ids binding scen img deadline timeout) j =
    begin_execution rl bundle_ok fault ids binding scen img deadline timeout j"
| "call_journal rl bundle_ok (Advance fault run op token target cid) j = advance rl bundle_ok fault run op token target cid j"
| "call_journal rl bundle_ok (Finish fault run op token receipt) j = finish rl bundle_ok fault run op token receipt j"
| "call_journal rl bundle_ok (Get fault run op) j = get_execution rl bundle_ok fault run op j"
| "call_journal rl bundle_ok (Pending fault) j = pending rl bundle_ok fault j"
| "call_journal rl bundle_ok Close j = (Inr JNull, close_journal j)"

definition new_journal :: journal where
  "new_journal = \<lparr>executions = [], journal_open = True\<rparr>"

section \<open>The file\<close>

text \<open>What the constructor sees of a file: the version, the tables with their columns, the version row, the rows.\<close>

record journal_file =
  file_version :: int
  file_tables :: "(string \<times> string list) list"
  file_schema :: "json option"
  file_rows :: "execution list"

definition journal_columns :: "(string \<times> string list) list" where
  "journal_columns =
    [(''journal_meta'', [''key'', ''value'']),
     (''executions'', [''run_id'', ''operation_id'', ''request_digest'', ''binding_json'', ''scenario'', ''image_id'',
        ''run_deadline'', ''timeout_seconds'', ''container_name'', ''owner_token'', ''container_id'', ''state'',
        ''receipt_json'', ''receipt_digest''])]"

definition created_file :: journal_file where
  "created_file = \<lparr>file_version = 1, file_tables = journal_columns, file_schema = Some (JInt 1), file_rows = []\<rparr>"

text \<open>\<open>PRAGMA table_info\<close> of a missing table lists nothing.\<close>

definition columns_of :: "journal_file \<Rightarrow> string \<Rightarrow> string set" where
  "columns_of f table = (case map_of (file_tables f) table of None \<Rightarrow> {} | Some cs \<Rightarrow> set cs)"

definition open_journal_tx :: "journal_file \<Rightarrow> journal_error + journal_file" where
  "open_journal_tx file =
    ebind (if file_version file = 0 \<and> file_tables file = [] then Inr created_file
           else ebind (guard (file_version file = 1 \<and> set (map fst (file_tables file)) = set (map fst journal_columns))
             (JournalError ''UNSUPPORTED_STORE'')) (\<lambda>_. Inr file)) (\<lambda>f.
    ebind (eiter (\<lambda>(table, columns). guard (columns_of f table = set columns) (JournalError ''UNSUPPORTED_STORE''))
      journal_columns) (\<lambda>_.
    ebind (guard (file_schema f = Some (JInt 1)) STORAGE_CORRUPT) (\<lambda>_. Inr f)))"

text \<open>A refused file is left as it was; the connection is closed.\<close>

definition open_journal :: "io_fault \<Rightarrow> journal_file \<Rightarrow> (journal_error + journal) \<times> journal_file" where
  "open_journal fault file =
    (if fault \<in> {Begin_fails, Statement_fails} then (Inl (JournalError ''STORAGE_FAILURE''), file)
     else case open_journal_tx file of
         Inl e \<Rightarrow> (Inl e, file)
       | Inr f \<Rightarrow> if fault = Commit_fails then (Inl (JournalError ''STORAGE_FAILURE''), file)
           else (Inr \<lparr>executions = file_rows f, journal_open = True\<rparr>, f))"

text \<open>Opening never changes a file that has a version or tables; a new file yields the empty journal.\<close>

lemma open_journal_keeps:
  "file_version f \<noteq> 0 \<or> file_tables f \<noteq> [] \<Longrightarrow>
    snd (open_journal fault f) = f \<and> (\<forall>j. fst (open_journal fault f) = Inr j \<longrightarrow> executions j = file_rows f)"
  by (auto simp: open_journal_def open_journal_tx_def ebind_eq_Inr guard_eq_Inr split: sum.splits if_splits)

lemma open_journal_new:
  "file_version f = 0 \<Longrightarrow> file_tables f = [] \<Longrightarrow> open_journal No_fault f = (Inr new_journal, created_file)"
  by (simp add: open_journal_def open_journal_tx_def created_file_def columns_of_def journal_columns_def new_journal_def)

end
