(* ===== verification/Journal_Props.thy ===== *)
theory Journal_Props
  imports Journal
begin

text \<open>
  The journal over arbitrary sequences of calls: which rows a call may change and how, the invariant of
  the table, and what a finished execution shows.
\<close>

section \<open>Rows as the journal wrote them\<close>

lemma verify_row_Inr:
  "verify_row rl bundle_ok r = Inr v \<longleftrightarrow>
    id_ok (ex_run_id r) \<and> id_ok (ex_operation_id r) \<and>
    decode_document rl (binding_json r) = Inr (fst v) \<and> validate_binding (fst v) = Inr (fst v) \<and>
    jget (fst v) ''run_id'' = JStr (ex_run_id r) \<and> jget (fst v) ''operation_id'' = JStr (ex_operation_id r) \<and>
    row_columns_ok r \<and> dumps (fst v) = binding_json r \<and>
    sha256_of (request_document (fst v) (scenario r) (image_id r) (run_deadline r) (timeout_seconds r)) = request_digest r \<and>
    verify_stored_receipt rl bundle_ok (fst v) r = Inr (snd v) \<and> (ex_state r = ''FINISHED'') = (snd v \<noteq> None)"
proof (rule iffI)
  assume "verify_row rl bundle_ok r = Inr v"
  then obtain d b receipt where "id_ok (ex_run_id r) \<and> id_ok (ex_operation_id r)"
    "decode_document rl (binding_json r) = Inr d" "validate_binding d = Inr b"
    "jget b ''run_id'' = JStr (ex_run_id r) \<and> jget b ''operation_id'' = JStr (ex_operation_id r)" "row_columns_ok r"
    "dumps b = binding_json r \<and>
      sha256_of (request_document b (scenario r) (image_id r) (run_deadline r) (timeout_seconds r)) = request_digest r"
    "verify_stored_receipt rl bundle_ok b r = Inr receipt" "(ex_state r = ''FINISHED'') = (receipt \<noteq> None)"
    "Inr (b, receipt) = (Inr v :: journal_error + json \<times> json option)"
    unfolding verify_row_def ebind_eq_Inr guard_eq_Inr on_error_eq_Inr by blast
  moreover from this(3) have "b = d" by (simp add: validate_binding_Inr)
  ultimately show "id_ok (ex_run_id r) \<and> id_ok (ex_operation_id r) \<and>
    decode_document rl (binding_json r) = Inr (fst v) \<and> validate_binding (fst v) = Inr (fst v) \<and>
    jget (fst v) ''run_id'' = JStr (ex_run_id r) \<and> jget (fst v) ''operation_id'' = JStr (ex_operation_id r) \<and>
    row_columns_ok r \<and> dumps (fst v) = binding_json r \<and>
    sha256_of (request_document (fst v) (scenario r) (image_id r) (run_deadline r) (timeout_seconds r)) = request_digest r \<and>
    verify_stored_receipt rl bundle_ok (fst v) r = Inr (snd v) \<and> (ex_state r = ''FINISHED'') = (snd v \<noteq> None)"
    by (metis Inr_inject fst_conv snd_conv)
qed (simp add: verify_row_def)

lemma verify_stored_receipt_Inr:
  "verify_stored_receipt rl bundle_ok b r = Inr receipt \<longleftrightarrow>
    (case receipt of
       None \<Rightarrow> receipt_json r = None \<and> receipt_digest r = None
     | Some v \<Rightarrow> \<exists>raw digest w. receipt_json r = Some raw \<and> receipt_digest r = Some digest \<and>
         decode_document rl raw = Inr w \<and>
         validate_receipt rl bundle_ok w b (scenario r) (image_id r) (opt_str (container_id r)) = Inr (v, raw, digest))"
  by (cases "receipt_json r"; cases "receipt_digest r"; cases receipt)
    (auto simp: verify_stored_receipt_def ebind_eq_Inr guard_eq_Inr on_error_eq_Inr)

lemma validate_receipt_Inr:
  "validate_receipt rl bundle_ok v b scen img cid = Inr (receipt, payload, digest) \<longleftrightarrow>
    canonical_object rl (Some MAX_RECEIPT_BYTES) v = Inr (receipt, payload) \<and>
    receipt_field_checks receipt b scen img cid = Inr () \<and>
    receipt_part_checks rl bundle_ok receipt b scen img = Inr () \<and> digest = sha256_hex payload"
  by (auto simp: validate_receipt_def ebind_eq_Inr)

lemma canonical_object_Inr:
  "canonical_object rl m v = Inr (parsed, payload) \<longleftrightarrow>
    is_obj v \<and> canonical_bytes v = Inr payload \<and> (case m of None \<Rightarrow> True | Some n \<Rightarrow> length payload \<le> n) \<and>
    decode_document rl payload = Inr parsed \<and> py_eq parsed v"
  by (auto simp: canonical_object_def ebind_eq_Inr guard_eq_Inr on_error_eq_Inr)

section \<open>How an execution may change\<close>

text \<open>What the owner of a token can do with an execution.\<close>

inductive execution_step :: "nat \<Rightarrow> (json \<Rightarrow> bool) \<Rightarrow> execution \<Rightarrow> execution \<Rightarrow> bool" for rl bundle_ok where
  advanced: "execution_step rl bundle_ok r (r\<lparr>ex_state := target, container_id := Some c\<rparr>)"
    if "ex_state r \<noteq> ''FINISHED''" and "target \<in> set (butlast STATES)"
      and "state_index target = Suc (state_index (ex_state r)) \<or>
        target = ''STOPPED'' \<and> ex_state r \<in> {''CREATED'', ''STARTING'', ''RUNNING''} \<and>
          state_index (ex_state r) < state_index target"
      and "container_id r = None \<or> container_id r = Some c"
| finished: "execution_step rl bundle_ok r
      (r\<lparr>ex_state := ''FINISHED'', receipt_json := Some payload, receipt_digest := Some digest\<rparr>)"
    if "ex_state r \<noteq> ''FINISHED''" and "container_id r = None \<or> ex_state r = ''STOPPED''"
      and "verify_row rl bundle_ok r = Inr v"
      and "validate_receipt rl bundle_ok receipt (fst v) (scenario r) (image_id r) (opt_str (container_id r)) =
        Inr (parsed, payload, digest)"
      and "jget parsed ''stop_confirmed'' = JBool True" and "jget parsed ''cleanup_confirmed'' = JBool True"

text \<open>What a call does to the table; the label is the token it acts under.\<close>

inductive journal_step :: "nat \<Rightarrow> (json \<Rightarrow> bool) \<Rightarrow> string option \<Rightarrow> execution list \<Rightarrow> execution list \<Rightarrow> bool"
  for rl bundle_ok where
  unchanged: "journal_step rl bundle_ok label rows rows"
| begun: "journal_step rl bundle_ok label rows (rows @ [r])"
    if "ex_key r \<notin> ex_key ` set rows" and "verify_row rl bundle_ok r = Inr v"
      and "ex_state r = ''INTENT''" and "container_id r = None"
| acted: "journal_step rl bundle_ok (Some (owner_token r)) rows (row_update ex_key k f rows)"
    if "row_find ex_key k rows = Some r" and "\<And>x. ex_key (f x) = ex_key x" and "execution_step rl bundle_ok r (f r)"
      and "verify_row rl bundle_ok (f r) = Inr v"

lemma with_row_Inr:
  "with_row rl bundle_ok k body rows = Inr y \<longleftrightarrow>
    (\<exists>r v. row_find ex_key k rows = Some r \<and> verify_row rl bundle_ok r = Inr v \<and> body r v = Inr y)"
  by (auto simp: with_row_def ebind_eq_Inr split: option.splits)

lemma reread_Inr:
  "reread rl bundle_ok k new rows = Inr (out, rows') \<longleftrightarrow>
    rows' = rows \<and> (\<exists>r v. row_find ex_key k rows = Some r \<and> verify_row rl bundle_ok r = Inr v \<and> out = output_of r v new)"
  by (auto simp: reread_def ebind_eq_Inr split: option.splits)

lemma advance_checks_Inr:
  "advance_checks r target cid = Inr () \<longleftrightarrow>
    (if state_index target = state_index (ex_state r) then cid = container_id r
     else (state_index target = Suc (state_index (ex_state r)) \<or>
         target = ''STOPPED'' \<and> ex_state r \<in> {''CREATED'', ''STARTING'', ''RUNNING''} \<and>
           state_index (ex_state r) < state_index target) \<and>
       cid \<noteq> None \<and> (container_id r = None \<or> container_id r = cid))"
proof -
  have "state_index ''INTENT'' = 0" by (simp add: state_index_def STATES_def)
  then show ?thesis by (auto simp: advance_checks_def Let_def ebind_eq_Inr guard_eq_Inr)
qed

lemma begin_tx_step:
  assumes "begin_tx rl bundle_ok ids binding scen img deadline timeout packed rows = Inr (out, rows')"
  shows "journal_step rl bundle_ok label rows rows'"
proof (cases "row_find ex_key (str_of (jget binding ''run_id''), str_of (jget binding ''operation_id'')) rows")
  case None
  let ?k = "(str_of (jget binding ''run_id''), str_of (jget binding ''operation_id''))"
  from assms None obtain r where rows': "rows' = rows @ [r]" and key: "ex_key r = ?k" and "ex_state r = ''INTENT''"
    and "container_id r = None" and again: "reread rl bundle_ok ?k (Some True) (rows @ [r]) = Inr (out, rows')"
    by (simp add: begin_tx_def Let_def reread_Inr ex_key_def)
  moreover from again None key obtain v where "verify_row rl bundle_ok r = Inr v"
    by (auto simp: reread_Inr row_find_append)
  moreover have "?k \<notin> ex_key ` set rows" using None by (simp add: row_find_None_iff)
  ultimately show ?thesis unfolding rows' by (metis begun)
next
  case (Some r)
  with assms show ?thesis by (auto simp: begin_tx_def Let_def ebind_eq_Inr intro: unchanged)
qed

lemma acted_step:
  assumes "row_find ex_key k rows = Some r" and "\<And>x. ex_key (f x) = ex_key x" and "execution_step rl bundle_ok r (f r)"
    and "reread rl bundle_ok k new (row_update ex_key k f rows) = Inr (out, rows')"
  shows "journal_step rl bundle_ok (Some (owner_token r)) rows rows'"
proof -
  from assms(1,2,4) obtain v where "verify_row rl bundle_ok (f r) = Inr v" and "rows' = row_update ex_key k f rows"
    by (auto simp: reread_Inr row_find_update)
  with acted[OF assms(1-3)] show ?thesis by simp
qed

lemma advance_tx_step:
  assumes "advance_tx rl bundle_ok k token target cid rows = Inr (out, rows')" and "target \<in> set (butlast STATES)"
  shows "journal_step rl bundle_ok (Some token) rows rows'"
proof -
  from assms(1) obtain r v where r: "row_find ex_key k rows = Some r" and token: "owner_token r = token"
    and unfinished: "ex_state r \<noteq> ''FINISHED''" and checks: "advance_checks r target cid = Inr ()"
    and result: "(if state_index target = state_index (ex_state r) then Inr (output_of r v None, rows)
      else reread rl bundle_ok k None (row_update ex_key k (\<lambda>r. r\<lparr>ex_state := target, container_id := cid\<rparr>) rows)) =
      Inr (out, rows')"
    unfolding advance_tx_def with_row_Inr ebind_eq_Inr guard_eq_Inr unit_ex by blast
  show ?thesis
  proof (cases "state_index target = state_index (ex_state r)")
    case True
    with result show ?thesis by (auto intro: unchanged)
  next
    case False
    with checks obtain c where cid: "cid = Some c" and move: "state_index target = Suc (state_index (ex_state r)) \<or>
        target = ''STOPPED'' \<and> ex_state r \<in> {''CREATED'', ''STARTING'', ''RUNNING''} \<and>
          state_index (ex_state r) < state_index target" and "container_id r = None \<or> container_id r = Some c"
      by (auto simp: advance_checks_Inr)
    with False result advanced[OF unfinished assms(2) move, of c rl bundle_ok] show ?thesis
      unfolding token[symmetric] by (intro acted_step[OF r]) (simp_all add: ex_key_def)
  qed
qed

lemma finish_tx_step:
  assumes "finish_tx rl bundle_ok k token receipt rows = Inr (out, rows')"
  shows "journal_step rl bundle_ok (Some token) rows rows'"
proof -
  let ?done_row = "\<lambda>r payload digest. r\<lparr>ex_state := ''FINISHED'', receipt_json := Some payload, receipt_digest := Some digest\<rparr>"
  from assms obtain r v x where r: "row_find ex_key k rows = Some r"
    and v: "verify_row rl bundle_ok r = Inr v" and token: "owner_token r = token"
    and x: "validate_receipt rl bundle_ok receipt (fst v) (scenario r) (image_id r) (opt_str (container_id r)) = Inr x"
    and rest: "(case x of (parsed, payload, digest) \<Rightarrow>
      ebind (guard (jget parsed ''stop_confirmed'' = JBool True \<and> jget parsed ''cleanup_confirmed'' = JBool True)
        (Contract INVALID_RECEIPT)) (\<lambda>_.
      if ex_state r = ''FINISHED'' then
        ebind (guard (case snd v of None \<Rightarrow> False | Some previous \<Rightarrow> py_eq previous parsed)
          (JournalError ''RECEIPT_CONFLICT'')) (\<lambda>_. Inr (output_of r v None, rows))
      else
        ebind (guard (container_id r = None \<or> ex_state r = ''STOPPED'') (JournalError ''INVALID_STATE'')) (\<lambda>_.
        reread rl bundle_ok k None (row_update ex_key k (\<lambda>r. ?done_row r payload digest) rows)))) = Inr (out, rows')"
    unfolding finish_tx_def with_row_Inr ebind_eq_Inr guard_eq_Inr on_error_eq_Inr by blast
  obtain parsed payload digest where parts: "x = (parsed, payload, digest)" by (cases x)
  note receipt = x[unfolded parts]
  from rest have closed: "jget parsed ''stop_confirmed'' = JBool True" "jget parsed ''cleanup_confirmed'' = JBool True"
    and result: "(if ex_state r = ''FINISHED'' then
        ebind (guard (case snd v of None \<Rightarrow> False | Some previous \<Rightarrow> py_eq previous parsed)
          (JournalError ''RECEIPT_CONFLICT'')) (\<lambda>_. Inr (output_of r v None, rows))
      else
        ebind (guard (container_id r = None \<or> ex_state r = ''STOPPED'') (JournalError ''INVALID_STATE'')) (\<lambda>_.
        reread rl bundle_ok k None (row_update ex_key k (\<lambda>r. ?done_row r payload digest) rows))) = Inr (out, rows')"
    unfolding parts prod.case ebind_eq_Inr[of "guard _ _"] guard_eq_Inr by blast+
  show ?thesis
  proof (cases "ex_state r = ''FINISHED''")
    case True
    with result show ?thesis by (auto simp: ebind_eq_Inr intro: unchanged)
  next
    case False
    with result have stopped: "container_id r = None \<or> ex_state r = ''STOPPED''"
      and again: "reread rl bundle_ok k None (row_update ex_key k
          (\<lambda>r. r\<lparr>ex_state := ''FINISHED'', receipt_json := Some payload, receipt_digest := Some digest\<rparr>) rows) = Inr (out, rows')"
      by (simp_all add: ebind_eq_Inr guard_eq_Inr)
    from finished[OF False stopped v receipt closed] again show ?thesis
      unfolding token[symmetric] by (intro acted_step[OF r]) (simp_all add: ex_key_def)
  qed
qed

section \<open>Every call takes a step\<close>

fun call_token :: "journal_call \<Rightarrow> string option" where
  "call_token (Advance fault run op token target cid) = Some (str_of token)"
| "call_token (Finish fault run op token receipt) = Some (str_of token)"
| "call_token c = None"

lemma transaction_step:
  assumes "\<And>out rows'. body (executions j) = Inr (out, rows') \<Longrightarrow> journal_step rl bundle_ok label (executions j) rows'"
  shows "journal_step rl bundle_ok label (executions j) (executions (snd (journal_transaction fault body j)))"
  using assms by (auto simp: journal_transaction_def unchanged split: sum.splits)

lemma checked_step:
  assumes "\<And>x. m = Inr x \<Longrightarrow> journal_step rl bundle_ok label (executions j) (executions (snd (k x j)))"
  shows "journal_step rl bundle_ok label (executions j) (executions (snd (checked m k j)))"
  using assms by (auto simp: checked_def unchanged split: sum.splits)

lemma call_journal_step:
  "journal_step rl bundle_ok (call_token c) (executions j) (executions (snd (call_journal rl bundle_ok c j)))"
proof (cases c)
  case (Begin fault ids binding scen img deadline timeout)
  then show ?thesis
    by (simp add: begin_execution_def) (intro checked_step transaction_step begin_tx_step)
next
  case (Advance fault run op token target cid)
  then show ?thesis
    by (simp add: advance_def) (intro checked_step transaction_step advance_tx_step, assumption,
        simp add: ebind_eq_Inr guard_eq_Inr)
next
  case (Finish fault run op token receipt)
  then show ?thesis by (simp add: finish_def) (intro checked_step transaction_step finish_tx_step)
next
  case (Get fault run op)
  then show ?thesis
    by (simp add: get_execution_def, intro checked_step transaction_step) (auto simp: with_row_Inr intro: unchanged)
next
  case (Pending fault)
  then show ?thesis
    by (simp add: pending_def, intro transaction_step) (auto simp: pending_tx_def ebind_eq_Inr intro: unchanged)
next
  case Close
  then show ?thesis by (simp add: close_journal_def unchanged)
qed

section \<open>Progress of a row\<close>

text \<open>What stays of an execution: everything but the container, the state and the receipt.\<close>

definition frozen :: "execution \<Rightarrow> execution" where
  "frozen r = r\<lparr>container_id := None, ex_state := ''INTENT'', receipt_json := None, receipt_digest := None\<rparr>"

definition ex_progress :: "execution \<Rightarrow> execution \<Rightarrow> bool" where
  "ex_progress r r' \<longleftrightarrow>
     frozen r' = frozen r \<and> state_index (ex_state r) \<le> state_index (ex_state r') \<and>
     (container_id r \<noteq> None \<longrightarrow> container_id r' = container_id r) \<and>
     (ex_state r = ''FINISHED'' \<longrightarrow> r' = r)"

lemma ex_progress_refl: "ex_progress r r"
  by (simp add: ex_progress_def)

lemma ex_progress_trans: "ex_progress r s \<Longrightarrow> ex_progress s t \<Longrightarrow> ex_progress r t"
  unfolding ex_progress_def by (intro conjI impI; elim conjE; simp)

lemma ex_progress_frozen: "ex_progress r r' \<Longrightarrow> frozen r' = frozen r"
  by (simp add: ex_progress_def)

lemma frozen_columns:
  assumes "frozen r' = frozen r"
  shows "ex_key r' = ex_key r" "request_digest r' = request_digest r" "binding_json r' = binding_json r"
    "container_name r' = container_name r" "owner_token r' = owner_token r" "scenario r' = scenario r"
    "image_id r' = image_id r" "run_deadline r' = run_deadline r" "timeout_seconds r' = timeout_seconds r"
  using assms by (cases r; cases r'; simp add: frozen_def ex_key_def)+

lemma state_indices:
  "state_index ''INTENT'' = 0" "state_index ''CREATED'' = 1" "state_index ''STARTING'' = 2" "state_index ''RUNNING'' = 3"
  "state_index ''STOPPED'' = 4" "state_index ''FINISHED'' = 5"
  by (simp_all add: state_index_def STATES_def)

lemma state_index_le: "s \<in> set STATES \<Longrightarrow> state_index s \<le> 5"
  by (auto simp: STATES_def state_indices)

lemma execution_step_progress:
  assumes "execution_step rl bundle_ok r r'"
  shows "ex_progress r r'"
  using assms
proof cases
  case (advanced target c)
  then show ?thesis by (auto simp: ex_progress_def frozen_def)
next
  case (finished v receipt parsed payload digest)
  then have "state_index (ex_state r) \<le> 5"
    by (intro state_index_le) (simp add: verify_row_Inr row_columns_ok_def)
  with finished show ?thesis by (simp add: ex_progress_def frozen_def state_indices)
qed

section \<open>The invariant of the table\<close>

definition row_inv :: "nat \<Rightarrow> (json \<Rightarrow> bool) \<Rightarrow> execution \<Rightarrow> bool" where
  "row_inv rl bundle_ok r \<longleftrightarrow>
     (\<exists>v. verify_row rl bundle_ok r = Inr v) \<and>
     (ex_state r \<noteq> ''FINISHED'' \<longrightarrow> (container_id r = None \<longleftrightarrow> ex_state r = ''INTENT'')) \<and>
     (\<forall>raw v. receipt_json r = Some raw \<longrightarrow> decode_document rl raw = Inr v \<longrightarrow>
        jget v ''stop_confirmed'' = JBool True \<and> jget v ''cleanup_confirmed'' = JBool True)"

definition journal_inv :: "nat \<Rightarrow> (json \<Rightarrow> bool) \<Rightarrow> execution list \<Rightarrow> bool" where
  "journal_inv rl bundle_ok rows \<longleftrightarrow> distinct (map ex_key rows) \<and> (\<forall>r \<in> set rows. row_inv rl bundle_ok r)"

lemma execution_step_inv:
  assumes "execution_step rl bundle_ok r r'" and "verify_row rl bundle_ok r' = Inr v" and "row_inv rl bundle_ok r"
  shows "row_inv rl bundle_ok r'"
  using assms(1)
proof cases
  case (advanced target c)
  then have "target \<noteq> ''INTENT''" by (auto simp: state_indices)
  with advanced assms(2,3) show ?thesis by (auto simp: row_inv_def)
next
  case (finished v receipt parsed payload digest)
  then have "decode_document rl payload = Inr parsed" by (simp add: validate_receipt_Inr canonical_object_Inr)
  with finished assms(2) show ?thesis by (auto simp: row_inv_def)
qed

lemma verified_intent_inv:
  assumes "verify_row rl bundle_ok r = Inr v" and "ex_state r = ''INTENT''" and "container_id r = None"
  shows "row_inv rl bundle_ok r"
proof -
  from assms(1,2) have "snd v = None" and "verify_stored_receipt rl bundle_ok (fst v) r = Inr (snd v)"
    by (auto simp: verify_row_Inr)
  then have "receipt_json r = None" by (simp add: verify_stored_receipt_Inr)
  with assms show ?thesis by (simp add: row_inv_def)
qed

text \<open>The rows after an update of the row with one key.\<close>

lemma updated_row:
  assumes "distinct (map ex_key rows)" and "row_find ex_key k rows = Some r" and "x \<in> set (row_update ex_key k f rows)"
  shows "x = f r \<or> x \<in> set rows"
  using assms set_row_updateD[OF assms(3)] by (metis option.inject row_find_in_set)

lemma journal_step_inv:
  assumes "journal_step rl bundle_ok label rows rows'" and "journal_inv rl bundle_ok rows"
  shows "journal_inv rl bundle_ok rows'"
  using assms
proof cases
  case (begun r v)
  with assms(2) verified_intent_inv show ?thesis by (auto simp: journal_inv_def)
next
  case (acted k r f v)
  have "row_inv rl bundle_ok x" if "x \<in> set rows'" for x
    using updated_row[of rows k r x f] acted that assms(2) execution_step_inv[of rl bundle_ok r "f r" v] row_find_SomeD
    unfolding journal_inv_def by metis
  moreover have "distinct (map ex_key rows')"
    using assms(2) acted by (simp add: journal_inv_def row_update_keys)
  ultimately show ?thesis by (simp add: journal_inv_def)
qed simp

lemma journal_step_progress:
  assumes "journal_step rl bundle_ok label rows rows'" and "journal_inv rl bundle_ok rows" and "r \<in> set rows"
  shows "\<exists>r' \<in> set rows'. r' = r \<or> label = Some (owner_token r) \<and> execution_step rl bundle_ok r r'"
  using assms
proof cases
  case (acted k s f v)
  show ?thesis
  proof (cases "ex_key r = k")
    case True
    with acted assms(2,3) have "r = s" by (simp add: journal_inv_def) (metis option.inject row_find_in_set)
    moreover have "f r \<in> set rows'" using acted True assms(3) by (force simp: row_update_def)
    ultimately show ?thesis using acted by blast
  next
    case False
    with acted assms(3) have "r \<in> set rows'" by (force simp: row_update_def)
    then show ?thesis by blast
  qed
qed auto

definition journal_grows :: "journal \<Rightarrow> journal \<Rightarrow> bool" where
  "journal_grows j j' \<longleftrightarrow>
     (journal_open j' \<longrightarrow> journal_open j) \<and>
     (\<forall>r \<in> set (executions j). \<exists>r' \<in> set (executions j'). ex_progress r r')"

lemma call_journal_open: "journal_open (snd (call_journal rl bundle_ok c j)) \<Longrightarrow> journal_open j"
  by (cases c) (auto simp: begin_execution_def advance_def finish_def get_execution_def pending_def close_journal_def
      checked_def journal_transaction_def split: sum.splits if_splits)

interpretation journal: machine "call_journal rl bundle_ok" "\<lambda>j. journal_inv rl bundle_ok (executions j)" journal_grows
proof unfold_locales
  show "journal_grows s t \<Longrightarrow> journal_grows t u \<Longrightarrow> journal_grows s u" for s t u
    unfolding journal_grows_def by (meson ex_progress_trans)
  show "journal_grows s s" for s unfolding journal_grows_def using ex_progress_refl by blast
  show "journal_grows j (snd (call_journal rl bundle_ok c j))" if "journal_inv rl bundle_ok (executions j)" for c j
    using journal_step_progress[OF call_journal_step that] call_journal_open execution_step_progress ex_progress_refl
    unfolding journal_grows_def by metis
qed (rule journal_step_inv[OF call_journal_step])

lemma new_journal_inv: "journal_inv rl bundle_ok (executions new_journal)"
  by (simp add: new_journal_def journal_inv_def)

lemma reached_inv: "journal_inv rl bundle_ok (executions (run_calls (call_journal rl bundle_ok) cs new_journal))"
  by (rule journal.inv_calls[OF new_journal_inv])

section \<open>Properties of executions\<close>

text \<open>C20.
  Executions only advance.  An execution of a journal built by any calls is still there after any
  further calls, under the same key, with the same request, container name and owner token; its state
  has not gone back, a recorded container identifier is the same for ever, and a finished execution is
  exactly as it was.  No key has two executions.
\<close>

theorem executions_only_advance:
  assumes "r \<in> set (executions (run_calls (call_journal rl bundle_ok) cs new_journal))"
  shows "distinct (map ex_key (executions (run_calls (call_journal rl bundle_ok) cs new_journal))) \<and>
    (\<exists>r' \<in> set (executions (run_calls (call_journal rl bundle_ok) (cs @ cs') new_journal)).
       ex_key r' = ex_key r \<and> request_digest r' = request_digest r \<and> binding_json r' = binding_json r \<and>
       container_name r' = container_name r \<and> owner_token r' = owner_token r \<and>
       state_index (ex_state r) \<le> state_index (ex_state r') \<and>
       (container_id r \<noteq> None \<longrightarrow> container_id r' = container_id r) \<and>
       (ex_state r = ''FINISHED'' \<longrightarrow> r' = r))"
proof -
  from journal.grows_calls[OF reached_inv] assms
  obtain r' where r': "r' \<in> set (executions (run_calls (call_journal rl bundle_ok) (cs @ cs') new_journal))"
    and progress: "ex_progress r r'"
    unfolding journal_grows_def run_calls_append by blast
  note columns = frozen_columns[OF ex_progress_frozen[OF progress]]
  have "distinct (map ex_key (executions (run_calls (call_journal rl bundle_ok) cs new_journal)))"
    using reached_inv unfolding journal_inv_def by blast
  moreover from progress have "state_index (ex_state r) \<le> state_index (ex_state r')"
    "container_id r \<noteq> None \<longrightarrow> container_id r' = container_id r" "ex_state r = ''FINISHED'' \<longrightarrow> r' = r"
    by (simp_all add: ex_progress_def)
  ultimately show ?thesis using r' columns by blast
qed

text \<open>C21.
  Only the holder of the token acts on an execution.  If a call leaves another row under the key of an
  execution, the call presented the owner token of that execution, and the change is one permitted
  transition: to the next state or to STOPPED with a container identifier that agrees with the recorded
  one, or to FINISHED, from a stopped execution or one that never had a container, with a receipt that
  was checked against the execution and confirms stop and cleanup.
\<close>

theorem only_token_holder_acts:
  assumes "r \<in> set (executions j)" and "r' \<in> set (executions (snd (call_journal rl bundle_ok c j)))"
    and "j = run_calls (call_journal rl bundle_ok) cs new_journal" and "ex_key r' = ex_key r" and "r' \<noteq> r"
  shows "call_token c = Some (owner_token r) \<and> execution_step rl bundle_ok r r'"
proof -
  have inv: "journal_inv rl bundle_ok (executions j)" unfolding assms(3) by (rule reached_inv)
  have step: "journal_step rl bundle_ok (call_token c) (executions j) (executions (snd (call_journal rl bundle_ok c j)))"
    by (rule call_journal_step)
  from journal_step_progress[OF step inv assms(1)] obtain r''
    where r'': "r'' \<in> set (executions (snd (call_journal rl bundle_ok c j)))"
      and kind: "r'' = r \<or> call_token c = Some (owner_token r) \<and> execution_step rl bundle_ok r r''" by blast
  from kind have "ex_key r'' = ex_key r"
    using execution_step_progress ex_progress_frozen frozen_columns(1) by metis
  moreover have "distinct (map ex_key (executions (snd (call_journal rl bundle_ok c j))))"
    using journal_step_inv[OF step inv] unfolding journal_inv_def by blast
  ultimately have "r'' = r'" using r'' assms(2,4) by (metis option.inject row_find_in_set)
  with kind assms(5) show ?thesis by blast
qed

lemma stored_receipt:
  assumes "row_inv rl bundle_ok r" and "ex_state r = ''FINISHED''"
  obtains v raw w where "verify_row rl bundle_ok r = Inr v" and "receipt_json r = Some raw"
    and "receipt_digest r = Some (sha256_hex raw)" and "length raw \<le> MAX_RECEIPT_BYTES"
    and "decode_document rl raw = Inr w"
    and "receipt_field_checks w (fst v) (scenario r) (image_id r) (opt_str (container_id r)) = Inr ()"
    and "receipt_part_checks rl bundle_ok w (fst v) (scenario r) (image_id r) = Inr ()"
    and "jget w ''stop_confirmed'' = JBool True" and "jget w ''cleanup_confirmed'' = JBool True"
proof -
  from assms obtain v where v: "verify_row rl bundle_ok r = Inr v" and closed: "receipt_json r = Some raw \<Longrightarrow>
      decode_document rl raw = Inr w \<Longrightarrow> jget w ''stop_confirmed'' = JBool True \<and> jget w ''cleanup_confirmed'' = JBool True"
    for raw w by (auto simp: row_inv_def)
  from v assms(2) obtain w where stored: "verify_stored_receipt rl bundle_ok (fst v) r = Inr (Some w)"
    by (auto simp: verify_row_Inr)
  then obtain raw digest x where raw: "receipt_json r = Some raw" "receipt_digest r = Some digest"
    and receipt: "validate_receipt rl bundle_ok x (fst v) (scenario r) (image_id r) (opt_str (container_id r)) = Inr (w, raw, digest)"
    by (auto simp: verify_stored_receipt_Inr)
  from receipt have "decode_document rl raw = Inr w" "digest = sha256_hex raw" "length raw \<le> MAX_RECEIPT_BYTES"
    "receipt_field_checks w (fst v) (scenario r) (image_id r) (opt_str (container_id r)) = Inr ()"
    "receipt_part_checks rl bundle_ok w (fst v) (scenario r) (image_id r) = Inr ()"
    by (simp_all add: validate_receipt_Inr canonical_object_Inr)
  with v raw closed that show ?thesis by metis
qed

lemma receipt_fields_Inr:
  assumes "receipt_field_checks w b scen img cid = Inr ()"
  shows "py_eq (jget w ''binding'') b" "jget w ''scenario'' = JStr scen" "jget w ''image_id'' = JStr img"
    "jget w ''container_id'' = cid"
proof -
  from assms obtain b' where "validate_binding (jget w ''binding'') = Inr b'"
    "py_eq b' b \<and> jget w ''scenario'' = JStr scen \<and> jget w ''image_id'' = JStr img" "jget w ''container_id'' = cid"
    unfolding receipt_field_checks_def ebind_eq_Inr guard_eq_Inr on_error_eq_Inr unit_ex by blast
  moreover from this(1) have "b' = jget w ''binding''" by (simp add: validate_binding_Inr)
  ultimately show "py_eq (jget w ''binding'') b" "jget w ''scenario'' = JStr scen" "jget w ''image_id'' = JStr img"
    "jget w ''container_id'' = cid" by simp_all
qed

lemma receipt_parts_Inr:
  "receipt_part_checks rl bundle_ok w b scen img = Inr () \<Longrightarrow>
    (if jget w ''execution_status'' = JStr ''COMPLETED'' then completed_ok w scen else failed_ok w scen)"
  unfolding receipt_part_checks_def ebind_eq_Inr guard_eq_Inr by blast

text \<open>C22.
  A finished execution is closed and its receipt is what it was checked to be.  The stored text has the
  stored digest and decodes to a receipt for the same binding, scenario, image and container that
  confirms stop and cleanup.  If it says COMPLETED, a container was recorded, the exit code is 0, the
  isolation was verified, nothing was recovered and the output was admitted; if not, it carries neither
  a result nor a probe and gives a reason of its status.
\<close>

theorem finished_executions_are_closed:
  assumes "r \<in> set (executions (run_calls (call_journal rl bundle_ok) cs new_journal))" and "ex_state r = ''FINISHED''"
  shows "\<exists>raw w b. receipt_json r = Some raw \<and> receipt_digest r = Some (sha256_hex raw) \<and>
    decode_document rl raw = Inr w \<and> decode_document rl (binding_json r) = Inr b \<and> py_eq (jget w ''binding'') b \<and>
    jget w ''scenario'' = JStr (scenario r) \<and> jget w ''image_id'' = JStr (image_id r) \<and>
    jget w ''container_id'' = opt_str (container_id r) \<and>
    jget w ''stop_confirmed'' = JBool True \<and> jget w ''cleanup_confirmed'' = JBool True \<and>
    (if jget w ''execution_status'' = JStr ''COMPLETED'' then
       container_id r \<noteq> None \<and> jget w ''exit_code'' = JInt 0 \<and> jget w ''isolation_config_verified'' = JBool True \<and>
       jget w ''recovered'' = JBool False \<and> jget w ''output_disposition'' = JStr ''ADMITTED'' \<and> jget w ''reason'' = JNull
     else
       jget w ''normalized_result'' = JNull \<and> jget w ''probe_result'' = JNull \<and>
       str_of (jget w ''reason'') \<in> set (valid_reasons (str_of (jget w ''execution_status''))))"
proof -
  have "row_inv rl bundle_ok r" using reached_inv assms(1) unfolding journal_inv_def by blast
  from stored_receipt[OF this assms(2)] obtain v raw w where v: "verify_row rl bundle_ok r = Inr v"
    and raw: "receipt_json r = Some raw" "receipt_digest r = Some (sha256_hex raw)" "decode_document rl raw = Inr w"
    and checks: "receipt_field_checks w (fst v) (scenario r) (image_id r) (opt_str (container_id r)) = Inr ()"
      "receipt_part_checks rl bundle_ok w (fst v) (scenario r) (image_id r) = Inr ()"
    and closed: "jget w ''stop_confirmed'' = JBool True" "jget w ''cleanup_confirmed'' = JBool True" by metis
  note fields = receipt_fields_Inr[OF checks(1)]
  have status: "if jget w ''execution_status'' = JStr ''COMPLETED'' then
       container_id r \<noteq> None \<and> jget w ''exit_code'' = JInt 0 \<and> jget w ''isolation_config_verified'' = JBool True \<and>
       jget w ''recovered'' = JBool False \<and> jget w ''output_disposition'' = JStr ''ADMITTED'' \<and> jget w ''reason'' = JNull
     else
       jget w ''normalized_result'' = JNull \<and> jget w ''probe_result'' = JNull \<and>
       str_of (jget w ''reason'') \<in> set (valid_reasons (str_of (jget w ''execution_status'')))"
    using receipt_parts_Inr[OF checks(2)] fields(4)
    by (cases "container_id r") (simp_all add: completed_ok_def failed_ok_def opt_str_def split: if_splits)
  from v have "decode_document rl (binding_json r) = Inr (fst v)" by (simp add: verify_row_Inr)
  with raw fields closed status show ?thesis by blast
qed

lemma output_get:
  "jget (output_of r v new) ''container_name'' = JStr (container_name r)"
  "jget (output_of r v new) ''owner_token'' = JStr (owner_token r)"
  "jget (output_of r v new) ''request_digest'' = JStr (request_digest r)"
  "jget (output_of r v (Some b)) ''new'' = JBool b"
  by (simp_all add: output_of_def jget_def split: option.splits)

lemma begin_tx_found:
  assumes "begin_tx rl bundle_ok ids binding scen img deadline timeout packed rows = Inr (out, rows')"
  obtains r v new where "row_find ex_key (str_of (jget binding ''run_id''), str_of (jget binding ''operation_id'')) rows' = Some r"
    and "verify_row rl bundle_ok r = Inr v" and "request_digest r = snd packed" and "out = output_of r v new"
proof (cases "row_find ex_key (str_of (jget binding ''run_id''), str_of (jget binding ''operation_id'')) rows")
  case None
  with assms that show ?thesis by (auto simp: begin_tx_def Let_def reread_Inr row_find_append ex_key_def split: if_splits)
next
  case (Some r)
  with assms that show ?thesis by (auto simp: begin_tx_def Let_def ebind_eq_Inr guard_eq_Inr)
qed

text \<open>
  A request has one execution.  When a begin has returned, the same request repeated at any later time,
  after any calls, returns the same container name and owner token, says that nothing is new and
  changes nothing.
\<close>

theorem begin_is_idempotent:
  assumes "begin_execution rl bundle_ok fault ids binding scen img deadline timeout
      (run_calls (call_journal rl bundle_ok) cs new_journal) = (Inr out, j1)"
    and "j2 = run_calls (call_journal rl bundle_ok) cs' j1" and "journal_open j2"
  shows "\<exists>out'. begin_execution rl bundle_ok No_fault ids' binding scen img deadline timeout j2 = (Inr out', j2) \<and>
    jget out' ''new'' = JBool False \<and> jget out' ''container_name'' = jget out ''container_name'' \<and>
    jget out' ''owner_token'' = jget out ''owner_token'' \<and> jget out' ''request_digest'' = jget out ''request_digest''"
proof -
  let ?k = "(str_of (jget binding ''run_id''), str_of (jget binding ''operation_id''))"
  let ?j0 = "run_calls (call_journal rl bundle_ok) cs new_journal"
  have j1: "j1 = snd (call_journal rl bundle_ok (Begin fault ids binding scen img deadline timeout) ?j0)"
    using assms(1) by simp
  have inv: "journal_inv rl bundle_ok (executions j1)" unfolding j1 by (rule journal.inv_step[OF reached_inv])
  from assms(1) obtain packed where packed: "validate_begin binding scen img deadline timeout = Inr packed"
    and tx: "begin_tx rl bundle_ok ids binding scen img deadline timeout packed (executions ?j0) = Inr (out, executions j1)"
    by (auto simp: begin_execution_def checked_def journal_transaction_def split: sum.splits if_splits)
  from tx obtain r v new where r: "row_find ex_key ?k (executions j1) = Some r" "request_digest r = snd packed"
    and out: "out = output_of r v new" by (rule begin_tx_found)
  from r have key: "ex_key r = ?k" and "r \<in> set (executions j1)" by (auto dest: row_find_SomeD)
  with journal.grows_calls[OF inv] obtain r' where r': "r' \<in> set (executions j2)" and progress: "ex_progress r r'"
    unfolding journal_grows_def assms(2) by blast
  note columns = frozen_columns[OF ex_progress_frozen[OF progress]]
  have inv2: "journal_inv rl bundle_ok (executions j2)" unfolding assms(2) by (rule journal.inv_calls[OF inv])
  then obtain v' where v': "verify_row rl bundle_ok r' = Inr v'" using r' by (auto simp: journal_inv_def row_inv_def)
  have "row_find ex_key ?k (executions j2) = Some r'"
    using inv2 r' columns(1) key unfolding journal_inv_def by (metis row_find_in_set)
  then have "begin_tx rl bundle_ok ids' binding scen img deadline timeout packed (executions j2) =
      Inr (output_of r' v' (Some False), executions j2)"
    using v' columns(2) r(2) by (simp add: begin_tx_def Let_def)
  then have "begin_execution rl bundle_ok No_fault ids' binding scen img deadline timeout j2 =
      (Inr (output_of r' v' (Some False)), j2)"
    using assms(3) packed by (simp add: begin_execution_def checked_def journal_transaction_def)
  with columns show ?thesis by (simp add: output_get out)
qed

end
