(* ===== verification/Journal_Live.thy ===== *)
theory Journal_Live
  imports Journal_Props
begin

text \<open>
  What the journal always lets happen: a valid new request is recorded, and every unfinished execution
  can be brought to its end by the holder of its token, with at most two calls and a receipt that
  reports the failure.
\<close>

section \<open>Sizes of bindings, requests and receipts\<close>

text \<open>An ASCII string of at most \<open>n\<close> characters, an exact integer, a Boolean or null.\<close>

fun small_scalar :: "nat \<Rightarrow> json \<Rightarrow> bool" where
  "small_scalar n (JStr s) = (ascii s \<and> length s \<le> n)"
| "small_scalar n (JInt i) = (0 \<le> i \<and> i \<le> MAX_INTEGER)"
| "small_scalar n (JBool b) = True"
| "small_scalar n JNull = True"
| "small_scalar n v = False"

text \<open>A value that can stand inside a document, with the room it needs.\<close>

definition fits :: "nat \<Rightarrow> nat \<Rightarrow> nat \<Rightarrow> json \<Rightarrow> bool" where
  "fits d nodes len v \<longleftrightarrow> strict v \<and> shallow v d \<and> jutf8 v \<and> jnodes v \<le> nodes \<and> jlen v \<le> len"

lemma small_scalar_fits: "small_scalar n v \<Longrightarrow> d \<le> 16 \<Longrightarrow> 3 \<le> n \<Longrightarrow> fits d 1 (6 * n + 2) v"
proof (cases v)
  case (JInt i)
  assume v: "small_scalar n v" and "d \<le> 16" and n: "3 \<le> n"
  from v JInt have "nat \<bar>i\<bar> < 10 ^ Suc 15" by (simp add: MAX_INTEGER_def nat_less_iff)
  from show_nat_length[OF this] v JInt n \<open>d \<le> 16\<close> show ?thesis
    by (simp add: fits_def int_bad_def MAX_INTEGER_def)
qed (simp_all add: fits_def int_bad_def utf8_ok_ascii)

lemma fits_object:
  assumes "distinct (map fst kvs)" and "d \<le> 16" and "length kvs \<le> m"
    and "\<And>k v. (k, v) \<in> set kvs \<Longrightarrow> ascii k \<and> length k \<le> 30 \<and> fits (Suc d) nodes len v"
  shows "fits d (1 + m * nodes) (2 + m * (184 + len)) (JObj kvs)"
proof -
  have "sum_list (map (\<lambda>(k, v). jnodes v) kvs) \<le> sum_list (map (\<lambda>_. nodes) kvs)"
    using assms(4) by (intro sum_list_mono) (auto simp: fits_def)
  also have "\<dots> \<le> m * nodes" using assms(3) by (simp add: sum_list_triv)
  finally have nodes: "sum_list (map (\<lambda>(k, v). jnodes v) kvs) \<le> m * nodes" .
  have "6 * length k + 4 + jlen v \<le> 184 + len" if "(k, v) \<in> set kvs" for k v
    using assms(4)[OF that] by (simp add: fits_def)
  then have "sum_list (map (\<lambda>(k, v). 6 * length k + 4 + jlen v) kvs) \<le> sum_list (map (\<lambda>_. 184 + len) kvs)"
    by (intro sum_list_mono) auto
  also have "\<dots> \<le> m * (184 + len)" using assms(3) by (simp add: sum_list_triv del: add_mult_distrib2)
  finally have len: "sum_list (map (\<lambda>(k, v). 6 * length k + 4 + jlen v) kvs) \<le> m * (184 + len)" .
  have "list_all (\<lambda>(k, v). strict v) kvs" "list_all (\<lambda>(k, v). shallow v (Suc d)) kvs"
    "list_all (\<lambda>(k, v). utf8_ok k \<and> jutf8 v) kvs"
    using assms(4) by (auto simp: list_all_iff fits_def utf8_ok_ascii)
  with nodes len assms(1,2) show ?thesis by (simp add: fits_def)
qed

lemma fits_mono: "fits d n l v \<Longrightarrow> n \<le> n' \<Longrightarrow> l \<le> l' \<Longrightarrow> fits d n' l' v"
  by (simp add: fits_def)

lemma fits_document:
  assumes "is_obj v" and "fits 0 n l v" and "n \<le> 100000"
  shows "document_ok v" "length (dumps v) \<le> l"
  using assms length_dumps[of v] by (auto simp: document_ok_def fits_def)

lemma id_ok_length: "id_ok s \<Longrightarrow> length s \<le> 128"
  by (auto simp: id_ok_def split: list.splits)

lemma binding_fields_ascii: "\<forall>f \<in> set binding_fields. ascii f \<and> length f \<le> 30"
  by (simp add: binding_fields_def)

lemma binding_fits:
  assumes "validate_binding b = Inr b" and "distinct (jkeys b)" and "d \<le> 15"
  shows "fits d 15 20000 b"
proof -
  from assms(1) obtain kvs where b: "b = JObj kvs" and keys: "set (map fst kvs) = set binding_fields"
    and ok: "\<forall>f \<in> set binding_fields. binding_field b f = Inr ()"
    by (cases b) (auto simp: validate_binding_Inr)
  from assms(2) b have distinct: "distinct (map fst kvs)" by simp
  have "length kvs = card (set binding_fields)" using keys distinct by (metis distinct_card length_map)
  then have length: "length kvs \<le> 14" using card_length[of binding_fields] by (simp add: binding_fields_def)
  have "small_scalar 128 v \<and> k \<in> set binding_fields" if kv: "(k, v) \<in> set kvs" for k v
  proof -
    from kv keys have k: "k \<in> set binding_fields" by force
    from kv distinct b have "jget b k = v" by (simp add: jget_def)
    with ok k have "binding_field b k = Inr ()" and "jget b k = v" by blast+
    then show ?thesis
      using k by (auto simp: binding_field_def result_iff id_ok_ascii digest_ok_ascii id_ok_length digest_ok_def
          split: if_splits)
  qed
  then have "fits d (1 + 14 * 1) (2 + 14 * (184 + (6 * 128 + 2))) (JObj kvs)"
    using assms(3) binding_fields_ascii small_scalar_fits[of 128] by (intro fits_object[OF distinct _ length]) auto
  then show ?thesis unfolding b by (rule fits_mono) simp_all
qed

section \<open>A new request is recorded\<close>

lemma binding_document:
  assumes "validate_binding b = Inr b" and "distinct (jkeys b)"
  shows "document_ok b" "length (dumps b) \<le> 20000" "jwf b"
proof -
  from assms(1) have "is_obj b" by (simp add: validate_binding_Inr)
  moreover note fits = binding_fits[OF assms, of 0]
  ultimately show "document_ok b" "length (dumps b) \<le> 20000" by (simp_all add: fits_document)
  from fits document_jwf[of b 0] show "jwf b" by (simp add: fits_def)
qed

lemma request_document_jsort: "jwf b \<Longrightarrow> strict b \<Longrightarrow>
    dumps (request_document (jsort b) scen img deadline timeout) = dumps (request_document b scen img deadline timeout)"
  using dumps_jsort[of "request_document (jsort b) scen img deadline timeout"]
    dumps_jsort[of "request_document b scen img deadline timeout"]
  by (simp add: request_document_def jsort_obj jsort_idem)

text \<open>The row \<open>begin\<close> writes.\<close>

definition intent_row :: "uuids \<Rightarrow> json \<Rightarrow> string \<Rightarrow> string \<Rightarrow> int \<Rightarrow> int \<Rightarrow> execution" where
  "intent_row ids b scen img deadline timeout =
    \<lparr>ex_run_id = str_of (jget b ''run_id''), ex_operation_id = str_of (jget b ''operation_id''),
     request_digest = sha256_of (request_document b scen img deadline timeout), binding_json = dumps b, scenario = scen,
     image_id = img, run_deadline = deadline, timeout_seconds = timeout, container_name = ''gah-'' @ uuid_container ids,
     owner_token = uuid_token ids, container_id = None, ex_state = ''INTENT'', receipt_json = None, receipt_digest = None\<rparr>"

lemma intent_row_verified:
  assumes "validate_binding b = Inr b" and "distinct (jkeys b)" and "scenario_ok scen" and "image_ok img"
    and "0 \<le> deadline" and "deadline \<le> MAX_INTEGER" and "1 \<le> timeout" and "timeout \<le> 120"
    and "hex_token_ok (uuid_token ids)" and "hex_token_ok (uuid_container ids)" and "17 \<le> rl"
  shows "verify_row rl bundle_ok (intent_row ids b scen img deadline timeout) = Inr (jsort b, None)"
proof -
  note doc = binding_document[OF assms(1,2)]
  have id: "\<exists>s. jget b f = JStr s \<and> id_ok s" if "f \<in> {''run_id'', ''operation_id''}" for f
  proof -
    from that have "f \<in> set binding_fields" by (auto simp: binding_fields_def)
    with assms(1) have "binding_field b f = Inr ()" by (simp add: validate_binding_Inr)
    with that show ?thesis by (auto simp: binding_field_def suffix_to_prefix result_iff)
  qed
  from id[of "''run_id''"] id[of "''operation_id''"] obtain run op
    where ids: "jget b ''run_id'' = JStr run" "id_ok run" "jget b ''operation_id'' = JStr op" "id_ok op" by auto
  have "decode_document rl (dumps b) = Inr (jsort b)"
    using doc assms(11) by (simp add: decode_document_dumps MAX_DOCUMENT_BYTES_def)
  moreover have "validate_binding (jsort b) = Inr (jsort b)" using doc(3) assms(1) by (rule validate_binding_jsort)
  moreover have "row_columns_ok (intent_row ids b scen img deadline timeout)"
    using assms(3-10) by (simp add: row_columns_ok_def intent_row_def container_name_ok_def STATES_def)
  moreover have "strict b" using doc(1) by (simp add: document_ok_def)
  ultimately show ?thesis
    using ids doc(3) by (simp add: verify_row_Inr intent_row_def jget_jsort dumps_jsort sha256_of_def
        request_document_jsort verify_stored_receipt_def)
qed

lemma require_scenario_Inr: "require_scenario v = Inr u \<longleftrightarrow> (\<exists>s. v = JStr s \<and> scenario_ok s)"
  by (cases v) (simp_all add: require_scenario_def guard_eq_Inr)

lemma require_image_Inr: "require_image v = Inr u \<longleftrightarrow> (\<exists>s. v = JStr s \<and> image_ok s)"
  by (cases v) (simp_all add: require_image_def guard_eq_Inr)

lemma validate_begin_Inr:
  "validate_begin b scen img deadline timeout = Inr packed \<longleftrightarrow>
    validate_binding b = Inr b \<and>
    (\<exists>s i d t. scen = JStr s \<and> scenario_ok s \<and> img = JStr i \<and> image_ok i \<and> deadline = JInt d \<and> 0 \<le> d \<and> d \<le> MAX_INTEGER \<and>
      timeout = JInt t \<and> 1 \<le> t \<and> t \<le> 120 \<and> packed = (dumps b, sha256_of (request_document b s i d t)))"
proof -
  have int: "is_int v \<and> 1 \<le> int_of v \<and> int_of v \<le> 120 \<longleftrightarrow> (\<exists>t. v = JInt t \<and> 1 \<le> t \<and> t \<le> 120)" for v by (cases v) auto
  show ?thesis
    unfolding validate_begin_def ebind_eq_Inr guard_eq_Inr unit_ex int require_scenario_Inr require_image_Inr require_uint_ok
    by (auto simp: validate_binding_Inr)
qed

lemma begin_new:
  assumes "validate_begin b (JStr s) (JStr i) (JInt d) (JInt t) = Inr packed" and "distinct (jkeys b)" and "journal_open j"
    and "(str_of (jget b ''run_id''), str_of (jget b ''operation_id'')) \<notin> ex_key ` set (executions j)"
    and "hex_token_ok (uuid_token ids)" and "hex_token_ok (uuid_container ids)" and "17 \<le> rl"
  shows "begin_execution rl bundle_ok No_fault ids b (JStr s) (JStr i) (JInt d) (JInt t) j =
      (Inr (output_of (intent_row ids b s i d t) (jsort b, None) (Some True)),
       j\<lparr>executions := executions j @ [intent_row ids b s i d t]\<rparr>)"
proof -
  from assms(1) have valid: "validate_binding b = Inr b" "scenario_ok s" "image_ok i" "0 \<le> d"
      "d \<le> MAX_INTEGER" "1 \<le> t" "t \<le> 120"
    and packed: "packed = (dumps b, sha256_of (request_document b s i d t))"
    by (auto simp: validate_begin_Inr)
  let ?r = "intent_row ids b s i d t" and ?k = "(str_of (jget b ''run_id''), str_of (jget b ''operation_id''))"
  have key: "ex_key ?r = ?k" by (simp add: ex_key_def intent_row_def)
  have absent: "row_find ex_key ?k (executions j) = None" using assms(4) by (simp add: row_find_None_iff)
  have "reread rl bundle_ok ?k (Some True) (executions j @ [?r]) =
      Inr (output_of ?r (jsort b, None) (Some True), executions j @ [?r])"
    using intent_row_verified[OF valid(1) assms(2) valid(2-7) assms(5-7)] absent key
    by (simp add: reread_def row_find_append)
  then have "begin_tx rl bundle_ok ids b (JStr s) (JStr i) (JInt d) (JInt t) packed (executions j) =
      Inr (output_of ?r (jsort b, None) (Some True), executions j @ [?r])"
    using absent by (simp add: begin_tx_def packed intent_row_def)
  then show ?thesis using assms(1,3) by (simp add: begin_execution_def checked_def journal_transaction_def)
qed

text \<open>
  A valid request is always recorded.  When the journal is open and SQLite does not fail, beginning a
  well-formed request under a key that has no execution adds exactly one execution in state INTENT,
  without a container and with the fresh owner token and container name, and returns it as new.
\<close>

theorem begin_records_intent:
  assumes "validate_begin b scen img deadline timeout = Inr packed" and "distinct (jkeys b)" and "journal_open j"
    and "(str_of (jget b ''run_id''), str_of (jget b ''operation_id'')) \<notin> ex_key ` set (executions j)"
    and "hex_token_ok (uuid_token ids)" and "hex_token_ok (uuid_container ids)" and "17 \<le> rl"
  shows "\<exists>r out. begin_execution rl bundle_ok No_fault ids b scen img deadline timeout j =
      (Inr out, j\<lparr>executions := executions j @ [r]\<rparr>) \<and>
    jget out ''new'' = JBool True \<and> jget out ''owner_token'' = JStr (uuid_token ids) \<and>
    jget out ''container_name'' = JStr (''gah-'' @ uuid_container ids) \<and>
    ex_state r = ''INTENT'' \<and> container_id r = None \<and> owner_token r = uuid_token ids \<and>
    ex_key r = (str_of (jget b ''run_id''), str_of (jget b ''operation_id'')) \<and> binding_json r = dumps b"
proof -
  from assms(1) obtain s i d t where args: "scen = JStr s" "img = JStr i" "deadline = JInt d" "timeout = JInt t"
    by (auto simp: validate_begin_Inr)
  have "ex_state (intent_row ids b s i d t) = ''INTENT''" "container_id (intent_row ids b s i d t) = None"
    "owner_token (intent_row ids b s i d t) = uuid_token ids" "binding_json (intent_row ids b s i d t) = dumps b"
    "container_name (intent_row ids b s i d t) = ''gah-'' @ uuid_container ids"
    "ex_key (intent_row ids b s i d t) = (str_of (jget b ''run_id''), str_of (jget b ''operation_id''))"
    by (simp_all add: intent_row_def ex_key_def)
  with begin_new[OF assms(1)[unfolded args] assms(2-7)] show ?thesis unfolding args by (metis output_get)
qed

section \<open>Every unfinished execution can be finished\<close>

text \<open>The receipt of an execution that failed and was stopped and cleaned up.\<close>

definition failed_receipt :: "json \<Rightarrow> string \<Rightarrow> string \<Rightarrow> string option \<Rightarrow> json" where
  "failed_receipt b scen img cid = JObj
    ([(''schema_version'', JInt 1),
      (''kind'', JStr (if is_guardrail scen then ''guardrail_execution'' else ''fixture_execution'')),
      (''binding'', b), (''scenario'', JStr scen), (''image_id'', JStr img), (''container_id'', opt_str cid),
      (''execution_status'', JStr ''FAILED''), (''exit_code'', JNull), (''stop_confirmed'', JBool True),
      (''reason'', JStr ''EXECUTION_FAILURE''), (''elapsed_millis'', JInt 0), (''isolation_config_verified'', JBool False),
      (''output_disposition'', JStr ''NOT_COLLECTED''), (''cleanup_confirmed'', JBool True), (''recovered'', JBool False),
      (''normalized_result'', JNull), (''probe_result'', JNull), (''ci_eligible'', JBool False)] @
     (if is_guardrail scen then [(''case_result'', JNull)] else []))"

lemma prefix_text: "prefix p s \<Longrightarrow> length p = n \<Longrightarrow> s = p @ drop n s"
  by (auto simp: prefix_def)

lemma scenario_ok_small: "scenario_ok s \<Longrightarrow> ascii s \<and> length s \<le> 128"
proof -
  have lists: "\<forall>s \<in> set constraint_scenarios \<union> set mutation_scenarios \<union> set probe_scenarios. ascii s \<and> length s \<le> 128"
    by (simp add: constraint_scenarios_def mutation_scenarios_def probe_scenarios_def)
  have "ascii s \<and> length s \<le> 128" if "prefix ''guardrail:'' s" and "digest_ok (drop 10 s)"
  proof -
    from that(1) have "s = ''guardrail:'' @ drop 10 s" by (rule prefix_text) simp
    moreover have "ascii (drop 10 s) \<and> length (drop 10 s) = 64" using that(2) digest_ok_ascii by (simp add: digest_ok_def)
    moreover have "ascii ''guardrail:''" by simp
    ultimately have "ascii s" by (metis ascii_append)
    moreover have "length s - 10 = 64" using that(2) by (simp add: digest_ok_def)
    ultimately show ?thesis by arith
  qed
  with lists show "scenario_ok s \<Longrightarrow> ?thesis" unfolding scenario_ok_def is_guardrail_def by blast
qed

lemma image_ok_small: "image_ok s \<Longrightarrow> ascii s \<and> length s \<le> 128"
proof -
  assume img: "image_ok s"
  then have "s = ''sha256:'' @ drop 7 s" by (intro prefix_text) (simp_all add: image_ok_def)
  moreover have "ascii ''sha256:'' \<and> ascii (drop 7 s)" using img digest_ok_ascii by (simp add: image_ok_def)
  ultimately have "ascii s" by (metis ascii_append)
  moreover have "length s - 7 = 64" using img by (simp add: image_ok_def digest_ok_def)
  ultimately show ?thesis by arith
qed

lemma failed_receipt_document:
  assumes "validate_binding b = Inr b" and "distinct (jkeys b)" and "scenario_ok scen" and "image_ok img"
    and "case cid of None \<Rightarrow> True | Some c \<Rightarrow> digest_ok c"
  shows "document_ok (failed_receipt b scen img cid)" "length (dumps (failed_receipt b scen img cid)) \<le> MAX_RECEIPT_BYTES"
proof -
  have cid: "small_scalar 128 (opt_str cid)"
    using assms(5) digest_ok_ascii by (auto simp: opt_str_def digest_ok_def split: option.splits)
  have scalar: "fits (Suc 0) 15 20000 v" if "small_scalar 128 v" for v
    using small_scalar_fits[OF that, of "Suc 0"] by (auto intro: fits_mono)
  have b: "fits (Suc 0) 15 20000 b" using assms(1,2) by (rule binding_fits) simp
  obtain kvs where kvs: "failed_receipt b scen img cid = JObj kvs" by (simp add: failed_receipt_def)
  have "fits 0 (1 + 19 * 15) (2 + 19 * (184 + 20000)) (JObj kvs)"
  proof (rule fits_object)
    show "distinct (map fst kvs)" "length kvs \<le> 19" using kvs by (auto simp: failed_receipt_def)
    show "ascii k \<and> length k \<le> 30 \<and> fits (Suc 0) 15 20000 v" if "(k, v) \<in> set kvs" for k v
    proof -
      have "ascii k \<and> length k \<le> 30 \<and> (v = b \<or> small_scalar 128 v)"
        using that kvs cid scenario_ok_small[OF assms(3)] image_ok_small[OF assms(4)]
        by (auto simp: failed_receipt_def MAX_INTEGER_def split: if_splits)
      with b scalar show ?thesis by blast
    qed
  qed simp
  then have fits: "fits 0 (1 + 19 * 15) (2 + 19 * (184 + 20000)) (failed_receipt b scen img cid)" by (simp only: kvs)
  have obj: "is_obj (failed_receipt b scen img cid)" by (simp add: failed_receipt_def)
  from fits_document[OF obj fits] show "document_ok (failed_receipt b scen img cid)"
    "length (dumps (failed_receipt b scen img cid)) \<le> MAX_RECEIPT_BYTES"
    by (simp_all add: MAX_RECEIPT_BYTES_def)
qed

lemma failed_receipt_get:
  "jget (failed_receipt b scen img cid) ''schema_version'' = JInt 1"
  "jget (failed_receipt b scen img cid) ''kind'' =
    JStr (if is_guardrail scen then ''guardrail_execution'' else ''fixture_execution'')"
  "jget (failed_receipt b scen img cid) ''binding'' = b" "jget (failed_receipt b scen img cid) ''scenario'' = JStr scen"
  "jget (failed_receipt b scen img cid) ''image_id'' = JStr img"
  "jget (failed_receipt b scen img cid) ''container_id'' = opt_str cid"
  "jget (failed_receipt b scen img cid) ''execution_status'' = JStr ''FAILED''"
  "jget (failed_receipt b scen img cid) ''exit_code'' = JNull"
  "jget (failed_receipt b scen img cid) ''stop_confirmed'' = JBool True"
  "jget (failed_receipt b scen img cid) ''reason'' = JStr ''EXECUTION_FAILURE''"
  "jget (failed_receipt b scen img cid) ''elapsed_millis'' = JInt 0"
  "jget (failed_receipt b scen img cid) ''isolation_config_verified'' = JBool False"
  "jget (failed_receipt b scen img cid) ''output_disposition'' = JStr ''NOT_COLLECTED''"
  "jget (failed_receipt b scen img cid) ''cleanup_confirmed'' = JBool True"
  "jget (failed_receipt b scen img cid) ''recovered'' = JBool False"
  "jget (failed_receipt b scen img cid) ''normalized_result'' = JNull"
  "jget (failed_receipt b scen img cid) ''probe_result'' = JNull"
  "jget (failed_receipt b scen img cid) ''ci_eligible'' = JBool False"
  "is_guardrail scen \<Longrightarrow> jget (failed_receipt b scen img cid) ''case_result'' = JNull"
  "set (jkeys (failed_receipt b scen img cid)) =
    set receipt_fields \<union> (if is_guardrail scen then {''case_result''} else {})"
  by (simp_all add: failed_receipt_def jget_def receipt_fields_def) 

lemma failed_receipt_checks:
  assumes "validate_binding b = Inr b" and "jwf b" and "case cid of None \<Rightarrow> True | Some c \<Rightarrow> digest_ok c"
    and "jwf (failed_receipt b scen img cid)"
  shows "receipt_field_checks (jsort (failed_receipt b scen img cid)) b scen img (opt_str cid) = Inr ()"
    "receipt_part_checks rl bundle_ok (jsort (failed_receipt b scen img cid)) b scen img = Inr ()"
proof -
  let ?r = "failed_receipt b scen img cid"
  note get = jget_jsort[OF assms(4)] failed_receipt_get
  have "jsort (opt_str cid) = opt_str cid" by (simp add: opt_str_def split: option.splits)
  moreover have "require_container_id (opt_str cid) = Inr ()"
    using assms(3) by (auto simp: require_container_id_def opt_str_def split: option.splits)
  moreover have "validate_binding (jsort b) = Inr (jsort b)" using assms(2,1) by (rule validate_binding_jsort)
  ultimately show "receipt_field_checks (jsort ?r) b scen img (opt_str cid) = Inr ()"
    unfolding receipt_field_checks_def
    by (simp add: get enum_check_def execution_statuses_def exit_code_ok_def opt_member_def receipt_reasons_def
        require_uint_def MAX_INTEGER_def output_dispositions_def)
  show "receipt_part_checks rl bundle_ok (jsort ?r) b scen img = Inr ()"
    by (simp add: receipt_part_checks_def get failed_ok_def valid_reasons_def receipt_reasons_def)
qed

text \<open>Both the receipt and the document read back from its text are accepted, with the same result.\<close>

lemma failed_receipt_valid:
  assumes "validate_binding b = Inr b" and "distinct (jkeys b)" and "scenario_ok scen" and "image_ok img"
    and "case cid of None \<Rightarrow> True | Some c \<Rightarrow> digest_ok c" and "17 \<le> rl"
    and w: "w \<in> {failed_receipt b scen img cid, jsort (failed_receipt b scen img cid)}"
  shows "validate_receipt rl bundle_ok w b scen img (opt_str cid) =
    Inr (jsort (failed_receipt b scen img cid), dumps (failed_receipt b scen img cid),
      sha256_hex (dumps (failed_receipt b scen img cid)))"
proof -
  let ?r = "failed_receipt b scen img cid"
  note doc = failed_receipt_document[OF assms(1-5)]
  then have "decode_document rl (dumps ?r) = Inr (jsort ?r)"
    using assms(6) by (simp add: decode_document_dumps MAX_DOCUMENT_BYTES_def MAX_RECEIPT_BYTES_def)
  moreover have "canonical_bytes w = Inr (dumps ?r)" "is_obj w" "py_eq (jsort ?r) w"
    using w doc(1) document_ok_jsort[OF doc(1)] py_eq_sym[OF py_eq_jsort[of ?r]]
    by (auto simp: canonical_bytes_def document_ok_def strict_jfinite dumps_jsort)
  ultimately have "canonical_object rl (Some MAX_RECEIPT_BYTES) w = Inr (jsort ?r, dumps ?r)"
    using doc(2) by (simp add: canonical_object_Inr)
  moreover have "jwf ?r" using doc(1) document_jwf by (auto simp: document_ok_def)
  moreover have "jwf b" using binding_document(3)[OF assms(1,2)] .
  ultimately show ?thesis
    using failed_receipt_checks[OF assms(1) _ assms(5)] by (simp add: validate_receipt_Inr)
qed

text \<open>The row after a failure was reported.\<close>

definition failed_row :: "json \<Rightarrow> execution \<Rightarrow> execution" where
  "failed_row b r =
    (let receipt = dumps (failed_receipt b (scenario r) (image_id r) (container_id r))
     in r\<lparr>ex_state := ''FINISHED'', receipt_json := Some receipt, receipt_digest := Some (sha256_hex receipt)\<rparr>)"

lemma verified_row_facts:
  assumes "verify_row rl bundle_ok r = Inr v"
  shows "validate_binding (fst v) = Inr (fst v)" "distinct (jkeys (fst v))" "scenario_ok (scenario r)" "image_ok (image_id r)"
    "case container_id r of None \<Rightarrow> True | Some c \<Rightarrow> digest_ok c"
proof -
  from assms have "document_ok (fst v)" by (simp add: verify_row_Inr decode_document_Inr)
  then show "distinct (jkeys (fst v))" by (cases "fst v") (auto simp: document_ok_def)
qed (use assms in \<open>simp_all add: verify_row_Inr row_columns_ok_def\<close>)

lemma failed_row_verified:
  assumes "verify_row rl bundle_ok r = Inr v" and "17 \<le> rl"
  shows "verify_row rl bundle_ok (failed_row (fst v) r) =
    Inr (fst v, Some (jsort (failed_receipt (fst v) (scenario r) (image_id r) (container_id r))))"
proof -
  let ?f = "failed_receipt (fst v) (scenario r) (image_id r) (container_id r)"
  note facts = verified_row_facts[OF assms(1)]
  have receipt: "validate_receipt rl bundle_ok (jsort ?f) (fst v) (scenario r) (image_id r) (opt_str (container_id r)) =
      Inr (jsort ?f, dumps ?f, sha256_hex (dumps ?f))"
    using failed_receipt_valid[OF facts assms(2)] by simp
  then have "decode_document rl (dumps ?f) = Inr (jsort ?f)" by (simp add: validate_receipt_Inr canonical_object_Inr)
  with receipt have "verify_stored_receipt rl bundle_ok (fst v) (failed_row (fst v) r) = Inr (Some (jsort ?f))"
    by (simp add: verify_stored_receipt_def failed_row_def Let_def)
  moreover have "row_columns_ok (failed_row (fst v) r)"
    using assms(1) by (simp add: verify_row_Inr row_columns_ok_def failed_row_def Let_def STATES_def)
  ultimately show ?thesis using assms(1) by (simp add: verify_row_Inr failed_row_def Let_def)
qed

lemma finish_with_failure:
  assumes "row_find ex_key k rows = Some r" and "verify_row rl bundle_ok r = Inr v" and "17 \<le> rl"
    and "ex_state r \<noteq> ''FINISHED''" and "container_id r = None \<or> ex_state r = ''STOPPED''"
  shows "finish_tx rl bundle_ok k (owner_token r)
      (failed_receipt (fst v) (scenario r) (image_id r) (container_id r)) rows =
    Inr (output_of (failed_row (fst v) r) (fst v, Some (jsort (failed_receipt (fst v) (scenario r) (image_id r) (container_id r))))
        None,
      row_update ex_key k (\<lambda>s. s\<lparr>ex_state := ''FINISHED'', receipt_json := receipt_json (failed_row (fst v) r),
        receipt_digest := receipt_digest (failed_row (fst v) r)\<rparr>) rows)"
proof -
  let ?f = "failed_receipt (fst v) (scenario r) (image_id r) (container_id r)"
  let ?g = "\<lambda>s. s\<lparr>ex_state := ''FINISHED'', receipt_json := receipt_json (failed_row (fst v) r),
        receipt_digest := receipt_digest (failed_row (fst v) r)\<rparr>"
  note facts = verified_row_facts[OF assms(2)]
  have receipt: "validate_receipt rl bundle_ok ?f (fst v) (scenario r) (image_id r) (opt_str (container_id r)) =
      Inr (jsort ?f, dumps ?f, sha256_hex (dumps ?f))"
    using failed_receipt_valid[OF facts assms(3)] by simp
  have "jwf ?f" using failed_receipt_document(1)[OF facts] document_jwf by (auto simp: document_ok_def)
  then have closed: "jget (jsort ?f) ''stop_confirmed'' = JBool True" "jget (jsort ?f) ''cleanup_confirmed'' = JBool True"
    by (simp_all add: jget_jsort failed_receipt_get)
  have g: "?g r = failed_row (fst v) r" by (simp add: failed_row_def Let_def)
  have "row_find ex_key k (row_update ex_key k ?g rows) = Some (failed_row (fst v) r)"
    using assms(1) g by (subst row_find_update) (simp_all add: ex_key_def)
  then have "reread rl bundle_ok k None (row_update ex_key k ?g rows) =
      Inr (output_of (failed_row (fst v) r) (fst v, Some (jsort ?f)) None, row_update ex_key k ?g rows)"
    using failed_row_verified[OF assms(2,3)] by (simp add: reread_def)
  then show ?thesis
    using assms receipt closed by (simp add: finish_tx_def with_row_def failed_row_def Let_def)
qed

lemma advance_to_stopped:
  assumes "row_find ex_key k rows = Some r" and "verify_row rl bundle_ok r = Inr v"
    and "ex_state r \<in> {''CREATED'', ''STARTING'', ''RUNNING''}" and "container_id r = Some c"
  shows "advance_tx rl bundle_ok k (owner_token r) ''STOPPED'' (Some c) rows =
    Inr (output_of (r\<lparr>ex_state := ''STOPPED''\<rparr>) v None,
      row_update ex_key k (\<lambda>s. s\<lparr>ex_state := ''STOPPED'', container_id := Some c\<rparr>) rows)"
proof -
  have unfinished: "ex_state r \<noteq> ''FINISHED''" using assms(3) by auto
  then have none: "snd v = None" using assms(2) by (auto simp: verify_row_Inr)
  let ?g = "\<lambda>s. s\<lparr>ex_state := ''STOPPED'', container_id := Some c\<rparr>"
  have g: "?g r = r\<lparr>ex_state := ''STOPPED''\<rparr>" using assms(4) by simp
  have "verify_stored_receipt rl bundle_ok (fst v) (r\<lparr>ex_state := ''STOPPED''\<rparr>) = Inr None"
    using assms(2) none by (simp add: verify_row_Inr verify_stored_receipt_Inr)
  then have "verify_row rl bundle_ok (r\<lparr>ex_state := ''STOPPED''\<rparr>) = Inr v"
    using assms(2) none by (simp add: verify_row_Inr row_columns_ok_def STATES_def)
  moreover have "row_find ex_key k (row_update ex_key k ?g rows) = Some (r\<lparr>ex_state := ''STOPPED''\<rparr>)"
    using assms(1) g by (subst row_find_update) (simp_all add: ex_key_def)
  ultimately have "reread rl bundle_ok k None (row_update ex_key k ?g rows) =
      Inr (output_of (r\<lparr>ex_state := ''STOPPED''\<rparr>) v None, row_update ex_key k ?g rows)"
    by (simp add: reread_def)
  moreover have "advance_checks r ''STOPPED'' (Some c) = Inr ()"
    using assms(3,4) by (auto simp: advance_checks_Inr state_indices)
  moreover have "state_index ''STOPPED'' \<noteq> state_index (ex_state r)" using assms(3) by (auto simp: state_indices)
  ultimately show ?thesis using assms(1,2) unfinished by (simp add: advance_tx_def with_row_def)
qed

text \<open>The calls that end an execution.\<close>

definition stop_calls :: "execution \<Rightarrow> journal_call list" where
  "stop_calls r =
    (if container_id r = None \<or> ex_state r = ''STOPPED'' then []
     else [Advance No_fault (JStr (ex_run_id r)) (JStr (ex_operation_id r)) (JStr (owner_token r)) (JStr ''STOPPED'')
       (opt_str (container_id r))])"

definition failure_calls :: "json \<Rightarrow> execution \<Rightarrow> journal_call list" where
  "failure_calls b r = stop_calls r @
    [Finish No_fault (JStr (ex_run_id r)) (JStr (ex_operation_id r)) (JStr (owner_token r))
      (failed_receipt b (scenario r) (image_id r) (container_id r))]"

lemma verified_ids:
  assumes "verify_row rl bundle_ok r = Inr v"
  shows "require_id (JStr (ex_run_id r)) = Inr ()" "require_id (JStr (ex_operation_id r)) = Inr ()"
    "require_token (JStr (owner_token r)) = Inr ()" "require_container_id (opt_str (container_id r)) = Inr ()"
  using assms by (auto simp: verify_row_Inr row_columns_ok_def require_id_def require_token_def require_container_id_def
      opt_str_def split: option.splits)

lemma finish_call_ends:
  assumes "journal_open j" and "row_find ex_key (ex_key r) (executions j) = Some r" and "verify_row rl bundle_ok r = Inr v"
    and "17 \<le> rl" and "ex_state r \<noteq> ''FINISHED''" and "container_id r = None \<or> ex_state r = ''STOPPED''"
  shows "row_find ex_key (ex_key r) (executions (snd (finish rl bundle_ok No_fault (JStr (ex_run_id r)) (JStr (ex_operation_id r))
      (JStr (owner_token r)) (failed_receipt (fst v) (scenario r) (image_id r) (container_id r)) j))) = Some (failed_row (fst v) r)"
proof -
  have key: "ex_key r = (ex_run_id r, ex_operation_id r)" by (simp add: ex_key_def)
  note tx = finish_with_failure[OF assms(2-6)]
  have g: "r\<lparr>ex_state := ''FINISHED'', receipt_json := receipt_json (failed_row (fst v) r),
      receipt_digest := receipt_digest (failed_row (fst v) r)\<rparr> = failed_row (fst v) r"
    by (simp add: failed_row_def Let_def)
  have "executions (snd (finish rl bundle_ok No_fault (JStr (ex_run_id r)) (JStr (ex_operation_id r)) (JStr (owner_token r))
      (failed_receipt (fst v) (scenario r) (image_id r) (container_id r)) j)) =
    row_update ex_key (ex_key r) (\<lambda>s. s\<lparr>ex_state := ''FINISHED'', receipt_json := receipt_json (failed_row (fst v) r),
        receipt_digest := receipt_digest (failed_row (fst v) r)\<rparr>) (executions j)"
    using assms(1) verified_ids[OF assms(3)] tx
    by (simp add: finish_def checked_def journal_transaction_def key)
  then show ?thesis using assms(2) g by (simp only:) (subst row_find_update; simp add: ex_key_def)
qed

text \<open>C23.
  No execution is stuck.  In every open journal built by calls, an execution that is not finished can be
  brought to FINISHED by the holder of its token with at most two calls, provided SQLite does not fail:
  stopping it if it has a container, and a receipt that reports the failure.
\<close>

theorem unfinished_executions_can_finish:
  assumes "j = run_calls (call_journal rl bundle_ok) cs new_journal" and "journal_open j" and "17 \<le> rl"
    and "r \<in> set (executions j)" and "ex_state r \<noteq> ''FINISHED''"
  shows "\<exists>cs' r'. length cs' \<le> 2 \<and> (\<forall>c \<in> set cs'. call_token c = Some (owner_token r)) \<and>
    r' \<in> set (executions (run_calls (call_journal rl bundle_ok) cs' j)) \<and> ex_key r' = ex_key r \<and> ex_state r' = ''FINISHED''"
proof -
  have inv: "journal_inv rl bundle_ok (executions j)" unfolding assms(1) by (rule reached_inv)
  then have row: "row_inv rl bundle_ok r" and find: "row_find ex_key (ex_key r) (executions j) = Some r"
    using assms(4) by (auto simp: journal_inv_def intro: row_find_in_set)
  from row obtain v where v: "verify_row rl bundle_ok r = Inr v" by (auto simp: row_inv_def)
  have finished: "ex_state (failed_row (fst v) s) = ''FINISHED''" "ex_key (failed_row (fst v) s) = ex_key s" for s
    by (simp_all add: failed_row_def Let_def ex_key_def)
  show ?thesis
  proof (cases "container_id r = None \<or> ex_state r = ''STOPPED''")
    case True
    then have "stop_calls r = []" by (simp add: stop_calls_def)
    with finish_call_ends[OF assms(2) find v assms(3,5) True] finished show ?thesis
      by (intro exI[of _ "failure_calls (fst v) r"] exI[of _ "failed_row (fst v) r"])
        (auto simp: failure_calls_def dest: row_find_SomeD)
  next
    case False
    then obtain c where c: "container_id r = Some c" by auto
    from v have "ex_state r \<in> set STATES" by (simp add: verify_row_Inr row_columns_ok_def)
    then have state: "ex_state r \<in> {''CREATED'', ''STARTING'', ''RUNNING''}"
      using False assms(5) row by (auto simp: STATES_def row_inv_def)
    let ?s = "r\<lparr>ex_state := ''STOPPED''\<rparr>" and ?g = "\<lambda>s. s\<lparr>ex_state := ''STOPPED'', container_id := Some c\<rparr>"
    let ?j = "j\<lparr>executions := row_update ex_key (ex_key r) ?g (executions j)\<rparr>"
    have key: "ex_key r = (ex_run_id r, ex_operation_id r)" by (simp add: ex_key_def)
    have g: "?g r = ?s" using c by simp
    have advance: "call_journal rl bundle_ok (Advance No_fault (JStr (ex_run_id r)) (JStr (ex_operation_id r))
        (JStr (owner_token r)) (JStr ''STOPPED'') (opt_str (container_id r))) j = (Inr (output_of ?s v None), ?j)"
      using verified_ids[OF v] advance_to_stopped[OF find v state c] assms(2) c
      by (simp add: advance_def checked_def journal_transaction_def STATES_def json_text_def opt_str_def key)
    have stop: "stop_calls r = [Advance No_fault (JStr (ex_run_id r)) (JStr (ex_operation_id r)) (JStr (owner_token r))
        (JStr ''STOPPED'') (opt_str (container_id r))]"
      unfolding stop_calls_def using False by (rule if_not_P)
    have find': "row_find ex_key (ex_key ?s) (executions ?j) = Some ?s"
    proof -
      have "row_find ex_key (ex_key r) (row_update ex_key (ex_key r) ?g (executions j)) = Some (?g r)"
        using find by (subst row_find_update) (simp_all add: ex_key_def)
      then show ?thesis using c by (simp add: ex_key_def)
    qed
    have "journal_inv rl bundle_ok (executions ?j)"
      using journal.inv_step[OF inv, of "Advance No_fault (JStr (ex_run_id r)) (JStr (ex_operation_id r))
        (JStr (owner_token r)) (JStr ''STOPPED'') (opt_str (container_id r))"] unfolding advance snd_conv .
    then obtain w where w: "verify_row rl bundle_ok ?s = Inr w"
      using find' by (auto simp: journal_inv_def row_inv_def dest!: row_find_SomeD)
    have "fst w = fst v" using v w by (simp add: verify_row_Inr)
    have "row_find ex_key (ex_key ?s) (executions (run_calls (call_journal rl bundle_ok) (failure_calls (fst v) r) j)) =
        Some (failed_row (fst w) ?s)"
      using finish_call_ends[OF _ find' w assms(3)] assms(2) advance \<open>fst w = fst v\<close>
      unfolding failure_calls_def stop by simp
    then have "failed_row (fst w) ?s \<in> set (executions (run_calls (call_journal rl bundle_ok) (failure_calls (fst v) r) j))"
      by (auto dest: row_find_SomeD)
    moreover have "length (failure_calls (fst v) r) \<le> 2" "\<forall>c \<in> set (failure_calls (fst v) r). call_token c = Some (owner_token r)"
      unfolding failure_calls_def stop by simp_all
    moreover have "ex_state (failed_row (fst w) ?s) = ''FINISHED''" by (simp add: failed_row_def Let_def)
    moreover have "ex_key (failed_row (fst w) ?s) = ex_key r" using finished(2)[of ?s] by (simp add: failed_row_def Let_def ex_key_def)
    ultimately show ?thesis using \<open>ex_state (failed_row (fst w) ?s) = ''FINISHED''\<close> by blast
  qed
qed

section \<open>An instance\<close>

definition sample_ids :: uuids where
  "sample_ids = \<lparr>uuid_token = replicate 32 (CHR ''a''), uuid_container = replicate 32 (CHR ''b'')\<rparr>"

definition sample_image :: string where
  "sample_image = ''sha256:'' @ replicate 64 (CHR ''c'')"

definition sample_begin :: journal_call where
  "sample_begin = Begin No_fault sample_ids sample_binding (JStr ''probe:crash'') (JStr sample_image) (JInt 100) (JInt 60)"

definition sample_row :: execution where
  "sample_row = intent_row sample_ids sample_binding ''probe:crash'' sample_image 100 60"

definition sample_journal :: journal where
  "sample_journal = \<lparr>executions = [sample_row], journal_open = True\<rparr>"

definition no_bundle :: "json \<Rightarrow> bool" where
  "no_bundle v = False"

lemma hex_replicate: "c \<in> {CHR ''a'', CHR ''b'', CHR ''c''} \<Longrightarrow> list_all hex_lower (replicate n c)"
  by (auto simp: list_all_iff hex_lower_def is_digit_def)

lemma sample_valid:
  "validate_begin sample_binding (JStr ''probe:crash'') (JStr sample_image) (JInt 100) (JInt 60) =
    Inr (dumps sample_binding, sha256_of (request_document sample_binding ''probe:crash'' sample_image 100 60))"
proof -
  have "scenario_ok ''probe:crash''" by (simp add: scenario_ok_def probe_scenarios_def)
  moreover have "image_ok sample_image" by (simp add: image_ok_def sample_image_def digest_ok_def hex_replicate)
  ultimately show ?thesis by (simp add: validate_begin_Inr sample_binding_valid MAX_INTEGER_def)
qed

lemma sample_ids_hex: "hex_token_ok (uuid_token sample_ids)" "hex_token_ok (uuid_container sample_ids)"
  by (simp_all add: sample_ids_def hex_token_ok_def hex_replicate)

lemma sample_binding_distinct: "distinct (jkeys sample_binding)"
  by (simp add: sample_binding_def)

lemma sample_begun:
  "call_journal 17 no_bundle sample_begin new_journal =
    (Inr (output_of sample_row (jsort sample_binding, None) (Some True)), sample_journal)"
  using begin_new[OF sample_valid sample_binding_distinct _ _ sample_ids_hex, of new_journal 17 no_bundle]
  by (simp add: sample_begin_def sample_row_def sample_journal_def new_journal_def)

lemma sample_reached: "sample_journal = run_calls (call_journal 17 no_bundle) [sample_begin] new_journal"
  by (simp add: sample_begun)

lemma sample_row_facts: "sample_row \<in> set (executions sample_journal)" "ex_state sample_row = ''INTENT''"
    "container_id sample_row = None" "owner_token sample_row = replicate 32 (CHR ''a'')"
  by (simp_all add: sample_journal_def sample_row_def intent_row_def sample_ids_def)

lemma sample_row_verified: "verify_row 17 no_bundle sample_row = Inr (jsort sample_binding, None)"
  using sample_valid intent_row_verified[OF sample_binding_valid sample_binding_distinct _ _ _ _ _ _ sample_ids_hex, of "''probe:crash''"
      sample_image 100 60 17 no_bundle]
  by (simp add: sample_row_def validate_begin_Inr)

definition sample_finish :: journal_call where
  "sample_finish = Finish No_fault (JStr (ex_run_id sample_row)) (JStr (ex_operation_id sample_row))
     (JStr (owner_token sample_row)) (failed_receipt (jsort sample_binding) (scenario sample_row) (image_id sample_row)
       (container_id sample_row))"

definition sample_failed :: execution where
  "sample_failed = failed_row (jsort sample_binding) sample_row"

lemma sample_finished: "sample_failed \<in> set (executions (snd (call_journal 17 no_bundle sample_finish sample_journal)))"
  using finish_call_ends[OF _ _ sample_row_verified, of sample_journal] sample_row_facts
  by (simp add: sample_journal_def sample_finish_def sample_failed_def) (metis row_find_SomeD)

lemma sample_failed_facts: "ex_state sample_failed = ''FINISHED''" "ex_key sample_failed = ex_key sample_row"
    "sample_failed \<noteq> sample_row"
  using sample_row_facts(2) by (auto simp: sample_failed_def failed_row_def Let_def ex_key_def dest: arg_cong[of _ _ ex_state])

theorem executions_only_advance_witness:
  "\<exists>r' \<in> set (executions (run_calls (call_journal 17 no_bundle) [sample_begin, sample_finish] new_journal)).
     owner_token r' = owner_token sample_row"
  using executions_only_advance[of sample_row 17 no_bundle "[sample_begin]" "[sample_finish]"] sample_row_facts(1)
  unfolding sample_reached append.simps by blast

theorem only_token_holder_acts_witness: "execution_step 17 no_bundle sample_row sample_failed"
  using only_token_holder_acts[OF sample_row_facts(1) sample_finished sample_reached sample_failed_facts(2,3)] by blast

theorem finished_executions_are_closed_witness: "\<exists>raw. receipt_digest sample_failed = Some (sha256_hex raw)"
proof -
  have "sample_failed \<in> set (executions (run_calls (call_journal 17 no_bundle) [sample_begin, sample_finish] new_journal))"
    using sample_finished by (simp add: sample_begun)
  from finished_executions_are_closed[OF this sample_failed_facts(1)] show ?thesis by blast
qed

theorem begin_is_idempotent_witness:
  "\<exists>out'. begin_execution 17 no_bundle No_fault sample_ids sample_binding (JStr ''probe:crash'') (JStr sample_image)
      (JInt 100) (JInt 60) sample_journal = (Inr out', sample_journal) \<and> jget out' ''new'' = JBool False"
proof -
  have first: "begin_execution 17 no_bundle No_fault sample_ids sample_binding (JStr ''probe:crash'') (JStr sample_image)
      (JInt 100) (JInt 60) (run_calls (call_journal 17 no_bundle) [] new_journal) =
    (Inr (output_of sample_row (jsort sample_binding, None) (Some True)), sample_journal)"
    using sample_begun by (simp add: sample_begin_def)
  have second: "sample_journal = run_calls (call_journal 17 no_bundle) [] sample_journal" "journal_open sample_journal"
    by (simp_all add: sample_journal_def)
  from begin_is_idempotent[OF first second] show ?thesis by blast
qed

theorem begin_records_intent_witness:
  "\<exists>r out. begin_execution 17 no_bundle No_fault sample_ids sample_binding (JStr ''probe:crash'') (JStr sample_image)
      (JInt 100) (JInt 60) new_journal = (Inr out, new_journal\<lparr>executions := executions new_journal @ [r]\<rparr>) \<and>
    ex_state r = ''INTENT''"
  using begin_records_intent[OF sample_valid sample_binding_distinct _ _ sample_ids_hex, of new_journal 17 no_bundle]
  by (simp add: new_journal_def) blast

theorem unfinished_executions_can_finish_witness:
  "\<exists>cs' r'. r' \<in> set (executions (run_calls (call_journal 17 no_bundle) cs' sample_journal)) \<and> ex_state r' = ''FINISHED''"
  using unfinished_executions_can_finish[OF sample_reached _ _ sample_row_facts(1)] sample_row_facts(2)
  by (auto simp: sample_journal_def)

end
