(* ===== verification/Journal_Results.thy ===== *)
theory Journal_Results
  imports Journal_Live
begin

text \<open>
  The reader of raw results and the journal agree: every normalized result the reader produces for a
  binding passes the journal's own check of normalized results for that binding.
\<close>

lemma small_scalar_jsort: "small_scalar n v \<Longrightarrow> jsort v = v"
  by (cases v) simp_all

lemma normal_result_document:
  assumes "validate_binding b = Inr b" and "distinct (jkeys b)"
    and "\<And>v. v \<in> {m, ob, ou, de, dv, er, dg} \<Longrightarrow> small_scalar 128 v"
  shows "document_ok (normal_result b m ob ou de dv er dg)"
    "length (dumps (normal_result b m ob ou de dv er dg)) \<le> MAX_DOCUMENT_BYTES"
proof -
  have scalar: "fits (Suc 0) 15 20000 v" if "small_scalar 128 v" for v
    using small_scalar_fits[OF that, of "Suc 0"] by (auto intro: fits_mono)
  have b: "fits (Suc 0) 15 20000 b" using assms(1,2) by (rule binding_fits) simp
  have small: "small_scalar 128 m" "small_scalar 128 ob" "small_scalar 128 ou" "small_scalar 128 de" "small_scalar 128 dv"
    "small_scalar 128 er" "small_scalar 128 dg"
    by (rule assms(3), simp)+
  obtain kvs where kvs: "normal_result b m ob ou de dv er dg = JObj kvs" by (simp add: normal_result_def)
  have "fits 0 (1 + 19 * 15) (2 + 19 * (184 + 20000)) (JObj kvs)"
  proof (rule fits_object)
    show "distinct (map fst kvs)" "length kvs \<le> 19" using kvs by (auto simp: normal_result_def)
    show "ascii k \<and> length k \<le> 30 \<and> fits (Suc 0) 15 20000 v" if "(k, v) \<in> set kvs" for k v
    proof -
      have "ascii k \<and> length k \<le> 30 \<and> (v = b \<or> small_scalar 128 v)"
        using that kvs small by (auto simp: normal_result_def MAX_INTEGER_def)
      with b scalar show ?thesis by blast
    qed
  qed simp
  then have fits: "fits 0 (1 + 19 * 15) (2 + 19 * (184 + 20000)) (normal_result b m ob ou de dv er dg)" by (simp only: kvs)
  have obj: "is_obj (normal_result b m ob ou de dv er dg)" by (simp add: normal_result_def)
  from fits_document[OF obj fits] show "document_ok (normal_result b m ob ou de dv er dg)"
    "length (dumps (normal_result b m ob ou de dv er dg)) \<le> MAX_DOCUMENT_BYTES"
    by (simp_all add: MAX_DOCUMENT_BYTES_def)
qed

text \<open>What the journal requires of the scalars.\<close>

definition result_scalars_ok :: "json \<Rightarrow> json \<Rightarrow> json \<Rightarrow> json \<Rightarrow> json \<Rightarrow> json \<Rightarrow> json \<Rightarrow> bool" where
  "result_scalars_ok m ob ou de dv er dg \<longleftrightarrow>
     opt_member m modes \<and> opt_member ob checks \<and> opt_member ou normalized_outcomes \<and> opt_member de detections \<and>
     (dv = JNull \<or> is_bool dv) \<and> opt_member er normalized_errors \<and> (dg = JNull \<or> is_str dg \<and> digest_ok (str_of dg))"

lemma opt_member_small: "opt_member v xs \<Longrightarrow> \<forall>s \<in> set xs. ascii s \<and> length s \<le> 128 \<Longrightarrow> small_scalar 128 v"
  by (cases v) (auto simp: opt_member_def)

lemma result_scalars_small:
  assumes "result_scalars_ok m ob ou de dv er dg" and "v \<in> {m, ob, ou, de, dv, er, dg}"
  shows "small_scalar 128 v"
proof -
  have "\<forall>s \<in> set modes \<union> set checks \<union> set normalized_outcomes \<union> set detections \<union> set normalized_errors.
      ascii s \<and> length s \<le> 128"
    by (simp add: modes_def checks_def normalized_outcomes_def detections_def normalized_errors_def)
  moreover have "small_scalar 128 dv" using assms(1) by (cases dv) (simp_all add: result_scalars_ok_def)
  moreover have "small_scalar 128 dg" using assms(1) digest_ok_ascii
    by (cases dg) (simp_all add: result_scalars_ok_def digest_ok_def)
  ultimately show ?thesis using assms opt_member_small unfolding result_scalars_ok_def by blast
qed

lemma normal_result_accepted:
  assumes "validate_binding b = Inr b" and "distinct (jkeys b)" and "17 \<le> rl"
    and scalars: "result_scalars_ok m ob ou de dv er dg" and shape: "normalized_shape (normal_result b m ob ou de dv er dg)"
  shows "validate_normalized rl (normal_result b m ob ou de dv er dg) b = Inr ()"
proof -
  let ?r = "normal_result b m ob ou de dv er dg"
  note small = result_scalars_small[OF scalars]
  have doc: "document_ok ?r" "length (dumps ?r) \<le> MAX_DOCUMENT_BYTES"
    by (rule normal_result_document[OF assms(1,2)], erule small)+
  then have jwf: "jwf ?r" using document_jwf[of ?r 0] by (simp add: document_ok_def)
  have sorted: "jsort m = m" "jsort ob = ob" "jsort ou = ou" "jsort de = de" "jsort dv = dv" "jsort er = er" "jsort dg = dg"
    using small small_scalar_jsort by blast+
  have "canonical_object rl None ?r = Inr (jsort ?r, dumps ?r)"
    using doc assms(3) py_eq_jsort[of ?r]
    by (simp add: canonical_object_Inr decode_document_dumps canonical_bytes_def document_ok_def strict_jfinite)
  moreover have "validate_binding (jsort b) = Inr (jsort b)"
    using binding_document(3)[OF assms(1,2)] assms(1) by (rule validate_binding_jsort)
  moreover have "set (jkeys ?r) = set normalized_fields" by (simp add: normal_result_def normalized_fields_def)
  moreover have "normalized_shape (jsort ?r)"
    using shape by (simp add: normalized_shape_def jget_jsort[OF jwf] normal_result_get sorted)
  moreover have "dg = JNull \<or> require_digest dg = Inr ()"
    using scalars by (auto simp: result_scalars_ok_def require_digest_def)
  ultimately show ?thesis
    using scalars by (auto simp: validate_normalized_def jget_jsort[OF jwf] normal_result_get sorted result_scalars_ok_def)
qed

text \<open>C25.
  What the reader returns, the journal accepts.  Every normalized result the reader produces for a
  binding, whether it reports an observation or an execution failure, passes the journal's check of
  normalized results against the same binding.
\<close>

theorem normalized_results_accepted:
  assumes "normalize_generic rl raw b status code stop = Inr r" and "distinct (jkeys b)" and "17 \<le> rl"
  shows "validate_normalized rl r b = Inr ()"
proof -
  note cases = normalize_generic_cases[OF assms(1)]
  then have b: "validate_binding b = Inr b" by blast
  note accepted = normal_result_accepted[OF b assms(2,3)]
  have failure: "validate_normalized rl (error_result b ''EXECUTION_FAILURE'') b = Inr ()"
    unfolding error_result_def
    by (rule accepted) (simp_all add: result_scalars_ok_def opt_member_def normalized_outcomes_def normalized_errors_def
        normalized_shape_def normal_result_get)
  have digest: "digest_ok (sha256_hex s)" for s by (rule digest_ok_sha256)
  have constraint: "validate_normalized rl r b = Inr ()" if r: "normalize_constraint obs b (sha256_hex s) = Inr r" for obs s
  proof -
    from r obtain c where "jget obs ''check'' = JStr c" "c \<in> set checks"
      and "r = normal_result b (JStr ''constraint'') (JStr c) JNull JNull JNull JNull (JStr (sha256_hex s))"
      by (auto simp: normalize_constraint_def ebind_eq_Inr enum_check_Inr)
    then show ?thesis
      by (auto intro!: accepted simp: result_scalars_ok_def opt_member_def modes_def normalized_shape_def normal_result_get digest)
  qed
  have llm: "validate_normalized rl r b = Inr ()" if r: "normalize_llm obs b (sha256_hex s) = Inr r" for obs s
  proof -
    from r obtain d where "jget obs ''detection'' = JStr d" "d \<in> set detections"
      and "jget obs ''deviation'' = JNull \<or> is_bool (jget obs ''deviation'')"
      and "r = normal_result b (JStr ''llm'') JNull JNull (JStr d) (jget obs ''deviation'') JNull (JStr (sha256_hex s))"
      by (auto simp: normalize_llm_def ebind_eq_Inr enum_check_Inr bool_check_Inr split: if_splits)
    then show ?thesis
      by (auto intro!: accepted simp: result_scalars_ok_def opt_member_def modes_def normalized_shape_def normal_result_get digest)
  qed
  have mutation: "validate_normalized rl r b = Inr ()" if r: "normalize_mutation obs b (sha256_hex s) = Inr r" for obs s
  proof -
    from r obtain c p q t u v where c: "jget obs ''baseline'' = JStr c" "c \<in> set checks"
      and res: "r = normal_result b (JStr ''mutation'') (JStr c) (JStr (fst (mutation_result p q t u v))) JNull JNull
        (opt_str (snd (mutation_result p q t u v))) (JStr (sha256_hex s))"
      by (auto simp: normalize_mutation_def ebind_eq_Inr enum_check_Inr Let_def)
    have "fst (mutation_result p q t u v) \<in> set normalized_outcomes"
      "opt_member (opt_str (snd (mutation_result p q t u v))) normalized_errors"
      by (simp_all add: mutation_result_def normalized_outcomes_def normalized_errors_def opt_member_def opt_str_def)
    with c show ?thesis
      unfolding res by (intro accepted) (simp_all add: result_scalars_ok_def opt_member_def modes_def normalized_shape_def
          normal_result_get digest)
  qed
  from cases failure constraint llm mutation show ?thesis by (metis (no_types, lifting))
qed

theorem normalized_results_accepted_witness:
  "validate_normalized 17 (normal_result sample_binding (JStr ''mutation'') (JStr ''PASS'') (JStr ''KILLED'') JNull JNull JNull
      (JStr (sha256_hex (dumps sample_raw)))) sample_binding = Inr ()"
  using normalized_results_accepted[OF sample_normalized sample_binding_distinct order_refl] .

end
