(* ===== verification/Profiles.thy ===== *)
theory Profiles
  imports Contracts
begin

text \<open>
  The profiles that fix, per target and evaluator, which fixture and adapters execute
  (\<open>src/src/gah/execution_profiles.py\<close>).  Adoption and authentication of a profile are the business
  of the authority above.  The bound run handed to \<open>check_plan\<close> was validated before, so its digests
  are strings.
\<close>

abbreviation INVALID_PROFILE :: contract_error where
  "INVALID_PROFILE \<equiv> ContractError ''INVALID_PROFILE''"

abbreviation DUPLICATE_REFERENCE :: contract_error where
  "DUPLICATE_REFERENCE \<equiv> ContractError ''DUPLICATE_REFERENCE''"

abbreviation SCOPE_MISMATCH :: contract_error where
  "SCOPE_MISMATCH \<equiv> ContractError ''EXECUTION_PROFILE_SCOPE_MISMATCH''"

definition legacy_fields :: "string list" where
  "legacy_fields = [''fixture_digest'', ''adapter_digests'', ''isolation_digest'']"

definition profile_binding_fields :: "string list" where
  "profile_binding_fields = [''target_digest'', ''evaluator_digest'', ''fixture_digest'', ''adapter_digests'']"

definition require_adapters :: "json \<Rightarrow> contract_error + unit" where
  "require_adapters v =
    ebind (guard (is_list v \<and> 1 \<le> length (jitems v) \<and> length (jitems v) \<le> 100) INVALID_PROFILE) (\<lambda>_.
    ebind (eiter require_digest (jitems v)) (\<lambda>_.
    guard (distinct (jitems v)) DUPLICATE_REFERENCE))"

text \<open>The pair of target and evaluator a binding is for.\<close>

definition binding_pair :: "json \<Rightarrow> json \<times> json" where
  "binding_pair item = (jget item ''target_digest'', jget item ''evaluator_digest'')"

definition visit_binding :: "(json \<times> json) list \<Rightarrow> json \<Rightarrow> contract_error + (json \<times> json) list" where
  "visit_binding seen item =
    ebind (require_object item profile_binding_fields) (\<lambda>_.
    ebind (eiter (\<lambda>k. require_digest (jget item k)) [''target_digest'', ''evaluator_digest'', ''fixture_digest'']) (\<lambda>_.
    ebind (require_adapters (jget item ''adapter_digests'')) (\<lambda>_.
    ebind (guard (binding_pair item \<notin> set seen) DUPLICATE_REFERENCE) (\<lambda>_.
    Inr (seen @ [binding_pair item])))))"

definition validate_profile :: "json \<Rightarrow> contract_error + json" where
  "validate_profile v =
    ebind (guard (is_obj v) INVALID_PROFILE) (\<lambda>_.
    if set (jkeys v) = set legacy_fields then
      ebind (require_digest (jget v ''fixture_digest'')) (\<lambda>_.
      ebind (require_digest (jget v ''isolation_digest'')) (\<lambda>_.
      ebind (require_adapters (jget v ''adapter_digests'')) (\<lambda>_. Inr v)))
    else
      ebind (require_object v [''schema_version'', ''kind'', ''isolation_digest'', ''bindings'']) (\<lambda>_.
      ebind (guard (jget v ''schema_version'' = JInt 2 \<and> jget v ''kind'' = JStr ''execution_profile'') INVALID_PROFILE) (\<lambda>_.
      ebind (require_digest (jget v ''isolation_digest'')) (\<lambda>_.
      ebind (guard (is_list (jget v ''bindings'') \<and> 1 \<le> length (jitems (jget v ''bindings'')) \<and>
        length (jitems (jget v ''bindings'')) \<le> 1000) INVALID_PROFILE) (\<lambda>_.
      ebind (efold visit_binding [] (jitems (jget v ''bindings''))) (\<lambda>_. Inr v))))))"

definition has_bindings :: "json \<Rightarrow> bool" where
  "has_bindings v \<longleftrightarrow> ''bindings'' \<in> set (jkeys v)"

text \<open>The pairs a plan executes.\<close>

definition entry_pair :: "json \<Rightarrow> json \<times> json" where
  "entry_pair entry = (jget (jget entry ''target_ref'') ''digest'', jget (jget entry ''evaluator_ref'') ''digest'')"

definition planned_pairs :: "json \<Rightarrow> (json \<times> json) list" where
  "planned_pairs bound = map entry_pair (jitems (jget (jget bound ''plan'') ''entries''))"

definition declared_pairs :: "json \<Rightarrow> (json \<times> json) list" where
  "declared_pairs profile = map binding_pair (jitems (jget profile ''bindings''))"

definition check_plan :: "json \<Rightarrow> json \<Rightarrow> contract_error + unit" where
  "check_plan profile bound =
    ebind (validate_profile profile) (\<lambda>profile.
    if \<not> has_bindings profile then Inr ()
    else
      ebind (guard (jget profile ''isolation_digest'' = jget (jget (jget bound ''manifest'') ''environment_ref'') ''digest'')
        (ContractError ''BINDING_MISMATCH'')) (\<lambda>_.
      guard (planned_pairs bound \<noteq> [] \<and> set (planned_pairs bound) = set (declared_pairs profile)) SCOPE_MISMATCH))"

definition expected :: "json \<Rightarrow> json \<Rightarrow> json \<Rightarrow> contract_error + json" where
  "expected profile target evaluator =
    ebind (validate_profile profile) (\<lambda>profile.
    if \<not> has_bindings profile then Inr (JObj (map (\<lambda>k. (k, jget profile k)) legacy_fields))
    else
      ebind (require_digest target) (\<lambda>_.
      ebind (require_digest evaluator) (\<lambda>_.
      let found = filter (\<lambda>item. binding_pair item = (target, evaluator)) (jitems (jget profile ''bindings'')) in
      ebind (guard (length found = 1) SCOPE_MISMATCH) (\<lambda>_.
      Inr (JObj [(''fixture_digest'', jget (hd found) ''fixture_digest''),
        (''adapter_digests'', jget (hd found) ''adapter_digests''), (''isolation_digest'', jget profile ''isolation_digest'')])))))"

section \<open>Facts\<close>

lemma visit_bindings_Inr:
  assumes "efold visit_binding seen items = Inr seen'"
  shows "seen' = seen @ map binding_pair items \<and> (distinct seen \<longrightarrow> distinct seen') \<and>
    (\<forall>item \<in> set items. require_digest (jget item ''target_digest'') = Inr () \<and>
       require_digest (jget item ''evaluator_digest'') = Inr ())"
  by (rule efold_collect[OF _ assms]) (auto simp: visit_binding_def ebind_eq_Inr guard_eq_Inr eiter_eq_Inr)

lemma validate_profile_Inr:
  assumes "validate_profile v = Inr w"
  shows "w = v" "has_bindings v \<Longrightarrow> distinct (declared_pairs v)"
    "has_bindings v \<Longrightarrow> p \<in> set (declared_pairs v) \<Longrightarrow> require_digest (fst p) = Inr () \<and> require_digest (snd p) = Inr ()"
proof -
  from assms show "w = v" by (auto simp: validate_profile_def ebind_eq_Inr split: if_splits)
  assume b: "has_bindings v"
  with assms obtain seen where seen: "efold visit_binding [] (jitems (jget v ''bindings'')) = Inr seen"
    by (auto simp: validate_profile_def ebind_eq_Inr has_bindings_def legacy_fields_def split: if_splits)
  from visit_bindings_Inr[OF this] show "distinct (declared_pairs v)" by (auto simp: declared_pairs_def)
  show "p \<in> set (declared_pairs v) \<Longrightarrow> require_digest (fst p) = Inr () \<and> require_digest (snd p) = Inr ()"
    using visit_bindings_Inr[OF seen] by (auto simp: declared_pairs_def binding_pair_def)
qed

section \<open>Exactly the plan is executable\<close>

text \<open>C27.
  A profile fixes the execution of exactly the plan.  If a profile with bindings passes the check
  against a plan, then for digests of a target and an evaluator the lookup succeeds exactly when some
  entry of the plan executes this pair, and what it returns is the fixture and the adapters of the one
  binding declared for the pair, with the isolation the run was bound to.
\<close>

theorem profile_covers_plan:
  assumes "check_plan profile bound = Inr ()" and "has_bindings profile"
  shows "((\<exists>r. expected profile target evaluator = Inr r) \<longleftrightarrow> (target, evaluator) \<in> set (planned_pairs bound)) \<and>
    (\<forall>r. expected profile target evaluator = Inr r \<longleftrightarrow>
      (\<exists>item \<in> set (jitems (jget profile ''bindings'')). binding_pair item = (target, evaluator) \<and>
         r = JObj [(''fixture_digest'', jget item ''fixture_digest''), (''adapter_digests'', jget item ''adapter_digests''),
           (''isolation_digest'', jget (jget (jget bound ''manifest'') ''environment_ref'') ''digest'')])) \<and>
    distinct (declared_pairs profile)"
proof -
  from assms obtain w where w: "validate_profile profile = Inr w" by (auto simp: check_plan_def ebind_eq_Inr)
  note facts = validate_profile_Inr[OF w]
  from facts(1) w assms have valid: "validate_profile profile = Inr profile"
    and isolation: "jget profile ''isolation_digest'' = jget (jget (jget bound ''manifest'') ''environment_ref'') ''digest''"
    and pairs: "set (planned_pairs bound) = set (declared_pairs profile)"
    by (auto simp: check_plan_def ebind_eq_Inr guard_eq_Inr)
  let ?items = "jitems (jget profile ''bindings'')" and ?k = "(target, evaluator)"
  have digests: "require_digest target = Inr () \<and> require_digest evaluator = Inr ()" if "?k \<in> set (declared_pairs profile)"
    using facts(3)[OF assms(2) that] by simp
  have found: "filter (\<lambda>item. binding_pair item = ?k) ?items = [item]" if "item \<in> set ?items" "binding_pair item = ?k" for item
    using unique_filter[of binding_pair ?items item] facts(2)[OF assms(2)] that by (simp add: declared_pairs_def)
  have declared: "?k \<in> set (declared_pairs profile) \<longleftrightarrow> (\<exists>item \<in> set ?items. binding_pair item = ?k)"
    unfolding declared_pairs_def set_map image_iff by (metis (no_types, lifting))
  have result: "expected profile target evaluator = Inr r \<longleftrightarrow>
      (\<exists>item \<in> set ?items. binding_pair item = ?k \<and>
         r = JObj [(''fixture_digest'', jget item ''fixture_digest''), (''adapter_digests'', jget item ''adapter_digests''),
           (''isolation_digest'', jget profile ''isolation_digest'')])" for r
  proof (cases "\<exists>item \<in> set ?items. binding_pair item = ?k")
    case True
    then obtain item where item: "item \<in> set ?items" "binding_pair item = ?k" by blast
    define f where "f = (\<lambda>item. JObj [(''fixture_digest'', jget item ''fixture_digest''),
      (''adapter_digests'', jget item ''adapter_digests''), (''isolation_digest'', jget profile ''isolation_digest'')])"
    have "expected profile target evaluator = Inr (f item)"
      using digests declared True found[OF item] assms(2) by (simp add: expected_def valid f_def)
    moreover have "item' = item" if "item' \<in> set ?items" "binding_pair item' = ?k" for item'
      using found[OF that] found[OF item] by simp
    ultimately have "expected profile target evaluator = Inr r \<longleftrightarrow>
        (\<exists>item \<in> set ?items. binding_pair item = ?k \<and> r = f item)"
      using item by (metis Inr_inject)
    then show ?thesis unfolding f_def .
  next
    case False
    then have "filter (\<lambda>item. binding_pair item = ?k) ?items = []" by (simp add: filter_empty_conv)
    with False assms(2) show ?thesis by (auto simp: expected_def valid ebind_eq_Inr guard_eq_Inr)
  qed
  have planned: "(\<exists>r. expected profile target evaluator = Inr r) \<longleftrightarrow> ?k \<in> set (planned_pairs bound)"
    unfolding result pairs declared by blast
  show ?thesis
    by (intro conjI allI) (rule planned, rule result[unfolded isolation], rule facts(2)[OF assms(2)])
qed

section \<open>An instance\<close>

definition sample_digest :: string where
  "sample_digest = replicate 64 (CHR ''a'')"

definition sample_exec_profile :: json where
  "sample_exec_profile = JObj
    [(''schema_version'', JInt 2), (''kind'', JStr ''execution_profile''), (''isolation_digest'', JStr sample_digest),
     (''bindings'', JList [JObj [(''target_digest'', JStr sample_digest), (''evaluator_digest'', JStr sample_digest),
        (''fixture_digest'', JStr sample_digest), (''adapter_digests'', JList [JStr sample_digest])]])]"

definition sample_bound :: json where
  "sample_bound = JObj
    [(''manifest'', JObj [(''environment_ref'', JObj [(''digest'', JStr sample_digest)])]),
     (''plan'', JObj [(''entries'', JList [JObj [(''target_ref'', JObj [(''digest'', JStr sample_digest)]),
        (''evaluator_ref'', JObj [(''digest'', JStr sample_digest)])]])])]"

lemma sample_plan: "check_plan sample_exec_profile sample_bound = Inr ()" "has_bindings sample_exec_profile"
proof -
  have "require_digest (JStr sample_digest) = Inr ()"
    by (simp add: require_digest_def digest_ok_def sample_digest_def list_all_iff hex_lower_def is_digit_def)
  moreover have "''bindings'' \<in> set (jkeys sample_exec_profile)" "''bindings'' \<notin> set legacy_fields"
    by (simp_all add: sample_exec_profile_def legacy_fields_def)
  then have "set (jkeys sample_exec_profile) \<noteq> set legacy_fields" by metis
  moreover have "set (jkeys sample_exec_profile) = {''schema_version'', ''kind'', ''isolation_digest'', ''bindings''}"
    by (simp add: sample_exec_profile_def insert_commute)
  ultimately have valid: "validate_profile sample_exec_profile = Inr sample_exec_profile"
    unfolding validate_profile_def
    by (simp add: sample_exec_profile_def require_object_def visit_binding_def profile_binding_fields_def require_adapters_def
        binding_pair_def jget_def)
  then show "check_plan sample_exec_profile sample_bound = Inr ()" "has_bindings sample_exec_profile"
    by (simp_all add: check_plan_def)
      (simp_all add: has_bindings_def sample_exec_profile_def sample_bound_def binding_pair_def jget_def planned_pairs_def
        declared_pairs_def entry_pair_def)
qed

theorem profile_covers_plan_witness: "\<exists>r. expected sample_exec_profile (JStr sample_digest) (JStr sample_digest) = Inr r"
proof -
  have "(JStr sample_digest, JStr sample_digest) \<in> set (planned_pairs sample_bound)"
    by (simp add: planned_pairs_def entry_pair_def sample_bound_def jget_def)
  with profile_covers_plan[OF sample_plan, of "JStr sample_digest" "JStr sample_digest"] show ?thesis by blast
qed

end
