(* ===== verification/Corpus.thy ===== *)
theory Corpus
  imports Contracts
begin

text \<open>
  Sets of cases and the calibration of an evaluator (\<open>src/src/gah/corpus.py\<close>): the structural check of
  a case set, the fingerprint of the input a case runs, and the comparison of observations with the
  known labels.
\<close>

section \<open>Constants\<close>

definition case_set_fields :: "string list" where
  "case_set_fields = [''schema_version'', ''kind'', ''case_set_id'', ''purpose'', ''required_categories'', ''cases'']"

definition case_fields :: "string list" where
  "case_fields = [''case_id'', ''lineage_group'', ''category'', ''expected_label'', ''oracle_ref'', ''initial_state_ref'',
     ''session_steps'', ''scored_stage_id'']"

definition stage_fields :: "string list" where
  "stage_fields = [''stage_id'', ''input_ref'', ''expected_detection'', ''event_policy'']"

definition observation_fields :: "string list" where
  "observation_fields = [''case_id'', ''stage_id'', ''detection'']"

definition purposes :: "string list" where
  "purposes = [''development'', ''calibration'', ''acceptance'']"

definition labels :: "string list" where
  "labels = [''positive'', ''negative'', ''indeterminate'']"

definition case_detections :: "string list" where
  "case_detections = [''detect'', ''allow'', ''indeterminate'']"

definition stage_policies :: "string list" where
  "stage_policies = [''forbidden'', ''aggregate'', ''none'']"

definition MAX_CATEGORIES :: nat where
  "MAX_CATEGORIES = 256"

definition MAX_CASES :: nat where
  "MAX_CASES = 10000"

definition MAX_OTHER_SETS :: nat where
  "MAX_OTHER_SETS = 64"

definition MAX_OBSERVATIONS :: nat where
  "MAX_OBSERVATIONS = MAX_CASES * 2"

definition label_to_detection :: "string \<Rightarrow> string" where
  "label_to_detection label =
    (if label = ''positive'' then ''detect'' else if label = ''negative'' then ''allow'' else ''indeterminate'')"

definition calibration_reason_order :: "string list" where
  "calibration_reason_order =
    [''PURPOSE_NOT_CALIBRATION'', ''CASE_CONTENT_DUPLICATE'', ''CASE_LINEAGE_REUSE'', ''OBSERVATION_INVALID'',
     ''OBSERVATION_EXTRA'', ''OBSERVATION_DUPLICATE'', ''OBSERVATION_MISSING'', ''OBSERVATION_MISMATCH'', ''LABEL_MISSING'']"

section \<open>Case sets\<close>

definition require_member :: "string list \<Rightarrow> json \<Rightarrow> contract_error + unit" where
  "require_member values v = guard (is_str v \<and> str_of v \<in> set values) INVALID_CONTRACT"

definition visit_id :: "json list \<Rightarrow> json \<Rightarrow> contract_error + json list" where
  "visit_id seen item =
    ebind (require_id item) (\<lambda>_. ebind (guard (item \<notin> set seen) INVALID_CONTRACT) (\<lambda>_. Inr (seen @ [item])))"

definition require_id_list :: "json \<Rightarrow> contract_error + unit" where
  "require_id_list v =
    ebind (guard (is_list v \<and> jitems v \<noteq> [] \<and> length (jitems v) \<le> MAX_CATEGORIES) INVALID_CONTRACT) (\<lambda>_.
    ebind (efold visit_id [] (jitems v)) (\<lambda>_. Inr ()))"

definition validate_stage :: "json \<Rightarrow> contract_error + unit" where
  "validate_stage stage =
    ebind (require_object stage stage_fields) (\<lambda>_.
    ebind (require_id (jget stage ''stage_id'')) (\<lambda>_.
    ebind (require_ref (jget stage ''input_ref'')) (\<lambda>_.
    ebind (require_member case_detections (jget stage ''expected_detection'')) (\<lambda>_.
    require_member stage_policies (jget stage ''event_policy'')))))"

definition visit_stage :: "json list \<Rightarrow> json \<Rightarrow> contract_error + json list" where
  "visit_stage seen stage =
    ebind (validate_stage stage) (\<lambda>_.
    ebind (guard (jget stage ''stage_id'' \<notin> set seen) INVALID_CONTRACT) (\<lambda>_. Inr (seen @ [jget stage ''stage_id''])))"

definition case_stages :: "json \<Rightarrow> json list" where
  "case_stages c = jitems (jget c ''session_steps'')"

text \<open>The stage the case is scored by; the check before makes sure that there is one.\<close>

definition scored_stage :: "json \<Rightarrow> json" where
  "scored_stage c =
    (case find (\<lambda>stage. jget stage ''stage_id'' = jget c ''scored_stage_id'') (case_stages c) of
       None \<Rightarrow> JNull | Some stage \<Rightarrow> stage)"

definition validate_case :: "json \<Rightarrow> contract_error + unit" where
  "validate_case c =
    ebind (require_object c case_fields) (\<lambda>_.
    ebind (require_id (jget c ''case_id'')) (\<lambda>_.
    ebind (require_id (jget c ''lineage_group'')) (\<lambda>_.
    ebind (require_id (jget c ''category'')) (\<lambda>_.
    ebind (require_member labels (jget c ''expected_label'')) (\<lambda>_.
    ebind (require_ref (jget c ''oracle_ref'')) (\<lambda>_.
    ebind (require_ref (jget c ''initial_state_ref'')) (\<lambda>_.
    ebind (guard (is_list (jget c ''session_steps'') \<and> 1 \<le> length (case_stages c) \<and> length (case_stages c) \<le> 2)
      INVALID_CONTRACT) (\<lambda>_.
    ebind (efold visit_stage [] (case_stages c)) (\<lambda>stage_ids.
    ebind (require_id (jget c ''scored_stage_id'')) (\<lambda>_.
    ebind (guard (jget c ''scored_stage_id'' \<in> set stage_ids) INVALID_CONTRACT) (\<lambda>_.
    guard (jget (scored_stage c) ''expected_detection'' = JStr (label_to_detection (str_of (jget c ''expected_label''))))
      INVALID_CONTRACT)))))))))))"

definition set_cases :: "json \<Rightarrow> json list" where
  "set_cases document = jitems (jget document ''cases'')"

definition visit_case :: "json \<Rightarrow> json list \<Rightarrow> json \<Rightarrow> contract_error + json list" where
  "visit_case categories seen c =
    ebind (validate_case c) (\<lambda>_.
    ebind (guard (jget c ''case_id'' \<notin> set seen) INVALID_CONTRACT) (\<lambda>_.
    ebind (guard (jget c ''category'' \<in> set (jitems categories)) INVALID_CONTRACT) (\<lambda>_.
    Inr (seen @ [jget c ''case_id'']))))"

definition validate_case_set :: "json \<Rightarrow> contract_error + json" where
  "validate_case_set document =
    ebind (require_object document case_set_fields) (\<lambda>_.
    ebind (guard (jget document ''schema_version'' = JInt 1) INVALID_CONTRACT) (\<lambda>_.
    ebind (guard (jget document ''kind'' = JStr ''case_set'') INVALID_CONTRACT) (\<lambda>_.
    ebind (require_id (jget document ''case_set_id'')) (\<lambda>_.
    ebind (require_member purposes (jget document ''purpose'')) (\<lambda>_.
    ebind (require_id_list (jget document ''required_categories'')) (\<lambda>_.
    ebind (guard (is_list (jget document ''cases'') \<and> set_cases document \<noteq> [] \<and> length (set_cases document) \<le> MAX_CASES)
      INVALID_CONTRACT) (\<lambda>_.
    ebind (efold (visit_case (jget document ''required_categories'')) [] (set_cases document)) (\<lambda>_.
    ebind (on_error (canonical_bytes document) (\<lambda>_. INVALID_CONTRACT)) (\<lambda>raw.
    ebind (guard (length raw \<le> MAX_DOCUMENT_BYTES) INVALID_CONTRACT) (\<lambda>_.
    Inr document))))))))))"

section \<open>Grouping\<close>

definition ref_content :: "json \<Rightarrow> json" where
  "ref_content r = JObj [(''kind'', jget r ''kind''), (''digest'', jget r ''digest'')]"

definition sample_fingerprint :: "json \<Rightarrow> string" where
  "sample_fingerprint c = sha256_of (JObj
    [(''initial_state'', ref_content (jget c ''initial_state_ref'')),
     (''inputs'', JList (map (\<lambda>stage. ref_content (jget stage ''input_ref'')) (case_stages c)))])"

text \<open>A \<open>defaultdict(list)\<close> filled in order.\<close>

fun group_add :: "'k \<Rightarrow> 'v \<Rightarrow> ('k \<times> 'v list) list \<Rightarrow> ('k \<times> 'v list) list" where
  "group_add k v [] = [(k, [v])]"
| "group_add k v ((k', vs) # groups) = (if k' = k then (k', vs @ [v]) # groups else (k', vs) # group_add k v groups)"

definition group_by :: "('a \<Rightarrow> 'k) \<Rightarrow> ('a \<Rightarrow> 'v) \<Rightarrow> 'a list \<Rightarrow> ('k \<times> 'v list) list" where
  "group_by key f xs = fold (\<lambda>x. group_add (key x) (f x)) xs []"

definition lineage :: "json \<Rightarrow> string" where
  "lineage c = str_of (jget c ''lineage_group'')"

definition lineage_groups :: "json list \<Rightarrow> (string \<times> json list) list" where
  "lineage_groups cases = group_by lineage (\<lambda>c. c) cases"

definition case_ids_by_sample :: "json list \<Rightarrow> (string \<times> string list) list" where
  "case_ids_by_sample cases = group_by sample_fingerprint (\<lambda>c. str_of (jget c ''case_id'')) cases"

section \<open>Calibration\<close>

definition label_present :: "json list \<Rightarrow> string \<Rightarrow> bool" where
  "label_present cases label \<longleftrightarrow> (\<exists>c \<in> set cases. jget c ''expected_label'' = JStr label)"

definition calibration_report :: "json \<Rightarrow> bool \<Rightarrow> string set \<Rightarrow> nat \<Rightarrow> json" where
  "calibration_report cs passed reasons n = JObj
    [(''schema_version'', JInt 1), (''kind'', JStr ''calibration_report''), (''case_set_id'', jget cs ''case_set_id''),
     (''purpose'', jget cs ''purpose''), (''passed'', JBool passed), (''observation_count'', JInt (int n)),
     (''expected_observation_count'', JInt (int (sum_list (map (\<lambda>c. length (case_stages c)) (set_cases cs))))),
     (''label_presence'', JObj (map (\<lambda>l. (l, JBool (label_present (set_cases cs) l))) labels)),
     (''reasons'', JList (map JStr (filter (\<lambda>code. code \<in> reasons) calibration_reason_order))),
     (''independence_validated'', JBool False), (''oracle_validated'', JBool False)]"

text \<open>What the case set itself speaks against.\<close>

definition case_set_reasons :: "json \<Rightarrow> string set" where
  "case_set_reasons cs =
    (if jget cs ''purpose'' \<noteq> JStr ''calibration'' then {''PURPOSE_NOT_CALIBRATION''} else {}) \<union>
    (if list_ex (\<lambda>(k, ids). length ids > 1) (case_ids_by_sample (set_cases cs)) then {''CASE_CONTENT_DUPLICATE''} else {}) \<union>
    (if list_ex (\<lambda>(k, group). length group > 1) (lineage_groups (set_cases cs)) then {''CASE_LINEAGE_REUSE''} else {}) \<union>
    (if list_all (label_present (set_cases cs)) labels then {} else {''LABEL_MISSING''})"

text \<open>The expected detections, by case and stage.\<close>

definition expected_observations :: "json \<Rightarrow> ((json \<times> json) \<times> json) list" where
  "expected_observations cs = concat (map (\<lambda>c.
     map (\<lambda>stage. ((jget c ''case_id'', jget stage ''stage_id''), jget stage ''expected_detection'')) (case_stages c))
     (set_cases cs))"

definition observation_valid :: "json \<Rightarrow> bool" where
  "observation_valid ob \<longleftrightarrow> is_obj ob \<and> set (jkeys ob) = set observation_fields \<and>
     require_id (jget ob ''case_id'') = Inr () \<and> require_id (jget ob ''stage_id'') = Inr () \<and>
     require_member case_detections (jget ob ''detection'') = Inr ()"

definition observation_key :: "json \<Rightarrow> json \<times> json" where
  "observation_key ob = (jget ob ''case_id'', jget ob ''stage_id'')"

text \<open>One observation: the keys seen so far and the reasons.\<close>

definition observe :: "((json \<times> json) \<times> json) list \<Rightarrow> json \<Rightarrow> (json \<times> json) set \<times> string set \<Rightarrow> (json \<times> json) set \<times> string set" where
  "observe expected ob state =
    (case state of (seen, reasons) \<Rightarrow>
       if \<not> observation_valid ob then (seen, insert ''OBSERVATION_INVALID'' reasons)
       else case map_of expected (observation_key ob) of
           None \<Rightarrow> (seen, insert ''OBSERVATION_EXTRA'' reasons)
         | Some detection \<Rightarrow>
             (insert (observation_key ob) seen,
              reasons \<union> (if observation_key ob \<in> seen then {''OBSERVATION_DUPLICATE''} else {}) \<union>
                (if jget ob ''detection'' \<noteq> detection then {''OBSERVATION_MISMATCH''} else {})))"

definition calibration_reasons :: "json \<Rightarrow> json list \<Rightarrow> string set" where
  "calibration_reasons cs obs =
    (let expected = expected_observations cs;
         (seen, reasons) = fold (observe expected) obs ({}, case_set_reasons cs)
     in reasons \<union> (if seen \<noteq> fst ` set expected then {''OBSERVATION_MISSING''} else {}))"

definition check_calibration :: "json \<Rightarrow> json \<Rightarrow> contract_error + json" where
  "check_calibration case_set observations =
    ebind (validate_case_set case_set) (\<lambda>cs.
    if \<not> is_list observations then Inr (calibration_report cs False {''OBSERVATION_INVALID''} 0)
    else if length (jitems observations) > MAX_OBSERVATIONS
      then Inr (calibration_report cs False {''OBSERVATION_EXTRA''} (length (jitems observations)))
    else let reasons = calibration_reasons cs (jitems observations) in
      Inr (calibration_report cs (reasons = {}) reasons (length (jitems observations))))"

end
