(* ===== verification/Corpus_Props.thy ===== *)
theory Corpus_Props
  imports Corpus
begin

text \<open>
  What an accepted case set satisfies, and when an evaluator passes its calibration.
\<close>

section \<open>Grouping\<close>

lemma group_add_keys: "fst ` set (group_add k v groups) = insert k (fst ` set groups)"
  by (induction k v groups rule: group_add.induct) auto

lemma group_add_distinct: "distinct (map fst groups) \<Longrightarrow> distinct (map fst (group_add k v groups))"
proof (induction k v groups rule: group_add.induct)
  case (2 k v k' vs groups)
  have "fst ` set (group_add k v groups) = insert k (fst ` set groups)" by (rule group_add_keys)
  with 2 show ?case by auto
qed simp

lemma map_of_group_add:
  "map_of (group_add k v groups) k' =
    (if k' = k then Some ((case map_of groups k of None \<Rightarrow> [] | Some vs \<Rightarrow> vs) @ [v]) else map_of groups k')"
  by (induction k v groups rule: group_add.induct) auto

lemma group_by_snoc: "group_by key f (xs @ [x]) = group_add (key x) (f x) (group_by key f xs)"
  by (simp add: group_by_def)

lemma group_by_distinct: "distinct (map fst (group_by key f xs))"
  by (induction xs rule: rev_induct) (simp_all add: group_by_snoc group_add_distinct, simp add: group_by_def)

lemma group_by_lookup:
  "map_of (group_by key f xs) k =
    (if k \<in> key ` set xs then Some (map f (filter (\<lambda>x. key x = k) xs)) else None)"
proof (induction xs rule: rev_induct)
  case Nil
  then show ?case by (simp add: group_by_def)
next
  case (snoc x xs)
  have "filter (\<lambda>x. key x = k) xs = []" if "k \<notin> key ` set xs" using that by (auto simp: filter_empty_conv)
  with snoc show ?case by (auto simp: group_by_snoc map_of_group_add)
qed

lemma group_by_members:
  "(k, vs) \<in> set (group_by key f xs) \<longleftrightarrow> k \<in> key ` set xs \<and> vs = map f (filter (\<lambda>x. key x = k) xs)"
proof -
  have "(k, vs) \<in> set (group_by key f xs) \<longleftrightarrow> map_of (group_by key f xs) k = Some vs"
    by (simp only: map_of_eq_Some_iff[OF group_by_distinct])
  then show ?thesis by (auto simp: group_by_lookup)
qed

text \<open>A group has two members exactly when a key occurs twice.\<close>

lemma filter_key_twice: "distinct (map key xs) \<longleftrightarrow> (\<forall>k. length (filter (\<lambda>x. key x = k) xs) \<le> 1)"
proof (induction xs)
  case (Cons x xs)
  have "filter (\<lambda>y. key y = key x) xs = [] \<longleftrightarrow> key x \<notin> key ` set xs"
    unfolding filter_empty_conv image_iff by metis
  moreover have "length (filter (\<lambda>y. key y = k) (x # xs)) \<le> 1 \<longleftrightarrow>
      (if key x = k then filter (\<lambda>y. key y = k) xs = [] else length (filter (\<lambda>y. key y = k) xs) \<le> 1)" for k by simp
  moreover have "filter (\<lambda>y. key y = k) xs = [] \<Longrightarrow> length (filter (\<lambda>y. key y = k) xs) \<le> 1" for k by simp
  ultimately show ?case using Cons.IH unfolding list.map distinct.simps set_map by metis
qed simp

lemma group_by_repeats: "list_ex (\<lambda>(k, vs). length vs > 1) (group_by key f xs) \<longleftrightarrow> \<not> distinct (map key xs)"
proof -
  have "list_ex (\<lambda>(k, vs). length vs > 1) (group_by key f xs) \<longleftrightarrow>
      (\<exists>k vs. (k, vs) \<in> set (group_by key f xs) \<and> length vs > 1)"
    by (auto simp: list_ex_iff)
  also have "\<dots> \<longleftrightarrow> (\<exists>k \<in> key ` set xs. length (filter (\<lambda>x. key x = k) xs) > 1)"
    unfolding group_by_members by auto
  also have "\<dots> \<longleftrightarrow> (\<exists>k. length (filter (\<lambda>x. key x = k) xs) > 1)"
  proof -
    have "filter (\<lambda>x. key x = k) xs = []" if "k \<notin> key ` set xs" for k using that by (auto simp: filter_empty_conv)
    then have "\<not> length (filter (\<lambda>x. key x = k) xs) > 1" if "k \<notin> key ` set xs" for k using that by simp
    then show ?thesis by blast
  qed
  finally show ?thesis unfolding filter_key_twice not_all not_le .
qed

section \<open>Accepted case sets\<close>

lemma require_member_Inr [result_iff]: "require_member values v = Inr u \<longleftrightarrow> (\<exists>s. v = JStr s \<and> s \<in> set values)"
  by (cases v) (simp_all add: require_member_def guard_eq_Inr)

lemma visit_stages_Inr:
  assumes "efold visit_stage seen stages = Inr seen'"
  shows "seen' = seen @ map (\<lambda>s. jget s ''stage_id'') stages \<and> (distinct seen \<longrightarrow> distinct seen') \<and>
    (\<forall>s \<in> set stages. validate_stage s = Inr ())"
  by (rule efold_collect[OF _ assms]) (auto simp: visit_stage_def ebind_eq_Inr guard_eq_Inr)

lemma visit_cases_Inr:
  assumes "efold (visit_case categories) seen cs = Inr seen'"
  shows "seen' = seen @ map (\<lambda>c. jget c ''case_id'') cs \<and> (distinct seen \<longrightarrow> distinct seen') \<and>
    (\<forall>c \<in> set cs. validate_case c = Inr () \<and> jget c ''category'' \<in> set (jitems categories))"
  by (rule efold_collect[OF _ assms]) (auto simp: visit_case_def ebind_eq_Inr guard_eq_Inr)

lemma validate_case_Inr:
  assumes "validate_case c = Inr ()"
  shows "case_stages c \<noteq> []" "length (case_stages c) \<le> 2" "distinct (map (\<lambda>s. jget s ''stage_id'') (case_stages c))"
    "scored_stage c \<in> set (case_stages c)" "jget (scored_stage c) ''stage_id'' = jget c ''scored_stage_id''"
    "jget (scored_stage c) ''expected_detection'' = JStr (label_to_detection (str_of (jget c ''expected_label'')))"
    "\<exists>l \<in> set labels. jget c ''expected_label'' = JStr l" "\<forall>s \<in> set (case_stages c). validate_stage s = Inr ()"
    "\<exists>g. jget c ''lineage_group'' = JStr g" "\<exists>i. jget c ''case_id'' = JStr i"
proof -
  from assms obtain ids where label: "require_member labels (jget c ''expected_label'') = Inr ()"
    and number: "is_list (jget c ''session_steps'') \<and> 1 \<le> length (case_stages c) \<and> length (case_stages c) \<le> 2"
    and ids: "efold visit_stage [] (case_stages c) = Inr ids" and scored: "jget c ''scored_stage_id'' \<in> set ids"
    and detection: "jget (scored_stage c) ''expected_detection'' = JStr (label_to_detection (str_of (jget c ''expected_label'')))"
    and texts: "require_id (jget c ''lineage_group'') = Inr ()" "require_id (jget c ''case_id'') = Inr ()"
    unfolding validate_case_def ebind_eq_Inr guard_eq_Inr unit_ex by blast
  note stages = visit_stages_Inr[OF ids]
  show "case_stages c \<noteq> []" "length (case_stages c) \<le> 2" using number by auto
  show "distinct (map (\<lambda>s. jget s ''stage_id'') (case_stages c))" "\<forall>s \<in> set (case_stages c). validate_stage s = Inr ()"
    using stages by auto
  from scored stages have "\<exists>s \<in> set (case_stages c). jget s ''stage_id'' = jget c ''scored_stage_id''" by auto
  then obtain s where s: "find (\<lambda>stage. jget stage ''stage_id'' = jget c ''scored_stage_id'') (case_stages c) = Some s"
    by (cases "find (\<lambda>stage. jget stage ''stage_id'' = jget c ''scored_stage_id'') (case_stages c)") (auto simp: find_None_iff)
  then show "scored_stage c \<in> set (case_stages c)" "jget (scored_stage c) ''stage_id'' = jget c ''scored_stage_id''"
    using row_find_SomeD[of "\<lambda>s. jget s ''stage_id''" "jget c ''scored_stage_id''" "case_stages c" s, unfolded row_find_def]
    by (simp_all add: scored_stage_def s)
  show "jget (scored_stage c) ''expected_detection'' = JStr (label_to_detection (str_of (jget c ''expected_label'')))"
    by (rule detection)
  show "\<exists>l \<in> set labels. jget c ''expected_label'' = JStr l" using label by (auto simp: require_member_Inr)
  show "\<exists>g. jget c ''lineage_group'' = JStr g" "\<exists>i. jget c ''case_id'' = JStr i" using texts by (auto simp: require_id_ok)
qed

lemma validate_case_set_Inr:
  assumes "validate_case_set d = Inr e"
  shows "e = d" "set_cases d \<noteq> []" "length (set_cases d) \<le> MAX_CASES"
    "distinct (map (\<lambda>c. jget c ''case_id'') (set_cases d))"
    "\<forall>c \<in> set (set_cases d). validate_case c = Inr () \<and> jget c ''category'' \<in> set (jitems (jget d ''required_categories''))"
    "length (dumps d) \<le> MAX_DOCUMENT_BYTES"
proof -
  from assms obtain ids raw where number: "is_list (jget d ''cases'') \<and> set_cases d \<noteq> [] \<and> length (set_cases d) \<le> MAX_CASES"
    and ids: "efold (visit_case (jget d ''required_categories'')) [] (set_cases d) = Inr ids"
    and raw: "canonical_bytes d = Inr raw" "length raw \<le> MAX_DOCUMENT_BYTES" and "Inr d = (Inr e :: contract_error + json)"
    unfolding validate_case_set_def ebind_eq_Inr guard_eq_Inr on_error_eq_Inr unit_ex by blast
  then show "e = d" "set_cases d \<noteq> []" "length (set_cases d) \<le> MAX_CASES" by simp_all
  show "length (dumps d) \<le> MAX_DOCUMENT_BYTES" using raw by (auto simp: canonical_bytes_def split: if_splits)
  from visit_cases_Inr[OF ids] show "distinct (map (\<lambda>c. jget c ''case_id'') (set_cases d))"
    "\<forall>c \<in> set (set_cases d). validate_case c = Inr () \<and> jget c ''category'' \<in> set (jitems (jget d ''required_categories''))"
    by auto
qed

section \<open>Calibration\<close>

lemma observe_keeps_reasons: "R \<noteq> {} \<Longrightarrow> snd (fold (observe ex) obs (seen, R)) \<noteq> {}"
proof (induction obs arbitrary: seen R)
  case (Cons ob obs)
  obtain seen' R' where step: "observe ex ob (seen, R) = (seen', R')" by (cases "observe ex ob (seen, R)")
  with Cons.prems have "R' \<noteq> {}" by (auto simp: observe_def split: if_splits option.splits)
  with Cons.IH step show ?case by simp
qed simp

text \<open>Nothing is reported exactly when every observation is the expected one and no key comes twice.\<close>

lemma observations_clean:
  "snd (fold (observe ex) obs (seen, R)) = {} \<longleftrightarrow>
    R = {} \<and> (\<forall>ob \<in> set obs. observation_valid ob \<and> map_of ex (observation_key ob) = Some (jget ob ''detection'')) \<and>
    distinct (map observation_key obs) \<and> observation_key ` set obs \<inter> seen = {}"
  and observations_seen:
  "snd (fold (observe ex) obs (seen, R)) = {} \<Longrightarrow>
    fst (fold (observe ex) obs (seen, R)) = seen \<union> observation_key ` set obs"
proof (induction obs arbitrary: seen R)
  case (Cons ob obs)
  let ?good = "\<lambda>seen. observation_valid ob \<and> map_of ex (observation_key ob) = Some (jget ob ''detection'') \<and> observation_key ob \<notin> seen"
  {
    case 1
    show ?case
    proof (cases "R = {} \<and> ?good seen")
      case True
      then have "observe ex ob (seen, R) = (insert (observation_key ob) seen, {})" by (auto simp: observe_def)
      with True Cons.IH(1)[of "insert (observation_key ob) seen" "{}"] show ?thesis by auto
    next
      case False
      obtain seen' R' where step: "observe ex ob (seen, R) = (seen', R')" by (cases "observe ex ob (seen, R)")
      with False have "R' \<noteq> {}" by (auto simp: observe_def split: if_splits option.splits)
      with step observe_keeps_reasons[of R' ex obs seen'] False show ?thesis by auto
    qed
  next
    case 2
    have good: "R = {} \<and> ?good seen"
    proof (rule ccontr)
      assume bad: "\<not> (R = {} \<and> ?good seen)"
      obtain seen' R' where step: "observe ex ob (seen, R) = (seen', R')" by (cases "observe ex ob (seen, R)")
      with bad have "R' \<noteq> {}" by (auto simp: observe_def split: if_splits option.splits)
      with step observe_keeps_reasons[of R' ex obs seen'] 2 show False by simp
    qed
    then have "observe ex ob (seen, R) = (insert (observation_key ob) seen, {})" by (auto simp: observe_def)
    with 2 Cons.IH(2)[of "insert (observation_key ob) seen" "{}"] show ?case by auto
  }
qed simp_all

lemma expected_keys_distinct:
  assumes "validate_case_set cs = Inr cs'"
  shows "distinct (map fst (expected_observations cs))" and "length (expected_observations cs) \<le> MAX_OBSERVATIONS"
proof -
  note facts = validate_case_set_Inr[OF assms]
  have "distinct (concat (map (\<lambda>c. map (\<lambda>s. (jget c ''case_id'', jget s ''stage_id'')) (case_stages c)) xs))"
    if "distinct (map (\<lambda>c. jget c ''case_id'') xs)" and "\<forall>c \<in> set xs. validate_case c = Inr ()" for xs
    using that
  proof (induction xs)
    case (Cons c xs)
    have "distinct (map (\<lambda>s. (jget c ''case_id'', jget s ''stage_id'')) (case_stages c))"
      using validate_case_Inr(3)[of c] Cons.prems(2) by (simp add: distinct_map inj_on_def)
    with Cons show ?case by auto
  qed simp
  moreover have "map fst (expected_observations cs) =
      concat (map (\<lambda>c. map (\<lambda>s. (jget c ''case_id'', jget s ''stage_id'')) (case_stages c)) (set_cases cs))"
    by (simp add: expected_observations_def map_concat comp_def)
  ultimately show "distinct (map fst (expected_observations cs))" using facts(4,5) by simp
  have "length (expected_observations cs) = sum_list (map (\<lambda>c. length (case_stages c)) (set_cases cs))"
    by (simp add: expected_observations_def length_concat comp_def)
  also have "\<dots> \<le> sum_list (map (\<lambda>_. 2) (set_cases cs))"
    using facts(5) validate_case_Inr(2) by (intro sum_list_mono) auto
  also have "\<dots> \<le> MAX_OBSERVATIONS" using facts(3) by (simp add: sum_list_triv MAX_OBSERVATIONS_def)
  finally show "length (expected_observations cs) \<le> MAX_OBSERVATIONS" .
qed

lemma case_set_reasons_empty:
  "case_set_reasons cs = {} \<longleftrightarrow>
    jget cs ''purpose'' = JStr ''calibration'' \<and> distinct (map sample_fingerprint (set_cases cs)) \<and>
    distinct (map lineage (set_cases cs)) \<and> (\<forall>l \<in> set labels. label_present (set_cases cs) l)"
  unfolding case_set_reasons_def case_ids_by_sample_def lineage_groups_def group_by_repeats list_all_iff by auto

text \<open>The observations, as keys with their detection.\<close>

definition observed :: "json list \<Rightarrow> ((json \<times> json) \<times> json) list" where
  "observed obs = map (\<lambda>ob. (observation_key ob, jget ob ''detection'')) obs"

lemma calibration_reasons_empty:
  assumes "distinct (map fst (expected_observations cs))"
  shows "calibration_reasons cs obs = {} \<longleftrightarrow> case_set_reasons cs = {} \<and> (\<forall>ob \<in> set obs. observation_valid ob) \<and>
    distinct (map observation_key obs) \<and> set (observed obs) = set (expected_observations cs)"
proof -
  let ?ex = "expected_observations cs"
  have lookup: "map_of ?ex k = Some d \<longleftrightarrow> (k, d) \<in> set ?ex" for k d by (simp add: map_of_eq_Some_iff assms)
  obtain seen R where result: "fold (observe ?ex) obs ({}, case_set_reasons cs) = (seen, R)" by fastforce
  note clean = observations_clean[of ?ex obs "{}" "case_set_reasons cs"]
  note all_seen = observations_seen[of ?ex obs "{}" "case_set_reasons cs"]
  have "R = {} \<and> seen = fst ` set ?ex \<longleftrightarrow> case_set_reasons cs = {} \<and> (\<forall>ob \<in> set obs. observation_valid ob) \<and>
      distinct (map observation_key obs) \<and> set (observed obs) = set ?ex"
    (is "?l \<longleftrightarrow> ?r")
  proof
    assume ?l
    with clean all_seen result have keys: "observation_key ` set obs = fst ` set ?ex"
      and ok: "case_set_reasons cs = {}" "\<forall>ob \<in> set obs. observation_valid ob \<and> (observation_key ob, jget ob ''detection'') \<in> set ?ex"
        "distinct (map observation_key obs)" by (auto simp: lookup)
    have "set ?ex \<subseteq> set (observed obs)"
    proof
      fix e
      assume e: "e \<in> set ?ex"
      then have "fst e \<in> observation_key ` set obs" using keys by blast
      then obtain ob where ob: "ob \<in> set obs" "observation_key ob = fst e" by auto
      with ok(2) have "(fst e, jget ob ''detection'') \<in> set ?ex" by metis
      then have "jget ob ''detection'' = snd e" using e assms by (metis lookup option.inject prod.collapse)
      with ob show "e \<in> set (observed obs)" by (auto simp: observed_def intro!: rev_image_eqI)
    qed
    with ok show ?r by (auto simp: observed_def)
  next
    assume r: ?r
    then have "R = {}" using clean result by (auto simp: lookup observed_def)
    moreover from r have "fst ` set (observed obs) = fst ` set ?ex" by simp
    then have "observation_key ` set obs = fst ` set ?ex" by (simp add: observed_def image_image)
    ultimately show ?l using all_seen result by simp
  qed
  moreover have "calibration_reasons cs obs = R \<union> (if seen \<noteq> fst ` set ?ex then {''OBSERVATION_MISSING''} else {})"
    by (simp add: calibration_reasons_def Let_def result)
  ultimately show ?thesis by auto
qed

lemma calibration_report_get:
  "jget (calibration_report cs p R n) ''passed'' = JBool p"
  by (simp add: calibration_report_def jget_def)

text \<open>C28.
  An evaluator passes its calibration exactly when it was tried on everything and was always right.  The
  report of an accepted case set says passed if and only if the set is for calibration, no two cases run
  the same input or share a lineage, every label occurs, and the observations are well-formed, name each
  case and stage at most once and are together exactly the expected detections of all stages.
\<close>

theorem calibration_passes_iff:
  assumes "check_calibration cs obs = Inr r"
  shows "jget r ''passed'' = JBool True \<longleftrightarrow>
    jget cs ''purpose'' = JStr ''calibration'' \<and> distinct (map sample_fingerprint (set_cases cs)) \<and>
    distinct (map lineage (set_cases cs)) \<and> (\<forall>l \<in> set labels. label_present (set_cases cs) l) \<and>
    is_list obs \<and> (\<forall>ob \<in> set (jitems obs). observation_valid ob) \<and> distinct (map observation_key (jitems obs)) \<and>
    set (observed (jitems obs)) = set (expected_observations cs)"
proof -
  from assms obtain w where w: "validate_case_set cs = Inr w" by (auto simp: check_calibration_def ebind_eq_Inr)
  then have valid: "validate_case_set cs = Inr cs" using validate_case_set_Inr(1) by metis
  note ex = expected_keys_distinct[OF valid]
  have many: "length (jitems obs) \<le> MAX_OBSERVATIONS"
    if "distinct (map observation_key (jitems obs))" "set (observed (jitems obs)) = set (expected_observations cs)"
  proof -
    have "distinct (map fst (observed (jitems obs)))" using that(1) by (simp add: observed_def comp_def)
    then have "length (observed (jitems obs)) = card (set (expected_observations cs))"
      using that(2) by (metis distinct_card distinct_map)
    then show ?thesis using ex(2) card_length[of "expected_observations cs"] by (simp add: observed_def)
  qed
  show ?thesis
  proof (cases "is_list obs \<and> length (jitems obs) \<le> MAX_OBSERVATIONS")
    case True
    with assms valid have "jget r ''passed'' = JBool (calibration_reasons cs (jitems obs) = {})"
      by (auto simp: check_calibration_def calibration_report_get Let_def)
    with True show ?thesis by (auto simp: calibration_reasons_empty[OF ex(1)] case_set_reasons_empty)
  next
    case False
    with assms valid have "jget r ''passed'' = JBool False"
      by (auto simp: check_calibration_def calibration_report_get split: if_splits)
    with False many show ?thesis by auto
  qed
qed

end
