(* ===== verification/Corpus_Report.thy ===== *)
theory Corpus_Report
  imports Corpus_Props
begin

text \<open>
  The structural report on a case set (\<open>corpus_report\<close> in \<open>src/src/gah/corpus.py\<close>): counts by label,
  category and lineage, repeated inputs and lineages, overlaps with other sets, and whether the minimums
  of acceptance are met.  The other sets are a list or tuple; an iterable with code of its own is not
  modelled.
\<close>

section \<open>Counts\<close>

definition with_label :: "string \<Rightarrow> json list \<Rightarrow> json list" where
  "with_label label cases = filter (\<lambda>c. jget c ''expected_label'' = JStr label) cases"

definition in_category :: "json \<Rightarrow> json list \<Rightarrow> json list" where
  "in_category category cases = filter (\<lambda>c. jget c ''category'' = category) cases"

definition label_counts :: "json list \<Rightarrow> json" where
  "label_counts cases = JObj (map (\<lambda>l. (l, JInt (int (length (with_label l cases))))) labels)"

definition required_categories :: "json \<Rightarrow> json list" where
  "required_categories cs = jitems (jget cs ''required_categories'')"

definition by_category :: "json \<Rightarrow> (json list \<Rightarrow> json) \<Rightarrow> json" where
  "by_category cs f = JObj (map (\<lambda>k. (str_of k, f (in_category k (set_cases cs)))) (required_categories cs))"

text \<open>The number of lineages with a label.\<close>

definition lineages :: "string \<Rightarrow> json list \<Rightarrow> nat" where
  "lineages label cases = length (remdups (map lineage (with_label label cases)))"

definition texts :: "string list \<Rightarrow> json" where
  "texts xs = JList (map JStr xs)"

definition case_id :: "json \<Rightarrow> string" where
  "case_id c = str_of (jget c ''case_id'')"

definition sorted_groups :: "json list \<Rightarrow> (string \<times> json list) list" where
  "sorted_groups cases = sort_key fst (lineage_groups cases)"

definition lineage_counts :: "json list \<Rightarrow> json" where
  "lineage_counts cases = JObj (map (\<lambda>(k, g). (k, JInt (int (length g)))) (sorted_groups cases))"

section \<open>Repetitions\<close>

definition lineage_reuse :: "json list \<Rightarrow> json list" where
  "lineage_reuse cases =
    map (\<lambda>(k, g). JObj [(''lineage_group'', JStr k), (''case_ids'', texts (sort (map case_id g)))])
      (filter (\<lambda>(k, g). length g > 1) (sorted_groups cases))"

definition group_labels :: "json list \<Rightarrow> string list" where
  "group_labels g = sorted_set (map (\<lambda>c. str_of (jget c ''expected_label'')) g)"

definition group_categories :: "json list \<Rightarrow> string list" where
  "group_categories g = sorted_set (map (\<lambda>c. str_of (jget c ''category'')) g)"

definition lineage_conflicts :: "json list \<Rightarrow> json list" where
  "lineage_conflicts cases =
    map (\<lambda>(k, g). JObj [(''lineage_group'', JStr k), (''case_ids'', texts (sort (map case_id g))),
        (''labels'', texts (group_labels g)), (''categories'', texts (group_categories g))])
      (filter (\<lambda>(k, g). length g > 1 \<and> (length (group_labels g) > 1 \<or> length (group_categories g) > 1)) (sorted_groups cases))"

text \<open>Inputs run by several cases, with the sorted identifiers of the cases.\<close>

definition repeated_samples :: "json list \<Rightarrow> (string \<times> string list) list" where
  "repeated_samples cases =
    map (\<lambda>(k, ids). (k, sort ids)) (filter (\<lambda>(k, ids). length ids > 1) (sort_key fst (case_ids_by_sample cases)))"

definition duplicate_content_groups :: "json list \<Rightarrow> json list" where
  "duplicate_content_groups cases =
    map (\<lambda>(k, ids). JObj [(''content_digest'', JStr k), (''sample_fingerprint'', JStr k), (''case_ids'', texts ids)])
      (repeated_samples cases)"

definition condition_signature :: "json \<Rightarrow> json" where
  "condition_signature c = JObj
    [(''category'', jget c ''category''), (''expected_label'', jget c ''expected_label''),
     (''oracle'', ref_content (jget c ''oracle_ref'')),
     (''stage_conditions'', JList (map (\<lambda>s. JObj [(''expected_detection'', jget s ''expected_detection''),
        (''event_policy'', jget s ''event_policy'')]) (case_stages c))),
     (''scored_stage_position'', JInt (int (length (takeWhile (\<lambda>s. jget s ''stage_id'' \<noteq> jget c ''scored_stage_id'')
        (case_stages c)))))]"

definition signature_of :: "json list \<Rightarrow> string \<Rightarrow> json" where
  "signature_of cases i = condition_signature (case find (\<lambda>c. case_id c = i) cases of None \<Rightarrow> JNull | Some c \<Rightarrow> c)"

definition differing_fields :: "json list \<Rightarrow> string list \<Rightarrow> string list" where
  "differing_fields cases ids =
    (let reference = signature_of cases (hd ids) in
     filter (\<lambda>f. list_ex (\<lambda>i. \<not> py_eq (jget (signature_of cases i) f) (jget reference f)) (tl ids)) (jkeys reference))"

definition sample_condition_differences :: "json list \<Rightarrow> json list" where
  "sample_condition_differences cases =
    map (\<lambda>(k, ids). JObj [(''sample_fingerprint'', JStr k), (''case_ids'', texts ids),
        (''differing_fields'', texts (differing_fields cases ids))])
      (filter (\<lambda>(k, ids). length (remdups (map (\<lambda>i. dumps (signature_of cases i)) ids)) > 1) (repeated_samples cases))"

section \<open>Overlaps between sets\<close>

definition samples :: "json \<Rightarrow> string list" where
  "samples cs = map fst (case_ids_by_sample (set_cases cs))"

definition set_lineages :: "json \<Rightarrow> string list" where
  "set_lineages cs = map fst (lineage_groups (set_cases cs))"

definition common :: "string list \<Rightarrow> string list \<Rightarrow> string list" where
  "common xs ys = sorted_set (filter (\<lambda>x. x \<in> set ys) xs)"

definition overlap :: "json \<Rightarrow> json \<Rightarrow> json list" where
  "overlap left right =
    (let content = common (samples left) (samples right);
         shared = common (set_lineages left) (set_lineages right)
     in if content = [] \<and> shared = [] then []
        else [JObj [(''case_set_ids'', JList [jget left ''case_set_id'', jget right ''case_set_id'']),
          (''purposes'', JList [jget left ''purpose'', jget right ''purpose'']), (''content_digest_overlap'', texts content),
          (''sample_fingerprint_overlap'', texts content), (''lineage_overlap'', texts shared)]])"

fun usage_overlaps :: "json list \<Rightarrow> json list" where
  "usage_overlaps [] = []"
| "usage_overlaps (left # rest) = concat (map (overlap left) rest) @ usage_overlaps rest"

section \<open>The report\<close>

definition category_met :: "json list \<Rightarrow> bool" where
  "category_met cases \<longleftrightarrow> 100 \<le> lineages ''positive'' cases \<and> 100 \<le> lineages ''negative'' cases"

definition category_report :: "json list \<Rightarrow> json" where
  "category_report cases = JObj
    [(''positive_lineages'', JInt (int (lineages ''positive'' cases))),
     (''negative_lineages'', JInt (int (lineages ''negative'' cases))),
     (''positive_minimum_met'', JBool (100 \<le> lineages ''positive'' cases)),
     (''negative_minimum_met'', JBool (100 \<le> lineages ''negative'' cases))]"

definition minimums_met :: "json \<Rightarrow> bool" where
  "minimums_met cs \<longleftrightarrow>
     200 \<le> lineages ''positive'' (set_cases cs) \<and> 200 \<le> lineages ''negative'' (set_cases cs) \<and>
     list_all (\<lambda>k. category_met (in_category k (set_cases cs))) (required_categories cs) \<and>
     lineage_reuse (set_cases cs) = [] \<and> duplicate_content_groups (set_cases cs) = []"

definition structural_requirements :: "json \<Rightarrow> json" where
  "structural_requirements cs =
    (let positive = int (lineages ''positive'' (set_cases cs)); negative = int (lineages ''negative'' (set_cases cs)) in JObj
     [(''positive_lineages'', JInt positive), (''negative_lineages'', JInt negative),
      (''per_category'', by_category cs category_report),
      (''shortfalls'', JObj [(''positive_lineages'', JInt (max 0 (200 - positive))),
         (''negative_lineages'', JInt (max 0 (200 - negative))),
         (''categories'', texts (sort (map str_of (filter (\<lambda>k. \<not> category_met (in_category k (set_cases cs)))
            (required_categories cs)))))]),
      (''acceptance_minimums_met'', JBool (minimums_met cs))])"

definition report_for_sets :: "json \<Rightarrow> json list \<Rightarrow> contract_error + json" where
  "report_for_sets cs other_sets =
    (let cases = set_cases cs in
     ebind (emap validate_case_set other_sets) (\<lambda>others.
     Inr (JObj
      [(''schema_version'', JInt 1), (''kind'', JStr ''corpus_report''), (''case_set_id'', jget cs ''case_set_id''),
       (''purpose'', jget cs ''purpose''), (''case_count'', JInt (int (length cases))), (''label_counts'', label_counts cases),
       (''category_counts'', by_category cs label_counts), (''lineage_counts'', lineage_counts cases),
       (''duplicate_content_groups'', JList (duplicate_content_groups cases)),
       (''sample_condition_differences'', JList (sample_condition_differences cases)),
       (''lineage_reuse'', JList (lineage_reuse cases)), (''lineage_conflicts'', JList (lineage_conflicts cases)),
       (''usage_overlaps'',
         JList (usage_overlaps (cs # sort_key (\<lambda>other. str_of (jget other ''case_set_id'')) others))),
       (''structural_requirements'', structural_requirements cs),
       (''independence_validated'', JBool False), (''oracle_validated'', JBool False),
       (''claims'', JObj [(''population_performance'', JStr ''unverified''), (''meaningful_independence'', JStr ''unverified''),
          (''oracle_authentication'', JStr ''unverified'')])])))"

definition corpus_report :: "json \<Rightarrow> json \<Rightarrow> contract_error + json" where
  "corpus_report document other_sets =
    ebind (validate_case_set document) (\<lambda>cs.
    ebind (guard (is_list other_sets) INVALID_CONTRACT) (\<lambda>_.
    ebind (guard (length (jitems other_sets) \<le> MAX_OTHER_SETS) INVALID_CONTRACT) (\<lambda>_.
    report_for_sets cs (jitems other_sets))))"

section \<open>What the report says\<close>

lemma group_by_repeats_none: "filter (\<lambda>(k, vs). length vs > 1) (group_by key f xs) = [] \<longleftrightarrow> distinct (map key xs)"
  using group_by_repeats[of key f xs] by (auto simp: filter_empty_conv list_ex_iff)

lemma filter_sort_key_empty: "filter P (sort_key k xs) = [] \<longleftrightarrow> filter P xs = []"
  by (simp add: filter_empty_conv)

lemma lineage_reuse_none: "lineage_reuse cases = [] \<longleftrightarrow> distinct (map lineage cases)"
  unfolding lineage_reuse_def sorted_groups_def lineage_groups_def map_is_Nil_conv filter_sort_key_empty
    group_by_repeats_none ..

lemma duplicate_groups_none: "duplicate_content_groups cases = [] \<longleftrightarrow> distinct (map sample_fingerprint cases)"
  unfolding duplicate_content_groups_def repeated_samples_def case_ids_by_sample_def map_is_Nil_conv
    filter_sort_key_empty group_by_repeats_none ..

lemma lineages_count: "distinct (map lineage cases) \<Longrightarrow> lineages label (filter P cases) = length (with_label label (filter P cases))"
proof -
  assume "distinct (map lineage cases)"
  then have "distinct (map lineage (with_label label (filter P cases)))"
    unfolding with_label_def by (intro distinct_map_filter)
  then show ?thesis by (simp add: lineages_def distinct_remdups_id)
qed

text \<open>Two case sets run no common input and share no lineage.\<close>

definition separate :: "json \<Rightarrow> json \<Rightarrow> bool" where
  "separate left right \<longleftrightarrow>
     sample_fingerprint ` set (set_cases left) \<inter> sample_fingerprint ` set (set_cases right) = {} \<and>
     lineage ` set (set_cases left) \<inter> lineage ` set (set_cases right) = {}"

lemma group_by_key_set: "fst ` set (group_by key f xs) = key ` set xs"
proof -
  have "k \<in> fst ` set (group_by key f xs) \<longleftrightarrow> k \<in> key ` set xs" for k
    by (metis (no_types, lifting) group_by_lookup map_of_eq_None_iff option.distinct(1))
  then show ?thesis by blast
qed

lemma common_empty: "common xs ys = [] \<longleftrightarrow> set xs \<inter> set ys = {}"
proof -
  have "common xs ys = [] \<longleftrightarrow> set (common xs ys) = {}" by simp
  also have "set (common xs ys) = set xs \<inter> set ys" by (auto simp: common_def)
  finally show ?thesis .
qed

lemma overlap_empty: "overlap left right = [] \<longleftrightarrow> separate left right"
  by (simp add: overlap_def Let_def common_empty separate_def samples_def set_lineages_def case_ids_by_sample_def
      lineage_groups_def group_by_key_set)

lemma usage_overlaps_empty: "usage_overlaps sets = [] \<longleftrightarrow> sorted_wrt separate sets"
  by (induction sets) (simp_all add: overlap_empty)

text \<open>
  The report says that the minimums of acceptance are met exactly when the set has at least 200 positive
  and 200 negative cases, at least 100 of each in every required category, and no two of its cases share
  a lineage or run the same input; counting lineages then is counting cases.  It lists no overlap exactly
  when the set and the other sets pairwise share neither an input nor a lineage.
\<close>

theorem acceptance_minimums:
  assumes "corpus_report cs others = Inr r"
  shows "(jget (jget r ''structural_requirements'') ''acceptance_minimums_met'' = JBool True \<longleftrightarrow>
      distinct (map lineage (set_cases cs)) \<and> distinct (map sample_fingerprint (set_cases cs)) \<and>
      200 \<le> length (with_label ''positive'' (set_cases cs)) \<and> 200 \<le> length (with_label ''negative'' (set_cases cs)) \<and>
      (\<forall>k \<in> set (required_categories cs). 100 \<le> length (with_label ''positive'' (in_category k (set_cases cs))) \<and>
         100 \<le> length (with_label ''negative'' (in_category k (set_cases cs))))) \<and>
    (jget r ''usage_overlaps'' = JList [] \<longleftrightarrow>
      sorted_wrt separate (cs # sort_key (\<lambda>other. str_of (jget other ''case_set_id'')) (jitems others)))"
proof -
  from assms obtain w ws where w: "validate_case_set cs = Inr w" and ws: "emap validate_case_set (jitems others) = Inr ws"
    and r: "report_for_sets w (jitems others) = Inr r"
    by (auto simp: corpus_report_def report_for_sets_def Let_def ebind_eq_Inr)
  have w_eq: "w = cs" using validate_case_set_Inr(1)[OF w] .
  have same: "emap validate_case_set xs = Inr ys \<Longrightarrow> ys = xs" for xs ys
    by (induction xs arbitrary: ys) (auto simp: ebind_eq_Inr dest: validate_case_set_Inr(1))
  from r ws same[OF ws] have met: "jget (jget r ''structural_requirements'') ''acceptance_minimums_met'' = JBool (minimums_met cs)"
    and overlaps: "jget r ''usage_overlaps'' =
      JList (usage_overlaps (cs # sort_key (\<lambda>other. str_of (jget other ''case_set_id'')) (jitems others)))"
    unfolding w_eq by (auto simp: report_for_sets_def Let_def structural_requirements_def jget_def)
  have counts: "lineages l (set_cases cs) = length (with_label l (set_cases cs))"
    "lineages l (in_category k (set_cases cs)) = length (with_label l (in_category k (set_cases cs)))"
    if "distinct (map lineage (set_cases cs))" for l k
    using lineages_count[OF that, of l "\<lambda>_. True"] lineages_count[OF that, of l] by (simp_all add: in_category_def)
  have "minimums_met cs \<longleftrightarrow>
      distinct (map lineage (set_cases cs)) \<and> distinct (map sample_fingerprint (set_cases cs)) \<and>
      200 \<le> length (with_label ''positive'' (set_cases cs)) \<and> 200 \<le> length (with_label ''negative'' (set_cases cs)) \<and>
      (\<forall>k \<in> set (required_categories cs). 100 \<le> length (with_label ''positive'' (in_category k (set_cases cs))) \<and>
         100 \<le> length (with_label ''negative'' (in_category k (set_cases cs))))"
    by (cases "distinct (map lineage (set_cases cs))")
      (auto simp: minimums_met_def lineage_reuse_none duplicate_groups_none category_met_def list_all_iff counts)
  then show ?thesis unfolding met overlaps json.inject usage_overlaps_empty by blast
qed

section \<open>An instance\<close>

text \<open>A set with one case, which the evaluator gets right; the other labels are missing.\<close>

definition corpus_ref :: "string \<Rightarrow> json" where
  "corpus_ref kind = JObj [(''id'', JStr ''r1''), (''kind'', JStr kind), (''digest'', JStr (replicate 64 (CHR ''a'')))]"

definition sample_stage :: json where
  "sample_stage = JObj [(''stage_id'', JStr ''s1''), (''input_ref'', corpus_ref ''input''),
     (''expected_detection'', JStr ''detect''), (''event_policy'', JStr ''none'')]"

definition sample_case :: json where
  "sample_case = JObj
     [(''case_id'', JStr ''c1''), (''lineage_group'', JStr ''l1''), (''category'', JStr ''cat1''),
      (''expected_label'', JStr ''positive''), (''oracle_ref'', corpus_ref ''oracle''),
      (''initial_state_ref'', corpus_ref ''state''), (''session_steps'', JList [sample_stage]), (''scored_stage_id'', JStr ''s1'')]"

definition sample_set :: json where
  "sample_set = JObj
    [(''schema_version'', JInt 1), (''kind'', JStr ''case_set''), (''case_set_id'', JStr ''set1''),
     (''purpose'', JStr ''calibration''), (''required_categories'', JList [JStr ''cat1'']), (''cases'', JList [sample_case])]"

definition sample_observations :: json where
  "sample_observations = JList [JObj [(''case_id'', JStr ''c1''), (''stage_id'', JStr ''s1''), (''detection'', JStr ''detect'')]]"

lemma corpus_ref_ok:
  "k \<in> {''oracle'', ''state'', ''input''} \<Longrightarrow> require_ref (corpus_ref k) = Inr ()"
  by (auto simp: require_ref_def require_object_def require_id_def require_digest_def corpus_ref_def jget_def id_ok_def
      digest_ok_def alnum_def hex_lower_def is_digit_def list_all_iff insert_commute)

lemma sample_stage_ok: "validate_stage sample_stage = Inr ()"
  by (simp add: validate_stage_def sample_stage_def stage_fields_def require_object_def corpus_ref_ok require_member_def
      require_id_def id_ok_def alnum_def is_digit_def case_detections_def stage_policies_def jget_def)

lemma sample_case_ok: "validate_case sample_case = Inr ()"
proof -
  have stages: "case_stages sample_case = [sample_stage]" by (simp add: case_stages_def sample_case_def jget_def)
  have "jget sample_stage ''stage_id'' = JStr ''s1''" "jget sample_stage ''expected_detection'' = JStr ''detect''"
    by (simp_all add: sample_stage_def jget_def)
  then show ?thesis
    by (simp add: validate_case_def stages visit_stage_def sample_stage_ok scored_stage_def)
      (simp add: sample_case_def case_fields_def require_object_def corpus_ref_ok require_member_def require_id_def id_ok_def
        alnum_def is_digit_def labels_def label_to_detection_def jget_def)
qed

lemma sample_set_small: "length (dumps sample_set) \<le> MAX_DOCUMENT_BYTES"
  by (rule order_trans[OF length_dumps])
    (simp add: sample_set_def sample_case_def sample_stage_def corpus_ref_def MAX_DOCUMENT_BYTES_def show_nat.simps)

lemma sample_set_cases: "set_cases sample_set = [sample_case]"
  by (simp add: set_cases_def sample_set_def jget_def)

lemma sample_set_valid: "validate_case_set sample_set = Inr sample_set"
proof -
  have "canonical_bytes sample_set = Inr (dumps sample_set)"
    by (simp add: canonical_bytes_def)
      (simp add: sample_set_def sample_case_def sample_stage_def corpus_ref_def utf8_ok_ascii ascii_def)
  moreover have "jget sample_case ''category'' = JStr ''cat1''" by (simp add: sample_case_def jget_def)
  ultimately show ?thesis
    by (simp add: validate_case_set_def sample_set_cases visit_case_def sample_case_ok sample_set_small)
      (simp add: sample_set_def case_set_fields_def require_object_def require_member_def require_id_def id_ok_def alnum_def
        is_digit_def purposes_def require_id_list_def visit_id_def MAX_CATEGORIES_def MAX_CASES_def jget_def)
qed

theorem calibration_passes_iff_witness:
  "\<exists>r. check_calibration sample_set sample_observations = Inr r \<and> jget r ''passed'' \<noteq> JBool True"
proof -
  obtain r where r: "check_calibration sample_set sample_observations = Inr r"
    by (cases "check_calibration sample_set sample_observations")
      (auto simp: check_calibration_def sample_set_valid Let_def split: if_splits)
  have "\<not> label_present (set_cases sample_set) ''negative''" "''negative'' \<in> set labels"
    by (simp_all add: label_present_def sample_set_cases sample_case_def jget_def labels_def)
  with calibration_passes_iff[OF r] r show ?thesis by blast
qed

theorem acceptance_minimums_witness:
  "\<exists>r. corpus_report sample_set (JList []) = Inr r \<and> jget r ''usage_overlaps'' = JList [] \<and>
     jget (jget r ''structural_requirements'') ''acceptance_minimums_met'' \<noteq> JBool True"
proof -
  obtain r where r: "corpus_report sample_set (JList []) = Inr r"
    by (simp add: corpus_report_def sample_set_valid report_for_sets_def Let_def)
  have "\<not> 200 \<le> length (with_label ''positive'' (set_cases sample_set))" by (simp add: sample_set_cases with_label_def)
  with acceptance_minimums[OF r] r show ?thesis by (auto simp: sorted_wrt1)
qed

end
