(* ===== verification/Run_Contracts.thy ===== *)
theory Run_Contracts
  imports Policy Registry Corpus
begin

text \<open>
  Evaluation contracts, trial plans and run manifests (\<open>src/src/gah/run_contracts.py\<close>): the structural
  checks of the three documents and the functions that bind them to each other and to the policy, the
  registry and the case set by content digests.  The validators return copies, which as values are the
  documents themselves.  Dictionaries that a loop fills and reads afterwards are computed from the same
  entries with \<open>group_by\<close>.
\<close>

section \<open>Fields\<close>

definition evaluation_fields :: "string list" where
  "evaluation_fields = [''schema_version'', ''kind'', ''contract_id'', ''generation'', ''policy_series_id'',
     ''policy_generation'', ''policy_ref'', ''registry_ref'', ''case_set_ref'', ''calibration_case_set_ref'', ''evaluator_refs'',
     ''required_categories'', ''use_cases'', ''comparison'', ''required_outputs'']"

definition comparison_fields :: "string list" where
  "comparison_fields = [''mode'', ''baseline_ref'', ''changed_axes'', ''reason'']"

definition plan_fields :: "string list" where
  "plan_fields = [''schema_version'', ''kind'', ''plan_id'', ''contract_ref'', ''entries'']"

definition entry_fields :: "string list" where
  "entry_fields = [''obligation_id'', ''case_id'', ''trial_id'', ''variant'', ''stage_ids'', ''required'', ''event_policy'',
     ''evaluator_ref'', ''target_ref'']"

definition manifest_fields :: "string list" where
  "manifest_fields = [''schema_version'', ''kind'', ''run_id'', ''contract_ref'', ''purpose'', ''use_cases'', ''target_refs'',
     ''control_ids'', ''baseline_ref'', ''plan_ref'', ''policy_ref'', ''profile'', ''environment_ref'', ''actor_context_ref'',
     ''created_at'', ''deadline'']"

definition use_case_names :: "string list" where
  "use_case_names = [''UC-CI'', ''UC-LLM'']"

definition required_output_names :: "string list" where
  "required_output_names = [''decision'', ''evidence'', ''findings'', ''plans'', ''run_receipt'']"

definition changed_axes :: "string list" where
  "changed_axes = [''target'', ''evaluator'', ''policy'', ''corpus'', ''environment'']"

definition comparison_modes :: "string list" where
  "comparison_modes = [''required'', ''not_applicable'']"

definition run_purposes :: "string list" where
  "run_purposes = [''calibration'', ''contract_validation'', ''baseline_candidate'', ''contract_old_regression'',
     ''contract_candidate'', ''regression'', ''diagnostic'']"

definition run_profiles :: "string list" where
  "run_profiles = [''pr'', ''full'']"

definition variants :: "string list" where
  "variants = [''candidate'', ''baseline'']"

definition entry_event_policies :: "string list" where
  "entry_event_policies = [''forbidden'', ''aggregate'', ''none'']"

definition MAX_EVALUATORS :: nat where "MAX_EVALUATORS = 1000"
definition MAX_REQUIRED_CATEGORIES :: nat where "MAX_REQUIRED_CATEGORIES = 256"
definition MAX_USE_CASES :: nat where "MAX_USE_CASES = 2"
definition MAX_CHANGED_AXES :: nat where "MAX_CHANGED_AXES = 5"
definition MAX_ENTRIES :: nat where "MAX_ENTRIES = 10000"
definition MAX_STAGES :: nat where "MAX_STAGES = 2"
definition MAX_REFS :: nat where "MAX_REFS = 1000"

section \<open>Field checks\<close>

definition enum :: "string list \<Rightarrow> json \<Rightarrow> contract_error + unit" where
  "enum values v = guard (is_str v \<and> str_of v \<in> set values) INVALID_CONTRACT"

definition require_positive :: "json \<Rightarrow> contract_error + unit" where
  "require_positive v = guard (is_int v \<and> 0 < int_of v \<and> int_of v \<le> 2 ^ 53 - 1) INVALID_CONTRACT"

definition unique_id :: "json list \<Rightarrow> json \<Rightarrow> contract_error + json list" where
  "unique_id seen item =
    ebind (require_id item) (\<lambda>_.
    ebind (guard (item \<notin> set seen) (ContractError ''DUPLICATE_REFERENCE'')) (\<lambda>_. Inr (seen @ [item])))"

definition unique_ids :: "nat \<Rightarrow> nat \<Rightarrow> json \<Rightarrow> contract_error + unit" where
  "unique_ids minimum maximum v =
    ebind (guard (is_list v \<and> minimum \<le> length (jitems v) \<and> length (jitems v) \<le> maximum) INVALID_CONTRACT) (\<lambda>_.
    ebind (efold unique_id [] (jitems v)) (\<lambda>_. Inr ()))"

text \<open>\<open>_ref\<close>.\<close>

definition kind_ref :: "string \<Rightarrow> json \<Rightarrow> contract_error + unit" where
  "kind_ref kind v =
    ebind (require_ref v) (\<lambda>_. guard (jget v ''kind'' = JStr kind) (ContractError ''REFERENCE_KIND''))"

definition unique_ref :: "string \<Rightarrow> json list \<Rightarrow> json \<Rightarrow> contract_error + json list" where
  "unique_ref kind seen item =
    ebind (kind_ref kind item) (\<lambda>_.
    ebind (guard (jget item ''id'' \<notin> set seen) (ContractError ''DUPLICATE_REFERENCE'')) (\<lambda>_.
    Inr (seen @ [jget item ''id''])))"

definition unique_refs :: "string \<Rightarrow> nat \<Rightarrow> nat \<Rightarrow> json \<Rightarrow> contract_error + unit" where
  "unique_refs kind minimum maximum v =
    ebind (guard (is_list v \<and> minimum \<le> length (jitems v) \<and> length (jitems v) \<le> maximum) INVALID_CONTRACT) (\<lambda>_.
    ebind (efold (unique_ref kind) [] (jitems v)) (\<lambda>_. Inr ()))"

section \<open>Canonical text and content references\<close>

fun is_float :: "json \<Rightarrow> bool" where
  "is_float (JFloat s) = True"
| "is_float _ = False"

text \<open>The loop over \<open>pending\<close>; \<open>bad\<close> is the error for a value of another type.\<close>

function scan_plain :: "contract_error \<Rightarrow> (json \<times> nat) list \<Rightarrow> nat \<Rightarrow> contract_error + unit" where
  "scan_plain bad [] nodes = Inr ()"
| "scan_plain bad ((current, depth) # pending) nodes =
    (if depth > 16 \<or> Suc nodes > 100000 then Inl (ContractError ''DOCUMENT_COMPLEXITY'')
     else if int_bad current then Inl (ContractError ''INTEGER_RANGE'')
     else if is_float current then Inl bad
     else scan_plain bad (rev (map (\<lambda>c. (c, Suc depth)) (children current)) @ pending) (Suc nodes))"
  by pat_completeness auto
termination
  by (relation "measure (\<lambda>(bad, p, n). 100000 - n)") auto

definition plain_canonical :: "contract_error \<Rightarrow> json \<Rightarrow> contract_error + string" where
  "plain_canonical bad v =
    ebind (scan_plain bad [(v, 0)] 0) (\<lambda>_.
    ebind (on_error (canonical_bytes v) (\<lambda>_. bad)) (\<lambda>raw.
    ebind (guard (length raw \<le> MAX_DOCUMENT_BYTES) (ContractError ''DOCUMENT_SIZE'')) (\<lambda>_. Inr raw)))"

definition canonical :: "json \<Rightarrow> contract_error + string" where
  "canonical v = plain_canonical INVALID_CONTRACT v"

definition content_ref :: "json \<Rightarrow> json \<Rightarrow> json \<Rightarrow> contract_error + json" where
  "content_ref kind identifier v =
    ebind (require_id kind) (\<lambda>_.
    ebind (require_id identifier) (\<lambda>_.
    ebind (canonical v) (\<lambda>raw.
    Inr (JObj [(''kind'', kind), (''id'', identifier), (''digest'', JStr (sha256_hex raw))]))))"

definition document_size :: "json \<Rightarrow> contract_error + unit" where
  "document_size v = ebind (canonical v) (\<lambda>_. Inr ())"

section \<open>Evaluation contracts\<close>

definition validate_comparison :: "json \<Rightarrow> contract_error + unit" where
  "validate_comparison v =
    ebind (require_object v comparison_fields) (\<lambda>_.
    ebind (enum comparison_modes (jget v ''mode'')) (\<lambda>_.
    ebind (unique_ids 0 MAX_CHANGED_AXES (jget v ''changed_axes'')) (\<lambda>_.
    ebind (eiter (enum changed_axes) (jitems (jget v ''changed_axes''))) (\<lambda>_.
    if jget v ''mode'' = JStr ''required'' then
      ebind (kind_ref ''baseline'' (jget v ''baseline_ref'')) (\<lambda>_.
      guard (jget v ''reason'' = JNull) INVALID_CONTRACT)
    else guard (jget v ''baseline_ref'' = JNull \<and> jget v ''reason'' = JStr ''initial_baseline_pending'') INVALID_CONTRACT))))"

definition visit_evaluator :: "json list \<Rightarrow> json \<Rightarrow> contract_error + json list" where
  "visit_evaluator seen evaluator =
    ebind (kind_ref ''evaluator'' evaluator) (\<lambda>_.
    ebind (guard (jget evaluator ''id'' \<notin> set seen) (ContractError ''DUPLICATE_REFERENCE'')) (\<lambda>_.
    Inr (seen @ [jget evaluator ''id''])))"

text \<open>A list or object in \<open>required_outputs\<close> is a \<open>TypeError\<close> of the set.\<close>

definition validate_outputs :: "json \<Rightarrow> contract_error + unit" where
  "validate_outputs v =
    ebind (guard (is_list v \<and> length (jitems v) = length required_output_names) INVALID_CONTRACT) (\<lambda>_.
    ebind (guard (list_all (\<lambda>item. \<not> is_list item \<and> \<not> is_obj item) (jitems v)) INVALID_CONTRACT) (\<lambda>_.
    ebind (guard (set (jitems v) = set (map JStr required_output_names)) (ContractError ''DUPLICATE_REFERENCE'')) (\<lambda>_.
    eiter (enum required_output_names) (jitems v))))"

definition validate_evaluation_contract :: "json \<Rightarrow> contract_error + json" where
  "validate_evaluation_contract v =
    ebind (require_object v evaluation_fields) (\<lambda>_.
    ebind (guard (jget v ''schema_version'' = JInt 1) (ContractError ''UNSUPPORTED_VERSION'')) (\<lambda>_.
    ebind (guard (jget v ''kind'' = JStr ''evaluation_contract'') INVALID_CONTRACT) (\<lambda>_.
    ebind (require_id (jget v ''contract_id'')) (\<lambda>_.
    ebind (require_positive (jget v ''generation'')) (\<lambda>_.
    ebind (require_id (jget v ''policy_series_id'')) (\<lambda>_.
    ebind (require_positive (jget v ''policy_generation'')) (\<lambda>_.
    ebind (kind_ref ''policy_profile'' (jget v ''policy_ref'')) (\<lambda>_.
    ebind (kind_ref ''control_registry'' (jget v ''registry_ref'')) (\<lambda>_.
    ebind (kind_ref ''case_set'' (jget v ''case_set_ref'')) (\<lambda>_.
    ebind (kind_ref ''case_set'' (jget v ''calibration_case_set_ref'')) (\<lambda>_.
    ebind (guard (is_list (jget v ''evaluator_refs'') \<and> 1 \<le> length (jitems (jget v ''evaluator_refs'')) \<and>
      length (jitems (jget v ''evaluator_refs'')) \<le> MAX_EVALUATORS) INVALID_CONTRACT) (\<lambda>_.
    ebind (efold visit_evaluator [] (jitems (jget v ''evaluator_refs''))) (\<lambda>_.
    ebind (unique_ids 1 MAX_REQUIRED_CATEGORIES (jget v ''required_categories'')) (\<lambda>_.
    ebind (unique_ids 1 MAX_USE_CASES (jget v ''use_cases'')) (\<lambda>_.
    ebind (eiter (enum use_case_names) (jitems (jget v ''use_cases''))) (\<lambda>_.
    ebind (validate_comparison (jget v ''comparison'')) (\<lambda>_.
    ebind (validate_outputs (jget v ''required_outputs'')) (\<lambda>_.
    ebind (document_size v) (\<lambda>_. Inr v)))))))))))))))))))"

definition validated_inputs ::
  "(string list \<Rightarrow> string list) \<Rightarrow> json \<Rightarrow> json \<Rightarrow> json \<Rightarrow> contract_error + json \<times> json \<times> json" where
  "validated_inputs order policy registry case_set =
    ebind (on_error (validate_policy_profile policy) (\<lambda>_. INVALID_CONTRACT)) (\<lambda>p.
    ebind (on_error (validate_registry order registry) (\<lambda>_. INVALID_CONTRACT)) (\<lambda>r.
    ebind (on_error (validate_case_set case_set) (\<lambda>_. INVALID_CONTRACT)) (\<lambda>cs. Inr (p, r, cs))))"

text \<open>The obligations of the selected controls, by identifier; identifiers are unique in a registry.\<close>

definition registry_obligations :: "json \<Rightarrow> string list option \<Rightarrow> (json \<times> json \<times> json) list" where
  "registry_obligations registry selected =
    concat (map (\<lambda>control. map (\<lambda>ob. (jget ob ''obligation_id'', control, ob)) (jitems (jget control ''obligations'')))
      (filter (\<lambda>control. case selected of None \<Rightarrow> True | Some ids \<Rightarrow> str_of (jget control ''control_id'') \<in> set ids)
        (jitems (jget registry ''controls''))))"

definition identifier_fields :: "string list" where
  "identifier_fields = [''policy_id'', ''registry_id'', ''case_set_id'', ''contract_id'', ''plan_id'']"

definition identifier_of :: "json \<Rightarrow> json" where
  "identifier_of v = (case find (\<lambda>f. f \<in> set (jkeys v)) identifier_fields of None \<Rightarrow> JNull | Some f \<Rightarrow> jget v f)"

definition require_ref_match :: "json \<Rightarrow> string \<Rightarrow> json \<Rightarrow> contract_error + unit" where
  "require_ref_match actual expected_kind expected_value =
    ebind (content_ref (JStr expected_kind) (identifier_of expected_value) expected_value) (\<lambda>expected.
    guard (py_eq actual expected) (ContractError ''REFERENCE_MISMATCH''))"

definition family_use_case :: "json \<Rightarrow> contract_error + string" where
  "family_use_case kind =
    (if kind = JStr ''constraint'' \<or> kind = JStr ''mutation'' then Inr ''UC-CI''
     else if kind = JStr ''llm_metric'' then Inr ''UC-LLM'' else Inl INVALID_CONTRACT)"

text \<open>\<open>any(...)\<close> over the obligations, which stops at the first that serves the use case.\<close>

fun serves :: "string \<Rightarrow> json list \<Rightarrow> contract_error + bool" where
  "serves use_case [] = Inr False"
| "serves use_case (ob # obs) =
    (if jget ob ''required'' = JBool True then
       ebind (family_use_case (jget ob ''kind'')) (\<lambda>u. if u = use_case then Inr True else serves use_case obs)
     else serves use_case obs)"

definition ref_key :: "json \<Rightarrow> json \<times> json" where
  "ref_key r = (jget r ''id'', jget r ''digest'')"

definition check_evaluation_binding :: "json \<Rightarrow> json \<Rightarrow> json \<Rightarrow> json \<Rightarrow> json \<Rightarrow> contract_error + unit" where
  "check_evaluation_binding contract policy registry case_set calibration =
    ebind (guard (jget case_set ''purpose'' = JStr ''acceptance'' \<and> jget calibration ''purpose'' = JStr ''calibration'')
      (ContractError ''PURPOSE_MISMATCH'')) (\<lambda>_.
    ebind (require_ref_match (jget contract ''policy_ref'') ''policy_profile'' policy) (\<lambda>_.
    ebind (require_ref_match (jget contract ''registry_ref'') ''control_registry'' registry) (\<lambda>_.
    ebind (require_ref_match (jget contract ''case_set_ref'') ''case_set'' case_set) (\<lambda>_.
    ebind (require_ref_match (jget contract ''calibration_case_set_ref'') ''case_set'' calibration) (\<lambda>_.
    ebind (guard (set (jitems (jget contract ''required_categories'')) = set (jitems (jget case_set ''required_categories'')))
      (ContractError ''CATEGORY_MISMATCH'')) (\<lambda>_.
    ebind (guard (jget contract ''policy_series_id'' = jget policy ''policy_id'' \<and> 0 < int_of (jget contract ''policy_generation''))
      (ContractError ''POLICY_MISMATCH'')) (\<lambda>_.
    let obligations = map (snd \<circ> snd) (registry_obligations registry None) in
    ebind (guard (set (map ref_key (jitems (jget contract ''evaluator_refs''))) =
        set (map (\<lambda>ob. ref_key (jget ob ''evaluator_ref'')) obligations)) (ContractError ''EVALUATOR_MISMATCH'')) (\<lambda>_.
    eiter (\<lambda>use_case. ebind (serves (str_of use_case) obligations) (\<lambda>found.
        guard found (ContractError ''REQUIRED_OBLIGATION_MISSING''))) (jitems (jget contract ''use_cases''))))))))))"

definition bind_evaluation_contract ::
  "(string list \<Rightarrow> string list) \<Rightarrow> json \<Rightarrow> json \<Rightarrow> json \<Rightarrow> json \<Rightarrow> json \<Rightarrow> contract_error + json" where
  "bind_evaluation_contract order contract policy registry case_set calibration_set =
    ebind (validate_evaluation_contract contract) (\<lambda>c.
    ebind (validated_inputs order policy registry case_set) (\<lambda>(p, r, cs).
    ebind (on_error (validate_case_set calibration_set) (\<lambda>_. INVALID_CONTRACT)) (\<lambda>cal.
    ebind (on_error (check_evaluation_binding c p r cs cal) (\<lambda>_. INVALID_CONTRACT)) (\<lambda>_.
    Inr (JObj [(''contract'', c), (''policy'', p), (''registry'', r), (''case_set'', cs), (''calibration_set'', cal),
      (''ci_eligible'', JBool False)])))))"

section \<open>Trial plans\<close>

definition validate_entry :: "json \<Rightarrow> contract_error + unit" where
  "validate_entry v =
    ebind (require_object v entry_fields) (\<lambda>_.
    ebind (require_id (jget v ''obligation_id'')) (\<lambda>_.
    ebind (require_id (jget v ''case_id'')) (\<lambda>_.
    ebind (require_id (jget v ''trial_id'')) (\<lambda>_.
    ebind (enum variants (jget v ''variant'')) (\<lambda>_.
    ebind (unique_ids 1 MAX_STAGES (jget v ''stage_ids'')) (\<lambda>_.
    ebind (guard (is_bool (jget v ''required'')) INVALID_CONTRACT) (\<lambda>_.
    ebind (enum entry_event_policies (jget v ''event_policy'')) (\<lambda>_.
    ebind (kind_ref ''evaluator'' (jget v ''evaluator_ref'')) (\<lambda>_.
    kind_ref ''target'' (jget v ''target_ref''))))))))))"

definition entry_key :: "json \<Rightarrow> json \<times> json \<times> json \<times> json" where
  "entry_key e = (jget e ''obligation_id'', jget e ''case_id'', jget e ''trial_id'', jget e ''variant'')"

definition visit_entry :: "(json \<times> json \<times> json \<times> json) list \<Rightarrow> json \<Rightarrow>
    contract_error + (json \<times> json \<times> json \<times> json) list" where
  "visit_entry seen e =
    ebind (validate_entry e) (\<lambda>_.
    ebind (guard (entry_key e \<notin> set seen) (ContractError ''DUPLICATE_ID'')) (\<lambda>_. Inr (seen @ [entry_key e])))"

definition plan_entries :: "json \<Rightarrow> json list" where
  "plan_entries p = jitems (jget p ''entries'')"

definition validate_trial_plan :: "json \<Rightarrow> contract_error + json" where
  "validate_trial_plan v =
    ebind (require_object v plan_fields) (\<lambda>_.
    ebind (guard (jget v ''schema_version'' = JInt 1) (ContractError ''UNSUPPORTED_VERSION'')) (\<lambda>_.
    ebind (guard (jget v ''kind'' = JStr ''trial_plan'') INVALID_CONTRACT) (\<lambda>_.
    ebind (require_id (jget v ''plan_id'')) (\<lambda>_.
    ebind (kind_ref ''evaluation_contract'' (jget v ''contract_ref'')) (\<lambda>_.
    ebind (guard (is_list (jget v ''entries'') \<and> 1 \<le> length (plan_entries v) \<and> length (plan_entries v) \<le> MAX_ENTRIES)
      INVALID_CONTRACT) (\<lambda>_.
    ebind (efold visit_entry [] (plan_entries v)) (\<lambda>_.
    ebind (document_size v) (\<lambda>_. Inr v))))))))"

end
