(* ===== verification/Run_Binding.thy ===== *)
theory Run_Binding
  imports Run_Contracts
begin

text \<open>
  The binding of a trial plan and of a run manifest (\<open>bind_trial_plan\<close>, \<open>validate_run_manifest\<close> and
  \<open>bind_run_manifest\<close> in \<open>src/src/gah/run_contracts.py\<close>).
\<close>

section \<open>Baseline targets\<close>

definition control_targets :: "json \<Rightarrow> string list \<Rightarrow> (json \<times> json) list" where
  "control_targets registry closure =
    map (\<lambda>c. (jget c ''control_id'', jget c ''target_ref''))
      (filter (\<lambda>c. str_of (jget c ''control_id'') \<in> set closure) (jitems (jget registry ''controls'')))"

definition target_axis :: "json \<Rightarrow> bool" where
  "target_axis contract \<longleftrightarrow> JStr ''target'' \<in> set (jitems (jget (jget contract ''comparison'') ''changed_axes''))"

text \<open>One item of the baseline context, added to the targets found so far.\<close>

definition visit_baseline_target ::
  "json \<Rightarrow> (json \<times> json) list \<Rightarrow> (json \<times> json) list \<Rightarrow> json \<Rightarrow> contract_error + (json \<times> json) list" where
  "visit_baseline_target contract targets old_targets item =
    ebind (require_object item [''control_id'', ''target_ref'']) (\<lambda>_.
    ebind (require_id (jget item ''control_id'')) (\<lambda>_.
    ebind (kind_ref ''target'' (jget item ''target_ref'')) (\<lambda>_.
    case map_of targets (jget item ''control_id'') of
      None \<Rightarrow> Inl (ContractError ''BASELINE_TARGET_MISMATCH'')
    | Some target \<Rightarrow>
        ebind (guard (map_of old_targets (jget item ''control_id'') = None) (ContractError ''BASELINE_TARGET_MISMATCH'')) (\<lambda>_.
        ebind (guard (py_eq (jget item ''target_ref'') target \<or> target_axis contract)
          (ContractError ''UNDECLARED_TARGET_CHANGE'')) (\<lambda>_.
        Inr (old_targets @ [(jget item ''control_id'', jget item ''target_ref'')]))))))"

definition baseline_targets ::
  "json \<Rightarrow> json \<Rightarrow> json \<Rightarrow> string list \<Rightarrow> contract_error + (json \<times> json) list" where
  "baseline_targets ctx contract registry closure =
    (let targets = control_targets registry closure in
     if ctx = JNull then Inr targets
     else
       ebind (require_object ctx [''baseline_ref'', ''targets'']) (\<lambda>_.
       ebind (document_size ctx) (\<lambda>_.
       ebind (kind_ref ''baseline'' (jget ctx ''baseline_ref'')) (\<lambda>_.
       ebind (guard (jget (jget contract ''comparison'') ''mode'' = JStr ''required'' \<and>
           py_eq (jget ctx ''baseline_ref'') (jget (jget contract ''comparison'') ''baseline_ref''))
         (ContractError ''BASELINE_MISMATCH'')) (\<lambda>_.
       ebind (guard (is_list (jget ctx ''targets'') \<and> length (jitems (jget ctx ''targets'')) = length targets)
         (ContractError ''BASELINE_TARGET_MISMATCH'')) (\<lambda>_.
       efold (visit_baseline_target contract targets) [] (jitems (jget ctx ''targets'')))))))) "

section \<open>Plans\<close>

definition is_variant :: "string \<Rightarrow> json \<Rightarrow> bool" where
  "is_variant variant e \<longleftrightarrow> jget e ''variant'' = JStr variant"

definition stages_by_case :: "json \<Rightarrow> (json \<times> json list) list" where
  "stages_by_case case_set =
    map (\<lambda>c. (jget c ''case_id'', map (\<lambda>stage. jget stage ''stage_id'') (case_stages c))) (set_cases case_set)"

text \<open>The checks of one entry against the registry, the case set and the targets.\<close>

definition check_entry ::
  "(json \<times> json \<times> json) list \<Rightarrow> (json \<times> json list) list \<Rightarrow> (json \<times> json) list \<Rightarrow> (json \<times> json) set \<Rightarrow> json \<Rightarrow>
     contract_error + unit" where
  "check_entry obligations stages old_targets expected_targets e =
    (case (map_of obligations (jget e ''obligation_id''), map_of stages (jget e ''case_id'')) of
       (Some (control, ob), Some stage_ids) \<Rightarrow>
         ebind (guard (jget e ''stage_ids'' = JList stage_ids) (ContractError ''STAGE_MISMATCH'')) (\<lambda>_.
         ebind (guard (jget e ''required'' = jget ob ''required'' \<and> jget e ''event_policy'' = jget ob ''event_policy'')
           (ContractError ''OBLIGATION_MISMATCH'')) (\<lambda>_.
         ebind (guard (py_eq (jget e ''evaluator_ref'') (jget ob ''evaluator_ref'')) (ContractError ''EVALUATOR_MISMATCH'')) (\<lambda>_.
         ebind (if is_variant ''baseline'' e then
             (case map_of old_targets (jget control ''control_id'') of None \<Rightarrow> Inl INVALID_CONTRACT | Some t \<Rightarrow> Inr t)
           else Inr (jget control ''target_ref'')) (\<lambda>expected_target.
         ebind (guard (py_eq (jget e ''target_ref'') expected_target) (ContractError ''TARGET_MISMATCH'')) (\<lambda>_.
         guard (is_variant ''candidate'' e \<longrightarrow> ref_key (jget e ''target_ref'') \<in> expected_targets)
           (ContractError ''TARGET_MISMATCH''))))))
     | _ \<Rightarrow> Inl (ContractError ''UNKNOWN_REFERENCE''))"

definition group_key :: "json \<Rightarrow> json \<times> json \<times> json" where
  "group_key e = (jget e ''obligation_id'', jget e ''case_id'', jget e ''trial_id'')"

text \<open>The variants of one obligation, case and trial; a plan names each at most once.\<close>

definition check_group :: "json \<Rightarrow> json list \<Rightarrow> contract_error + unit" where
  "check_group mode members =
    (let candidates = filter (is_variant ''candidate'') members; baselines = filter (is_variant ''baseline'') members in
     ebind (guard (\<not> (baselines \<noteq> [] \<and> candidates = [])) (ContractError ''CANDIDATE_MISSING'')) (\<lambda>_.
     ebind (guard (\<not> (mode = JStr ''not_applicable'' \<and> baselines \<noteq> [])) (ContractError ''BASELINE_NOT_APPLICABLE'')) (\<lambda>_.
     ebind (guard (\<not> (mode = JStr ''required'' \<and> candidates \<noteq> [] \<and> baselines = [])) (ContractError ''BASELINE_MISSING'')) (\<lambda>_.
     guard (candidates \<noteq> [] \<and> baselines \<noteq> [] \<longrightarrow>
         jget (last candidates) ''stage_ids'' = jget (last baselines) ''stage_ids'' \<and>
         py_eq (jget (last candidates) ''evaluator_ref'') (jget (last baselines) ''evaluator_ref''))
       (ContractError ''VARIANT_MISMATCH'')))))"

definition planned_cases :: "json list \<Rightarrow> json \<Rightarrow> json set" where
  "planned_cases entries obligation_id =
    set (map (\<lambda>e. jget e ''case_id'')
      (filter (\<lambda>e. jget e ''obligation_id'' = obligation_id \<and> is_variant ''candidate'' e) entries))"

definition required_obligation :: "json \<times> json \<times> json \<Rightarrow> bool" where
  "required_obligation x \<longleftrightarrow> jget (snd (snd x)) ''required'' = JBool True"

definition closure_error :: "registry_error \<Rightarrow> contract_error" where
  "closure_error e = (case e of Refused c \<Rightarrow> c | RegistryKeyError \<Rightarrow> INVALID_CONTRACT)"

definition bind_trial_plan_validated ::
  "(string list \<Rightarrow> string list) \<Rightarrow> json \<Rightarrow> json \<Rightarrow> json \<Rightarrow> json \<Rightarrow> json \<Rightarrow> json \<Rightarrow> json \<Rightarrow> contract_error + json" where
  "bind_trial_plan_validated order p c r cs selected_controls target_refs baseline_context =
    ebind (require_ref_match (jget p ''contract_ref'') ''evaluation_contract'' c) (\<lambda>_.
    ebind (guard (jget cs ''purpose'' = JStr ''acceptance'') (ContractError ''PURPOSE_MISMATCH'')) (\<lambda>_.
    ebind (guard (is_list selected_controls) INVALID_CONTRACT) (\<lambda>_.
    ebind (on_error (dependency_closure order r selected_controls) closure_error) (\<lambda>closure.
    ebind (baseline_targets baseline_context c r closure) (\<lambda>old_targets.
    ebind (unique_refs ''target'' 1 MAX_REFS target_refs) (\<lambda>_.
    let expected_targets = set (map ref_key (jitems target_refs));
        obligations = registry_obligations r (Some closure);
        entries = plan_entries p;
        candidates = filter (is_variant ''candidate'') entries;
        case_ids = set (map (\<lambda>x. jget x ''case_id'') (set_cases cs)) in
    ebind (eiter (check_entry obligations (stages_by_case cs) old_targets expected_targets) entries) (\<lambda>_.
    ebind (guard (set (map (\<lambda>e. ref_key (jget e ''target_ref'')) candidates) = expected_targets)
      (ContractError ''TARGET_MISMATCH'')) (\<lambda>_.
    ebind (guard (list_all (\<lambda>(trial, ids). length (remdups ids) \<le> 1)
        (group_by (\<lambda>e. jget e ''trial_id'') (\<lambda>e. jget e ''case_id'') entries)) (ContractError ''TRIAL_CASE_MISMATCH'')) (\<lambda>_.
    ebind (eiter (\<lambda>(key, members). check_group (jget (jget c ''comparison'') ''mode'') members)
      (group_by group_key (\<lambda>e. e) entries)) (\<lambda>_.
    ebind (guard (set (map fst (filter required_obligation obligations)) \<subseteq> set (map (\<lambda>e. jget e ''obligation_id'') candidates))
      (ContractError ''REQUIRED_OBLIGATION_MISSING'')) (\<lambda>_.
    ebind (guard (list_all (\<lambda>x. jget (snd (snd x)) ''kind'' = JStr ''llm_metric'' \<longrightarrow> planned_cases entries (fst x) = case_ids)
        (filter required_obligation obligations)) (ContractError ''CASE_COVERAGE_MISSING'')) (\<lambda>_.
    Inr (JObj [(''plan'', p), (''contract'', c), (''registry'', r), (''case_set'', cs),
      (''selected_controls'', JList (map JStr closure)), (''target_refs'', target_refs), (''ci_eligible'', JBool False)])))))))))))))"

text \<open>What escapes the public functions: a refusal of a document, or of the policy.\<close>

datatype bind_error = BadContract contract_error | BadRegistry registry_error | BadPolicy policy_error

definition bind_trial_plan ::
  "(string list \<Rightarrow> string list) \<Rightarrow> json \<Rightarrow> json \<Rightarrow> json \<Rightarrow> json \<Rightarrow> json \<Rightarrow> json \<Rightarrow> json \<Rightarrow> bind_error + json" where
  "bind_trial_plan order plan contract registry case_set selected_controls target_refs baseline_context =
    ebind (on_error (validate_trial_plan plan) BadContract) (\<lambda>p.
    ebind (on_error (validate_evaluation_contract contract) BadContract) (\<lambda>c.
    ebind (on_error (validate_registry order registry) BadRegistry) (\<lambda>r.
    ebind (on_error (validate_case_set case_set) BadContract) (\<lambda>cs.
    on_error (bind_trial_plan_validated order p c r cs selected_controls target_refs baseline_context) BadContract))))"

section \<open>Run manifests\<close>

definition validate_run_manifest :: "json \<Rightarrow> contract_error + json" where
  "validate_run_manifest v =
    ebind (require_object v manifest_fields) (\<lambda>_.
    ebind (guard (jget v ''schema_version'' = JInt 1) (ContractError ''UNSUPPORTED_VERSION'')) (\<lambda>_.
    ebind (guard (jget v ''kind'' = JStr ''run_manifest'') INVALID_CONTRACT) (\<lambda>_.
    ebind (require_id (jget v ''run_id'')) (\<lambda>_.
    ebind (kind_ref ''evaluation_contract'' (jget v ''contract_ref'')) (\<lambda>_.
    ebind (enum run_purposes (jget v ''purpose'')) (\<lambda>_.
    ebind (unique_ids 1 MAX_USE_CASES (jget v ''use_cases'')) (\<lambda>_.
    ebind (eiter (enum use_case_names) (jitems (jget v ''use_cases''))) (\<lambda>_.
    ebind (unique_refs ''target'' 1 MAX_REFS (jget v ''target_refs'')) (\<lambda>_.
    ebind (unique_ids 1 1000 (jget v ''control_ids'')) (\<lambda>_.
    ebind (if jget v ''baseline_ref'' = JNull then Inr () else kind_ref ''baseline'' (jget v ''baseline_ref'')) (\<lambda>_.
    ebind (kind_ref ''trial_plan'' (jget v ''plan_ref'')) (\<lambda>_.
    ebind (kind_ref ''policy_profile'' (jget v ''policy_ref'')) (\<lambda>_.
    ebind (enum run_profiles (jget v ''profile'')) (\<lambda>_.
    ebind (kind_ref ''environment'' (jget v ''environment_ref'')) (\<lambda>_.
    ebind (kind_ref ''actor_context'' (jget v ''actor_context_ref'')) (\<lambda>_.
    ebind (require_uint MAX_INTEGER (jget v ''created_at'')) (\<lambda>_.
    ebind (require_uint MAX_INTEGER (jget v ''deadline'')) (\<lambda>_.
    ebind (guard (int_of (jget v ''created_at'') < int_of (jget v ''deadline'')) (ContractError ''DEADLINE_INVALID'')) (\<lambda>_.
    ebind (document_size v) (\<lambda>_. Inr v))))))))))))))))))))"

text \<open>The conditions on the baseline that each purpose fixes.\<close>

definition purpose_check :: "json \<Rightarrow> json \<Rightarrow> contract_error + unit" where
  "purpose_check m c =
    (let purpose = str_of (jget m ''purpose''); baseline = jget m ''baseline_ref''; full = (jget m ''profile'' = JStr ''full'');
         comparison = jget c ''comparison''; mode = jget comparison ''mode'';
         same = py_eq baseline (jget comparison ''baseline_ref'') in
     ebind (guard (purpose \<notin> {''calibration'', ''contract_validation''}) (ContractError ''BOOTSTRAP_REQUIRED'')) (\<lambda>_.
     if purpose = ''baseline_candidate'' then
       guard (baseline = JNull \<and> mode = JStr ''not_applicable'' \<and> full) (ContractError ''BASELINE_CANDIDATE_MISMATCH'')
     else if purpose = ''contract_old_regression'' then
       guard (full \<and> same) (ContractError ''CONTRACT_OLD_REGRESSION_MISMATCH'')
     else if purpose = ''contract_candidate'' then
       guard (baseline \<noteq> JNull \<and> mode = JStr ''required'' \<and> same \<and> full) (ContractError ''CONTRACT_CANDIDATE_MISMATCH'')
     else if purpose = ''regression'' then
       ebind (guard (baseline \<noteq> JNull \<and> mode = JStr ''required'') (ContractError ''BASELINE_REQUIRED'')) (\<lambda>_.
       guard same (ContractError ''BASELINE_MISMATCH''))
     else if purpose = ''diagnostic'' then
       ebind (guard (mode = JStr ''required'' \<longrightarrow> same) (ContractError ''BASELINE_MISMATCH'')) (\<lambda>_.
       guard (mode = JStr ''not_applicable'' \<longrightarrow> baseline = JNull) (ContractError ''BASELINE_NOT_APPLICABLE''))
     else Inr ()))"

definition elapsed_seconds :: "json \<Rightarrow> json \<Rightarrow> int" where
  "elapsed_seconds policy m = int_of (jget (jget (jget policy ''profiles'') (str_of (jget m ''profile''))) ''elapsed_seconds'')"

definition bind_run_manifest ::
  "(string list \<Rightarrow> string list) \<Rightarrow> json \<Rightarrow> json \<Rightarrow> json \<Rightarrow> json \<Rightarrow> json \<Rightarrow> json \<Rightarrow> json \<Rightarrow> bind_error + json" where
  "bind_run_manifest order manifest contract plan policy registry case_set baseline_context =
    ebind (on_error (validate_run_manifest manifest) BadContract) (\<lambda>m.
    ebind (on_error (validate_evaluation_contract contract) BadContract) (\<lambda>c.
    ebind (on_error (validate_trial_plan plan) BadContract) (\<lambda>p.
    ebind (on_error (validate_policy_profile policy) BadPolicy) (\<lambda>policy_value.
    ebind (on_error (validate_registry order registry) BadRegistry) (\<lambda>registry_value.
    ebind (on_error (validate_case_set case_set) BadContract) (\<lambda>case_value.
    on_error
      (ebind (require_ref_match (jget m ''contract_ref'') ''evaluation_contract'' c) (\<lambda>_.
       ebind (require_ref_match (jget m ''plan_ref'') ''trial_plan'' p) (\<lambda>_.
       ebind (require_ref_match (jget m ''policy_ref'') ''policy_profile'' policy_value) (\<lambda>_.
       ebind (guard (set (jitems (jget m ''use_cases'')) = set (jitems (jget c ''use_cases'')))
         (ContractError ''USE_CASE_MISMATCH'')) (\<lambda>_.
       ebind (guard (jget m ''target_refs'' \<noteq> JList []) (ContractError ''TARGET_MISMATCH'')) (\<lambda>_.
       ebind (purpose_check m c) (\<lambda>_.
       ebind (guard (int_of (jget m ''deadline'') \<le> int_of (jget m ''created_at'') + elapsed_seconds policy_value m)
         (ContractError ''DEADLINE_INVALID'')) (\<lambda>_.
       ebind (bind_trial_plan_validated order p c registry_value case_value (jget m ''control_ids'') (jget m ''target_refs'')
         baseline_context) (\<lambda>bound_plan.
       Inr (JObj [(''manifest'', m), (''contract'', c), (''plan'', p), (''policy'', policy_value),
         (''registry'', registry_value), (''case_set'', case_value),
         (''selected_controls'', jget bound_plan ''selected_controls''), (''ci_eligible'', JBool False)]))))))))))
      BadContract))))))"

end
