(* ===== verification/Aggregation.thy ===== *)
theory Aggregation
  imports Run_Binding Normalized Profiles
begin

text \<open>
  Which attempts count (first half of \<open>src/src/gah/aggregation.py\<close>).  Records of attempts are checked field
  by field, deliveries of the same record are counted, and every record is placed under its position in
  the plan: variant, obligation, case, trial and stage.  From the records of a position at most one is
  selected.  What cannot be placed or selected becomes an issue.  Dictionaries are association lists in
  insertion order; the bundle handed to \<open>_aggregate_validated\<close> was bound before, so its fields exist
  and its obligations, cases and stages are known.
\<close>

section \<open>Documents\<close>

definition MAX_ATTEMPTS :: nat where
  "MAX_ATTEMPTS = 20000"

definition MAX_ATTEMPT_BYTES :: nat where
  "MAX_ATTEMPT_BYTES = 1 * 1024 * 1024"

definition attempt_fields :: "string list" where
  "attempt_fields = [''schema_version'', ''kind'', ''attempt_id'', ''variant'', ''retry_of'', ''started_at'', ''finished_at'',
     ''stop_confirmed'', ''execution_status'', ''state_restored'', ''expected_binding'', ''result'']"

definition result_fields :: "string list" where
  "result_fields = [''schema_version'', ''kind'', ''binding'', ''mode'', ''observation'', ''mutation_outcome'', ''detection'',
     ''deviation'', ''error_class'', ''raw_digest'']"

definition attempt_statuses :: "string list" where
  "attempt_statuses = [''COMPLETED'', ''FAILED'', ''TIMEOUT'', ''CANCELLED'', ''UNKNOWN'']"

definition attempt_variants :: "string list" where
  "attempt_variants = [''candidate'', ''baseline'']"

definition check_values :: "string list" where
  "check_values = [''PASS'', ''FAIL'', ''UNKNOWN'']"

definition detection_values :: "string list" where
  "detection_values = [''detect'', ''allow'', ''indeterminate'']"

definition mutation_values :: "string list" where
  "mutation_values = [''KILLED'', ''SURVIVED'', ''NO_COVERAGE'', ''ERROR'']"

definition error_values :: "string list" where
  "error_values = [''EXECUTION_FAILURE'', ''BASELINE_NOT_PASS'', ''UNRELATED_FAILURE'', ''MUTATION_NOT_APPLIED'']"

abbreviation INVALID_AGGREGATION :: contract_error where
  "INVALID_AGGREGATION \<equiv> ContractError ''INVALID_AGGREGATION''"

definition agg_bool :: "json \<Rightarrow> contract_error + unit" where
  "agg_bool v = guard (is_bool v) INVALID_AGGREGATION"

definition among :: "json \<Rightarrow> string list \<Rightarrow> bool" where
  "among v allowed \<longleftrightarrow> is_str v \<and> str_of v \<in> set allowed"

definition agg_enum :: "json \<Rightarrow> string list \<Rightarrow> contract_error + unit" where
  "agg_enum v allowed = guard (among v allowed) INVALID_AGGREGATION"

definition agg_digest :: "json \<Rightarrow> contract_error + unit" where
  "agg_digest v = on_error (require_digest v) (\<lambda>_. INVALID_AGGREGATION)"

text \<open>\<open>_canon\<close>.\<close>

definition agg_canon :: "json \<Rightarrow> contract_error + string" where
  "agg_canon v = plain_canonical INVALID_AGGREGATION v"

definition visit_adapter :: "json list \<Rightarrow> json \<Rightarrow> contract_error + json list" where
  "visit_adapter seen item =
    ebind (agg_digest item) (\<lambda>_.
    ebind (guard (item \<notin> set seen) (ContractError ''DUPLICATE_REFERENCE'')) (\<lambda>_. Inr (seen @ [item])))"

definition validate_agg_profile :: "json \<Rightarrow> contract_error + json" where
  "validate_agg_profile v =
    (if is_obj v \<and> ''schema_version'' \<in> set (jkeys v) then validate_profile v
     else
       ebind (require_object v legacy_fields) (\<lambda>_.
       ebind (agg_digest (jget v ''fixture_digest'')) (\<lambda>_.
       ebind (agg_digest (jget v ''isolation_digest'')) (\<lambda>_.
       ebind (guard (is_list (jget v ''adapter_digests'') \<and> 1 \<le> length (jitems (jget v ''adapter_digests'')) \<and>
         length (jitems (jget v ''adapter_digests'')) \<le> 100) INVALID_AGGREGATION) (\<lambda>_.
       ebind (efold visit_adapter [] (jitems (jget v ''adapter_digests''))) (\<lambda>_. Inr v))))))"

text \<open>The combinations of fields each mode of a result allows.\<close>

definition result_shape_ok :: "json \<Rightarrow> bool" where
  "result_shape_ok v \<longleftrightarrow>
    (let mode = jget v ''mode''; observation = jget v ''observation''; mutation = jget v ''mutation_outcome'';
         detection = jget v ''detection''; deviation = jget v ''deviation''; error_class = jget v ''error_class'';
         raw_digest = jget v ''raw_digest'' in
     if mode = JNull then
       observation = JNull \<and> detection = JNull \<and> deviation = JNull \<and> mutation = JStr ''ERROR'' \<and>
       among error_class error_values \<and> raw_digest = JNull
     else if mode = JStr ''constraint'' then
       among observation check_values \<and> mutation = JNull \<and> detection = JNull \<and> deviation = JNull \<and> error_class = JNull \<and>
       raw_digest \<noteq> JNull
     else if mode = JStr ''mutation'' then
       among observation check_values \<and> among mutation mutation_values \<and> detection = JNull \<and> deviation = JNull \<and>
       raw_digest \<noteq> JNull \<and> (if mutation = JStr ''ERROR'' then among error_class error_values else error_class = JNull)
     else
       observation = JNull \<and> mutation = JNull \<and> among detection detection_values \<and> error_class = JNull \<and> raw_digest \<noteq> JNull)"

definition validate_result :: "json \<Rightarrow> contract_error + json" where
  "validate_result v =
    ebind (require_object v result_fields) (\<lambda>_.
    ebind (guard (jget v ''schema_version'' = JInt 1) (ContractError ''UNSUPPORTED_VERSION'')) (\<lambda>_.
    ebind (guard (jget v ''kind'' = JStr ''normalized_result'') INVALID_AGGREGATION) (\<lambda>_.
    ebind (on_error (validate_binding (jget v ''binding'')) (\<lambda>_. ContractError ''BINDING_MISMATCH'')) (\<lambda>_.
    ebind (if jget v ''mode'' = JNull then Inr () else agg_enum (jget v ''mode'') [''constraint'', ''mutation'', ''llm'']) (\<lambda>_.
    ebind (if jget v ''raw_digest'' = JNull then Inr () else agg_digest (jget v ''raw_digest'')) (\<lambda>_.
    ebind (if jget v ''deviation'' = JNull then Inr () else agg_bool (jget v ''deviation'')) (\<lambda>_.
    ebind (guard (result_shape_ok v) INVALID_AGGREGATION) (\<lambda>_. Inr v))))))))"

definition agg_check :: "contract_error + unit \<Rightarrow> contract_error + unit" where
  "agg_check m = on_error m (\<lambda>_. INVALID_AGGREGATION)"

definition validate_attempt :: "json \<Rightarrow> contract_error + json \<times> string" where
  "validate_attempt v =
    ebind (require_object v attempt_fields) (\<lambda>_.
    ebind (guard (jget v ''schema_version'' = JInt 1 \<and> jget v ''kind'' = JStr ''attempt_record'')
      (if py_eq (jget v ''schema_version'') (JInt 1) then INVALID_AGGREGATION else ContractError ''UNSUPPORTED_VERSION'')) (\<lambda>_.
    ebind (agg_check (require_id (jget v ''attempt_id''))) (\<lambda>_.
    ebind (agg_enum (jget v ''variant'') attempt_variants) (\<lambda>_.
    ebind (if jget v ''retry_of'' = JNull then Inr ()
      else ebind (agg_check (require_id (jget v ''retry_of''))) (\<lambda>_.
        guard (jget v ''retry_of'' \<noteq> jget v ''attempt_id'') (ContractError ''INVALID_RETRY''))) (\<lambda>_.
    ebind (agg_check (ebind (require_uint MAX_INTEGER (jget v ''started_at'')) (\<lambda>_.
      if jget v ''finished_at'' = JNull then Inr () else require_uint MAX_INTEGER (jget v ''finished_at'')))) (\<lambda>_.
    ebind (guard (jget v ''finished_at'' \<noteq> JNull \<longrightarrow> int_of (jget v ''started_at'') \<le> int_of (jget v ''finished_at''))
      (ContractError ''TIME_ORDER'')) (\<lambda>_.
    ebind (agg_bool (jget v ''stop_confirmed'')) (\<lambda>_.
    ebind (agg_bool (jget v ''state_restored'')) (\<lambda>_.
    ebind (agg_enum (jget v ''execution_status'') attempt_statuses) (\<lambda>_.
    ebind (on_error (validate_binding (jget v ''expected_binding'')) (\<lambda>_. ContractError ''BINDING_MISMATCH'')) (\<lambda>_.
    ebind (if jget v ''result'' = JNull then Inr JNull else validate_result (jget v ''result'')) (\<lambda>_.
    ebind (agg_canon v) (\<lambda>raw.
    ebind (guard (length raw \<le> MAX_ATTEMPT_BYTES) (ContractError ''DOCUMENT_SIZE'')) (\<lambda>_.
    Inr (v, sha256_hex raw)))))))))))))))"

section \<open>Issues\<close>

definition issue_keys :: "string list" where
  "issue_keys = [''variant'', ''obligation_id'', ''case_id'', ''trial_id'', ''stage_id'', ''attempt_id'']"

definition issue_field :: "json \<Rightarrow> string \<Rightarrow> (string \<times> json) list" where
  "issue_field item k =
    (if k \<in> set (jkeys item) then [(k, jget item k)]
     else if is_obj (jget item ''expected_binding'') \<and> k \<in> set (jkeys (jget item ''expected_binding''))
     then [(k, jget (jget item ''expected_binding'') k)] else [])"

definition issue_of :: "string \<Rightarrow> json \<Rightarrow> json" where
  "issue_of code item = JObj ((''code'', JStr code) # concat (map (issue_field item) issue_keys))"

definition add_issue :: "string \<Rightarrow> json \<Rightarrow> json list \<Rightarrow> json list" where
  "add_issue code item issues = (if issue_of code item \<in> set issues then issues else issues @ [issue_of code item])"

section \<open>Collecting\<close>

record attempt_row =
  at_record :: json
  at_digest :: string
  at_count :: nat

record collected =
  co_unique :: "(string \<times> attempt_row) list"
  co_conflicted :: "string list"
  co_conflicts :: "json list"
  co_issues :: "json list"

definition attempt_id :: "json \<Rightarrow> string" where
  "attempt_id r = str_of (jget r ''attempt_id'')"

definition collect :: "collected \<Rightarrow> json \<Rightarrow> contract_error + collected" where
  "collect s v =
    ebind (validate_attempt v) (\<lambda>(rec, digest).
    Inr (case map_of (co_unique s) (attempt_id rec) of
       None \<Rightarrow> s\<lparr>co_unique := co_unique s @ [(attempt_id rec, \<lparr>at_record = rec, at_digest = digest, at_count = 1\<rparr>)]\<rparr>
     | Some old \<Rightarrow>
         if at_digest old \<noteq> digest then
           s\<lparr>co_issues := add_issue ''DUPLICATE_ATTEMPT_CONFLICT'' rec (co_issues s),
             co_conflicted := List.insert (attempt_id rec) (co_conflicted s),
             co_conflicts := co_conflicts s @ [at_record old, rec]\<rparr>
         else s\<lparr>co_unique := AList.update (attempt_id rec) (old\<lparr>at_count := at_count old + 1\<rparr>) (co_unique s)\<rparr>))"

definition no_attempts :: collected where
  "no_attempts = \<lparr>co_unique = [], co_conflicted = [], co_conflicts = [], co_issues = []\<rparr>"

definition status_issue :: "json list \<Rightarrow> json \<Rightarrow> json list" where
  "status_issue issues r =
    (let result = jget r ''result''; completed = (jget r ''execution_status'' = JStr ''COMPLETED'') in
     if completed \<and> result = JNull then add_issue ''MISSING_RESULT'' r issues
     else if \<not> completed \<and> result \<noteq> JNull \<and> (jget result ''mode'' \<noteq> JNull \<or> jget result ''mutation_outcome'' \<noteq> JStr ''ERROR'')
     then add_issue ''STATUS_RESULT_MISMATCH'' r issues
     else issues)"

section \<open>The plan\<close>

text \<open>Variant, obligation, case, trial and stage; without the stage, the group.\<close>

type_synonym plan_group = "string \<times> string \<times> string \<times> string"
type_synonym plan_key = "plan_group \<times> string"

text \<open>Control identifier, control and obligation by obligation identifier.\<close>

definition agg_obligations :: "json \<Rightarrow> (string \<times> string \<times> json \<times> json) list" where
  "agg_obligations bound =
    fold (\<lambda>(o_id, x). AList.update o_id x)
      (concat (map (\<lambda>control.
          if jget control ''control_id'' \<notin> set (jitems (jget bound ''selected_controls'')) then []
          else map (\<lambda>obligation. (str_of (jget obligation ''obligation_id''), str_of (jget control ''control_id''), control, obligation))
            (jitems (jget control ''obligations'')))
        (jitems (jget (jget bound ''registry'') ''controls'')))) []"

definition agg_cases :: "json \<Rightarrow> (string \<times> json) list" where
  "agg_cases bound = fold (\<lambda>c. AList.update (str_of (jget c ''case_id'')) c) (jitems (jget (jget bound ''case_set'') ''cases'')) []"

definition agg_plan :: "json \<Rightarrow> json list" where
  "agg_plan bound = jitems (jget (jget bound ''plan'') ''entries'')"

definition entry_group :: "json \<Rightarrow> plan_group" where
  "entry_group e = (str_of (jget e ''variant''), str_of (jget e ''obligation_id''), str_of (jget e ''case_id''), str_of (jget e ''trial_id''))"

definition entry_stages :: "json \<Rightarrow> string list" where
  "entry_stages e = map str_of (jitems (jget e ''stage_ids''))"

definition planned_keys :: "json \<Rightarrow> (plan_key \<times> json) list" where
  "planned_keys bound =
    fold (\<lambda>(k, e). AList.update k e)
      (concat (map (\<lambda>e. map (\<lambda>s. ((entry_group e, s), e)) (entry_stages e)) (agg_plan bound))) []"

definition record_key :: "json \<Rightarrow> plan_key" where
  "record_key r =
    (let b = jget r ''expected_binding'' in
     ((str_of (jget r ''variant''), str_of (jget b ''obligation_id''), str_of (jget b ''case_id''), str_of (jget b ''trial_id'')),
      str_of (jget b ''stage_id'')))"

section \<open>Placing\<close>

definition attempt_in_window :: "json \<Rightarrow> json \<Rightarrow> bool" where
  "attempt_in_window bound r \<longleftrightarrow> int_of (jget (jget bound ''manifest'') ''created_at'') \<le> int_of (jget r ''started_at'') \<and>
     (jget r ''finished_at'' \<noteq> JNull \<longrightarrow> int_of (jget r ''finished_at'') \<le> int_of (jget (jget bound ''manifest'') ''deadline''))"

text \<open>What the binding of a record has to be, given the profile selected for the entry.\<close>

definition expected_fields :: "json \<Rightarrow> json \<Rightarrow> json \<Rightarrow> json \<Rightarrow> (string \<times> json) list" where
  "expected_fields bound profile selected_profile entry =
    (let m = jget bound ''manifest'' in
     [(''run_id'', jget m ''run_id''), (''contract_digest'', jget (jget m ''contract_ref'') ''digest''),
      (''policy_digest'', jget (jget m ''policy_ref'') ''digest''), (''fixture_digest'', jget selected_profile ''fixture_digest''),
      (''isolation_digest'', jget profile ''isolation_digest''), (''target_digest'', jget (jget entry ''target_ref'') ''digest''),
      (''evaluator_digest'', jget (jget entry ''evaluator_ref'') ''digest'')])"

definition binding_expected :: "json \<Rightarrow> json \<Rightarrow> json \<Rightarrow> json \<Rightarrow> json \<Rightarrow> bool" where
  "binding_expected bound profile selected_profile entry b \<longleftrightarrow>
     list_all (\<lambda>(f, v). jget b f = v) (expected_fields bound profile selected_profile entry) \<and>
     jget b ''adapter_digest'' \<in> set (jitems (jget selected_profile ''adapter_digests''))"

definition expected_mode :: "string \<Rightarrow> string" where
  "expected_mode kind = (if kind = ''llm_metric'' then ''llm'' else kind)"

definition obligation_of :: "json \<Rightarrow> string \<Rightarrow> json" where
  "obligation_of bound o_id = (case map_of (agg_obligations bound) o_id of Some (c_id, control, ob) \<Rightarrow> ob | None \<Rightarrow> JNull)"

definition control_of :: "json \<Rightarrow> string \<Rightarrow> json" where
  "control_of bound o_id = (case map_of (agg_obligations bound) o_id of Some (c_id, control, ob) \<Rightarrow> control | None \<Rightarrow> JNull)"

definition control_id_of :: "json \<Rightarrow> string \<Rightarrow> string" where
  "control_id_of bound o_id = (case map_of (agg_obligations bound) o_id of Some (c_id, control, ob) \<Rightarrow> c_id | None \<Rightarrow> [])"

definition error_result_only :: "json \<Rightarrow> bool" where
  "error_result_only result \<longleftrightarrow> jget result ''mode'' = JNull \<and> jget result ''mutation_outcome'' = JStr ''ERROR''"

type_synonym placed = "(plan_key \<times> (json \<times> nat) list) list"

definition placed_at :: "placed \<Rightarrow> plan_key \<Rightarrow> (json \<times> nat) list" where
  "placed_at logical k = (case map_of logical k of Some rs \<Rightarrow> rs | None \<Rightarrow> [])"

text \<open>Why a record cannot be placed, or \<open>None\<close>.\<close>

definition misplaced :: "json \<Rightarrow> json \<Rightarrow> json \<Rightarrow> contract_error + string option" where
  "misplaced bound profile r =
    (let b = jget r ''expected_binding''; result = jget r ''result'' in
     if \<not> attempt_in_window bound r then Inr (Some ''OUT_OF_RUN_WINDOW'')
     else case map_of (planned_keys bound) (record_key r) of
       None \<Rightarrow> Inr (Some ''UNPLANNED_ATTEMPT'')
     | Some entry \<Rightarrow>
         ebind (expected profile (jget (jget entry ''target_ref'') ''digest'') (jget (jget entry ''evaluator_ref'') ''digest''))
           (\<lambda>selected_profile.
         Inr (if \<not> binding_expected bound profile selected_profile entry b then Some ''BINDING_MISMATCH''
              else if result \<noteq> JNull \<and> \<not> py_eq (jget result ''binding'') b then Some ''RESULT_BINDING_MISMATCH''
              else if result \<noteq> JNull \<and>
                jget result ''mode'' \<noteq> JStr (expected_mode (str_of (jget (obligation_of bound (str_of (jget b ''obligation_id''))) ''kind''))) \<and>
                \<not> error_result_only result then Some ''RESULT_MODE_MISMATCH''
              else None)))"

definition place :: "json \<Rightarrow> json \<Rightarrow> string list \<Rightarrow> json list \<times> placed \<Rightarrow> attempt_row \<Rightarrow> contract_error + json list \<times> placed" where
  "place bound profile conflicted s row =
    (let r = at_record row; (issues, logical) = s in
     if attempt_id r \<in> set conflicted then Inr s
     else ebind (misplaced bound profile r) (\<lambda>why.
       Inr (case why of
          Some code \<Rightarrow> (add_issue code r issues, logical)
        | None \<Rightarrow> (issues, AList.update (record_key r) (placed_at logical (record_key r) @ [(r, at_count row)]) logical))))"

section \<open>Selecting\<close>

text \<open>\<open>by_id\<close> and \<open>key_by_id\<close>.\<close>

definition located :: "placed \<Rightarrow> (string \<times> json \<times> plan_key) list" where
  "located logical = fold (\<lambda>(r, k). AList.update (attempt_id r) (r, k)) (concat (map (\<lambda>(k, rs). map (\<lambda>(r, n). (r, k)) rs) logical)) []"

definition retry_ok :: "placed \<Rightarrow> plan_key \<Rightarrow> json \<Rightarrow> bool" where
  "retry_ok logical k r \<longleftrightarrow>
    (case map_of (located logical) (str_of (jget r ''retry_of'')) of
       None \<Rightarrow> False
     | Some (previous, k') \<Rightarrow>
         k' = k \<and> jget previous ''retry_of'' = JNull \<and> among (jget previous ''execution_status'') [''FAILED'', ''TIMEOUT''] \<and>
         bool_of (jget previous ''stop_confirmed'') \<and> jget previous ''finished_at'' \<noteq> JNull \<and>
         int_of (jget previous ''finished_at'') \<le> int_of (jget r ''started_at'') \<and>
         jget (jget previous ''expected_binding'') ''owner_epoch'' = jget (jget r ''expected_binding'') ''owner_epoch'' \<and>
         bool_of (jget r ''state_restored''))"

definition retries_of :: "(string \<times> attempt_row) list \<Rightarrow> json \<Rightarrow> nat" where
  "retries_of unique v = length (filter (\<lambda>(i, row). jget (at_record row) ''retry_of'' = v) unique)"

text \<open>A definitive record: completed, stopped, with a result that is no error.\<close>

definition definitive :: "json \<Rightarrow> bool" where
  "definitive r \<longleftrightarrow> jget r ''execution_status'' = JStr ''COMPLETED'' \<and> jget r ''finished_at'' \<noteq> JNull \<and>
     bool_of (jget r ''stop_confirmed'') \<and> jget r ''result'' \<noteq> JNull \<and> jget (jget r ''result'') ''mutation_outcome'' \<noteq> JStr ''ERROR''"

definition retry_issue :: "(string \<times> attempt_row) list \<Rightarrow> placed \<Rightarrow> plan_key \<Rightarrow> json \<Rightarrow> string option" where
  "retry_issue unique logical k r =
    (if jget r ''retry_of'' = JNull then None
     else if \<not> retry_ok logical k r then Some ''INVALID_RETRY''
     else if retries_of unique (jget r ''retry_of'') > 1 then Some ''RETRY_LIMIT''
     else None)"

record agg_selection =
  se_selected :: "(plan_key \<times> json \<times> nat) list"
  se_conflict_keys :: "plan_key list"
  se_conflicts :: "json list"
  se_issues :: "json list"

definition retry_issues :: "(string \<times> attempt_row) list \<Rightarrow> placed \<Rightarrow> plan_key \<Rightarrow> (json \<times> nat) list \<Rightarrow> json list \<Rightarrow> json list" where
  "retry_issues unique logical k rs issues =
    fold (\<lambda>(r, n) issues. case retry_issue unique logical k r of None \<Rightarrow> issues | Some code \<Rightarrow> add_issue code r issues) rs issues"

definition valid_records :: "(string \<times> attempt_row) list \<Rightarrow> placed \<Rightarrow> plan_key \<Rightarrow> (json \<times> nat) list \<Rightarrow> (json \<times> nat) list" where
  "valid_records unique logical k rs = filter (\<lambda>(r, n). retry_issue unique logical k r = None \<and> definitive r) rs"

text \<open>Records of the position that are neither the selected one, nor what it retries, nor its retry.\<close>

definition unrelated :: "json \<Rightarrow> (json \<times> nat) list \<Rightarrow> bool" where
  "unrelated chosen rs \<longleftrightarrow> list_ex (\<lambda>(r, n). jget r ''attempt_id'' \<noteq> jget chosen ''attempt_id'' \<and>
     jget r ''attempt_id'' \<noteq> jget chosen ''retry_of'' \<and> jget r ''retry_of'' \<noteq> jget chosen ''attempt_id'') rs"

definition select_at :: "(string \<times> attempt_row) list \<Rightarrow> placed \<Rightarrow> plan_key \<times> (json \<times> nat) list \<Rightarrow> agg_selection \<Rightarrow> agg_selection" where
  "select_at unique logical = (\<lambda>(k, rs) s.
    (let s = s\<lparr>se_issues := retry_issues unique logical k rs (se_issues s)\<rparr> in
     case valid_records unique logical k rs of
       [] \<Rightarrow> s
     | [(r, n)] \<Rightarrow>
         if unrelated r rs then s\<lparr>se_issues := add_issue ''ATTEMPT_CHAIN_CONFLICT'' r (se_issues s)\<rparr>
         else s\<lparr>se_selected := AList.update k (r, n) (se_selected s)\<rparr>
     | (r, n) # others \<Rightarrow>
         s\<lparr>se_issues := add_issue ''DEFINITIVE_RESULT_CONFLICT'' r (se_issues s),
           se_conflict_keys := List.insert k (se_conflict_keys s),
           se_conflicts := se_conflicts s @ map fst ((r, n) # others)\<rparr>))"

definition select_all :: "(string \<times> attempt_row) list \<Rightarrow> placed \<Rightarrow> json list \<Rightarrow> json list \<Rightarrow> agg_selection" where
  "select_all unique logical conflicts issues =
    fold (select_at unique logical) logical
      \<lparr>se_selected = [], se_conflict_keys = [], se_conflicts = conflicts, se_issues = issues\<rparr>"

end
