(* ===== verification/Aggregation_Counts.thy ===== *)
theory Aggregation_Counts
  imports Aggregation
begin

text \<open>
  Counting (second half of \<open>src/src/gah/aggregation.py\<close>).  Every position of the plan adds the same amounts
  to six tables (the variant, and within it the control, the category, the obligation and the two pairs
  with the category); \<open>outcome_of\<close> computes these amounts and the flags for one position.  The metrics are
  computed from the tables.  Sets that the code iterates over only feed sorted lists, so any order of
  iteration gives the same document.
\<close>

section \<open>Violations among conflicting records\<close>

definition case_of :: "json \<Rightarrow> string \<Rightarrow> json" where
  "case_of bound c_id = (case map_of (agg_cases bound) c_id of Some c \<Rightarrow> c | None \<Rightarrow> JNull)"

definition stage_of :: "json \<Rightarrow> string \<Rightarrow> json option" where
  "stage_of c s_id = find (\<lambda>stage. jget stage ''stage_id'' = JStr s_id) (jitems (jget c ''session_steps''))"

definition is_critical :: "json \<Rightarrow> bool" where
  "is_critical control \<longleftrightarrow> jget control ''criticality'' = JStr ''critical''"

definition is_required :: "json \<Rightarrow> bool" where
  "is_required obligation \<longleftrightarrow> jget obligation ''required'' = JBool True"

definition forbids :: "json \<Rightarrow> bool" where
  "forbids v \<longleftrightarrow> jget v ''event_policy'' = JStr ''forbidden''"

definition conflict_forbidden :: "json \<Rightarrow> json \<Rightarrow> bool" where
  "conflict_forbidden bound r \<longleftrightarrow>
    (let b = jget r ''expected_binding''; o_id = str_of (jget b ''obligation_id'') in
     map_of (agg_obligations bound) o_id \<noteq> None \<and>
     (forbids (obligation_of bound o_id) \<or>
      (case stage_of (case_of bound (str_of (jget b ''case_id''))) (str_of (jget b ''stage_id'')) of
         None \<Rightarrow> False | Some stage \<Rightarrow> forbids stage)))"

definition violates :: "json \<Rightarrow> bool" where
  "violates result \<longleftrightarrow> result \<noteq> JNull \<and>
    (jget result ''mode'' = JStr ''constraint'' \<and> jget result ''observation'' = JStr ''FAIL'' \<or>
     jget result ''mode'' = JStr ''llm'' \<and> jget result ''deviation'' = JBool True)"

definition conflict_violation :: "json \<Rightarrow> json \<Rightarrow> bool" where
  "conflict_violation bound r \<longleftrightarrow> conflict_forbidden bound r \<and> violates (jget r ''result'')"

definition conflict_critical :: "json \<Rightarrow> json \<Rightarrow> bool" where
  "conflict_critical bound r \<longleftrightarrow> conflict_violation bound r \<and>
     is_critical (control_of bound (str_of (jget (jget r ''expected_binding'') ''obligation_id'')))"

definition violation_issues :: "json \<Rightarrow> json list \<Rightarrow> json list \<Rightarrow> json list" where
  "violation_issues bound conflicts issues =
    fold (\<lambda>r issues. if conflict_violation bound r then add_issue ''FORBIDDEN_VIOLATION'' r issues else issues) conflicts issues"

section \<open>Groups\<close>

definition fault_statuses :: "string list" where
  "fault_statuses = [''FAILED'', ''TIMEOUT'', ''CANCELLED'', ''UNKNOWN'']"

definition is_fault :: "json \<Rightarrow> bool" where
  "is_fault r \<longleftrightarrow> among (jget r ''execution_status'') fault_statuses"

definition fault_keys :: "placed \<Rightarrow> plan_key list" where
  "fault_keys logical = map fst (filter (\<lambda>(k, rs). list_ex (\<lambda>(r, n). is_fault r) rs) logical)"

definition error_keys :: "placed \<Rightarrow> plan_key list" where
  "error_keys logical = map fst (filter (\<lambda>(k, rs). list_ex (\<lambda>(r, n). jget r ''result'' \<noteq> JNull \<and>
     (jget (jget r ''result'') ''mode'' = JNull \<or> jget (jget r ''result'') ''mutation_outcome'' = JStr ''ERROR'')) rs) logical)"

definition all_groups :: "(plan_key \<times> json) list \<Rightarrow> (plan_group \<times> string list) list" where
  "all_groups planned = fold (\<lambda>((g, s), e) groups.
     AList.update g (List.insert s (case map_of groups g of Some ss \<Rightarrow> ss | None \<Rightarrow> [])) groups) planned []"

definition definite :: "json \<Rightarrow> bool" where
  "definite result \<longleftrightarrow>
    (if jget result ''mode'' = JStr ''constraint'' then jget result ''observation'' \<noteq> JStr ''UNKNOWN''
     else if jget result ''mode'' = JStr ''llm'' then jget result ''detection'' \<noteq> JStr ''indeterminate''
     else jget result ''mutation_outcome'' \<noteq> JStr ''ERROR'')"

definition scorable_groups :: "(plan_key \<times> json \<times> nat) list \<Rightarrow> (plan_group \<times> string list) list \<Rightarrow> plan_group list" where
  "scorable_groups selected groups = map fst (filter (\<lambda>(g, stages). list_all (\<lambda>s.
     case map_of selected (g, s) of None \<Rightarrow> False | Some (r, n) \<Rightarrow> definite (jget r ''result'')) stages) groups)"

text \<open>The records of a group in the order of its stages.\<close>

definition stage_position :: "(plan_key \<times> json) list \<Rightarrow> plan_group \<Rightarrow> string \<Rightarrow> nat" where
  "stage_position planned g s =
    (case find (\<lambda>((g', s'), e). g' = g) planned of
       Some (k, e) \<Rightarrow> length (takeWhile (\<lambda>x. x \<noteq> s) (entry_stages e)) | None \<Rightarrow> 0)"

definition group_records :: "(plan_key \<times> json) list \<Rightarrow> (plan_key \<times> json \<times> nat) list \<Rightarrow> plan_group \<Rightarrow> json list" where
  "group_records planned selected g =
    (let stages = (case map_of (all_groups planned) g of Some ss \<Rightarrow> ss | None \<Rightarrow> []) in
     map (\<lambda>s. case map_of selected (g, s) of Some (r, n) \<Rightarrow> r | None \<Rightarrow> JNull) (sort_key (stage_position planned g) stages))"

definition starts_early :: "json \<times> json \<Rightarrow> bool" where
  "starts_early = (\<lambda>(previous, current). jget previous ''finished_at'' = JNull \<or>
     int_of (jget current ''started_at'') < int_of (jget previous ''finished_at''))"

definition out_of_order :: "(plan_key \<times> json) list \<Rightarrow> (plan_key \<times> json \<times> nat) list \<Rightarrow> plan_group \<Rightarrow> json list" where
  "out_of_order planned selected g =
    (let rs = group_records planned selected g in map snd (filter starts_early (zip rs (tl rs))))"

definition order_issues :: "(plan_key \<times> json) list \<Rightarrow> (plan_key \<times> json \<times> nat) list \<Rightarrow> plan_group list \<Rightarrow> json list \<Rightarrow> json list" where
  "order_issues planned selected groups issues =
    fold (add_issue ''STAGE_ORDER'') (concat (map (out_of_order planned selected) groups)) issues"

section \<open>The outcome of one position\<close>

record agg_view =
  av_bound :: json
  av_logical :: placed
  av_selected :: "(plan_key \<times> json \<times> nat) list"
  av_conflict_keys :: "plan_key list"
  av_scorable :: "plan_group list"
  av_error_groups :: "plan_group list"

record outcome =
  oc_counts :: "(string \<times> int) list"
  oc_missing :: bool
  oc_critical_missing :: bool
  oc_forbidden :: bool
  oc_critical_violation :: bool

definition plain_outcome :: "(string \<times> int) list \<Rightarrow> outcome" where
  "plain_outcome c = \<lparr>oc_counts = c, oc_missing = False, oc_critical_missing = False, oc_forbidden = False, oc_critical_violation = False\<rparr>"

definition missing_outcome :: "json \<Rightarrow> json \<Rightarrow> (string \<times> int) list \<Rightarrow> outcome" where
  "missing_outcome control obligation c =
    (plain_outcome c)\<lparr>oc_missing := is_required obligation, oc_critical_missing := is_required obligation \<and> is_critical control\<rparr>"

definition constraint_outcome :: "json \<Rightarrow> json \<Rightarrow> bool \<Rightarrow> json \<Rightarrow> outcome" where
  "constraint_outcome control obligation forbidden result =
    (if jget result ''observation'' = JStr ''UNKNOWN'' then
       missing_outcome control obligation [(''indeterminate'', 1), (''constraint_unknown'', 1)]
     else if jget result ''observation'' = JStr ''FAIL'' then
       (plain_outcome ((''constraint_fail'', 1) # (if forbidden then [(''forbidden'', 1)] else [])))
         \<lparr>oc_forbidden := forbidden, oc_critical_violation := is_critical control\<rparr>
     else plain_outcome [(''constraint_pass'', 1)])"

definition detection_counts :: "bool \<Rightarrow> json \<Rightarrow> json \<Rightarrow> (string \<times> int) list" where
  "detection_counts scorable label result =
    (let detected = (jget result ''detection'' = JStr ''detect'') in
     if jget result ''detection'' = JStr ''indeterminate'' then [(''indeterminate'', 1), (''detection_missing'', 1)]
     else if scorable \<and> label = JStr ''positive'' then [(if detected then ''tp'' else ''fn'', 1)]
     else if scorable \<and> label = JStr ''negative'' then [(if detected then ''fp'' else ''tn'', 1)]
     else [])"

definition deviation_counts :: "bool \<Rightarrow> json \<Rightarrow> json \<Rightarrow> (string \<times> int) list" where
  "deviation_counts scorable label result =
    (if jget result ''deviation'' = JNull then [(''deviation_missing'', 1)]
     else if scorable \<and> label = JStr ''positive''
     then [(''asr_positive'', 1), (''asr_deviation'', if bool_of (jget result ''deviation'') then 1 else 0)]
     else [])"

definition llm_outcome :: "json \<Rightarrow> json \<Rightarrow> bool \<Rightarrow> bool \<Rightarrow> json \<Rightarrow> json \<Rightarrow> outcome" where
  "llm_outcome control obligation forbidden scorable label result =
    (let missing = is_required obligation \<and>
           (jget result ''detection'' = JStr ''indeterminate'' \<or> jget result ''deviation'' = JNull);
         violation = forbidden \<and> jget result ''deviation'' = JBool True in
     \<lparr>oc_counts = detection_counts scorable label result @ deviation_counts scorable label result @
        (if violation then [(''forbidden'', 1)] else []),
      oc_missing = missing, oc_critical_missing = missing \<and> is_critical control,
      oc_forbidden = violation, oc_critical_violation = violation \<and> is_critical control\<rparr>)"

definition mutation_counts :: "bool \<Rightarrow> json \<Rightarrow> (string \<times> int) list" where
  "mutation_counts scorable result =
    (let m = jget result ''mutation_outcome'' in
     if \<not> scorable then []
     else [(if m = JStr ''KILLED'' then ''killed'' else if m = JStr ''SURVIVED'' then ''survived''
        else if m = JStr ''NO_COVERAGE'' then ''no_coverage'' else ''mutation_error'', 1)])"

definition result_outcome :: "json \<Rightarrow> json \<Rightarrow> bool \<Rightarrow> bool \<Rightarrow> json \<Rightarrow> json \<Rightarrow> outcome" where
  "result_outcome control obligation forbidden scorable label result =
    (if jget result ''mode'' = JStr ''constraint'' then constraint_outcome control obligation forbidden result
     else if jget result ''mode'' = JStr ''llm'' then llm_outcome control obligation forbidden scorable label result
     else if jget result ''mode'' = JStr ''mutation'' then plain_outcome (mutation_counts scorable result)
     else plain_outcome [(''error'', 1)])"

text \<open>What is counted of a position whatever was selected.\<close>

definition attempt_counts :: "agg_view \<Rightarrow> plan_key \<Rightarrow> (string \<times> int) list" where
  "attempt_counts v k =
    (let rs = placed_at (av_logical v) k in
     [(''attempts'', int (sum_list (map snd rs))), (''retry_count'', int (length (filter (\<lambda>(r, n). jget r ''retry_of'' \<noteq> JNull) rs))),
      (''fault_count'', int (length (filter (\<lambda>(r, n). is_fault r) rs)))])"

definition prepend_counts :: "(string \<times> int) list \<Rightarrow> outcome \<Rightarrow> outcome" where
  "prepend_counts c oc = oc\<lparr>oc_counts := c @ oc_counts oc\<rparr>"

definition unselected_field :: "agg_view \<Rightarrow> plan_key \<Rightarrow> string" where
  "unselected_field v k =
    (if k \<in> set (av_conflict_keys v) then ''conflict''
     else if k \<in> set (fault_keys (av_logical v)) \<or> k \<in> set (error_keys (av_logical v)) then ''error''
     else ''missing'')"

definition outcome_of :: "agg_view \<Rightarrow> plan_key \<Rightarrow> outcome" where
  "outcome_of v k =
    (let ((variant, o_id, c_id, t_id), s_id) = k;
         control = control_of (av_bound v) o_id; obligation = obligation_of (av_bound v) o_id;
         cas = case_of (av_bound v) c_id; scored = (JStr s_id = jget cas ''scored_stage_id'') in
     prepend_counts
       ([(''planned'', 1)] @
        (if jget obligation ''kind'' = JStr ''mutation'' \<and> scored \<and> fst k \<in> set (av_error_groups v) then [(''mutation_error'', 1)] else []) @
        attempt_counts v k)
       (case map_of (av_selected v) k of
          None \<Rightarrow> missing_outcome control obligation [(unselected_field v k, 1)]
        | Some (r, n) \<Rightarrow>
            prepend_counts [(''complete'', 1), (''delivery_count'', int n), (''duplicate_deliveries'', max 0 (int n - 1))]
              (result_outcome control obligation
                (forbids obligation \<or> (case stage_of cas s_id of None \<Rightarrow> False | Some stage \<Rightarrow> forbids stage))
                (scored \<and> fst k \<in> set (av_scorable v)) (jget cas ''expected_label'') (jget r ''result''))))"

section \<open>The tables\<close>

type_synonym bucket = "string \<Rightarrow> int"

text \<open>Scope, variant and the identifiers within it.\<close>

type_synonym bucket_key = "string \<times> string \<times> string list"

definition bucket_fields :: "string list" where
  "bucket_fields = [''planned'', ''complete'', ''missing'', ''error'', ''indeterminate'', ''conflict'', ''delivery_count'',
     ''duplicate_deliveries'', ''attempts'', ''retry_count'', ''fault_count'', ''tp'', ''fp'', ''tn'', ''fn'', ''killed'', ''survived'',
     ''no_coverage'', ''mutation_error'', ''asr_positive'', ''detection_missing'', ''deviation_missing'', ''asr_deviation'',
     ''forbidden'', ''constraint_pass'', ''constraint_fail'', ''constraint_unknown'']"

definition bump :: "(string \<times> int) list \<Rightarrow> bucket \<Rightarrow> bucket" where
  "bump cs b = fold (\<lambda>(f, n) b. b(f := b f + n)) cs b"

definition empty_bucket :: bucket where
  "empty_bucket = (\<lambda>f. 0)"

definition bucket_at :: "(bucket_key \<times> bucket) list \<Rightarrow> bucket_key \<Rightarrow> bucket" where
  "bucket_at counts k = (case map_of counts k of Some b \<Rightarrow> b | None \<Rightarrow> empty_bucket)"

definition bucket_keys :: "json \<Rightarrow> plan_key \<Rightarrow> bucket_key list" where
  "bucket_keys bound k =
    (let ((variant, o_id, c_id, t_id), s_id) = k; control = control_id_of bound o_id;
         category = str_of (jget (case_of bound c_id) ''category'') in
     [(''variant'', variant, []), (''control'', variant, [control]), (''category'', variant, [category]),
      (''obligation'', variant, [o_id]), (''control_category'', variant, [control, category]),
      (''obligation_category'', variant, [o_id, category])])"

record tally =
  ta_counts :: "(bucket_key \<times> bucket) list"
  ta_missing :: bool
  ta_critical_missing :: bool
  ta_forbidden :: bool
  ta_critical_violation :: bool

definition add_outcome :: "bucket_key list \<Rightarrow> outcome \<Rightarrow> tally \<Rightarrow> tally" where
  "add_outcome ks oc t =
    \<lparr>ta_counts = fold (\<lambda>k counts. AList.update k (bump (oc_counts oc) (bucket_at counts k)) counts) ks (ta_counts t),
     ta_missing = (ta_missing t \<or> oc_missing oc), ta_critical_missing = (ta_critical_missing t \<or> oc_critical_missing oc),
     ta_forbidden = (ta_forbidden t \<or> oc_forbidden oc), ta_critical_violation = (ta_critical_violation t \<or> oc_critical_violation oc)\<rparr>"

definition tally_of :: "agg_view \<Rightarrow> (plan_key \<times> json) list \<Rightarrow> tally \<Rightarrow> tally" where
  "tally_of v planned t = fold (\<lambda>(k, e). add_outcome (bucket_keys (av_bound v) k) (outcome_of v k)) planned t"

definition start_tally :: "bool \<Rightarrow> bool \<Rightarrow> tally" where
  "start_tally forbidden critical =
    \<lparr>ta_counts = [((''variant'', ''candidate'', []), empty_bucket), ((''variant'', ''baseline'', []), empty_bucket)],
     ta_missing = False, ta_critical_missing = False, ta_forbidden = forbidden, ta_critical_violation = critical\<rparr>"

section \<open>Metrics\<close>

definition entry_kind :: "json \<Rightarrow> json \<Rightarrow> string" where
  "entry_kind bound e = str_of (jget (obligation_of bound (str_of (jget e ''obligation_id''))) ''kind'')"

definition entry_critical :: "json \<Rightarrow> json \<Rightarrow> bool" where
  "entry_critical bound e \<longleftrightarrow> is_critical (control_of bound (str_of (jget e ''obligation_id'')))"

text \<open>The entries of the plan behind a table.\<close>

definition scope_entries :: "json \<Rightarrow> bucket_key \<Rightarrow> json list" where
  "scope_entries bound bk =
    (let (scope, variant, path) = bk;
         control = (\<lambda>e. control_id_of bound (str_of (jget e ''obligation_id'')));
         category = (\<lambda>e. str_of (jget (case_of bound (str_of (jget e ''case_id''))) ''category'')) in
     filter (\<lambda>e. jget e ''variant'' = JStr variant \<and>
       (if scope = ''control'' then path = [control e]
        else if scope = ''category'' then path = [category e]
        else if scope = ''control_category'' then path = [control e, category e]
        else False)) (agg_plan bound))"

definition scope_kinds :: "json \<Rightarrow> bucket_key \<Rightarrow> string list" where
  "scope_kinds bound bk =
    (let (scope, variant, path) = bk in
     if scope = ''obligation'' \<or> scope = ''obligation_category'' then [str_of (jget (obligation_of bound (hd path)) ''kind'')]
     else sorted_set (map (entry_kind bound) (scope_entries bound bk)))"

definition scope_critical :: "json \<Rightarrow> bucket_key \<Rightarrow> bool" where
  "scope_critical bound bk =
    (let (scope, variant, path) = bk in
     if scope = ''obligation'' \<or> scope = ''obligation_category'' then is_critical (control_of bound (hd path))
     else list_ex (entry_critical bound) (scope_entries bound bk))"

definition scope_id :: "string list \<Rightarrow> string" where
  "scope_id path = (case path of [a, b] \<Rightarrow> a @ ''|'' @ b | [a] \<Rightarrow> a | _ \<Rightarrow> [])"

definition agg_metric_id :: "string \<Rightarrow> string \<Rightarrow> string" where
  "agg_metric_id scope name = ''m-'' @ take 24 (sha256_hex (scope @ '':'' @ name))"

text \<open>Name, numerator and denominator.\<close>

definition metric_values :: "string \<Rightarrow> bucket \<Rightarrow> (string \<times> int \<times> int) list" where
  "metric_values kind b =
    (if kind = ''llm_metric'' then
       [(''recall'', b ''tp'', b ''tp'' + b ''fn''), (''fnr'', b ''fn'', b ''tp'' + b ''fn''),
        (''fpr'', b ''fp'', b ''fp'' + b ''tn''), (''asr'', b ''asr_deviation'', b ''asr_positive'')]
     else if kind = ''mutation'' then
       [(''mutation_score'', b ''killed'', b ''killed'' + b ''survived'' + b ''no_coverage'')]
     else [])"

record agg_metric =
  am_critical :: bool
  am_numerator :: int
  am_denominator :: int

text \<open>Scope, identifier within the scope and name.\<close>

type_synonym metric_key = "string list"

definition variant_metrics :: "json \<Rightarrow> string \<Rightarrow> (bucket_key \<times> bucket) list \<Rightarrow> (metric_key \<times> agg_metric) list" where
  "variant_metrics bound variant counts =
    fold (\<lambda>(k, m). AList.update k m)
      (concat (map (\<lambda>(bk, b). let (scope, var, path) = bk in
          if var \<noteq> variant \<or> scope = ''variant'' then []
          else concat (map (\<lambda>kind. map (\<lambda>(name, numerator, denominator). ([scope, scope_id path, name],
              \<lparr>am_critical = scope_critical bound bk, am_numerator = numerator, am_denominator = denominator\<rparr>)) (metric_values kind b))
            (scope_kinds bound bk))) counts)) []"

definition metric_json :: "(metric_key \<times> agg_metric) list \<Rightarrow> metric_key \<times> agg_metric \<Rightarrow> json" where
  "metric_json baselines = (\<lambda>(k, m).
    (let name = k ! 2;
         baseline = (case map_of baselines k of
             Some base \<Rightarrow> if name \<noteq> ''fnr'' \<and> am_denominator base \<noteq> 0
               then JObj [(''numerator'', JInt (am_numerator base)), (''denominator'', JInt (am_denominator base))] else JNull
           | None \<Rightarrow> JNull) in
     JObj [(''metric_id'', JStr (agg_metric_id (k ! 0 @ '':'' @ k ! 1) name)), (''name'', JStr name), (''critical'', JBool (am_critical m)),
       (''numerator'', JInt (am_numerator m)), (''denominator'', JInt (am_denominator m)), (''baseline'', baseline)]))"

text \<open>\<open>scope_id.split("|", 1)\<close>.\<close>

definition split_bar :: "string \<Rightarrow> string \<times> string" where
  "split_bar s = (takeWhile (\<lambda>c. c \<noteq> CHR ''|'') s, drop 1 (dropWhile (\<lambda>c. c \<noteq> CHR ''|'') s))"

definition metric_scope_json :: "metric_key \<Rightarrow> json" where
  "metric_scope_json k =
    (let scope = k ! 0; s_id = k ! 1; (a, b) = split_bar s_id;
         ids = (if scope = ''control'' then (JStr s_id, JNull, JNull)
           else if scope = ''category'' then (JNull, JNull, JStr s_id)
           else if scope = ''obligation'' then (JNull, JStr s_id, JNull)
           else if scope = ''control_category'' then (JStr a, JNull, JStr b)
           else (JNull, JStr a, JStr b)) in
     JObj [(''scope'', JStr scope), (''control_id'', fst ids), (''obligation_id'', fst (snd ids)), (''category'', snd (snd ids))])"

section \<open>The document\<close>

definition bucket_json :: "bucket \<Rightarrow> json" where
  "bucket_json b = JObj (map (\<lambda>f. (f, JInt (b f))) bucket_fields)"

definition nested :: "(string list \<times> json) list \<Rightarrow> json" where
  "nested items = JObj (fold (\<lambda>(path, v) acc. case path of
       [a] \<Rightarrow> AList.update a v acc
     | [a, b] \<Rightarrow> AList.update a (jset (case map_of acc a of Some x \<Rightarrow> x | None \<Rightarrow> JObj []) b v) acc
     | _ \<Rightarrow> acc) items [])"

definition scope_json :: "(bucket_key \<times> bucket) list \<Rightarrow> string \<Rightarrow> string \<Rightarrow> json" where
  "scope_json counts scope variant =
    nested (map (\<lambda>((sc, var, path), b). (path, bucket_json b)) (filter (\<lambda>((sc, var, path), b). sc = scope \<and> var = variant) counts))"

definition counts_json :: "(bucket_key \<times> bucket) list \<Rightarrow> json" where
  "counts_json counts = JObj
    ((''variant'', JObj (map (\<lambda>var. (var, bucket_json (bucket_at counts (''variant'', var, [])))) attempt_variants)) #
     map (\<lambda>scope. (scope, JObj (map (\<lambda>var. (var, scope_json counts scope var)) attempt_variants)))
       [''control'', ''category'', ''obligation'', ''control_category'', ''obligation_category''])"

definition missing_codes :: "string list" where
  "missing_codes = [''DUPLICATE_ATTEMPT_CONFLICT'', ''DEFINITIVE_RESULT_CONFLICT'', ''UNPLANNED_ATTEMPT'', ''BINDING_MISMATCH'',
     ''RESULT_BINDING_MISMATCH'', ''INVALID_RETRY'', ''ATTEMPT_CHAIN_CONFLICT'', ''STAGE_ORDER'', ''OUT_OF_RUN_WINDOW'', ''MISSING_RESULT'']"

definition issue_missing :: "json \<Rightarrow> bool" where
  "issue_missing issue \<longleftrightarrow> str_of (jget issue ''code'') \<in> set missing_codes"

definition issue_critical :: "json \<Rightarrow> json \<Rightarrow> bool" where
  "issue_critical bound issue \<longleftrightarrow> jget issue ''code'' = JStr ''STAGE_ORDER'' \<and>
     map_of (agg_obligations bound) (str_of (jget issue ''obligation_id'')) \<noteq> None \<and>
     is_critical (control_of bound (str_of (jget issue ''obligation_id'')))"

definition issue_order :: "json \<Rightarrow> string list" where
  "issue_order issue = str_of (jget issue ''code'') # map (\<lambda>k. str_of (jget issue k)) issue_keys"

text \<open>Everything \<open>_aggregate_validated\<close> computes on the way.\<close>

record aggregated =
  ag_collected :: collected
  ag_logical :: placed
  ag_selection :: agg_selection
  ag_view :: agg_view
  ag_tally :: tally
  ag_issues :: "json list"

definition view_of :: "json \<Rightarrow> placed \<Rightarrow> agg_selection \<Rightarrow> agg_view" where
  "view_of bound logical sel =
    (let planned = planned_keys bound; selected = se_selected sel;
         complete = scorable_groups selected (all_groups planned);
         scorable = filter (\<lambda>g. out_of_order planned selected g = []) complete in
     \<lparr>av_bound = bound, av_logical = logical, av_selected = selected, av_conflict_keys = se_conflict_keys sel,
      av_scorable = scorable,
      av_error_groups = filter (\<lambda>g. g \<notin> set scorable) (map fst (fault_keys logical @ error_keys logical))\<rparr>)"

definition aggregate_parts :: "json \<Rightarrow> json \<Rightarrow> json \<Rightarrow> contract_error + aggregated" where
  "aggregate_parts bound attempts profile =
    ebind (guard (is_list attempts \<and> length (jitems attempts) \<le> MAX_ATTEMPTS) (ContractError ''ATTEMPT_LIMIT'')) (\<lambda>_.
    ebind (efold collect no_attempts (jitems attempts)) (\<lambda>col.
    let issues = fold (\<lambda>(i, row) issues. status_issue issues (at_record row)) (co_unique col) (co_issues col) in
    ebind (efold (place bound profile (co_conflicted col)) (issues, []) (map snd (co_unique col))) (\<lambda>(issues, logical).
    let sel = select_all (co_unique col) logical (co_conflicts col) issues;
        issues = violation_issues bound (se_conflicts sel) (se_issues sel);
        planned = planned_keys bound;
        issues = order_issues planned (se_selected sel) (scorable_groups (se_selected sel) (all_groups planned)) issues;
        v = view_of bound logical sel;
        start = start_tally (list_ex (conflict_violation bound) (se_conflicts sel)) (list_ex (conflict_critical bound) (se_conflicts sel)) in
    Inr \<lparr>ag_collected = col, ag_logical = logical, ag_selection = sel, ag_view = v, ag_tally = tally_of v planned start, ag_issues = issues\<rparr>)))"

definition aggregation_json :: "json \<Rightarrow> json \<Rightarrow> aggregated \<Rightarrow> json" where
  "aggregation_json bound profile a =
    (let m = jget bound ''manifest''; t = ag_tally a;
         candidates = variant_metrics bound ''candidate'' (ta_counts t); baselines = variant_metrics bound ''baseline'' (ta_counts t);
         sorted = sort_key fst candidates in
     JObj
      [(''schema_version'', JInt 1), (''kind'', JStr ''aggregation''), (''ci_eligible'', JBool False), (''run_id'', jget m ''run_id''),
       (''contract_digest'', jget (jget m ''contract_ref'') ''digest''), (''execution_profile'', profile),
       (''required_missing'', JBool (ta_missing t \<or> list_ex issue_missing (ag_issues a))),
       (''critical_missing'', JBool (ta_critical_missing t \<or> list_ex (issue_critical bound) (ag_issues a))),
       (''integrity_failure'', JBool (ag_issues a \<noteq> [])), (''forbidden_violation'', JBool (ta_forbidden t)),
       (''critical_violation'', JBool (ta_critical_violation t)), (''issues'', JList (sort_key issue_order (ag_issues a))),
       (''counts'', counts_json (ta_counts t)), (''metrics'', JList (map (metric_json baselines) sorted)),
       (''metric_scopes'', JObj (dict_of (map (\<lambda>(k, mt). (agg_metric_id (k ! 0 @ '':'' @ k ! 1) (k ! 2), metric_scope_json k)) sorted)))])"

definition aggregate_validated :: "json \<Rightarrow> json \<Rightarrow> json \<Rightarrow> contract_error + json" where
  "aggregate_validated bound attempts profile =
    ebind (validate_agg_profile profile) (\<lambda>profile.
    ebind (check_plan profile bound) (\<lambda>_.
    ebind (aggregate_parts bound attempts profile) (\<lambda>a.
    Inr (aggregation_json bound profile a))))"

definition rebind :: "(string list \<Rightarrow> string list) \<Rightarrow> json \<Rightarrow> json \<Rightarrow> contract_error + json" where
  "rebind order bundle baseline_context =
    ebind (require_object bundle [''manifest'', ''contract'', ''plan'', ''policy'', ''registry'', ''case_set'', ''selected_controls'', ''ci_eligible'']) (\<lambda>_.
    ebind (guard (jget bundle ''ci_eligible'' = JBool False) (ContractError ''CI_INELIGIBLE'')) (\<lambda>_.
    ebind (on_error (bind_run_manifest order (jget bundle ''manifest'') (jget bundle ''contract'') (jget bundle ''plan'') (jget bundle ''policy'')
        (jget bundle ''registry'') (jget bundle ''case_set'') baseline_context)
      (\<lambda>e. case e of BadContract c \<Rightarrow> c | BadRegistry (Refused c) \<Rightarrow> c | _ \<Rightarrow> INVALID_AGGREGATION)) (\<lambda>rebound.
    ebind (guard (list_all (\<lambda>k. py_eq (jget rebound k) (jget bundle k))
        [''manifest'', ''contract'', ''plan'', ''policy'', ''registry'', ''case_set'', ''selected_controls'']) (ContractError ''REBIND_MISMATCH'')) (\<lambda>_.
    Inr rebound))))"

definition aggregate_uncached :: "(string list \<Rightarrow> string list) \<Rightarrow> json \<Rightarrow> json \<Rightarrow> json \<Rightarrow> json \<Rightarrow> contract_error + json" where
  "aggregate_uncached order bound_run attempts profile baseline_context =
    ebind (rebind order bound_run baseline_context) (\<lambda>bound. aggregate_validated bound attempts profile)"

end
