(* ===== verification/Aggregation_Props.thy ===== *)
theory Aggregation_Props
  imports Aggregation_Counts
begin

text \<open>
  What an aggregation guarantees: only definitive attempts of the bound run are counted, at most one per
  position of the plan; every position is counted exactly once; missing evidence and forbidden
  violations are always flagged; and no attempt disappears without an issue.
\<close>

section \<open>Association lists\<close>

lemma update_fold_keys: "distinct (map fst acc) \<Longrightarrow> distinct (map fst (fold (\<lambda>(k, v). AList.update k v) kvs acc))"
  by (induction kvs arbitrary: acc) (auto simp: distinct_update)

lemma set_update_subset: "set (AList.update k v kvs) \<subseteq> insert (k, v) (set kvs)"
  by (induction kvs) auto

lemma update_fold_subset: "set (fold (\<lambda>(k, v). AList.update k v) kvs acc) \<subseteq> set kvs \<union> set acc"
proof (induction kvs arbitrary: acc)
  case (Cons p kvs)
  obtain k v where p: "p = (k, v)" by (cases p)
  from Cons[of "AList.update k v acc"] set_update_subset[of k v acc] show ?case by (auto simp: p)
qed simp

lemma distinct_planned: "distinct (map fst (planned_keys bound))"
  unfolding planned_keys_def by (rule update_fold_keys) simp

section \<open>Collecting\<close>

lemma validate_attempt_same: "validate_attempt v = Inr (r, d) \<Longrightarrow> r = v"
  by (auto simp: validate_attempt_def ebind_eq_Inr)

lemma add_issue_keeps: "set issues \<subseteq> set (add_issue code r issues)" "issue_of code r \<in> set (add_issue code r issues)"
  by (auto simp: add_issue_def)

definition rows_ok :: "json list \<Rightarrow> (string \<Rightarrow> attempt_row option) \<Rightarrow> bool" where
  "rows_ok seen m \<longleftrightarrow> (\<forall>i row. m i = Some row \<longrightarrow> attempt_id (at_record row) = i \<and> at_record row \<in> set seen \<and>
     validate_attempt (at_record row) = Inr (at_record row, at_digest row))"

definition delivered_ok :: "json list \<Rightarrow> (string \<Rightarrow> attempt_row option) \<Rightarrow> string list \<Rightarrow> json list \<Rightarrow> bool" where
  "delivered_ok seen m conflicted issues \<longleftrightarrow> (\<forall>v \<in> set seen. \<exists>row d. m (attempt_id v) = Some row \<and> validate_attempt v = Inr (v, d) \<and>
     (d = at_digest row \<or> attempt_id v \<in> set conflicted \<and> issue_of ''DUPLICATE_ATTEMPT_CONFLICT'' v \<in> set issues))"

definition counted_ok :: "json list \<Rightarrow> (string \<Rightarrow> attempt_row option) \<Rightarrow> string list \<Rightarrow> bool" where
  "counted_ok seen m conflicted \<longleftrightarrow> (\<forall>i row. m i = Some row \<longrightarrow> i \<notin> set conflicted \<longrightarrow>
     at_count row = length (filter (\<lambda>v. attempt_id v = i) seen))"

definition collected_ok :: "json list \<Rightarrow> collected \<Rightarrow> bool" where
  "collected_ok seen s \<longleftrightarrow> distinct (map fst (co_unique s)) \<and> rows_ok seen (map_of (co_unique s)) \<and>
     delivered_ok seen (map_of (co_unique s)) (co_conflicted s) (co_issues s) \<and>
     counted_ok seen (map_of (co_unique s)) (co_conflicted s) \<and>
     set (co_conflicts s) \<subseteq> set seen \<and> (co_conflicted s \<noteq> [] \<longrightarrow> co_issues s \<noteq> [])"

lemma map_of_append_fresh: "map_of kvs k = None \<Longrightarrow> map_of (kvs @ [(k, v)]) = (map_of kvs)(k \<mapsto> v)"
  by (rule ext) (auto simp: map_add_def split: option.splits)

lemma collect_ok:
  assumes ok: "collected_ok seen s" and step: "collect s v = Inr s'"
  shows "collected_ok (seen @ [v]) s'"
proof -
  let ?i = "attempt_id v" and ?m = "map_of (co_unique s)"
  from step obtain d where v: "validate_attempt v = Inr (v, d)"
    and s': "s' = (case ?m ?i of
       None \<Rightarrow> s\<lparr>co_unique := co_unique s @ [(?i, \<lparr>at_record = v, at_digest = d, at_count = 1\<rparr>)]\<rparr>
     | Some old \<Rightarrow>
         if at_digest old \<noteq> d then
           s\<lparr>co_issues := add_issue ''DUPLICATE_ATTEMPT_CONFLICT'' v (co_issues s),
             co_conflicted := List.insert ?i (co_conflicted s),
             co_conflicts := co_conflicts s @ [at_record old, v]\<rparr>
         else s\<lparr>co_unique := AList.update ?i (old\<lparr>at_count := at_count old + 1\<rparr>) (co_unique s)\<rparr>)"
    using validate_attempt_same by (auto simp: collect_def ebind_eq_Inr)
  from ok have dist: "distinct (map fst (co_unique s))" and rows: "rows_ok seen ?m"
    and del: "delivered_ok seen ?m (co_conflicted s) (co_issues s)" and count: "counted_ok seen ?m (co_conflicted s)"
    and conf: "set (co_conflicts s) \<subseteq> set seen" "co_conflicted s \<noteq> [] \<longrightarrow> co_issues s \<noteq> []"
    unfolding collected_ok_def by blast+
  show ?thesis
  proof (cases "?m ?i")
    case None
    let ?row = "\<lparr>at_record = v, at_digest = d, at_count = 1\<rparr>"
    note m = map_of_append_fresh[OF None, of ?row]
    from del None have unseen: "filter (\<lambda>w. attempt_id w = ?i) seen = []"
      by (auto simp: filter_empty_conv delivered_ok_def)
    have "?i \<notin> fst ` set (co_unique s)" using None by (simp add: map_of_eq_None_iff)
    then have "distinct (map fst (co_unique s @ [(?i, ?row)]))" using dist by auto
    moreover have "rows_ok (seen @ [v]) (?m(?i \<mapsto> ?row))" using rows v by (auto simp: rows_ok_def)
    moreover have "delivered_ok (seen @ [v]) (?m(?i \<mapsto> ?row)) (co_conflicted s) (co_issues s)"
      using del v None unfolding delivered_ok_def by auto
    moreover have "counted_ok (seen @ [v]) (?m(?i \<mapsto> ?row)) (co_conflicted s)" using count unseen by (auto simp: counted_ok_def)
    ultimately show ?thesis using conf unfolding collected_ok_def s' None m[symmetric] by auto
  next
    case (Some old)
    show ?thesis
    proof (cases "at_digest old = d")
      case True
      let ?row = "old\<lparr>at_count := at_count old + 1\<rparr>"
      have m: "map_of (AList.update ?i ?row (co_unique s)) = ?m(?i \<mapsto> ?row)" by (rule update_conv')
      have "distinct (map fst (AList.update ?i ?row (co_unique s)))" using dist by (simp add: distinct_update)
      moreover have "rows_ok (seen @ [v]) (?m(?i \<mapsto> ?row))" using rows Some by (auto simp: rows_ok_def)
      moreover have "delivered_ok (seen @ [v]) (?m(?i \<mapsto> ?row)) (co_conflicted s) (co_issues s)"
        using del v True Some unfolding delivered_ok_def by fastforce
      moreover have "counted_ok (seen @ [v]) (?m(?i \<mapsto> ?row)) (co_conflicted s)" using count Some by (auto simp: counted_ok_def)
      ultimately show ?thesis using conf True Some unfolding collected_ok_def s' m[symmetric] by auto
    next
      case False
      let ?issues = "add_issue ''DUPLICATE_ATTEMPT_CONFLICT'' v (co_issues s)" and ?c = "List.insert ?i (co_conflicted s)"
      have "rows_ok (seen @ [v]) ?m" using rows by (auto simp: rows_ok_def)
      moreover have "delivered_ok (seen @ [v]) ?m ?c ?issues"
        using del v Some add_issue_keeps unfolding delivered_ok_def by fastforce
      moreover have "counted_ok (seen @ [v]) ?m ?c" using count by (auto simp: counted_ok_def)
      moreover have "at_record old \<in> set seen" using rows Some by (auto simp: rows_ok_def)
      moreover have "?issues \<noteq> []" using add_issue_keeps(2)[of "''DUPLICATE_ATTEMPT_CONFLICT''" v "co_issues s"] by auto
      ultimately show ?thesis using dist conf Some False unfolding collected_ok_def s' by auto
    qed
  qed
qed

lemma collected: "efold collect s vs = Inr s' \<Longrightarrow> collected_ok seen s \<Longrightarrow> collected_ok (seen @ vs) s'"
proof (induction vs arbitrary: s seen)
  case (Cons v vs)
  then obtain t where "collect s v = Inr t" "efold collect t vs = Inr s'" by (auto simp: ebind_eq_Inr)
  with Cons.IH[of t "seen @ [v]"] collect_ok[OF Cons.prems(2)] show ?case by simp
qed simp

lemma no_attempts_ok: "collected_ok [] no_attempts"
  by (simp add: collected_ok_def no_attempts_def rows_ok_def delivered_ok_def counted_ok_def)

section \<open>Placing\<close>

text \<open>A record that was placed: where, and that nothing speaks against it.\<close>

definition row_placed :: "json \<Rightarrow> json \<Rightarrow> string list \<Rightarrow> (string \<times> attempt_row) list \<Rightarrow> plan_key \<Rightarrow> json \<times> nat \<Rightarrow> bool" where
  "row_placed bound profile conflicted rows k = (\<lambda>(r, n). record_key r = k \<and> attempt_id r \<notin> set conflicted \<and>
     misplaced bound profile r = Inr None \<and> (\<exists>(i, row) \<in> set rows. at_record row = r \<and> at_count row = n))"

definition placed_ok :: "json \<Rightarrow> json \<Rightarrow> string list \<Rightarrow> (string \<times> attempt_row) list \<Rightarrow> placed \<Rightarrow> bool" where
  "placed_ok bound profile conflicted rows logical \<longleftrightarrow> distinct (map fst logical) \<and>
     (\<forall>k. \<forall>rn \<in> set (placed_at logical k). row_placed bound profile conflicted rows k rn)"

lemma row_placed_more: "row_placed bound profile conflicted rows k rn \<Longrightarrow> row_placed bound profile conflicted (rows @ rows') k rn"
  by (auto simp: row_placed_def)

lemma placed_ok_more: "placed_ok bound profile conflicted rows logical \<Longrightarrow> placed_ok bound profile conflicted (rows @ rows') logical"
  unfolding placed_ok_def using row_placed_more by blast

definition row_handled :: "string list \<Rightarrow> json list \<times> placed \<Rightarrow> attempt_row \<Rightarrow> bool" where
  "row_handled conflicted s row \<longleftrightarrow> attempt_id (at_record row) \<in> set conflicted \<or>
     (at_record row, at_count row) \<in> set (placed_at (snd s) (record_key (at_record row))) \<or>
     (\<exists>code. issue_of code (at_record row) \<in> set (fst s))"

definition unplaced_ok :: "string list \<Rightarrow> (string \<times> attempt_row) list \<Rightarrow> json list \<times> placed \<Rightarrow> bool" where
  "unplaced_ok conflicted rows s \<longleftrightarrow> (\<forall>row \<in> snd ` set rows. row_handled conflicted s row)"

text \<open>One list of issues and placed records extends another.\<close>

definition extends :: "json list \<times> placed \<Rightarrow> json list \<times> placed \<Rightarrow> bool" where
  "extends s s' \<longleftrightarrow> set (fst s) \<subseteq> set (fst s') \<and> (\<forall>k. set (placed_at (snd s) k) \<subseteq> set (placed_at (snd s') k))"

lemma unplaced_step:
  assumes "unplaced_ok conflicted rows s" and "extends s s'" and "row_handled conflicted s' row"
  shows "unplaced_ok conflicted (rows @ [(i, row)]) s'"
proof -
  have "row_handled conflicted s x \<Longrightarrow> row_handled conflicted s' x" for x
    using assms(2) unfolding row_handled_def extends_def by blast
  then show ?thesis using assms(1,3) by (auto simp: unplaced_ok_def)
qed

lemma placed_at_update: "placed_at (AList.update k rs logical) k' = (if k' = k then rs else placed_at logical k')"
  by (simp add: placed_at_def update_conv')

lemma place_keeps:
  assumes step: "place bound profile conflicted s row = Inr s'" and ok: "placed_ok bound profile conflicted rows (snd s)"
    and un: "unplaced_ok conflicted rows s"
  shows "placed_ok bound profile conflicted (rows @ [(i, row)]) (snd s') \<and> unplaced_ok conflicted (rows @ [(i, row)]) s' \<and>
    set (fst s) \<subseteq> set (fst s')"
proof -
  let ?r = "at_record row"
  obtain issues logical where s: "s = (issues, logical)" by (cases s)
  note ok' = placed_ok_more[OF ok, of "[(i, row)]"]
  have "placed_ok bound profile conflicted (rows @ [(i, row)]) (snd s') \<and> extends s s' \<and> row_handled conflicted s' row"
  proof (cases "attempt_id ?r \<in> set conflicted")
    case True
    with step s have "s' = s" by (simp add: place_def Let_def)
    with True ok' show ?thesis by (simp add: extends_def row_handled_def)
  next
    case False
    with step s obtain why where why: "misplaced bound profile ?r = Inr why"
      and s': "s' = (case why of Some code \<Rightarrow> (add_issue code ?r issues, logical)
        | None \<Rightarrow> (issues, AList.update (record_key ?r) (placed_at logical (record_key ?r) @ [(?r, at_count row)]) logical))"
      by (auto simp: place_def Let_def ebind_eq_Inr)
    show ?thesis
    proof (cases why)
      case None
      let ?logical = "AList.update (record_key ?r) (placed_at logical (record_key ?r) @ [(?r, at_count row)]) logical"
      have eq: "s' = (issues, ?logical)" using s' None by simp
      have new: "row_placed bound profile conflicted (rows @ [(i, row)]) (record_key ?r) (?r, at_count row)"
        using False why None by (auto simp: row_placed_def)
      have "placed_ok bound profile conflicted (rows @ [(i, row)]) ?logical"
        using ok' new by (simp add: s placed_ok_def distinct_update placed_at_update del: split_paired_All)
      then show ?thesis by (auto simp: eq s extends_def row_handled_def placed_at_update)
    next
      case (Some code)
      have "s' = (add_issue code ?r issues, logical)" using s' Some by simp
      then show ?thesis using ok' add_issue_keeps[where code = code and r = ?r and issues = issues]
        by (auto simp: s extends_def row_handled_def)
    qed
  qed
  then show ?thesis using unplaced_step[OF un] by (auto simp: extends_def)
qed

lemma placed:
  assumes "efold (place bound profile conflicted) s (map snd rows') = Inr s'" and "placed_ok bound profile conflicted rows (snd s)"
    and "unplaced_ok conflicted rows s"
  shows "placed_ok bound profile conflicted (rows @ rows') (snd s') \<and> unplaced_ok conflicted (rows @ rows') s' \<and> set (fst s) \<subseteq> set (fst s')"
  using assms
proof (induction rows' arbitrary: s rows)
  case (Cons p rows')
  obtain i row where p: "p = (i, row)" by (cases p)
  with Cons.prems obtain t where t: "place bound profile conflicted s row = Inr t" "efold (place bound profile conflicted) t (map snd rows') = Inr s'"
    by (auto simp: ebind_eq_Inr)
  from place_keeps[OF t(1) Cons.prems(2,3), of i] Cons.IH[OF t(2), of "rows @ [p]"] show ?case by (auto simp: p)
qed simp

lemma placed_from_start:
  assumes "efold (place bound profile conflicted) (issues, []) (map snd rows) = Inr (issues', logical)"
  shows "placed_ok bound profile conflicted rows logical" "unplaced_ok conflicted rows (issues', logical)" "set issues \<subseteq> set issues'"
  using placed[OF assms, of "[]"] by (simp_all add: placed_ok_def unplaced_ok_def placed_at_def)

section \<open>Selecting\<close>

text \<open>What one position contributes to the selection.\<close>

definition selected_ok :: "(string \<times> attempt_row) list \<Rightarrow> placed \<Rightarrow> agg_selection \<Rightarrow> bool" where
  "selected_ok unique logical s \<longleftrightarrow> (\<forall>k rn. map_of (se_selected s) k = Some rn \<longrightarrow>
     (\<exists>rs. (k, rs) \<in> set logical \<and> valid_records unique logical k rs = [rn] \<and> \<not> unrelated (fst rn) rs))"

lemma fold_grows:
  fixes issues :: "json list"
  shows "(\<And>x issues. set issues \<subseteq> set (f x issues)) \<Longrightarrow> set issues \<subseteq> set (fold f xs issues)"
  by (induction xs arbitrary: issues) (auto, blast)

lemma retry_issues_grow: "set issues \<subseteq> set (retry_issues unique logical k rs issues)"
  unfolding retry_issues_def
  by (rule fold_grows) (auto split: option.splits simp: add_issue_keeps(1)[THEN subsetD])

lemma select_at_keeps:
  assumes "selected_ok unique logical s" and "(k, rs) \<in> set logical"
  shows "selected_ok unique logical (select_at unique logical (k, rs) s)"
    "set (se_issues s) \<subseteq> set (se_issues (select_at unique logical (k, rs) s))"
proof -
  let ?v = "valid_records unique logical k rs" and ?i = "retry_issues unique logical k rs (se_issues s)"
  note grow = retry_issues_grow[of "se_issues s" unique logical k rs]
  have keep: "set (se_issues s) \<subseteq> set (add_issue code r ?i)" for code r
    using grow add_issue_keeps(1) by (rule subset_trans)
  consider (none) "?v = []" | (one) r n where "?v = [(r, n)]" | (several) r n x xs where "?v = (r, n) # x # xs"
    by (metis neq_Nil_conv surj_pair)
  then have "selected_ok unique logical (select_at unique logical (k, rs) s) \<and>
    set (se_issues s) \<subseteq> set (se_issues (select_at unique logical (k, rs) s))"
  proof cases
    case none then show ?thesis using assms grow by (simp add: select_at_def selected_ok_def)
  next
    case one
    show ?thesis
    proof (cases "unrelated r rs")
      case True then show ?thesis using one assms grow keep by (auto simp: select_at_def selected_ok_def)
    next
      case False
      then show ?thesis using one assms grow unfolding selected_ok_def by (auto simp: select_at_def update_conv')
    qed
  next
    case several then show ?thesis using assms grow keep by (auto simp: select_at_def selected_ok_def)
  qed
  then show "selected_ok unique logical (select_at unique logical (k, rs) s)"
    "set (se_issues s) \<subseteq> set (se_issues (select_at unique logical (k, rs) s))" by auto
qed

lemma select_fold:
  "set ps \<subseteq> set logical \<Longrightarrow> selected_ok unique logical s \<Longrightarrow>
   selected_ok unique logical (fold (select_at unique logical) ps s) \<and>
   set (se_issues s) \<subseteq> set (se_issues (fold (select_at unique logical) ps s))"
proof (induction ps arbitrary: s)
  case (Cons p ps)
  obtain k rs where p: "p = (k, rs)" by (cases p)
  from Cons.prems p have "(k, rs) \<in> set logical" by simp
  from select_at_keeps[OF Cons.prems(2) this] Cons.IH[of "select_at unique logical p s"] Cons.prems(1)
  show ?case by (auto simp: p)
qed simp

lemma select_all_ok:
  "selected_ok unique logical (select_all unique logical conflicts issues)"
  "set issues \<subseteq> set (se_issues (select_all unique logical conflicts issues))"
  using select_fold[of logical logical unique "\<lparr>se_selected = [], se_conflict_keys = [], se_conflicts = conflicts, se_issues = issues\<rparr>"]
  by (simp_all add: select_all_def selected_ok_def)

text \<open>An invalid or surplus retry is reported, wherever it was placed.\<close>

lemma retry_issue_added:
  "(r, n) \<in> set rs \<Longrightarrow> retry_issue unique logical k r = Some code \<Longrightarrow>
    issue_of code r \<in> set (retry_issues unique logical k rs issues)"
proof (induction rs arbitrary: issues)
  case (Cons p rs)
  obtain r0 n0 where p: "p = (r0, n0)" by (cases p)
  let ?issues = "case retry_issue unique logical k r0 of None \<Rightarrow> issues | Some code \<Rightarrow> add_issue code r0 issues"
  have step: "retry_issues unique logical k (p # rs) issues = retry_issues unique logical k rs ?issues"
    by (simp add: retry_issues_def p)
  show ?case
  proof (cases "(r, n) = p")
    case True
    then have "issue_of code r \<in> set ?issues" using Cons.prems(2) add_issue_keeps(2) by (simp add: p)
    then show ?thesis unfolding step using retry_issues_grow by blast
  qed (use Cons step in auto)
qed simp

lemma select_at_retries:
  "set (retry_issues unique logical k rs (se_issues s)) \<subseteq> set (se_issues (select_at unique logical (k, rs) s))"
  using add_issue_keeps(1)
  by (auto simp: select_at_def Let_def split: list.splits prod.splits)

lemma select_at_grows: "set (se_issues s) \<subseteq> set (se_issues (select_at unique logical p s))"
  by (cases p) (use retry_issues_grow select_at_retries in blast)

lemma select_fold_grows: "set (se_issues s) \<subseteq> set (se_issues (fold (select_at unique logical) ps s))"
proof (induction ps arbitrary: s)
  case (Cons p ps)
  from Cons.IH[of "select_at unique logical p s"] select_at_grows[of s unique logical p] show ?case by auto
qed simp

lemma select_fold_retries:
  assumes "(k, rs) \<in> set ps" and "(r, n) \<in> set rs" and "retry_issue unique logical k r = Some code"
  shows "issue_of code r \<in> set (se_issues (fold (select_at unique logical) ps s))"
proof -
  from assms(1) obtain xs ys where ps: "ps = xs @ (k, rs) # ys" by (meson split_list)
  let ?s = "fold (select_at unique logical) xs s"
  have "issue_of code r \<in> set (se_issues (select_at unique logical (k, rs) ?s))"
    using select_at_retries retry_issue_added[OF assms(2,3)] by blast
  then show ?thesis using select_fold_grows[of "select_at unique logical (k, rs) ?s" unique logical ys] by (auto simp: ps)
qed

lemma retries_reported:
  assumes "(r, n) \<in> set (placed_at logical k)" and "retry_issue unique logical k r = Some code"
  shows "issue_of code r \<in> set (se_issues (select_all unique logical conflicts issues))"
proof -
  from assms(1) obtain rs where "map_of logical k = Some rs" "(r, n) \<in> set rs"
    by (cases "map_of logical k") (auto simp: placed_at_def)
  then show ?thesis
    using select_fold_retries[OF map_of_SomeD _ assms(2)] by (simp add: select_all_def)
qed

text \<open>What a record placed at a position is to the selected one.\<close>

lemma related: "\<not> unrelated r rs \<Longrightarrow> (r', n') \<in> set rs \<Longrightarrow> jget r' ''attempt_id'' = jget r ''attempt_id'' \<or>
    jget r' ''attempt_id'' = jget r ''retry_of'' \<or> jget r' ''retry_of'' = jget r ''attempt_id''"
  by (auto simp: unrelated_def list_ex_iff)

lemma retry_issue_codes: "retry_issue unique logical k r = Some code \<Longrightarrow> code = ''INVALID_RETRY'' \<or> code = ''RETRY_LIMIT''"
  by (auto simp: retry_issue_def split: if_splits)

end
