(* ===== verification/Aggregation_Tally.thy ===== *)
theory Aggregation_Tally
  imports Aggregation_Props
begin

text \<open>
  What the tables of an aggregation contain: each field of each table is the sum, over the positions of
  the plan in its scope, of what the position contributes; and what a position contributes, by the mode
  of the result that was selected.
\<close>

section \<open>Sums of contributions\<close>

definition contrib :: "(string \<times> int) list \<Rightarrow> string \<Rightarrow> int" where
  "contrib cs f = (\<Sum>(g, n)\<leftarrow>cs. if g = f then n else 0)"

lemma contrib_simps [simp]:
  "contrib [] f = 0" "contrib ((g, n) # cs) f = (if g = f then n else 0) + contrib cs f"
  "contrib (cs @ ds) f = contrib cs f + contrib ds f" "contrib (if b then cs else ds) f = (if b then contrib cs f else contrib ds f)"
  by (simp_all add: contrib_def)

lemma bump_contrib: "bump cs b f = b f + contrib cs f"
  unfolding bump_def by (induction cs arbitrary: b) auto

lemma bucket_at_update: "bucket_at (AList.update k b counts) k' = (if k' = k then b else bucket_at counts k')"
  by (simp add: bucket_at_def update_conv')

lemma add_to_tables:
  "distinct ks \<Longrightarrow>
   bucket_at (fold (\<lambda>k counts. AList.update k (bump cs (bucket_at counts k)) counts) ks counts) k f =
   bucket_at counts k f + (if k \<in> set ks then contrib cs f else 0)"
  by (induction ks arbitrary: counts) (auto simp: bucket_at_update bump_contrib)

lemma bucket_keys_distinct: "distinct (bucket_keys bound key)"
  by (auto simp: bucket_keys_def Let_def split: prod.splits)

lemma add_outcome_at:
  "bucket_at (ta_counts (add_outcome (bucket_keys bound key) oc t)) k f =
   bucket_at (ta_counts t) k f + (if k \<in> set (bucket_keys bound key) then contrib (oc_counts oc) f else 0)"
  by (simp add: add_outcome_def add_to_tables bucket_keys_distinct)

text \<open>The positions of the plan behind a table.\<close>

definition scope_positions :: "json \<Rightarrow> (plan_key \<times> json) list \<Rightarrow> bucket_key \<Rightarrow> plan_key list" where
  "scope_positions bound planned k = filter (\<lambda>key. k \<in> set (bucket_keys bound key)) (map fst planned)"

lemma tally_at:
  "bucket_at (ta_counts (tally_of v planned t)) k f =
   bucket_at (ta_counts t) k f + (\<Sum>key\<leftarrow>scope_positions (av_bound v) planned k. contrib (oc_counts (outcome_of v key)) f)"
proof (induction planned arbitrary: t)
  case (Cons p planned)
  obtain key e where p: "p = (key, e)" by (cases p)
  have "tally_of v (p # planned) t = tally_of v planned (add_outcome (bucket_keys (av_bound v) key) (outcome_of v key) t)"
    by (simp add: tally_of_def p)
  then show ?case by (simp add: Cons.IH add_outcome_at scope_positions_def p)
qed (simp add: tally_of_def scope_positions_def)

lemma start_empty: "bucket_at (ta_counts (start_tally a b)) k f = 0"
  by (simp add: bucket_at_def start_tally_def empty_bucket_def)

lemma tally_counts:
  "bucket_at (ta_counts (tally_of v planned (start_tally a b))) k f =
   (\<Sum>key\<leftarrow>scope_positions (av_bound v) planned k. contrib (oc_counts (outcome_of v key)) f)"
  by (simp add: tally_at start_empty)

lemma table_keys: "distinct (map fst counts) \<Longrightarrow> distinct (map fst (fold (\<lambda>k counts. AList.update k (g k counts) counts) ks counts))"
  by (induction ks arbitrary: counts) (auto simp: distinct_update)

lemma tally_keys: "distinct (map fst (ta_counts t)) \<Longrightarrow> distinct (map fst (ta_counts (tally_of v planned t)))"
proof (induction planned arbitrary: t)
  case (Cons p planned)
  obtain key e where p: "p = (key, e)" by (cases p)
  have "distinct (map fst (ta_counts (add_outcome (bucket_keys (av_bound v) key) (outcome_of v key) t)))"
    using table_keys[OF Cons.prems] by (simp add: add_outcome_def)
  from Cons.IH[OF this] show ?case by (simp add: tally_of_def p)
qed (simp add: tally_of_def)

lemma tally_flags:
  "ta_missing (tally_of v planned t) \<longleftrightarrow> ta_missing t \<or> (\<exists>(k, e) \<in> set planned. oc_missing (outcome_of v k))"
  "ta_critical_missing (tally_of v planned t) \<longleftrightarrow> ta_critical_missing t \<or> (\<exists>(k, e) \<in> set planned. oc_critical_missing (outcome_of v k))"
  "ta_forbidden (tally_of v planned t) \<longleftrightarrow> ta_forbidden t \<or> (\<exists>(k, e) \<in> set planned. oc_forbidden (outcome_of v k))"
  "ta_critical_violation (tally_of v planned t) \<longleftrightarrow> ta_critical_violation t \<or> (\<exists>(k, e) \<in> set planned. oc_critical_violation (outcome_of v k))"
proof (induction planned arbitrary: t)
  case (Cons p planned)
  obtain key e where p: "p = (key, e)" by (cases p)
  have eq: "tally_of v (p # planned) t = tally_of v planned (add_outcome (bucket_keys (av_bound v) key) (outcome_of v key) t)" for t
    by (simp add: tally_of_def p)
  { case 1 then show ?case unfolding eq Cons.IH by (auto simp: add_outcome_def p) }
  { case 2 then show ?case unfolding eq Cons.IH by (auto simp: add_outcome_def p) }
  { case 3 then show ?case unfolding eq Cons.IH by (auto simp: add_outcome_def p) }
  { case 4 then show ?case unfolding eq Cons.IH by (auto simp: add_outcome_def p) }
qed (simp_all add: tally_of_def)

section \<open>One position\<close>

text \<open>A result of a definitive record: it has a mode, and no error.\<close>

definition result_ok :: "json \<Rightarrow> bool" where
  "result_ok result \<longleftrightarrow> jget result ''mode'' \<in> {JStr ''constraint'', JStr ''mutation'', JStr ''llm''} \<and> result_shape_ok result \<and>
     jget result ''mutation_outcome'' \<noteq> JStr ''ERROR'' \<and> (jget result ''deviation'' = JNull \<or> is_bool (jget result ''deviation''))"

lemma definitive_result_ok:
  assumes "validate_attempt r = Inr (r', d)" and "definitive r"
  shows "result_ok (jget r ''result'')"
proof -
  let ?x = "jget r ''result''"
  from assms have "?x \<noteq> JNull" and no_error: "jget ?x ''mutation_outcome'' \<noteq> JStr ''ERROR''" by (simp_all add: definitive_def)
  with assms(1) obtain y where "validate_result ?x = Inr y" by (auto simp: validate_attempt_def ebind_eq_Inr)
  then have mode: "jget ?x ''mode'' = JNull \<or> among (jget ?x ''mode'') [''constraint'', ''mutation'', ''llm'']"
    and shape: "result_shape_ok ?x" and dev: "jget ?x ''deviation'' = JNull \<or> is_bool (jget ?x ''deviation'')"
    by (auto simp: validate_result_def ebind_eq_Inr guard_eq_Inr agg_enum_def agg_bool_def split: if_splits)
  from shape no_error have "jget ?x ''mode'' \<noteq> JNull" by (auto simp: result_shape_ok_def Let_def)
  with mode have "among (jget ?x ''mode'') [''constraint'', ''mutation'', ''llm'']" by simp
  then have "jget ?x ''mode'' \<in> {JStr ''constraint'', JStr ''mutation'', JStr ''llm''}"
    by (cases "jget ?x ''mode''") (auto simp: among_def)
  with shape no_error dev show ?thesis by (simp add: result_ok_def)
qed

text \<open>What holds of a table over \<open>n\<close> positions: every position is counted once, and no rate exceeds one.\<close>

definition table_counts :: "nat \<Rightarrow> (string \<Rightarrow> int) \<Rightarrow> bool" where
  "table_counts n c \<longleftrightarrow> c ''planned'' = int n \<and> c ''planned'' = c ''complete'' + c ''missing'' + c ''error'' + c ''conflict'' \<and>
     c ''tp'' + c ''fn'' + c ''fp'' + c ''tn'' \<le> c ''complete'' \<and> c ''killed'' + c ''survived'' + c ''no_coverage'' \<le> c ''complete'' \<and>
     c ''constraint_pass'' + c ''constraint_fail'' + c ''constraint_unknown'' \<le> c ''complete'' \<and>
     c ''asr_deviation'' \<le> c ''asr_positive'' \<and> c ''asr_positive'' \<le> c ''complete'' \<and> c ''forbidden'' \<le> c ''complete'' \<and>
     (\<forall>f. 0 \<le> c f)"

lemma table_counts_add: "table_counts m c \<Longrightarrow> table_counts n d \<Longrightarrow> table_counts (m + n) (\<lambda>f. c f + d f)"
  unfolding table_counts_def by (intro conjI allI; (elim conjE, simp))

lemma table_counts_sum:
  "(\<And>x. x \<in> set xs \<Longrightarrow> table_counts 1 (c x)) \<Longrightarrow> table_counts (length xs) (\<lambda>f. \<Sum>x\<leftarrow>xs. c x f)"
proof (induction xs)
  case (Cons x xs)
  from Cons table_counts_add[of 1 "c x" "length xs" "\<lambda>f. \<Sum>x\<leftarrow>xs. c x f"] show ?case by simp
qed (simp add: table_counts_def)

lemma contrib_nonneg: "(\<And>g n. (g, n) \<in> set cs \<Longrightarrow> 0 \<le> n) \<Longrightarrow> 0 \<le> contrib cs f"
  unfolding contrib_def by (rule sum_list_nonneg) auto

lemma result_counts_nonneg: "(g, n) \<in> set (oc_counts (result_outcome control obligation forbidden scorable label result)) \<Longrightarrow> 0 \<le> n"
  by (auto simp: result_outcome_def constraint_outcome_def missing_outcome_def plain_outcome_def llm_outcome_def mutation_counts_def
      detection_counts_def deviation_counts_def Let_def split: if_splits)

lemma outcome_nonneg: "0 \<le> contrib (oc_counts (outcome_of v key)) f"
proof (rule contrib_nonneg)
  fix g n assume "(g, n) \<in> set (oc_counts (outcome_of v key))"
  then show "0 \<le> n" using result_counts_nonneg
    by (auto simp: outcome_of_def prepend_counts_def attempt_counts_def missing_outcome_def plain_outcome_def Let_def
        split: prod.splits option.splits if_splits)
qed

text \<open>What a result adds to a position that was selected.\<close>

definition result_counts :: "(string \<Rightarrow> int) \<Rightarrow> bool" where
  "result_counts c \<longleftrightarrow> c ''planned'' = 0 \<and> c ''complete'' = 0 \<and> c ''missing'' = 0 \<and> c ''error'' = 0 \<and> c ''conflict'' = 0 \<and>
     c ''tp'' + c ''fn'' + c ''fp'' + c ''tn'' \<le> 1 \<and> c ''killed'' + c ''survived'' + c ''no_coverage'' \<le> 1 \<and>
     c ''constraint_pass'' + c ''constraint_fail'' + c ''constraint_unknown'' \<le> 1 \<and>
     c ''asr_deviation'' \<le> c ''asr_positive'' \<and> c ''asr_positive'' \<le> 1 \<and> c ''forbidden'' \<le> 1"

lemma constraint_counts: "result_counts (contrib (oc_counts (constraint_outcome control obligation forbidden result)))"
proof -
  let ?o = "jget result ''observation''"
  consider (unknown) "?o = JStr ''UNKNOWN''" | (fail) "?o = JStr ''FAIL''" "forbidden" | (allowed) "?o = JStr ''FAIL''" "\<not> forbidden"
    | (pass) "?o \<noteq> JStr ''UNKNOWN''" "?o \<noteq> JStr ''FAIL''" by blast
  then show ?thesis
    by cases (simp_all add: constraint_outcome_def missing_outcome_def plain_outcome_def result_counts_def)
qed

text \<open>The fields of a result of a model, from the detection and from the deviation.\<close>

lemma detection_fields:
  fixes scorable label result
  defines "c \<equiv> contrib (detection_counts scorable label result)"
  shows "c ''tp'' + c ''fn'' + c ''fp'' + c ''tn'' \<le> 1"
    "f \<notin> {''tp'', ''fn'', ''fp'', ''tn'', ''indeterminate'', ''detection_missing''} \<Longrightarrow> c f = 0"
  by (auto simp: c_def detection_counts_def Let_def)

lemma deviation_fields:
  fixes scorable label result
  defines "c \<equiv> contrib (deviation_counts scorable label result)"
  shows "c ''asr_deviation'' \<le> c ''asr_positive''" "c ''asr_positive'' \<le> 1"
    "f \<notin> {''asr_positive'', ''asr_deviation'', ''deviation_missing''} \<Longrightarrow> c f = 0"
  by (auto simp: c_def deviation_counts_def)

lemma llm_counts: "result_counts (contrib (oc_counts (llm_outcome control obligation forbidden scorable label result)))"
  using detection_fields(1)[of scorable label result] deviation_fields(1,2)[of scorable label result]
  by (simp add: llm_outcome_def Let_def result_counts_def detection_fields(2) deviation_fields(3))

lemma mutation_result_counts: "result_counts (contrib (mutation_counts scorable result))"
  by (simp add: mutation_counts_def Let_def result_counts_def)

lemma result_outcome_counts:
  "result_ok result \<Longrightarrow> result_counts (contrib (oc_counts (result_outcome control obligation forbidden scorable label result)))"
  using constraint_counts llm_counts mutation_result_counts
  by (auto simp: result_ok_def result_outcome_def plain_outcome_def)

text \<open>What every position adds, and what every selected position adds, to the fields related above.\<close>

definition related_fields :: "string list" where
  "related_fields = [''planned'', ''complete'', ''missing'', ''error'', ''conflict'', ''tp'', ''fn'', ''fp'', ''tn'', ''killed'', ''survived'',
     ''no_coverage'', ''constraint_pass'', ''constraint_fail'', ''constraint_unknown'', ''asr_deviation'', ''asr_positive'', ''forbidden'']"

lemma attempt_fields_unrelated: "f \<in> set related_fields \<Longrightarrow> contrib (attempt_counts v key) f = 0"
  by (auto simp: related_fields_def attempt_counts_def Let_def)

lemma table_counts_of:
  assumes "result_counts c" and "\<And>f. f \<in> set related_fields \<Longrightarrow> d f = c f + (if f = ''planned'' \<or> f = ''complete'' then 1 else 0)"
    and "\<And>f. 0 \<le> d f"
  shows "table_counts 1 d"
proof -
  note d = assms(2)[unfolded related_fields_def]
  show ?thesis using assms(1,3) unfolding table_counts_def result_counts_def
    by (simp add: d)
qed

lemma table_counts_unselected:
  assumes "x \<in> {''missing'', ''error'', ''conflict''}"
    and "\<And>f. f \<in> set related_fields \<Longrightarrow> d f = (if f = ''planned'' \<or> f = x then 1 else 0)" and "\<And>f. 0 \<le> d f"
  shows "table_counts 1 d"
proof -
  note d = assms(2)[unfolded related_fields_def]
  from assms(1) consider "x = ''missing''" | "x = ''error''" | "x = ''conflict''" by blast
  then show ?thesis using assms(3) unfolding table_counts_def by cases (simp_all add: d)
qed

lemma outcome_counts:
  assumes "\<And>r n. map_of (av_selected v) key = Some (r, n) \<Longrightarrow> result_ok (jget r ''result'')"
  shows "table_counts 1 (contrib (oc_counts (outcome_of v key)))"
proof -
  obtain variant o_id c_id t_id s_id where key: "key = ((variant, o_id, c_id, t_id), s_id)" by (metis prod.exhaust)
  show ?thesis
  proof (cases "map_of (av_selected v) key")
    case None
    show ?thesis
    proof (rule table_counts_unselected[where x = "unselected_field v key"])
      show "unselected_field v key \<in> {''missing'', ''error'', ''conflict''}" by (simp add: unselected_field_def)
      fix f assume f: "f \<in> set related_fields"
      then have "f \<noteq> ''mutation_error''" by (auto simp: related_fields_def)
      moreover have "unselected_field v key \<noteq> ''planned''" by (simp add: unselected_field_def)
      ultimately show "contrib (oc_counts (outcome_of v key)) f = (if f = ''planned'' \<or> f = unselected_field v key then 1 else 0)"
        using None attempt_fields_unrelated[OF f, of v key]
        by (auto simp: key outcome_of_def Let_def prepend_counts_def missing_outcome_def plain_outcome_def)
    qed (rule outcome_nonneg)
  next
    case (Some rn)
    obtain r n where rn: "rn = (r, n)" by (cases rn)
    let ?o = "result_outcome (control_of (av_bound v) o_id) (obligation_of (av_bound v) o_id)
      (forbids (obligation_of (av_bound v) o_id) \<or> (case stage_of (case_of (av_bound v) c_id) s_id of None \<Rightarrow> False | Some stage \<Rightarrow> forbids stage))
      (JStr s_id = jget (case_of (av_bound v) c_id) ''scored_stage_id'' \<and> (variant, o_id, c_id, t_id) \<in> set (av_scorable v))
      (jget (case_of (av_bound v) c_id) ''expected_label'') (jget r ''result'')"
    have "result_counts (contrib (oc_counts ?o))" using assms Some rn result_outcome_counts by blast
    then show ?thesis
    proof (rule table_counts_of)
      fix f assume f: "f \<in> set related_fields"
      then have "f \<notin> {''mutation_error'', ''delivery_count'', ''duplicate_deliveries''}" by (auto simp: related_fields_def)
      then show "contrib (oc_counts (outcome_of v key)) f = contrib (oc_counts ?o) f + (if f = ''planned'' \<or> f = ''complete'' then 1 else 0)"
        using Some attempt_fields_unrelated[OF f, of v key]
        by (auto simp: key rn outcome_of_def Let_def prepend_counts_def)
    qed (rule outcome_nonneg)
  qed
qed

end
