(* ===== verification/Aggregation_Safety.thy ===== *)
theory Aggregation_Safety
  imports Aggregation_Tally Decision
begin

text \<open>
  What the document of an aggregation can be relied on for: which attempts are counted, that every
  position of the plan is counted exactly once, and that missing evidence, violations and lost attempts
  are flagged.
\<close>

section \<open>The steps\<close>

lemma status_fold_grows: "set issues \<subseteq> set (fold (\<lambda>(i, row) issues. status_issue issues (at_record row)) rows issues)"
  by (rule fold_grows) (auto simp: status_issue_def Let_def split: prod.splits intro: add_issue_keeps(1)[THEN subsetD])

lemma violation_grows: "set issues \<subseteq> set (violation_issues bound rs issues)"
  unfolding violation_issues_def by (rule fold_grows) (auto intro: add_issue_keeps(1)[THEN subsetD])

lemma order_grows: "set issues \<subseteq> set (order_issues planned selected gs issues)"
  unfolding order_issues_def by (rule fold_grows) (rule add_issue_keeps(1))

text \<open>What \<open>aggregate_parts\<close> went through.\<close>

lemma aggregate_steps:
  assumes "aggregate_parts bound (JList vs) profile = Inr a"
  obtains issues issues' where
    "collected_ok vs (ag_collected a)" "set (co_issues (ag_collected a)) \<subseteq> set issues"
    "efold (place bound profile (co_conflicted (ag_collected a))) (issues, []) (map snd (co_unique (ag_collected a))) = Inr (issues', ag_logical a)"
    "ag_selection a = select_all (co_unique (ag_collected a)) (ag_logical a) (co_conflicts (ag_collected a)) issues'"
    "set (se_issues (ag_selection a)) \<subseteq> set (ag_issues a)" "ag_view a = view_of bound (ag_logical a) (ag_selection a)"
    "ag_tally a = tally_of (ag_view a) (planned_keys bound) (start_tally (list_ex (conflict_violation bound) (se_conflicts (ag_selection a)))
       (list_ex (conflict_critical bound) (se_conflicts (ag_selection a))))"
proof -
  from assms obtain col where col: "efold collect no_attempts vs = Inr col"
    and rest: "ebind (efold (place bound profile (co_conflicted col))
        (fold (\<lambda>(i, row) issues. status_issue issues (at_record row)) (co_unique col) (co_issues col), []) (map snd (co_unique col)))
      (\<lambda>(issues, logical).
        let sel = select_all (co_unique col) logical (co_conflicts col) issues;
            issues = violation_issues bound (se_conflicts sel) (se_issues sel);
            planned = planned_keys bound;
            issues = order_issues planned (se_selected sel) (scorable_groups (se_selected sel) (all_groups planned)) issues;
            v = view_of bound logical sel;
            start = start_tally (list_ex (conflict_violation bound) (se_conflicts sel)) (list_ex (conflict_critical bound) (se_conflicts sel)) in
        Inr \<lparr>ag_collected = col, ag_logical = logical, ag_selection = sel, ag_view = v, ag_tally = tally_of v planned start, ag_issues = issues\<rparr>) = Inr a"
    unfolding aggregate_parts_def ebind_eq_Inr Let_def by auto
  let ?issues = "fold (\<lambda>(i, row) issues. status_issue issues (at_record row)) (co_unique col) (co_issues col)"
  from rest obtain issues' logical where pl: "efold (place bound profile (co_conflicted col)) (?issues, []) (map snd (co_unique col)) = Inr (issues', logical)"
    and a: "a = (let sel = select_all (co_unique col) logical (co_conflicts col) issues';
            issues = violation_issues bound (se_conflicts sel) (se_issues sel);
            planned = planned_keys bound;
            issues = order_issues planned (se_selected sel) (scorable_groups (se_selected sel) (all_groups planned)) issues;
            v = view_of bound logical sel;
            start = start_tally (list_ex (conflict_violation bound) (se_conflicts sel)) (list_ex (conflict_critical bound) (se_conflicts sel)) in
        \<lparr>ag_collected = col, ag_logical = logical, ag_selection = sel, ag_view = v, ag_tally = tally_of v planned start, ag_issues = issues\<rparr>)"
    unfolding ebind_eq_Inr by (auto simp: Let_def)
  show ?thesis
  proof (rule that[of ?issues issues'])
    show "collected_ok vs (ag_collected a)" using collected[OF col no_attempts_ok] by (simp add: a Let_def)
    show "set (co_issues (ag_collected a)) \<subseteq> set ?issues" using status_fold_grows by (simp add: a Let_def)
    show "set (se_issues (ag_selection a)) \<subseteq> set (ag_issues a)"
      using violation_grows order_grows by (simp add: a Let_def) (rule subset_trans)
  qed (use pl in \<open>simp_all add: a Let_def\<close>)
qed

section \<open>Selected records\<close>

lemma well_placed:
  assumes "misplaced bound profile r = Inr None"
  obtains entry chosen where "map_of (planned_keys bound) (record_key r) = Some entry" "attempt_in_window bound r"
    "expected profile (jget (jget entry ''target_ref'') ''digest'') (jget (jget entry ''evaluator_ref'') ''digest'') = Inr chosen"
    "binding_expected bound profile chosen entry (jget r ''expected_binding'')"
    "jget r ''result'' \<noteq> JNull \<longrightarrow> py_eq (jget (jget r ''result'') ''binding'') (jget r ''expected_binding'')"
    "jget r ''result'' \<noteq> JNull \<longrightarrow> error_result_only (jget r ''result'') \<or> jget (jget r ''result'') ''mode'' =
       JStr (expected_mode (str_of (jget (obligation_of bound (str_of (jget (jget r ''expected_binding'') ''obligation_id''))) ''kind'')))"
  using assms by (auto simp: misplaced_def Let_def ebind_eq_Inr split: if_splits option.splits)

lemma selected_record:
  assumes parts: "aggregate_parts bound (JList vs) profile = Inr a" and sel: "map_of (se_selected (ag_selection a)) k = Some (r, n)"
  shows "record_key r = k" "misplaced bound profile r = Inr None" "definitive r" "r \<in> set vs"
    "n = length (filter (\<lambda>v. attempt_id v = attempt_id r) vs)"
    "\<exists>d. \<forall>v \<in> set vs. attempt_id v = attempt_id r \<longrightarrow> validate_attempt v = Inr (v, d)"
    "filter (\<lambda>(r, n). retry_issue (co_unique (ag_collected a)) (ag_logical a) k r = None \<and> definitive r) (placed_at (ag_logical a) k) = [(r, n)]"
    "\<not> unrelated r (placed_at (ag_logical a) k)"
proof -
  let ?u = "co_unique (ag_collected a)"
  note steps = aggregate_steps[OF parts]
  have col: "collected_ok vs (ag_collected a)" by (rule steps)
  obtain issues issues'
    where pl: "efold (place bound profile (co_conflicted (ag_collected a))) (issues, []) (map snd ?u) = Inr (issues', ag_logical a)"
    and se: "ag_selection a = select_all ?u (ag_logical a) (co_conflicts (ag_collected a)) issues'" by (rule steps)
  have pok: "placed_ok bound profile (co_conflicted (ag_collected a)) ?u (ag_logical a)" using placed_from_start[OF pl] by simp
  have "selected_ok ?u (ag_logical a) (ag_selection a)" unfolding se by (rule select_all_ok(1))
  from this[unfolded selected_ok_def, rule_format, OF sel] obtain rs
    where rs: "(k, rs) \<in> set (ag_logical a)" and valid: "valid_records ?u (ag_logical a) k rs = [(r, n)]"
      and chain: "\<not> unrelated r rs" by auto
  have at: "placed_at (ag_logical a) k = rs" using pok rs by (simp add: placed_at_def placed_ok_def)
  show "\<not> unrelated r (placed_at (ag_logical a) k)" using chain by (simp add: at)
  from valid have "(r, n) \<in> set (valid_records ?u (ag_logical a) k rs)" by simp
  then have mem: "(r, n) \<in> set (placed_at (ag_logical a) k)" and def: "definitive r" by (simp_all add: at valid_records_def)
  with pok have row: "row_placed bound profile (co_conflicted (ag_collected a)) ?u k (r, n)" unfolding placed_ok_def by blast
  then obtain i row where i: "(i, row) \<in> set ?u" "at_record row = r" "at_count row = n"
    and out: "attempt_id r \<notin> set (co_conflicted (ag_collected a))" by (auto simp: row_placed_def)
  from col i have m: "map_of ?u i = Some row" by (simp add: collected_ok_def)
  with col i have id: "attempt_id r = i" and "r \<in> set vs" by (auto simp: collected_ok_def rows_ok_def)
  then show "r \<in> set vs" by simp
  show "record_key r = k" "misplaced bound profile r = Inr None" using row by (simp_all add: row_placed_def)
  show "definitive r" by (rule def)
  show "n = length (filter (\<lambda>v. attempt_id v = attempt_id r) vs)" using col m out i id by (auto simp: collected_ok_def counted_ok_def)
  show "filter (\<lambda>(r, n). retry_issue ?u (ag_logical a) k r = None \<and> definitive r) (placed_at (ag_logical a) k) = [(r, n)]"
    using valid by (simp add: valid_records_def at)
  have "validate_attempt v = Inr (v, at_digest row)" if v: "v \<in> set vs" "attempt_id v = attempt_id r" for v
  proof -
    from col v(1) obtain row' d where "map_of ?u (attempt_id v) = Some row'" "validate_attempt v = Inr (v, d)"
      "d = at_digest row' \<or> attempt_id v \<in> set (co_conflicted (ag_collected a))" unfolding collected_ok_def delivered_ok_def by blast
    with m id v out show ?thesis by simp
  qed
  then show "\<exists>d. \<forall>v \<in> set vs. attempt_id v = attempt_id r \<longrightarrow> validate_attempt v = Inr (v, d)" by blast
qed

lemma selected_result_ok:
  assumes "aggregate_parts bound (JList vs) profile = Inr a" and "map_of (se_selected (ag_selection a)) k = Some (r, n)"
  shows "result_ok (jget r ''result'')"
  using selected_record(3,4,6)[OF assms] definitive_result_ok by blast

text \<open>A definitive record that is not the selected one of its position is an invalid or surplus retry, and reported.\<close>

lemma other_definitive:
  assumes parts: "aggregate_parts bound (JList vs) profile = Inr a" and sel: "map_of (se_selected (ag_selection a)) k = Some (r, n)"
    and other: "(r', n') \<in> set (placed_at (ag_logical a) k)" "(r', n') \<noteq> (r, n)" "definitive r'"
  shows "\<exists>code. (code = ''INVALID_RETRY'' \<or> code = ''RETRY_LIMIT'') \<and> issue_of code r' \<in> set (ag_issues a)"
proof -
  let ?u = "co_unique (ag_collected a)"
  have "retry_issue ?u (ag_logical a) k r' \<noteq> None"
  proof
    assume "retry_issue ?u (ag_logical a) k r' = None"
    with other have "(r', n') \<in> set (filter (\<lambda>(r, n). retry_issue ?u (ag_logical a) k r = None \<and> definitive r)
        (placed_at (ag_logical a) k))" by simp
    with selected_record(7)[OF parts sel] other(2) show False by simp
  qed
  then obtain code where code: "retry_issue ?u (ag_logical a) k r' = Some code" by blast
  note steps = aggregate_steps[OF parts]
  obtain issues' where "ag_selection a = select_all ?u (ag_logical a) (co_conflicts (ag_collected a)) issues'" by (rule steps)
  then have "issue_of code r' \<in> set (se_issues (ag_selection a))" using retries_reported[OF other(1) code] by simp
  moreover have "set (se_issues (ag_selection a)) \<subseteq> set (ag_issues a)" by (rule steps)
  ultimately show ?thesis using retry_issue_codes[OF code] by blast
qed

text \<open>C32.
  Only definitive evidence is counted.  A record selected for a position of the plan is one of the
  attempts given; it was started and finished within the run, is bound to the documents of the run and to
  the target, evaluator and adapter of the entry, as is its result; it completed with a confirmed stop and
  a result of the mode of the obligation that is no error; and every delivery with its identifier has the
  same digest and is counted.  It is the only definitive record placed there that is not an invalid or
  surplus retry: any other definitive record of the position is reported as \<open>INVALID_RETRY\<close> or
  \<open>RETRY_LIMIT\<close>, so that when no issue is reported it is the only definitive one.  Every record
  placed there is the selected one, the one it retries, or a retry of it.
\<close>

theorem selected_is_definitive:
  assumes "aggregate_parts bound (JList vs) profile = Inr a" and "map_of (se_selected (ag_selection a)) k = Some (r, n)"
  shows "r \<in> set vs \<and> record_key r = k \<and> attempt_in_window bound r \<and>
    jget r ''execution_status'' = JStr ''COMPLETED'' \<and> jget r ''finished_at'' \<noteq> JNull \<and> jget r ''stop_confirmed'' = JBool True \<and>
    jget r ''result'' \<noteq> JNull \<and> jget (jget r ''result'') ''mutation_outcome'' \<noteq> JStr ''ERROR'' \<and>
    n = length (filter (\<lambda>v. attempt_id v = attempt_id r) vs) \<and>
    (\<exists>d. \<forall>v \<in> set vs. attempt_id v = attempt_id r \<longrightarrow> validate_attempt v = Inr (v, d)) \<and>
    (\<exists>entry chosen. map_of (planned_keys bound) k = Some entry \<and>
      expected profile (jget (jget entry ''target_ref'') ''digest'') (jget (jget entry ''evaluator_ref'') ''digest'') = Inr chosen \<and>
      binding_expected bound profile chosen entry (jget r ''expected_binding'')) \<and>
    py_eq (jget (jget r ''result'') ''binding'') (jget r ''expected_binding'') \<and>
    jget (jget r ''result'') ''mode'' = JStr (expected_mode (str_of (jget (obligation_of bound (fst (snd (fst k)))) ''kind''))) \<and>
    filter (\<lambda>(r, n). retry_issue (co_unique (ag_collected a)) (ag_logical a) k r = None \<and> definitive r) (placed_at (ag_logical a) k) = [(r, n)] \<and>
    (\<forall>(r', n') \<in> set (placed_at (ag_logical a) k). (r', n') \<noteq> (r, n) \<longrightarrow> definitive r' \<longrightarrow>
      (\<exists>code. (code = ''INVALID_RETRY'' \<or> code = ''RETRY_LIMIT'') \<and> issue_of code r' \<in> set (ag_issues a))) \<and>
    (\<forall>(r', n') \<in> set (placed_at (ag_logical a) k). jget r' ''attempt_id'' = jget r ''attempt_id'' \<or>
      jget r' ''attempt_id'' = jget r ''retry_of'' \<or> jget r' ''retry_of'' = jget r ''attempt_id'')"
proof -
  note sel = selected_record[OF assms]
  have others: "\<forall>(r', n') \<in> set (placed_at (ag_logical a) k). (r', n') \<noteq> (r, n) \<longrightarrow> definitive r' \<longrightarrow>
      (\<exists>code. (code = ''INVALID_RETRY'' \<or> code = ''RETRY_LIMIT'') \<and> issue_of code r' \<in> set (ag_issues a))"
    using other_definitive[OF assms] by blast
  have chain: "\<forall>(r', n') \<in> set (placed_at (ag_logical a) k). jget r' ''attempt_id'' = jget r ''attempt_id'' \<or>
      jget r' ''attempt_id'' = jget r ''retry_of'' \<or> jget r' ''retry_of'' = jget r ''attempt_id''"
    using related[OF sel(8)] by auto
  have res: "jget r ''result'' \<noteq> JNull" "\<not> error_result_only (jget r ''result'')"
    using sel(3) by (simp_all add: definitive_def error_result_only_def)
  obtain d where "validate_attempt r = Inr (r, d)" using sel(4,6) by blast
  then have "is_bool (jget r ''stop_confirmed'')"
    by (auto simp: validate_attempt_def ebind_eq_Inr guard_eq_Inr agg_bool_def)
  then have "jget r ''stop_confirmed'' = JBool True"
    using sel(3) by (cases "jget r ''stop_confirmed''") (auto simp: definitive_def)
  note done' = this sel(3)[unfolded definitive_def] others chain
  have o_id: "fst (snd (fst k)) = str_of (jget (jget r ''expected_binding'') ''obligation_id'')"
    unfolding sel(1)[symmetric] by (simp add: record_key_def Let_def)
  from sel(2) obtain entry chosen where "map_of (planned_keys bound) (record_key r) = Some entry" "attempt_in_window bound r"
    "expected profile (jget (jget entry ''target_ref'') ''digest'') (jget (jget entry ''evaluator_ref'') ''digest'') = Inr chosen"
    "binding_expected bound profile chosen entry (jget r ''expected_binding'')"
    "jget r ''result'' \<noteq> JNull \<longrightarrow> py_eq (jget (jget r ''result'') ''binding'') (jget r ''expected_binding'')"
    "jget r ''result'' \<noteq> JNull \<longrightarrow> error_result_only (jget r ''result'') \<or> jget (jget r ''result'') ''mode'' =
       JStr (expected_mode (str_of (jget (obligation_of bound (str_of (jget (jget r ''expected_binding'') ''obligation_id''))) ''kind'')))"
    by (rule well_placed)
  with res sel(1-7) done' show ?thesis unfolding o_id by (intro conjI) (assumption | blast | simp)+
qed

section \<open>The tables\<close>

lemma view_parts:
  "av_bound (view_of bound logical sel) = bound" "av_selected (view_of bound logical sel) = se_selected sel"
  "av_logical (view_of bound logical sel) = logical" "av_conflict_keys (view_of bound logical sel) = se_conflict_keys sel"
  by (simp_all add: view_of_def Let_def)

lemma aggregate_tables:
  assumes "aggregate_parts bound (JList vs) profile = Inr a"
  shows "bucket_at (ta_counts (ag_tally a)) k f =
      (\<Sum>key\<leftarrow>scope_positions bound (planned_keys bound) k. contrib (oc_counts (outcome_of (ag_view a) key)) f)"
    "table_counts 1 (contrib (oc_counts (outcome_of (ag_view a) key)))"
    "distinct (map fst (ta_counts (ag_tally a)))"
proof -
  note steps = aggregate_steps[OF assms]
  have view: "ag_view a = view_of bound (ag_logical a) (ag_selection a)" by (rule steps)
  have tally: "ag_tally a = tally_of (ag_view a) (planned_keys bound) (start_tally (list_ex (conflict_violation bound) (se_conflicts (ag_selection a)))
       (list_ex (conflict_critical bound) (se_conflicts (ag_selection a))))" by (rule steps)
  show "bucket_at (ta_counts (ag_tally a)) k f =
      (\<Sum>key\<leftarrow>scope_positions bound (planned_keys bound) k. contrib (oc_counts (outcome_of (ag_view a) key)) f)"
    unfolding tally tally_counts by (simp add: view view_parts)
  show "table_counts 1 (contrib (oc_counts (outcome_of (ag_view a) key)))"
    by (rule outcome_counts) (use selected_result_ok[OF assms] in \<open>simp add: view view_parts\<close>)
  show "distinct (map fst (ta_counts (ag_tally a)))" unfolding tally by (rule tally_keys) (simp add: start_tally_def)
qed

lemma aggregate_table_ok:
  assumes "aggregate_parts bound (JList vs) profile = Inr a"
  shows "table_counts (length (scope_positions bound (planned_keys bound) k)) (bucket_at (ta_counts (ag_tally a)) k)"
  unfolding aggregate_tables(1)[OF assms, abs_def] by (rule table_counts_sum) (rule aggregate_tables(2)[OF assms])

text \<open>C33.
  Every position of the plan is counted exactly once.  In every table of an aggregation the planned
  positions are those of the plan in its scope, and they are the complete, the missing, the failed and the
  conflicting ones; the scored results and the outcomes of checks, mutants and attacks never exceed the
  complete ones; and no count is negative.
\<close>

theorem positions_counted_once:
  assumes "aggregate_parts bound (JList vs) profile = Inr a" and "(k, b) \<in> set (ta_counts (ag_tally a))"
  shows "b ''planned'' = int (length (filter (\<lambda>key. k \<in> set (bucket_keys bound key)) (map fst (planned_keys bound)))) \<and>
    b ''planned'' = b ''complete'' + b ''missing'' + b ''error'' + b ''conflict'' \<and>
    b ''tp'' + b ''fn'' + b ''fp'' + b ''tn'' \<le> b ''complete'' \<and> b ''killed'' + b ''survived'' + b ''no_coverage'' \<le> b ''complete'' \<and>
    b ''constraint_pass'' + b ''constraint_fail'' + b ''constraint_unknown'' \<le> b ''complete'' \<and>
    b ''asr_deviation'' \<le> b ''asr_positive'' \<and> b ''asr_positive'' \<le> b ''complete'' \<and> b ''forbidden'' \<le> b ''complete'' \<and>
    (\<forall>f. 0 \<le> b f)"
proof -
  from assms(2) aggregate_tables(3)[OF assms(1)] have "bucket_at (ta_counts (ag_tally a)) k = b" by (simp add: bucket_at_def)
  with aggregate_table_ok[OF assms(1), of k] show ?thesis unfolding table_counts_def scope_positions_def by simp
qed

section \<open>The flags\<close>

lemma document_flags:
  assumes "aggregate_validated bound (JList vs) profile = Inr doc"
  obtains a where "aggregate_parts bound (JList vs) profile = Inr a" "doc = aggregation_json bound profile a"
    "jget doc ''required_missing'' = JBool (ta_missing (ag_tally a) \<or> list_ex issue_missing (ag_issues a))"
    "jget doc ''integrity_failure'' = JBool (ag_issues a \<noteq> [])" "jget doc ''forbidden_violation'' = JBool (ta_forbidden (ag_tally a))"
    "jget doc ''critical_violation'' = JBool (ta_critical_violation (ag_tally a))"
proof -
  have "validate_agg_profile profile = Inr p \<Longrightarrow> p = profile" for p
    using validate_profile_Inr by (auto simp: validate_agg_profile_def ebind_eq_Inr split: if_splits)
  with assms obtain a where "aggregate_parts bound (JList vs) profile = Inr a" "doc = aggregation_json bound profile a"
    by (auto simp: aggregate_validated_def ebind_eq_Inr)
  then show ?thesis by (intro that[of a]) (simp_all add: aggregation_json_def Let_def jget_def)
qed

lemma flag_of_position:
  assumes "aggregate_parts bound (JList vs) profile = Inr a" and "(k, e) \<in> set (planned_keys bound)"
  shows "oc_missing (outcome_of (ag_view a) k) \<Longrightarrow> ta_missing (ag_tally a)"
    "oc_forbidden (outcome_of (ag_view a) k) \<Longrightarrow> ta_forbidden (ag_tally a)"
    "oc_critical_violation (outcome_of (ag_view a) k) \<Longrightarrow> ta_critical_violation (ag_tally a)"
proof -
  have tally: "ag_tally a = tally_of (ag_view a) (planned_keys bound) (start_tally (list_ex (conflict_violation bound) (se_conflicts (ag_selection a)))
       (list_ex (conflict_critical bound) (se_conflicts (ag_selection a))))" by (rule aggregate_steps[OF assms(1)])
  show "oc_missing (outcome_of (ag_view a) k) \<Longrightarrow> ta_missing (ag_tally a)"
    "oc_forbidden (outcome_of (ag_view a) k) \<Longrightarrow> ta_forbidden (ag_tally a)"
    "oc_critical_violation (outcome_of (ag_view a) k) \<Longrightarrow> ta_critical_violation (ag_tally a)"
    unfolding tally tally_flags using assms(2) by blast+
qed

text \<open>The outcome of a position at which a record was selected.\<close>

definition stage_forbids :: "json \<Rightarrow> plan_key \<Rightarrow> bool" where
  "stage_forbids bound k \<longleftrightarrow> forbids (obligation_of bound (fst (snd (fst k)))) \<or>
     (case stage_of (case_of bound (fst (snd (snd (fst k))))) (snd k) of None \<Rightarrow> False | Some stage \<Rightarrow> forbids stage)"

lemma outcome_flags:
  fixes k v
  defines "control \<equiv> control_of (av_bound v) (fst (snd (fst k)))" and "obligation \<equiv> obligation_of (av_bound v) (fst (snd (fst k)))"
  shows "map_of (av_selected v) k = None \<Longrightarrow> oc_missing (outcome_of v k) = is_required obligation"
    "map_of (av_selected v) k = Some (r, n) \<Longrightarrow> \<exists>scorable label. let oc = result_outcome control obligation (stage_forbids (av_bound v) k) scorable label
        (jget r ''result'') in oc_missing (outcome_of v k) = oc_missing oc \<and> oc_forbidden (outcome_of v k) = oc_forbidden oc \<and>
        oc_critical_violation (outcome_of v k) = oc_critical_violation oc"
  unfolding control_def obligation_def
  by (auto simp: outcome_of_def Let_def prepend_counts_def missing_outcome_def plain_outcome_def stage_forbids_def split: prod.splits)

text \<open>
  A document that reports no missing evidence has all of it.  If required_missing is false, then every
  position of the plan whose obligation is required has a definitive attempt, started and finished within the run,
  among the attempts given, and its result is definite: a check with an outcome, or a detection with a deviation.
\<close>

lemma required_evidence:
  assumes "aggregate_validated bound (JList vs) profile = Inr doc" and "jget doc ''required_missing'' = JBool False"
    and "k \<in> set (map fst (planned_keys bound))" and "is_required (obligation_of bound (fst (snd (fst k))))"
  shows "\<exists>r \<in> set vs. record_key r = k \<and> attempt_in_window bound r \<and> definitive r \<and> definite (jget r ''result'') \<and>
    (jget (jget r ''result'') ''mode'' = JStr ''llm'' \<longrightarrow> jget (jget r ''result'') ''deviation'' \<noteq> JNull)"
proof -
  obtain a where parts: "aggregate_parts bound (JList vs) profile = Inr a"
    and flag: "jget doc ''required_missing'' = JBool (ta_missing (ag_tally a) \<or> list_ex issue_missing (ag_issues a))"
    by (rule document_flags[OF assms(1)])
  have view: "ag_view a = view_of bound (ag_logical a) (ag_selection a)" by (rule aggregate_steps[OF parts])
  from assms(3) obtain e where e: "(k, e) \<in> set (planned_keys bound)" by auto
  from flag assms(2) have "\<not> ta_missing (ag_tally a)" by simp
  with flag_of_position(1)[OF parts e] have found: "\<not> oc_missing (outcome_of (ag_view a) k)" by blast
  with outcome_flags(1)[of "ag_view a" k] assms(4) obtain r n where sel: "map_of (se_selected (ag_selection a)) k = Some (r, n)"
    by (cases "map_of (se_selected (ag_selection a)) k") (auto simp: view view_parts)
  from outcome_flags(2)[of "ag_view a" k r n] sel found obtain scorable label where
    "\<not> oc_missing (result_outcome (control_of bound (fst (snd (fst k)))) (obligation_of bound (fst (snd (fst k)))) (stage_forbids bound k)
      scorable label (jget r ''result''))" by (auto simp: view view_parts Let_def)
  with assms(4) selected_result_ok[OF parts sel] have "definite (jget r ''result'') \<and>
    (jget (jget r ''result'') ''mode'' = JStr ''llm'' \<longrightarrow> jget (jget r ''result'') ''deviation'' \<noteq> JNull)"
    by (auto simp: result_outcome_def constraint_outcome_def llm_outcome_def missing_outcome_def Let_def definite_def result_ok_def
        split: if_splits)
  moreover have "attempt_in_window bound r" by (rule well_placed[OF selected_record(2)[OF parts sel]])
  ultimately show ?thesis using selected_record(1,3,4)[OF parts sel] by blast
qed

text \<open>C34.
  No violation goes unreported.  If the document reports no forbidden violation, then neither a selected
  record nor a record of a conflict (two contents under one identifier, or two definitive records at one
  position) shows a violation where the obligation or the stage forbids it; and if it reports no critical
  violation, no selected check of a critical control failed.
\<close>

theorem violations_reported:
  assumes "aggregate_validated bound (JList vs) profile = Inr doc"
  shows "\<exists>a. aggregate_parts bound (JList vs) profile = Inr a \<and>
    (jget doc ''forbidden_violation'' = JBool False \<longrightarrow>
      (\<forall>k r n. k \<in> set (map fst (planned_keys bound)) \<longrightarrow> map_of (se_selected (ag_selection a)) k = Some (r, n) \<longrightarrow>
        stage_forbids bound k \<longrightarrow> \<not> violates (jget r ''result'')) \<and>
      (\<forall>r \<in> set (se_conflicts (ag_selection a)). conflict_forbidden bound r \<longrightarrow> \<not> violates (jget r ''result''))) \<and>
    (jget doc ''critical_violation'' = JBool False \<longrightarrow>
      (\<forall>k r n. k \<in> set (map fst (planned_keys bound)) \<longrightarrow> map_of (se_selected (ag_selection a)) k = Some (r, n) \<longrightarrow>
        is_critical (control_of bound (fst (snd (fst k)))) \<longrightarrow> jget (jget r ''result'') ''mode'' = JStr ''constraint'' \<longrightarrow>
        jget (jget r ''result'') ''observation'' \<noteq> JStr ''FAIL''))"
proof -
  obtain a where parts: "aggregate_parts bound (JList vs) profile = Inr a"
    and forb: "jget doc ''forbidden_violation'' = JBool (ta_forbidden (ag_tally a))"
    and crit: "jget doc ''critical_violation'' = JBool (ta_critical_violation (ag_tally a))"
    by (rule document_flags[OF assms])
  have view: "ag_view a = view_of bound (ag_logical a) (ag_selection a)" by (rule aggregate_steps[OF parts])
  have tally: "ag_tally a = tally_of (ag_view a) (planned_keys bound) (start_tally (list_ex (conflict_violation bound) (se_conflicts (ag_selection a)))
       (list_ex (conflict_critical bound) (se_conflicts (ag_selection a))))" by (rule aggregate_steps[OF parts])
  have conflicts: "list_ex (conflict_violation bound) (se_conflicts (ag_selection a)) \<Longrightarrow> ta_forbidden (ag_tally a)"
    unfolding tally tally_flags by (simp add: start_tally_def)
  have selected: "(violates (jget r ''result'') \<and> stage_forbids bound k \<longrightarrow> ta_forbidden (ag_tally a)) \<and>
      (is_critical (control_of bound (fst (snd (fst k)))) \<and> jget (jget r ''result'') ''mode'' = JStr ''constraint'' \<and>
       jget (jget r ''result'') ''observation'' = JStr ''FAIL'' \<longrightarrow> ta_critical_violation (ag_tally a))"
    if k: "k \<in> set (map fst (planned_keys bound))" and sel: "map_of (se_selected (ag_selection a)) k = Some (r, n)" for k r n
  proof -
    from k obtain e where e: "(k, e) \<in> set (planned_keys bound)" by auto
    from outcome_flags(2)[of "ag_view a" k r n] sel obtain scorable label where
      oc: "oc_forbidden (outcome_of (ag_view a) k) = oc_forbidden (result_outcome (control_of bound (fst (snd (fst k))))
          (obligation_of bound (fst (snd (fst k)))) (stage_forbids bound k) scorable label (jget r ''result''))"
        "oc_critical_violation (outcome_of (ag_view a) k) = oc_critical_violation (result_outcome (control_of bound (fst (snd (fst k))))
          (obligation_of bound (fst (snd (fst k)))) (stage_forbids bound k) scorable label (jget r ''result''))"
      by (auto simp: view view_parts Let_def)
    show ?thesis using flag_of_position(2,3)[OF parts e] unfolding oc
      by (auto simp: violates_def result_outcome_def constraint_outcome_def llm_outcome_def Let_def)
  qed
  have conflict: "\<forall>r \<in> set (se_conflicts (ag_selection a)). conflict_forbidden bound r \<longrightarrow> violates (jget r ''result'') \<longrightarrow> ta_forbidden (ag_tally a)"
    using conflicts by (auto simp: list_ex_iff conflict_violation_def)
  show ?thesis using parts forb crit selected conflict by (intro exI[of _ a] conjI impI allI ballI) (assumption | fastforce)+
qed

section \<open>No attempt is lost\<close>

definition rows_total :: "(string \<times> attempt_row) list \<Rightarrow> nat" where
  "rows_total rows = (\<Sum>(i, row)\<leftarrow>rows. at_count row)"

definition placed_total :: "placed \<Rightarrow> nat" where
  "placed_total logical = (\<Sum>(k, rs)\<leftarrow>logical. sum_list (map snd rs))"

lemma placed_at_Cons: "placed_at ((k', rs) # logical) k = (if k' = k then rs else placed_at logical k)"
  by (simp add: placed_at_def)

lemma placed_total_update:
  "placed_total (AList.update k (placed_at logical k @ [(r, n)]) logical) = placed_total logical + n"
  by (induction logical) (auto simp: placed_total_def placed_at_Cons placed_at_def[of "[]"])

lemma place_total:
  assumes "place bound profile conflicted s row = Inr s'" and "conflicted = []" and "fst s' = []"
  shows "fst s = [] \<and> placed_total (snd s') = placed_total (snd s) + at_count row"
proof -
  obtain issues logical where s: "s = (issues, logical)" by (cases s)
  have "add_issue code r issues \<noteq> []" for code r using add_issue_keeps(2)[of code r issues] by auto
  then show ?thesis using assms
    by (auto simp: s place_def Let_def ebind_eq_Inr placed_total_update split: option.splits)
qed

lemma place_all_total:
  "efold (place bound profile []) s rows = Inr s' \<Longrightarrow> fst s' = [] \<Longrightarrow>
   fst s = [] \<and> placed_total (snd s') = placed_total (snd s) + sum_list (map at_count rows)"
proof (induction rows arbitrary: s)
  case (Cons row rows)
  then obtain t where t: "place bound profile [] s row = Inr t" "efold (place bound profile []) t rows = Inr s'"
    by (auto simp: ebind_eq_Inr)
  from Cons.IH[OF t(2) Cons.prems(2)] place_total[OF t(1)] show ?case by simp
qed simp

lemma count_by_key:
  assumes "distinct ks" and "\<And>v. v \<in> set vs \<Longrightarrow> f v \<in> set ks"
  shows "(\<Sum>k\<leftarrow>ks. length (filter (\<lambda>v. f v = k) vs)) = length vs"
  using assms(2)
proof (induction vs)
  case (Cons v vs)
  have "(\<Sum>k\<leftarrow>ks. if f v = k then 1 else 0) = (1 :: nat)" if "f v \<in> set ks"
    using that assms(1) by (induction ks) (auto simp: sum_list_0)
  moreover have "(\<Sum>k\<leftarrow>ks. length (filter (\<lambda>w. f w = k) (v # vs))) =
      (\<Sum>k\<leftarrow>ks. if f v = k then 1 else 0) + (\<Sum>k\<leftarrow>ks. length (filter (\<lambda>w. f w = k) vs))"
    by (simp add: sum_list_addf[symmetric] if_distrib cong: if_cong) (induction ks; simp)
  ultimately show ?case using Cons by simp
qed simp

lemma rows_counted:
  assumes "collected_ok vs col" and "co_conflicted col = []"
  shows "rows_total (co_unique col) = length vs"
proof -
  have "at_count row = length (filter (\<lambda>v. attempt_id v = i) vs)" if "(i, row) \<in> set (co_unique col)" for i row
    using that assms by (simp add: collected_ok_def counted_ok_def)
  then have "rows_total (co_unique col) = (\<Sum>i\<leftarrow>map fst (co_unique col). length (filter (\<lambda>v. attempt_id v = i) vs))"
    unfolding rows_total_def map_map comp_def by (intro arg_cong[where f = sum_list] map_cong refl) auto
  moreover have "attempt_id v \<in> set (map fst (co_unique col))" if "v \<in> set vs" for v
    using that assms(1) unfolding collected_ok_def delivered_ok_def by (metis map_of_eq_None_iff option.distinct(1) set_map)
  ultimately show ?thesis using count_by_key[of "map fst (co_unique col)" vs attempt_id] assms(1) by (simp add: collected_ok_def)
qed

lemma attempts_of_result: "contrib (oc_counts (result_outcome control obligation forbidden scorable label result)) ''attempts'' = 0"
proof -
  have "contrib (detection_counts scorable label result) ''attempts'' = 0" "contrib (deviation_counts scorable label result) ''attempts'' = 0"
    by (simp_all add: detection_fields(2) deviation_fields(3))
  then show ?thesis
    by (simp add: result_outcome_def constraint_outcome_def llm_outcome_def plain_outcome_def missing_outcome_def mutation_counts_def Let_def)
qed

lemma attempts_of_position: "contrib (oc_counts (outcome_of v k)) ''attempts'' = int (sum_list (map snd (placed_at (av_logical v) k)))"
proof -
  obtain variant o_id c_id t_id s_id where k: "k = ((variant, o_id, c_id, t_id), s_id)" by (metis prod.exhaust)
  show ?thesis
    by (simp add: k outcome_of_def Let_def prepend_counts_def attempt_counts_def missing_outcome_def plain_outcome_def unselected_field_def
        attempts_of_result split: option.split prod.split)
qed

lemma placed_total_keys:
  assumes "distinct (map fst logical)" and "distinct ks" and "\<And>k. placed_at logical k \<noteq> [] \<Longrightarrow> k \<in> set ks"
  shows "(\<Sum>k\<leftarrow>ks. sum_list (map snd (placed_at logical k))) = placed_total logical"
proof -
  let ?g = "\<lambda>k. sum_list (map snd (placed_at logical k))"
  have "placed_total logical = (\<Sum>k\<leftarrow>map fst logical. ?g k)"
    unfolding placed_total_def map_map comp_def
    by (intro arg_cong[where f = sum_list] map_cong refl) (use assms(1) in \<open>auto simp: placed_at_def\<close>)
  also have "\<dots> = (\<Sum>k \<in> set (map fst logical). ?g k)" using assms(1) by (rule sum_list_distinct_conv_sum_set)
  also have "\<dots> = (\<Sum>k \<in> {k. placed_at logical k \<noteq> []}. ?g k)"
  proof (rule sum.mono_neutral_right)
    have "k \<in> set (map fst logical)" if "placed_at logical k \<noteq> []" for k
      using that map_of_eq_None_iff[of logical k] by (cases "map_of logical k") (simp_all add: placed_at_def)
    then show "{k. placed_at logical k \<noteq> []} \<subseteq> set (map fst logical)" by blast
  qed auto
  also have "\<dots> = (\<Sum>k \<in> set ks. ?g k)" by (rule sum.mono_neutral_left) (use assms(3) in auto)
  also have "\<dots> = (\<Sum>k\<leftarrow>ks. ?g k)" using assms(2) by (rule sum_list_distinct_conv_sum_set[symmetric])
  finally show ?thesis by simp
qed

lemma sum_list_int: "(\<Sum>x\<leftarrow>xs. int (g x)) = int (\<Sum>x\<leftarrow>xs. g x)"
  by (induction xs) simp_all

lemma filter_two:
  fixes g :: "'a \<Rightarrow> int"
  assumes "\<And>x. x \<in> set xs \<Longrightarrow> \<not> (P x \<and> Q x)" and "\<And>x. x \<in> set xs \<Longrightarrow> g x \<noteq> 0 \<Longrightarrow> P x \<or> Q x"
  shows "(\<Sum>x\<leftarrow>filter P xs. g x) + (\<Sum>x\<leftarrow>filter Q xs. g x) = (\<Sum>x\<leftarrow>xs. g x)"
  using assms by (induction xs) auto

lemma attempt_variant:
  assumes "validate_attempt r = Inr (r', d)"
  shows "fst (fst (record_key r)) \<in> {''candidate'', ''baseline''}"
  using assms by (auto simp: validate_attempt_def ebind_eq_Inr guard_eq_Inr agg_enum_def among_def attempt_variants_def record_key_def Let_def)

lemma no_issues:
  assumes "aggregate_parts bound (JList vs) profile = Inr a" and "ag_issues a = []"
  shows "collected_ok vs (ag_collected a)" "co_conflicted (ag_collected a) = []"
    "placed_ok bound profile [] (co_unique (ag_collected a)) (ag_logical a)"
    "unplaced_ok [] (co_unique (ag_collected a)) ([], ag_logical a)" "placed_total (ag_logical a) = length vs"
proof -
  let ?col = "ag_collected a" and ?l = "ag_logical a"
  obtain issues issues' where col: "collected_ok vs ?col" and sub: "set (co_issues ?col) \<subseteq> set issues"
    and pl: "efold (place bound profile (co_conflicted ?col)) (issues, []) (map snd (co_unique ?col)) = Inr (issues', ?l)"
    and se: "ag_selection a = select_all (co_unique ?col) ?l (co_conflicts ?col) issues'"
    and sub': "set (se_issues (ag_selection a)) \<subseteq> set (ag_issues a)" by (rule aggregate_steps[OF assms(1)])
  have "set issues' \<subseteq> set (se_issues (ag_selection a))" unfolding se by (rule select_all_ok(2))
  with sub' assms(2) have i': "issues' = []" by simp
  with placed_from_start(3)[OF pl] sub have "co_issues ?col = []" by simp
  with col have conf: "co_conflicted ?col = []" unfolding collected_ok_def by blast
  show "collected_ok vs ?col" "co_conflicted ?col = []" by (rule col conf)+
  show "placed_ok bound profile [] (co_unique ?col) ?l" "unplaced_ok [] (co_unique ?col) ([], ?l)"
    using placed_from_start[OF pl] by (simp_all add: conf i')
  from place_all_total[OF pl[unfolded conf]] i' have "placed_total ?l = rows_total (co_unique ?col)"
    by (simp add: placed_total_def rows_total_def comp_def split_def)
  with rows_counted[OF col conf] show "placed_total ?l = length vs" by simp
qed

lemma given_is_placed:
  assumes parts: "aggregate_parts bound (JList vs) profile = Inr a" and none: "ag_issues a = []" and v: "v \<in> set vs"
  shows "\<exists>w \<in> set vs. \<exists>d. validate_attempt v = Inr (v, d) \<and> validate_attempt w = Inr (w, d) \<and> attempt_id w = attempt_id v \<and>
      misplaced bound profile w = Inr None \<and>
      (w, length (filter (\<lambda>u. attempt_id u = attempt_id v) vs)) \<in> set (placed_at (ag_logical a) (record_key w))"
proof -
  note f = no_issues[OF parts none]
  let ?col = "ag_collected a" and ?l = "ag_logical a"
  from f(1) v f(2) obtain row where m: "map_of (co_unique ?col) (attempt_id v) = Some row" and val: "validate_attempt v = Inr (v, at_digest row)"
    unfolding collected_ok_def delivered_ok_def by fastforce
  then have row: "attempt_id (at_record row) = attempt_id v" "at_record row \<in> set vs"
      "validate_attempt (at_record row) = Inr (at_record row, at_digest row)"
      "at_count row = length (filter (\<lambda>u. attempt_id u = attempt_id v) vs)"
    using f(1,2) by (auto simp: collected_ok_def rows_ok_def counted_ok_def)
  from m have "row \<in> snd ` set (co_unique ?col)" by (force dest: map_of_SomeD)
  with f(4) have mem: "(at_record row, at_count row) \<in> set (placed_at ?l (record_key (at_record row)))"
    by (auto simp: unplaced_ok_def row_handled_def)
  with f(3) have "misplaced bound profile (at_record row) = Inr None" unfolding placed_ok_def row_placed_def by blast
  with mem row val show ?thesis by auto
qed

lemma placed_is_planned:
  assumes parts: "aggregate_parts bound (JList vs) profile = Inr a" and none: "ag_issues a = []" and "placed_at (ag_logical a) k \<noteq> []"
  shows "k \<in> set (map fst (planned_keys bound))" "fst (fst k) = ''candidate'' \<or> fst (fst k) = ''baseline''"
proof -
  note f = no_issues[OF parts none]
  from assms(3) obtain rn where "rn \<in> set (placed_at (ag_logical a) k)" by (cases "placed_at (ag_logical a) k") auto
  with f(3) have "row_placed bound profile [] (co_unique (ag_collected a)) k rn" unfolding placed_ok_def by blast
  then obtain r i row where r: "record_key r = k" "misplaced bound profile r = Inr None" "(i, row) \<in> set (co_unique (ag_collected a))" "at_record row = r"
    by (auto simp: row_placed_def)
  with f(1) have "validate_attempt r = Inr (r, at_digest row)" by (auto simp: collected_ok_def rows_ok_def)
  from attempt_variant[OF this] r(1) show "fst (fst k) = ''candidate'' \<or> fst (fst k) = ''baseline''" by simp
  obtain entry where "map_of (planned_keys bound) (record_key r) = Some entry" by (rule well_placed[OF r(2)])
  then show "k \<in> set (map fst (planned_keys bound))" using r(1) by (force dest: map_of_SomeD)
qed

text \<open>C35.
  No attempt is lost without an issue.  If the document reports no integrity failure, then no two contents
  were given under one identifier, every attempt given stands at its position in the plan, with all its
  deliveries, and the attempts counted for the two variants are as many as were given.
\<close>

theorem no_attempt_lost:
  assumes "aggregate_validated bound (JList vs) profile = Inr doc" and "jget doc ''integrity_failure'' = JBool False"
  shows "\<exists>a. aggregate_parts bound (JList vs) profile = Inr a \<and>
    (\<forall>v \<in> set vs. \<exists>w \<in> set vs. \<exists>d. validate_attempt v = Inr (v, d) \<and> validate_attempt w = Inr (w, d) \<and> attempt_id w = attempt_id v \<and>
      misplaced bound profile w = Inr None \<and>
      (w, length (filter (\<lambda>u. attempt_id u = attempt_id v) vs)) \<in> set (placed_at (ag_logical a) (record_key w))) \<and>
    bucket_at (ta_counts (ag_tally a)) (''variant'', ''candidate'', []) ''attempts'' +
    bucket_at (ta_counts (ag_tally a)) (''variant'', ''baseline'', []) ''attempts'' = int (length vs)"
proof -
  obtain a where parts: "aggregate_parts bound (JList vs) profile = Inr a"
    and flag: "jget doc ''integrity_failure'' = JBool (ag_issues a \<noteq> [])" by (rule document_flags[OF assms(1)])
  from flag assms(2) have none: "ag_issues a = []" by simp
  note f = no_issues[OF parts none] and planned = placed_is_planned[OF parts none]
  let ?l = "ag_logical a" and ?ks = "map fst (planned_keys bound)"
  let ?g = "\<lambda>k. int (sum_list (map snd (placed_at ?l k)))"
  have view: "ag_view a = view_of bound ?l (ag_selection a)" by (rule aggregate_steps[OF parts])
  have scope: "scope_positions bound (planned_keys bound) (''variant'', var, []) = filter (\<lambda>k. fst (fst k) = var) ?ks" for var
    unfolding scope_positions_def by (intro filter_cong refl) (auto simp: bucket_keys_def Let_def split: prod.splits)
  have count: "bucket_at (ta_counts (ag_tally a)) (''variant'', var, []) ''attempts'' = (\<Sum>k\<leftarrow>filter (\<lambda>k. fst (fst k) = var) ?ks. ?g k)" for var
    unfolding aggregate_tables(1)[OF parts] scope attempts_of_position by (simp add: view view_parts)
  have nonzero: "?g k \<noteq> 0 \<Longrightarrow> placed_at ?l k \<noteq> []" for k by auto
  have "(\<Sum>k\<leftarrow>filter (\<lambda>k. fst (fst k) = ''candidate'') ?ks. ?g k) + (\<Sum>k\<leftarrow>filter (\<lambda>k. fst (fst k) = ''baseline'') ?ks. ?g k) = (\<Sum>k\<leftarrow>?ks. ?g k)"
    by (rule filter_two) (use planned(2)[OF nonzero] in simp_all)
  also have "\<dots> = int (\<Sum>k\<leftarrow>?ks. sum_list (map snd (placed_at ?l k)))" by (simp add: sum_list_int del: map_map)
  also have "(\<Sum>k\<leftarrow>?ks. sum_list (map snd (placed_at ?l k))) = placed_total ?l"
    by (rule placed_total_keys) (use f(3) distinct_planned planned(1) in \<open>simp_all add: placed_ok_def\<close>)
  finally show ?thesis using parts given_is_placed[OF parts none] by (auto simp: count f(5))
qed

end
