(* ===== verification/Run_Decision.thy ===== *)
theory Run_Decision
  imports Aggregation_Safety Policy_Props
begin

text \<open>
  From the stored attempts of a run to its decision (\<open>_aggregate_in_tx\<close> and \<open>_decision_from_aggregate\<close> of
  \<open>src/src/gah/run_evidence.py\<close>): the attempts are aggregated, the aggregation is dated by the oldest
  observation, and the metrics are decided in parts of at most 100, the first of which carries the flags.
  The statements of the transaction that write the results and put the run on hold are left out; they do
  not change what is returned.  The warning of the budget and its basis are arguments.
\<close>

section \<open>The code\<close>

datatype evidence_error = EvidenceError string

abbreviation DECISION_UNAVAILABLE :: evidence_error where
  "DECISION_UNAVAILABLE \<equiv> EvidenceError ''DECISION_UNAVAILABLE''"

definition walk_json :: "json \<Rightarrow> evidence_error + string" where
  "walk_json v = on_error (plain_canonical (ContractError ''INVALID_EVIDENCE'') v) (\<lambda>e. case e of ContractError c \<Rightarrow> EvidenceError c)"

text \<open>When an attempt was observed.\<close>

definition observed_time :: "json \<Rightarrow> int" where
  "observed_time attempt = (if jget attempt ''finished_at'' \<noteq> JNull then int_of (jget attempt ''finished_at'') else int_of (jget attempt ''started_at''))"

definition aggregate_in_tx :: "(string list \<Rightarrow> string list) \<Rightarrow> json \<Rightarrow> json \<Rightarrow> json \<Rightarrow> json list \<Rightarrow> int \<Rightarrow> int \<Rightarrow> evidence_error + json" where
  "aggregate_in_tx order bound profile base_doc attempts started now =
    (let observed_times = map observed_time attempts in
     ebind (guard (list_all (\<lambda>t. t \<le> now) observed_times) (EvidenceError ''FUTURE_ATTEMPT'')) (\<lambda>_.
     ebind (on_error (aggregate_uncached order bound (JList attempts) profile base_doc) (\<lambda>_. EvidenceError ''AGGREGATION_INVALID'')) (\<lambda>result.
     let result = jset result ''observed_at'' (JInt (if observed_times = [] then started else Min (set observed_times))) in
     ebind (walk_json result) (\<lambda>raw.
     Inr (jset (jset result ''aggregate_digest'' (JStr (sha256_hex raw))) ''ci_eligible'' (JBool False))))))"

definition selected_kinds :: "json \<Rightarrow> json list" where
  "selected_kinds bound = concat (map (\<lambda>control.
     if jget control ''control_id'' \<in> set (jitems (jget bound ''selected_controls''))
     then map (\<lambda>obligation. jget obligation ''kind'') (jitems (jget control ''obligations'')) else [])
     (jitems (jget (jget bound ''registry'') ''controls'')))"

definition flag_names :: "string list" where
  "flag_names = [''required_missing'', ''critical_missing'', ''integrity_failure'', ''forbidden_violation'', ''critical_violation'']"

text \<open>The request for the metrics from position \<open>100 * i\<close> on.\<close>

definition part_request :: "json \<Rightarrow> json \<Rightarrow> string \<Rightarrow> bool \<Rightarrow> int \<Rightarrow> nat \<Rightarrow> json" where
  "part_request bound aggregate_value target warn now i = JObj
    ([(''schema_version'', JInt 1), (''request_id'', JStr (''decision-part-'' @ show_nat i)), (''target_digest'', JStr target),
      (''contract_digest'', jget (jget (jget bound ''manifest'') ''contract_ref'') ''digest''), (''purpose'', JStr ''component_validation''),
      (''observed_at'', jget aggregate_value ''observed_at''), (''assessed_at'', JInt now),
      (''metrics'', JList (take 100 (drop (100 * i) (jitems (jget aggregate_value ''metrics'')))))] @
     map (\<lambda>f. (f, if i = 0 then jget aggregate_value f else JBool False)) flag_names @ [(''warning'', JBool (i = 0 \<and> warn))])"

definition part_decision :: "json \<Rightarrow> json \<Rightarrow> string \<Rightarrow> bool \<Rightarrow> int \<Rightarrow> nat \<Rightarrow> evidence_error + json" where
  "part_decision bound aggregate_value target warn now i =
    (let request = part_request bound aggregate_value target warn now i in
     on_error (if jitems (jget aggregate_value ''metrics'') \<noteq> [] then assess request else assess_constraint_events request)
       (\<lambda>_. DECISION_UNAVAILABLE))"

definition constraint_reason :: json where
  "constraint_reason = JObj [(''code'', JStr ''constraint_violation''), (''state'', JStr ''DEGRADED''), (''metric_id'', JNull)]"

definition failed_checks :: "json \<Rightarrow> int" where
  "failed_checks aggregate_value = int_of (jget (jget (jget (jget aggregate_value ''counts'') ''variant'') ''candidate'') ''constraint_fail'')"

definition visit_reason :: "(string \<times> json) list \<Rightarrow> json \<Rightarrow> evidence_error + (string \<times> json) list" where
  "visit_reason unique reason = ebind (walk_json reason) (\<lambda>raw. Inr (AList.update (sha256_hex raw) reason unique))"

text \<open>\<open>_REASON_PRIORITY\<close>; the states are those of decisions.\<close>

definition reason_priority :: "json \<Rightarrow> nat" where
  "reason_priority reason = length (takeWhile (\<lambda>s. JStr s \<noteq> jget reason ''state'') [''HOLD'', ''DEGRADED'', ''UNKNOWN'', ''WARNING'', ''HEALTHY''])"

definition decision_reason_order :: "json \<Rightarrow> nat \<times> string \<times> string" where
  "decision_reason_order reason = (reason_priority reason, str_of (jget reason ''code''),
     if jget reason ''metric_id'' = JNull then [] else str_of (jget reason ''metric_id''))"

definition decision_from_aggregate :: "json \<Rightarrow> json \<Rightarrow> int \<Rightarrow> bool \<Rightarrow> json option \<Rightarrow> evidence_error + json" where
  "decision_from_aggregate bound aggregate_value now warn basis =
    (let ms = jitems (jget aggregate_value ''metrics''); manifest = jget bound ''manifest'' in
     ebind (guard (is_list (jget aggregate_value ''metrics'')) DECISION_UNAVAILABLE) (\<lambda>_.
     ebind (guard (ms \<noteq> [] \<or> set (selected_kinds bound) = {JStr ''constraint''}) DECISION_UNAVAILABLE) (\<lambda>_.
     ebind (walk_json (jget manifest ''target_refs'')) (\<lambda>raw.
     ebind (emap (part_decision bound aggregate_value (sha256_hex raw) warn now) [0..<(max 1 (length ms) + 99) div 100]) (\<lambda>components.
     let reasons = concat (map (\<lambda>c. jitems (jget c ''reasons'')) components) @ (if failed_checks aggregate_value > 0 then [constraint_reason] else []) in
     ebind (efold visit_reason [] reasons) (\<lambda>unique.
     let reasons = sort_key decision_reason_order (map snd unique) in
     Inr (JObj
      ([(''schema_version'', JInt 1), (''kind'', JStr ''run_decision''), (''run_id'', jget manifest ''run_id''),
        (''aggregate_digest'', jget aggregate_value ''aggregate_digest''), (''assessed_at'', JInt now), (''purpose'', JStr ''component_validation''),
        (''assurance'', case reasons of [] \<Rightarrow> JStr ''HEALTHY'' | r # _ \<Rightarrow> jget r ''state''),
        (''metrics'', JList (concat (map (\<lambda>c. jitems (jget c ''metrics'')) components))), (''metric_scopes'', jget aggregate_value ''metric_scopes''),
        (''reasons'', JList reasons), (''components'', JList components), (''ci_eligible'', JBool False)] @
       (case basis of None \<Rightarrow> [] | Some b \<Rightarrow> [(''budget_warning'', b)])))))))))"

text \<open>The decision of \<open>finalize\<close> for a run that has none yet.\<close>

definition evaluate_run :: "(string list \<Rightarrow> string list) \<Rightarrow> json \<Rightarrow> json \<Rightarrow> json \<Rightarrow> json list \<Rightarrow> int \<Rightarrow> int \<Rightarrow> bool \<Rightarrow> json option \<Rightarrow>
    evidence_error + json" where
  "evaluate_run order bound profile base_doc attempts started now warn basis =
    ebind (aggregate_in_tx order bound profile base_doc attempts started now) (\<lambda>aggregate_value.
    decision_from_aggregate bound aggregate_value now warn basis)"

section \<open>A healthy run\<close>

lemma read_request_parts:
  assumes "read_decision_request event_only v = Inr q"
  shows "efold require_metric [] (jitems (jget v ''metrics'')) = Inr (metrics q)"
    "jget v ''required_missing'' = JBool (required_missing q)" "jget v ''integrity_failure'' = JBool (integrity_failure q)"
    "jget v ''critical_missing'' = JBool (critical_missing q)"
    "jget v ''forbidden_violation'' = JBool (forbidden_violation q)" "jget v ''critical_violation'' = JBool (critical_violation q)"
    "jget v ''warning'' = JBool (warning q)" "jget v ''observed_at'' = JInt (evidence_at q)" "jget v ''assessed_at'' = JInt (assessed_at q)"
proof -
  have bool: "require_bool x = Inr b \<Longrightarrow> x = JBool b" for x b by (cases x) (auto simp: require_bool_def result_iff)
  have time: "require_timestamp x = Inr t \<Longrightarrow> x = JInt t" for x t by (cases x) (auto simp: require_timestamp_def result_iff)
  show "efold require_metric [] (jitems (jget v ''metrics'')) = Inr (metrics q)"
    "jget v ''required_missing'' = JBool (required_missing q)" "jget v ''integrity_failure'' = JBool (integrity_failure q)"
    "jget v ''critical_missing'' = JBool (critical_missing q)"
    "jget v ''forbidden_violation'' = JBool (forbidden_violation q)" "jget v ''critical_violation'' = JBool (critical_violation q)"
    "jget v ''warning'' = JBool (warning q)" "jget v ''observed_at'' = JInt (evidence_at q)" "jget v ''assessed_at'' = JInt (assessed_at q)"
    using assms by (auto simp: read_decision_request_def result_iff dest!: bool time)
qed

text \<open>What an assessment without reasons says of its request.\<close>

definition request_clean :: "json \<Rightarrow> bool" where
  "request_clean v \<longleftrightarrow> (\<forall>f \<in> set (''warning'' # flag_names). jget v f = JBool False) \<and>
     (\<exists>t now. jget v ''observed_at'' = JInt t \<and> jget v ''assessed_at'' = JInt now \<and> t \<le> now \<and> now \<le> t + MAX_AGE) \<and>
     (\<exists>ms. efold require_metric [] (jitems (jget v ''metrics'')) = Inr ms \<and> list_all metric_met ms)"

lemma assessed_clean:
  assumes "assess_with event_only v = Inr c" and "jitems (jget c ''reasons'') = []"
  shows "request_clean v"
proof -
  from assms(1) obtain q d where q: "read_decision_request event_only v = Inr q" and d: "judge q = Inr d"
    and c: "jget c ''reasons'' = JList (map reason_dict (decision_reasons d))"
    by (auto simp: assess_with_def ebind_eq_Inr jget_def)
  from c assms(2) have "decision_reasons d = []" by simp
  with no_reasons_iff[OF q d] read_request_parts[OF q] show ?thesis
    by (auto simp: request_clean_def flag_names_def)
qed

text \<open>The reasons of an assessment are never HEALTHY.\<close>

lemma assessed_reason_state:
  assumes "assess_with event_only v = Inr c" and "r \<in> set (jitems (jget c ''reasons''))"
  shows "jget r ''state'' \<noteq> JStr ''HEALTHY''"
proof -
  from assms obtain q d x where "judge q = Inr d" "x \<in> set (decision_reasons d)" "r = reason_dict x"
    by (auto simp: assess_with_def ebind_eq_Inr jget_def)
  with reasons_never_healthy[of q d x] show ?thesis by (cases "state x") (auto simp: reason_dict_def jget_def)
qed

lemma visit_reason_step:
  assumes "visit_reason unique r = Inr u"
  shows "snd ` set u \<subseteq> insert r (snd ` set unique)" "u \<noteq> []"
proof -
  from assms obtain raw where u: "u = AList.update (sha256_hex raw) r unique" by (auto simp: visit_reason_def ebind_eq_Inr)
  show "snd ` set u \<subseteq> insert r (snd ` set unique)" using set_update_subset[of "sha256_hex raw" r unique] by (force simp: u)
  show "u \<noteq> []" unfolding u by (cases unique) (auto split: if_splits)
qed

lemma visit_reasons:
  "efold visit_reason unique rs = Inr unique' \<Longrightarrow>
   snd ` set unique' \<subseteq> snd ` set unique \<union> set rs \<and> (unique' = [] \<longrightarrow> unique = [] \<and> rs = [])"
proof (induction rs arbitrary: unique)
  case (Cons r rs)
  then obtain u where u: "visit_reason unique r = Inr u" and rest: "efold visit_reason u rs = Inr unique'" by (auto simp: ebind_eq_Inr)
  note step = visit_reason_step[OF u] and rest = Cons.IH[OF rest]
  have "snd ` set unique' \<subseteq> snd ` set unique \<union> set (r # rs)" using step(1) rest by (simp add: subset_iff) blast
  then show ?case using step(2) rest by auto
qed simp

lemma emap_nth: "emap f xs = Inr ys \<Longrightarrow> i < length xs \<Longrightarrow> f (xs ! i) = Inr (ys ! i)"
proof (induction xs arbitrary: ys i)
  case (Cons x xs)
  then show ?case by (cases i) (auto simp: ebind_eq_Inr)
qed simp

lemma jget_append: "jget (JObj (kvs @ kvs')) k = (case map_of kvs k of Some v \<Rightarrow> v | None \<Rightarrow> jget (JObj kvs') k)"
  by (simp add: jget_def map_add_def split: option.split)

text \<open>What a decision HEALTHY of a run says of the aggregation.\<close>

lemma healthy_decision:
  assumes dec: "decision_from_aggregate bound agg now warn basis = Inr d" and healthy: "jget d ''assurance'' = JStr ''HEALTHY''"
  shows "failed_checks agg \<le> 0" and "\<And>i. i < (max 1 (length (jitems (jget agg ''metrics''))) + 99) div 100 \<Longrightarrow>
    \<exists>target. request_clean (part_request bound agg target warn now i)"
proof -
  let ?ms = "jitems (jget agg ''metrics'')" and ?n = "(max 1 (length (jitems (jget agg ''metrics''))) + 99) div 100"
  from dec obtain raw cs unique where
    cs: "emap (part_decision bound agg (sha256_hex raw) warn now) [0..<?n] = Inr cs"
    and u: "efold visit_reason [] (concat (map (\<lambda>c. jitems (jget c ''reasons'')) cs) @ (if failed_checks agg > 0 then [constraint_reason] else [])) = Inr unique"
    and d: "jget d ''assurance'' = (case sort_key decision_reason_order (map snd unique) of [] \<Rightarrow> JStr ''HEALTHY'' | r # _ \<Rightarrow> jget r ''state'')"
    unfolding decision_from_aggregate_def Let_def ebind_eq_Inr by (auto simp: jget_append jget_def)
  let ?rs = "concat (map (\<lambda>c. jitems (jget c ''reasons'')) cs) @ (if failed_checks agg > 0 then [constraint_reason] else [])"
  have part: "\<exists>ev. assess_with ev (part_request bound agg (sha256_hex raw) warn now i) = Inr (cs ! i)" if "i < ?n" for i
  proof -
    have "part_decision bound agg (sha256_hex raw) warn now i = Inr (cs ! i)" using emap_nth[OF cs, of i] that by simp
    then show ?thesis
      by (cases "?ms = []") (auto simp: part_decision_def Let_def on_error_eq_Inr assess_def assess_constraint_events_def)
  qed
  have len: "length cs = ?n" using emap_length[OF cs] by simp
  have states: "jget r ''state'' \<noteq> JStr ''HEALTHY''" if "r \<in> set ?rs" for r
  proof (cases "r = constraint_reason")
    case True then show ?thesis by (simp add: constraint_reason_def jget_def)
  next
    case False
    with that obtain c where "c \<in> set cs" "r \<in> set (jitems (jget c ''reasons''))" by (auto split: if_splits)
    with part len show ?thesis by (metis in_set_conv_nth assessed_reason_state)
  qed
  have "unique = []"
  proof (rule ccontr)
    assume "unique \<noteq> []"
    then have "sort_key decision_reason_order (map snd unique) \<noteq> []" by (metis length_0_conv length_map length_sort)
    then obtain r rest where r: "sort_key decision_reason_order (map snd unique) = r # rest" by (cases "sort_key decision_reason_order (map snd unique)") auto
    then have "r \<in> snd ` set unique" by (metis list.set_intros(1) set_map set_sort)
    with visit_reasons[OF u] have "r \<in> set ?rs" by auto
    with states d healthy r show False by auto
  qed
  with visit_reasons[OF u] have none: "?rs = []" by blast
  then show "failed_checks agg \<le> 0" by (auto split: if_splits)
  show "\<exists>target. request_clean (part_request bound agg target warn now i)" if i: "i < ?n" for i
  proof -
    have "cs ! i \<in> set cs" using i len by simp
    with none have "jitems (jget (cs ! i) ''reasons'') = []" by auto
    with part[OF i] assessed_clean show ?thesis by blast
  qed
qed

lemma require_metric_appends: "require_metric seen v = Inr s \<Longrightarrow> \<exists>x. s = seen @ [x]"
  by (auto simp: require_metric_def ebind_eq_Inr)

lemma require_metrics_append: "efold require_metric seen vs = Inr ms \<Longrightarrow> set seen \<subseteq> set ms"
proof (induction vs arbitrary: seen)
  case (Cons v vs)
  then obtain s where s: "require_metric seen v = Inr s" "efold require_metric s vs = Inr ms" by (auto simp: ebind_eq_Inr)
  from Cons.IH[OF s(2)] require_metric_appends[OF s(1)] show ?case by auto
qed simp

lemma metrics_read:
  "efold require_metric seen vs = Inr ms \<Longrightarrow> m \<in> set vs \<Longrightarrow>
   \<exists>seen' x. require_metric seen' m = Inr (seen' @ [x]) \<and> x \<in> set ms"
proof (induction vs arbitrary: seen)
  case (Cons v vs)
  then obtain s' where s': "require_metric seen v = Inr s'" "efold require_metric s' vs = Inr ms" by (auto simp: ebind_eq_Inr)
  from require_metric_appends[OF s'(1)] obtain x where x: "s' = seen @ [x]" by blast
  show ?case
  proof (cases "m = v")
    case True then show ?thesis using s' x require_metrics_append[OF s'(2)] by auto
  next
    case False then show ?thesis using Cons.IH[OF s'(2)] Cons.prems(2) by auto
  qed
qed simp

lemma in_part:
  assumes "m \<in> set ms"
  obtains i where "i < (max 1 (length ms) + 99) div 100" "m \<in> set (take 100 (drop (100 * i) ms))"
proof -
  from assms obtain j where j: "j < length ms" "m = ms ! j" by (auto simp: in_set_conv_nth)
  let ?p = "take 100 (drop (100 * (j div 100)) ms)"
  have "j mod 100 < length ms - 100 * (j div 100)" using j(1) mult_div_mod_eq[of 100 j] by linarith
  then have "j mod 100 < length ?p" by simp
  moreover have "?p ! (j mod 100) = m" using j by simp
  ultimately have "m \<in> set ?p" by (metis nth_mem)
  moreover have "(j + 100) div 100 \<le> (max 1 (length ms) + 99) div 100" by (rule div_le_mono) (use j(1) in simp)
  ultimately show ?thesis by (intro that[of "j div 100"]) simp_all
qed

lemma part_request_parts:
  "jget (part_request bound agg target warn now i) ''metrics'' = JList (take 100 (drop (100 * i) (jitems (jget agg ''metrics''))))"
  "jget (part_request bound agg target warn now i) ''observed_at'' = jget agg ''observed_at''"
  "jget (part_request bound agg target warn now i) ''assessed_at'' = JInt now"
  "jget (part_request bound agg target warn now i) ''warning'' = JBool (i = 0 \<and> warn)"
  "f \<in> set flag_names \<Longrightarrow> jget (part_request bound agg target warn now 0) f = jget agg f"
  by (auto simp: part_request_def jget_def flag_names_def)

text \<open>The aggregation of the transaction, from its document.\<close>

lemma aggregate_in_tx_parts:
  assumes "aggregate_in_tx order bound profile base_doc vs started now = Inr agg"
  obtains bound' doc where "rebind order bound base_doc = Inr bound'" "aggregate_validated bound' (JList vs) profile = Inr doc"
    "\<forall>v \<in> set vs. observed_time v \<le> now" "jget agg ''observed_at'' = JInt (if vs = [] then started else Min (set (map observed_time vs)))"
    "\<And>f. f \<in> set (''metrics'' # ''counts'' # flag_names) \<Longrightarrow> jget agg f = jget doc f"
proof -
  let ?t = "if vs = [] then started else Min (set (map observed_time vs))"
  from assms obtain doc raw where un: "aggregate_uncached order bound (JList vs) profile base_doc = Inr doc"
    and times: "\<forall>t \<in> set (map observed_time vs). t \<le> now"
    and agg: "agg = jset (jset (jset doc ''observed_at'' (JInt ?t)) ''aggregate_digest'' (JStr (sha256_hex raw))) ''ci_eligible'' (JBool False)"
    unfolding aggregate_in_tx_def Let_def ebind_eq_Inr guard_eq_Inr on_error_eq_Inr by (auto simp: list_all_iff simp del: set_map)
  from times have now: "\<forall>v \<in> set vs. observed_time v \<le> now" by simp
  from un obtain bound' where r: "rebind order bound base_doc = Inr bound'" "aggregate_validated bound' (JList vs) profile = Inr doc"
    unfolding aggregate_uncached_def ebind_eq_Inr by blast
  obtain a where doc: "doc = aggregation_json bound' profile a" by (rule document_flags[OF r(2)])
  then have obj: "is_obj doc" "is_obj (jset doc k x)" "is_obj (jset (jset doc k x) k' x')" for k x k' x'
    by (simp_all add: aggregation_json_def Let_def)
  show ?thesis
    by (rule that[OF r now]) (use agg obj in \<open>auto simp: jget_jset flag_names_def simp del: set_map\<close>)
qed

text \<open>C31.
  A run that is decided HEALTHY has its evidence.  Then there is no warning of the budget and the
  aggregation, of the bundle bound again, has none of the five adverse flags and no failed check of the
  candidate; every attempt stored was observed in the last day; every position of the plan whose obligation
  is required has a definitive attempt from within the run with a definite result; and every metric, in
  whichever part it was assessed, was measured and meets its thresholds.
\<close>

theorem healthy_run_is_proven:
  assumes "evaluate_run order bound profile base_doc vs started now warn basis = Inr d"
    and "jget d ''assurance'' = JStr ''HEALTHY''"
  shows "\<exists>bound' doc. rebind order bound base_doc = Inr bound' \<and> aggregate_validated bound' (JList vs) profile = Inr doc \<and>
    \<not> warn \<and> (\<forall>f \<in> set flag_names. jget doc f = JBool False) \<and> failed_checks doc \<le> 0 \<and>
    (\<forall>v \<in> set vs. now - 86400 \<le> observed_time v \<and> observed_time v \<le> now) \<and>
    (\<forall>k \<in> set (map fst (planned_keys bound')). is_required (obligation_of bound' (fst (snd (fst k)))) \<longrightarrow>
      (\<exists>r \<in> set vs. record_key r = k \<and> attempt_in_window bound' r \<and> definitive r \<and> definite (jget r ''result''))) \<and>
    (\<forall>m \<in> set (jitems (jget doc ''metrics'')). \<exists>seen x. require_metric seen m = Inr (seen @ [x]) \<and> metric_met x)"
proof -
  from assms(1) obtain agg where agg: "aggregate_in_tx order bound profile base_doc vs started now = Inr agg"
    and dec: "decision_from_aggregate bound agg now warn basis = Inr d" by (auto simp: evaluate_run_def ebind_eq_Inr)
  obtain bound' doc where r: "rebind order bound base_doc = Inr bound'" "aggregate_validated bound' (JList vs) profile = Inr doc"
    and past: "\<forall>v \<in> set vs. observed_time v \<le> now"
    and obs: "jget agg ''observed_at'' = JInt (if vs = [] then started else Min (set (map observed_time vs)))"
    and same: "\<And>f. f \<in> set (''metrics'' # ''counts'' # flag_names) \<Longrightarrow> jget agg f = jget doc f"
    by (rule aggregate_in_tx_parts[OF agg]) blast
  note healthy = healthy_decision[OF dec assms(2)]
  obtain target where first: "request_clean (part_request bound agg target warn now 0)" using healthy(2)[of 0] by (auto simp: div_greater_zero_iff)
  then have warn: "\<not> warn" and flags: "\<forall>f \<in> set flag_names. jget doc f = JBool False"
    using same by (auto simp: request_clean_def part_request_parts)
  have fresh: "now \<le> observed_time v + 86400" if "v \<in> set vs" for v
  proof -
    from that have "vs \<noteq> []" and "Min (set (map observed_time vs)) \<le> observed_time v" by auto
    with first obs show ?thesis by (auto simp: request_clean_def part_request_parts MAX_AGE_def simp del: set_map)
  qed
  have met: "\<exists>seen x. require_metric seen m = Inr (seen @ [x]) \<and> metric_met x" if "m \<in> set (jitems (jget doc ''metrics''))" for m
  proof -
    from that same[of "''metrics''"] have "m \<in> set (jitems (jget agg ''metrics''))" by simp
    then obtain i where i: "i < (max 1 (length (jitems (jget agg ''metrics''))) + 99) div 100"
      "m \<in> set (take 100 (drop (100 * i) (jitems (jget agg ''metrics''))))" by (rule in_part)
    from healthy(2)[OF i(1)] obtain t ms where ms: "efold require_metric [] (take 100 (drop (100 * i) (jitems (jget agg ''metrics'')))) = Inr ms"
      "list_all metric_met ms" by (auto simp: request_clean_def part_request_parts)
    from metrics_read[OF ms(1) i(2)] ms(2) show ?thesis by (auto simp: list_all_iff)
  qed
  have "failed_checks doc \<le> 0" using healthy(1) same[of "''counts''"] by (simp add: failed_checks_def)
  moreover have "\<forall>k \<in> set (map fst (planned_keys bound')). is_required (obligation_of bound' (fst (snd (fst k)))) \<longrightarrow>
      (\<exists>r \<in> set vs. record_key r = k \<and> attempt_in_window bound' r \<and> definitive r \<and> definite (jget r ''result''))"
  proof (intro ballI impI)
    have complete: "jget doc ''required_missing'' = JBool False" using flags by (simp add: flag_names_def)
    fix k assume "k \<in> set (map fst (planned_keys bound'))" "is_required (obligation_of bound' (fst (snd (fst k))))"
    from required_evidence[OF r(2) complete this]
    show "\<exists>r \<in> set vs. record_key r = k \<and> attempt_in_window bound' r \<and> definitive r \<and> definite (jget r ''result'')" by blast
  qed
  moreover have "\<forall>v \<in> set vs. now - 86400 \<le> observed_time v \<and> observed_time v \<le> now" using fresh past by fastforce
  moreover have "\<forall>m \<in> set (jitems (jget doc ''metrics'')). \<exists>seen x. require_metric seen m = Inr (seen @ [x]) \<and> metric_met x"
    using met by blast
  ultimately show ?thesis using r warn flags by (intro exI[of _ bound'] exI[of _ doc] conjI) assumption+
qed

end
