(* ===== verification/Run_Metrics.thy ===== *)
theory Run_Metrics
  imports Run_Decision
begin

text \<open>
  The metrics of an aggregation are admissible for the decision: their numerators and denominators are
  sums over the plan, so they are shares, and their identifiers and names have the form the decision
  demands.
\<close>

lemma metric_values_share:
  assumes "table_counts n b" and "(name, x, y) \<in> set (metric_values kind b)"
  shows "0 \<le> x" "x \<le> y" "y \<le> int n" "name \<in> metric_name_text ` UNIV"
proof -
  have nonneg: "0 \<le> b f" for f using assms(1) by (simp add: table_counts_def)
  have le: "b ''planned'' = int n" "b ''planned'' = b ''complete'' + b ''missing'' + b ''error'' + b ''conflict''"
    "b ''tp'' + b ''fn'' + b ''fp'' + b ''tn'' \<le> b ''complete''" "b ''killed'' + b ''survived'' + b ''no_coverage'' \<le> b ''complete''"
    "b ''asr_deviation'' \<le> b ''asr_positive''" "b ''asr_positive'' \<le> b ''complete''"
    using assms(1) by (simp_all add: table_counts_def)
  note facts = le nonneg[of "''missing''"] nonneg[of "''error''"] nonneg[of "''conflict''"] nonneg[of "''tp''"] nonneg[of "''fn''"]
    nonneg[of "''fp''"] nonneg[of "''tn''"] nonneg[of "''killed''"] nonneg[of "''survived''"] nonneg[of "''no_coverage''"] nonneg[of "''asr_deviation''"]
  from assms(2) consider "name = ''recall''" "x = b ''tp''" "y = b ''tp'' + b ''fn''" | "name = ''fnr''" "x = b ''fn''" "y = b ''tp'' + b ''fn''"
    | "name = ''fpr''" "x = b ''fp''" "y = b ''fp'' + b ''tn''" | "name = ''asr''" "x = b ''asr_deviation''" "y = b ''asr_positive''"
    | "name = ''mutation_score''" "x = b ''killed''" "y = b ''killed'' + b ''survived'' + b ''no_coverage''"
    by (auto simp: metric_values_def split: if_splits)
  then have "0 \<le> x \<and> x \<le> y \<and> y \<le> int n" by cases (use facts in linarith)+
  then show "0 \<le> x" "x \<le> y" "y \<le> int n" by auto
  have "name \<in> {''recall'', ''fnr'', ''fpr'', ''asr'', ''mutation_score''}"
    using assms(2) by (auto simp: metric_values_def split: if_splits)
  moreover have "metric_name_text ` UNIV = {''recall'', ''fnr'', ''fpr'', ''asr'', ''mutation_score''}"
    by (auto simp: image_iff) (metis metric_name_text.simps metric_name.exhaust)+
  ultimately show "name \<in> metric_name_text ` UNIV" by simp
qed

definition share_ok :: "nat \<Rightarrow> agg_metric \<Rightarrow> bool" where
  "share_ok n m \<longleftrightarrow> 0 \<le> am_numerator m \<and> am_numerator m \<le> am_denominator m \<and> am_denominator m \<le> int n"

lemma variant_metrics_ok:
  assumes "\<forall>b \<in> snd ` set counts. \<exists>l \<le> n. table_counts l b" and "(k, m) \<in> set (variant_metrics bound variant counts)"
  shows "share_ok n m \<and> k ! 2 \<in> metric_name_text ` UNIV"
proof -
  from assms(2) update_fold_subset obtain bk b kind name x y where "(bk, b) \<in> set counts" and v: "(name, x, y) \<in> set (metric_values kind b)"
    and k: "k = [fst bk, scope_id (snd (snd bk)), name]" and m: "am_numerator m = x" "am_denominator m = y"
    unfolding variant_metrics_def by (fastforce split: if_splits)
  with assms(1) obtain l where "l \<le> n" "table_counts l b" by force
  with metric_values_share[OF this(2) v] k m show ?thesis by (auto simp: share_ok_def)
qed

lemma parse_metric_name_text: "parse_metric_name (JStr (metric_name_text n)) = Inr n"
  by (cases n) (simp_all add: parse_metric_name_def)

lemma metric_name_text_inj: "metric_name_text n = ''fnr'' \<longleftrightarrow> n = FNR"
  by (cases n) simp_all

lemma agg_metric_id_ok: "decision_id_ok (agg_metric_id scope name)"
proof -
  have "lower_alnum c" if "c \<in> set (take 24 (sha256_hex s))" for c s
    using sha256_hex_chars[of c s] in_set_takeD[OF that] by (auto simp: hex_lower_def lower_alnum_def is_digit_def)
  then show ?thesis by (auto simp: agg_metric_id_def decision_id_ok_def lower_alnum_def is_digit_def list_all_iff sha256_hex_length)
qed

lemma metric_json_accepted:
  assumes "share_ok n m" and "int n \<le> MAX_COUNT" and "k ! 2 = metric_name_text name"
    and "\<And>b. map_of baselines k = Some b \<Longrightarrow> share_ok n b"
    and "agg_metric_id (k ! 0 @ '':'' @ k ! 1) (k ! 2) \<notin> set (map metric_id seen)"
  shows "\<exists>x. require_metric seen (metric_json baselines (k, m)) = Inr (seen @ [x])"
proof -
  let ?v = "metric_json baselines (k, m)"
  have look: "jget ?v ''metric_id'' = JStr (agg_metric_id (k ! 0 @ '':'' @ k ! 1) (k ! 2))" "jget ?v ''name'' = JStr (metric_name_text name)"
    "jget ?v ''critical'' = JBool (am_critical m)" "jget ?v ''numerator'' = JInt (am_numerator m)" "jget ?v ''denominator'' = JInt (am_denominator m)"
    "is_obj ?v" "set (jkeys ?v) = set [''metric_id'', ''name'', ''critical'', ''numerator'', ''denominator'', ''baseline'']"
    by (simp_all add: metric_json_def Let_def jget_def assms(3))
  have share: "require_share ?v = Inr (am_numerator m, am_denominator m)"
    using assms(1,2) by (simp add: require_share_def require_count_def look share_ok_def check_def)
  have "\<exists>x. require_baseline name (jget ?v ''baseline'') = Inr x"
  proof (cases "map_of baselines k")
    case None then show ?thesis by (simp add: metric_json_def Let_def jget_def require_baseline_def)
  next
    case (Some b)
    with assms(4) have ok: "share_ok n b" by blast
    show ?thesis using ok assms(2) Some
      by (auto simp: metric_json_def Let_def jget_def require_baseline_def require_keys_def require_share_def require_count_def check_def
          share_ok_def assms(3) metric_name_text_inj)
  qed
  then obtain base where base: "require_baseline name (jget ?v ''baseline'') = Inr base" by blast
  have keys: "require_keys ?v [''metric_id'', ''name'', ''critical'', ''numerator'', ''denominator'', ''baseline''] = Inr ()"
    unfolding require_keys_def check_def look(7) by (simp add: look(6))
  have id: "require_decision_id (jget ?v ''metric_id'') = Inr (agg_metric_id (k ! 0 @ '':'' @ k ! 1) (k ! 2))"
    by (simp add: look(1) require_decision_id_def check_def agg_metric_id_ok)
  have fresh: "check (agg_metric_id (k ! 0 @ '':'' @ k ! 1) (k ! 2) \<notin> set (map metric_id seen)) = Inr ()" using assms(5) by (simp add: check_def)
  have name: "parse_metric_name (jget ?v ''name'') = Inr name" by (simp add: look(2) parse_metric_name_text)
  have crit: "require_bool (jget ?v ''critical'') = Inr (am_critical m)" by (simp add: look(3) require_bool_def check_def)
  show ?thesis by (simp only: require_metric_def keys id fresh name crit share base ebind_Inr case_prod_conv) blast
qed

text \<open>C36.
  What is aggregated can be decided.  Every metric of an aggregation is accepted by the reader of the
  decision as long as its identifier has not occurred before and the plan has at most 10^12 positions:
  the numerator is at most the denominator in the metric and in its baseline, a false negative rate has no
  baseline, and the names and identifiers are well-formed.
\<close>

theorem metrics_are_decidable:
  assumes "aggregate_validated bound (JList vs) profile = Inr doc" and "int (length (planned_keys bound)) \<le> MAX_COUNT"
    and "m \<in> set (jitems (jget doc ''metrics''))" and "str_of (jget m ''metric_id'') \<notin> set (map metric_id seen)"
  shows "\<exists>x. require_metric seen m = Inr (seen @ [x])"
proof -
  obtain a where parts: "aggregate_parts bound (JList vs) profile = Inr a" and doc: "doc = aggregation_json bound profile a"
    by (rule document_flags[OF assms(1)])
  let ?t = "ta_counts (ag_tally a)" and ?n = "length (planned_keys bound)"
  let ?base = "variant_metrics bound ''baseline'' ?t"
  have tables: "\<forall>b \<in> snd ` set ?t. \<exists>l \<le> ?n. table_counts l b"
  proof
    fix b assume "b \<in> snd ` set ?t"
    then obtain k where that: "(k, b) \<in> set ?t" by auto
    have "bucket_at ?t k = b" using that aggregate_tables(3)[OF parts] by (simp add: bucket_at_def)
    moreover have "length (scope_positions bound (planned_keys bound) k) \<le> ?n"
      unfolding scope_positions_def by (metis length_filter_le length_map)
    ultimately show "\<exists>l \<le> ?n. table_counts l b" using aggregate_table_ok[OF parts, of k] by auto
  qed
  from assms(3) obtain k x where m: "m = metric_json ?base (k, x)" and mem: "(k, x) \<in> set (variant_metrics bound ''candidate'' ?t)"
    by (auto simp: doc aggregation_json_def Let_def jget_def)
  from variant_metrics_ok[OF tables mem] obtain name where ok: "share_ok ?n x" and name: "k ! 2 = metric_name_text name" by auto
  have base: "share_ok ?n b" if "map_of ?base k = Some b" for b
    using variant_metrics_ok[OF tables map_of_SomeD[OF that]] by simp
  have "jget m ''metric_id'' = JStr (agg_metric_id (k ! 0 @ '':'' @ k ! 1) (k ! 2))" by (simp add: m metric_json_def Let_def jget_def)
  with assms(4) metric_json_accepted[OF ok assms(2) name base] show ?thesis by (simp add: m)
qed

end
