(* ===== verification/Run_Binding_Props.thy ===== *)
theory Run_Binding_Props
  imports Run_Binding Registry_Props Policy_Props Corpus_Props
begin

text \<open>
  What a bound plan and a bound run satisfy: the plan covers the selected controls and their
  dependencies, compares like with like, and the run is fixed to its documents by their digests.
\<close>

section \<open>Validators return their argument\<close>

lemma validate_evaluation_contract_Inr: "validate_evaluation_contract c = Inr c' \<Longrightarrow> c' = c"
  unfolding validate_evaluation_contract_def ebind_eq_Inr by blast

lemma validate_run_manifest_Inr: "validate_run_manifest m = Inr m' \<Longrightarrow> m' = m"
  unfolding validate_run_manifest_def ebind_eq_Inr by blast

lemma visit_entries_Inr:
  assumes "efold visit_entry seen es = Inr seen'"
  shows "seen' = seen @ map entry_key es \<and> (distinct seen \<longrightarrow> distinct seen') \<and> (\<forall>e \<in> set es. validate_entry e = Inr ())"
  by (rule efold_collect[OF _ assms]) (auto simp: visit_entry_def ebind_eq_Inr guard_eq_Inr)

lemma validate_trial_plan_Inr:
  assumes "validate_trial_plan p = Inr p'"
  shows "p' = p" "distinct (map entry_key (plan_entries p))" "\<forall>e \<in> set (plan_entries p). validate_entry e = Inr ()"
proof -
  from assms obtain keys where keys: "efold visit_entry [] (plan_entries p) = Inr keys"
    and "Inr p = (Inr p' :: contract_error + json)"
    unfolding validate_trial_plan_def ebind_eq_Inr guard_eq_Inr unit_ex by blast
  with visit_entries_Inr[OF keys] show "p' = p" "distinct (map entry_key (plan_entries p))"
    "\<forall>e \<in> set (plan_entries p). validate_entry e = Inr ()" by auto
qed

lemma enum_Inr [result_iff]: "enum values v = Inr u \<longleftrightarrow> (\<exists>s \<in> set values. v = JStr s)"
  by (cases v) (auto simp: enum_def guard_eq_Inr)

lemma entry_variant:
  assumes "validate_entry e = Inr ()"
  shows "is_variant ''candidate'' e \<noteq> is_variant ''baseline'' e"
proof -
  from assms have "enum variants (jget e ''variant'') = Inr ()"
    unfolding validate_entry_def ebind_eq_Inr unit_ex by blast
  then show ?thesis by (auto simp: enum_Inr variants_def is_variant_def)
qed

section \<open>Controls in scope\<close>

lemma closure_sound:
  assumes "iteration_order order" and "dependency_closure order v w = Inr cs"
  shows "set cs = (registry_rel v)\<^sup>* `` selected_set w"
proof -
  from assms(2) obtain edges selected where graph: "validated_graph order v = Inr edges"
    and selected: "require_selected_ids w = Inr selected" and known: "set selected \<subseteq> fst ` set edges"
    unfolding dependency_closure_def ebind_eq_Inr guard_eq_Inr on_error_eq_Inr unit_ex by blast
  have "fst ` set edges = fst ` set (control_edges v)" using validated_graph_ok[OF assms(1) graph] by (metis list.set_map)
  moreover have "set selected = selected_set w" using require_selected_ids_Inr[OF selected] by simp
  ultimately have "selected_set w \<subseteq> fst ` set (control_edges v)" using known by simp
  from dependency_closure_Inr[OF assms(1) graph selected this] assms(2) show ?thesis by auto
qed

text \<open>The obligations of the selected controls and of those they depend on.\<close>

definition in_scope :: "json \<Rightarrow> json \<Rightarrow> json \<Rightarrow> json \<Rightarrow> bool" where
  "in_scope registry selected control ob \<longleftrightarrow>
     control \<in> set (jitems (jget registry ''controls'')) \<and> ob \<in> set (jitems (jget control ''obligations'')) \<and>
     str_of (jget control ''control_id'') \<in> (registry_rel registry)\<^sup>* `` selected_set selected"

lemma registry_obligations_members:
  "(i, control, ob) \<in> set (registry_obligations registry (Some closure)) \<longleftrightarrow>
    i = jget ob ''obligation_id'' \<and> control \<in> set (jitems (jget registry ''controls'')) \<and>
    ob \<in> set (jitems (jget control ''obligations'')) \<and> str_of (jget control ''control_id'') \<in> set closure"
  by (auto simp: registry_obligations_def)

section \<open>Bound plans\<close>

lemma check_entry_Inr:
  assumes "check_entry obligations stages old_targets expected_targets e = Inr ()"
  shows "\<exists>control ob stage_ids. map_of obligations (jget e ''obligation_id'') = Some (control, ob) \<and>
    map_of stages (jget e ''case_id'') = Some stage_ids \<and> jget e ''stage_ids'' = JList stage_ids \<and>
    jget e ''required'' = jget ob ''required'' \<and> jget e ''event_policy'' = jget ob ''event_policy'' \<and>
    py_eq (jget e ''evaluator_ref'') (jget ob ''evaluator_ref'') \<and>
    (\<not> is_variant ''baseline'' e \<longrightarrow> py_eq (jget e ''target_ref'') (jget control ''target_ref''))"
  using assms by (auto simp: check_entry_def ebind_eq_Inr guard_eq_Inr split: option.splits prod.splits if_splits)

text \<open>
  The group of an entry: with unique keys it has at most one entry of each variant.
\<close>

lemma group_variant:
  assumes "distinct (map entry_key es)" and "e \<in> set es" and "is_variant v e"
  shows "filter (is_variant v) (filter (\<lambda>x. group_key x = group_key e) es) = [e]"
proof -
  have "filter (is_variant v) (filter (\<lambda>x. group_key x = group_key e) es) = filter (\<lambda>x. entry_key x = entry_key e) es"
    using assms(3) by (auto simp: is_variant_def group_key_def entry_key_def intro!: filter_cong)
  then show ?thesis using unique_filter[OF assms(1,2)] by simp
qed

lemma check_group_Inr:
  assumes "check_group mode members = Inr ()"
  shows "filter (is_variant ''baseline'') members \<noteq> [] \<Longrightarrow>
      filter (is_variant ''candidate'') members \<noteq> [] \<and> mode \<noteq> JStr ''not_applicable''"
    and "mode = JStr ''required'' \<Longrightarrow> filter (is_variant ''candidate'') members \<noteq> [] \<Longrightarrow>
      filter (is_variant ''baseline'') members \<noteq> []"
    and "filter (is_variant ''candidate'') members = [c] \<Longrightarrow> filter (is_variant ''baseline'') members = [b] \<Longrightarrow>
      jget c ''stage_ids'' = jget b ''stage_ids'' \<and> py_eq (jget c ''evaluator_ref'') (jget b ''evaluator_ref'')"
  using assms by (auto simp: check_group_def Let_def ebind_eq_Inr guard_eq_Inr)

text \<open>What the binding establishes, before the parts are combined.\<close>

lemma bind_trial_plan_facts:
  assumes "bind_trial_plan_validated order p c r cs selected target_refs ctx = Inr b"
  obtains closure old where "dependency_closure order r selected = Inr closure"
    and "\<forall>e \<in> set (plan_entries p). check_entry (registry_obligations r (Some closure)) (stages_by_case cs) old
      (set (map ref_key (jitems target_refs))) e = Inr ()"
    and "set (map (\<lambda>e. ref_key (jget e ''target_ref'')) (filter (is_variant ''candidate'') (plan_entries p))) =
      set (map ref_key (jitems target_refs))"
    and "list_all (\<lambda>(trial, ids). length (remdups ids) \<le> 1)
      (group_by (\<lambda>e. jget e ''trial_id'') (\<lambda>e. jget e ''case_id'') (plan_entries p))"
    and "\<forall>(key, members) \<in> set (group_by group_key (\<lambda>e. e) (plan_entries p)).
      check_group (jget (jget c ''comparison'') ''mode'') members = Inr ()"
    and "set (map fst (filter required_obligation (registry_obligations r (Some closure)))) \<subseteq>
      set (map (\<lambda>e. jget e ''obligation_id'') (filter (is_variant ''candidate'') (plan_entries p)))"
    and "list_all (\<lambda>x. jget (snd (snd x)) ''kind'' = JStr ''llm_metric'' \<longrightarrow>
        planned_cases (plan_entries p) (fst x) = set (map (\<lambda>x. jget x ''case_id'') (set_cases cs)))
      (filter required_obligation (registry_obligations r (Some closure)))"
    and "require_ref_match (jget p ''contract_ref'') ''evaluation_contract'' c = Inr ()"
    and "jget b ''selected_controls'' = JList (map JStr closure)"
    and "jget b ''plan'' = p" "jget b ''contract'' = c" "jget b ''registry'' = r" "jget b ''case_set'' = cs"
proof -
  from assms obtain closure old where "dependency_closure order r selected = Inr closure"
    and "\<forall>e \<in> set (plan_entries p). check_entry (registry_obligations r (Some closure)) (stages_by_case cs) old
      (set (map ref_key (jitems target_refs))) e = Inr ()"
    and "set (map (\<lambda>e. ref_key (jget e ''target_ref'')) (filter (is_variant ''candidate'') (plan_entries p))) =
      set (map ref_key (jitems target_refs))"
    and "list_all (\<lambda>(trial, ids). length (remdups ids) \<le> 1)
      (group_by (\<lambda>e. jget e ''trial_id'') (\<lambda>e. jget e ''case_id'') (plan_entries p))"
    and "\<forall>x \<in> set (group_by group_key (\<lambda>e. e) (plan_entries p)).
      (case x of (key, members) \<Rightarrow> check_group (jget (jget c ''comparison'') ''mode'') members) = Inr ()"
    and "set (map fst (filter required_obligation (registry_obligations r (Some closure)))) \<subseteq>
      set (map (\<lambda>e. jget e ''obligation_id'') (filter (is_variant ''candidate'') (plan_entries p)))"
    and "list_all (\<lambda>x. jget (snd (snd x)) ''kind'' = JStr ''llm_metric'' \<longrightarrow>
        planned_cases (plan_entries p) (fst x) = set (map (\<lambda>x. jget x ''case_id'') (set_cases cs)))
      (filter required_obligation (registry_obligations r (Some closure)))"
    and "require_ref_match (jget p ''contract_ref'') ''evaluation_contract'' c = Inr ()"
    and result: "JObj [(''plan'', p), (''contract'', c), (''registry'', r), (''case_set'', cs),
      (''selected_controls'', JList (map JStr closure)), (''target_refs'', target_refs), (''ci_eligible'', JBool False)] = b"
    unfolding bind_trial_plan_validated_def Let_def ebind_eq_Inr guard_eq_Inr on_error_eq_Inr eiter_eq_Inr unit_ex sum.inject
    by blast
  moreover from result have "jget b ''selected_controls'' = JList (map JStr closure)" "jget b ''plan'' = p"
    "jget b ''contract'' = c" "jget b ''registry'' = r" "jget b ''case_set'' = cs" by (auto simp: jget_def)
  ultimately show thesis by (intro that[of closure old]) (auto split: prod.splits)
qed

lemma trial_single_case:
  assumes "list_all (\<lambda>(trial, ids). length (remdups ids) \<le> 1) (group_by t k es)"
    and "e \<in> set es" "e' \<in> set es" "t e = t e'"
  shows "k e = k e'"
proof -
  let ?ids = "map k (filter (\<lambda>x. t x = t e) es)"
  have "(t e, ?ids) \<in> set (group_by t k es)" using assms(2) by (auto simp: group_by_members)
  with assms(1) have "length (remdups ?ids) \<le> 1" unfolding list_all_iff by fast
  then have "card (set ?ids) \<le> Suc 0" by (simp add: length_remdups_card_conv)
  moreover have "k e \<in> set ?ids" "k e' \<in> set ?ids" using assms(2-4) by auto
  ultimately show ?thesis by (metis card_le_Suc0_iff_eq finite_set)
qed

lemma group_checked:
  assumes "\<forall>(key, members) \<in> set (group_by group_key (\<lambda>e. e) es). check_group mode members = Inr ()" and "e \<in> set es"
  shows "check_group mode (filter (\<lambda>x. group_key x = group_key e) es) = Inr ()"
proof -
  have "(group_key e, filter (\<lambda>x. group_key x = group_key e) es) \<in> set (group_by group_key (\<lambda>e. e) es)"
    using assms(2) by (auto simp: group_by_members)
  with assms(1) show ?thesis by fast
qed

lemma bound_baselines:
  assumes "\<forall>(key, members) \<in> set (group_by group_key (\<lambda>e. e) es). check_group mode members = Inr ()"
    and "e \<in> set es" and "is_variant ''baseline'' e"
  shows "mode \<noteq> JStr ''not_applicable'' \<and> (\<exists>e' \<in> set es. is_variant ''candidate'' e' \<and> group_key e' = group_key e)"
proof -
  let ?members = "filter (\<lambda>x. group_key x = group_key e) es"
  have "filter (is_variant ''baseline'') ?members \<noteq> []" unfolding filter_empty_conv using assms(2,3) by auto
  from check_group_Inr(1)[OF group_checked[OF assms(1,2)] this]
  have "filter (is_variant ''candidate'') ?members \<noteq> []" "mode \<noteq> JStr ''not_applicable''" by auto
  then show ?thesis by (auto simp: filter_empty_conv)
qed

lemma bound_candidates:
  assumes "\<forall>(key, members) \<in> set (group_by group_key (\<lambda>e. e) es). check_group (JStr ''required'') members = Inr ()"
    and "distinct (map entry_key es)" and "e \<in> set es" and "is_variant ''candidate'' e"
  shows "\<exists>e' \<in> set es. is_variant ''baseline'' e' \<and> group_key e' = group_key e \<and>
    jget e' ''stage_ids'' = jget e ''stage_ids'' \<and> py_eq (jget e ''evaluator_ref'') (jget e' ''evaluator_ref'')"
proof -
  let ?members = "filter (\<lambda>x. group_key x = group_key e) es"
  note checked = check_group_Inr[OF group_checked[OF assms(1,3)]]
  have candidate: "filter (is_variant ''candidate'') ?members = [e]" by (rule group_variant[OF assms(2-4)])
  with checked(2) have "filter (is_variant ''baseline'') ?members \<noteq> []" by simp
  then obtain e' where e': "e' \<in> set es" "group_key e' = group_key e" "is_variant ''baseline'' e'"
    by (auto simp: filter_empty_conv)
  have "filter (is_variant ''baseline'') ?members = [e']" using group_variant[OF assms(2) e'(1,3)] e'(2) by simp
  from checked(3)[OF candidate this] e' show ?thesis by metis
qed

lemma required_covered:
  assumes "set (map fst (filter required_obligation (registry_obligations r (Some closure)))) \<subseteq>
      set (map (\<lambda>e. jget e ''obligation_id'') (filter (is_variant ''candidate'') es))"
    and "list_all (\<lambda>x. jget (snd (snd x)) ''kind'' = JStr ''llm_metric'' \<longrightarrow> planned_cases es (fst x) = case_ids)
      (filter required_obligation (registry_obligations r (Some closure)))"
    and "set closure = (registry_rel r)\<^sup>* `` selected_set selected"
    and "in_scope r selected control ob" and "jget ob ''required'' = JBool True"
  shows "\<exists>e \<in> set es. is_variant ''candidate'' e \<and> jget e ''obligation_id'' = jget ob ''obligation_id''"
    and "jget ob ''kind'' = JStr ''llm_metric'' \<Longrightarrow> i \<in> case_ids \<Longrightarrow>
      \<exists>e \<in> set es. is_variant ''candidate'' e \<and> jget e ''obligation_id'' = jget ob ''obligation_id'' \<and> jget e ''case_id'' = i"
proof -
  have member: "(jget ob ''obligation_id'', control, ob) \<in> set (filter required_obligation (registry_obligations r (Some closure)))"
    using assms(3-5) by (simp add: registry_obligations_members in_scope_def required_obligation_def)
  then have "jget ob ''obligation_id'' \<in> set (map fst (filter required_obligation (registry_obligations r (Some closure))))"
    by force
  with assms(1) have "jget ob ''obligation_id'' \<in> set (map (\<lambda>e. jget e ''obligation_id'') (filter (is_variant ''candidate'') es))"
    by blast
  then show "\<exists>e \<in> set es. is_variant ''candidate'' e \<and> jget e ''obligation_id'' = jget ob ''obligation_id''" by auto
  assume "jget ob ''kind'' = JStr ''llm_metric''" "i \<in> case_ids"
  with assms(2) member have "i \<in> planned_cases es (jget ob ''obligation_id'')" unfolding list_all_iff by fastforce
  then show "\<exists>e \<in> set es. is_variant ''candidate'' e \<and> jget e ''obligation_id'' = jget ob ''obligation_id'' \<and> jget e ''case_id'' = i"
    by (auto simp: planned_cases_def)
qed

lemma entry_bound:
  assumes "check_entry (registry_obligations r (Some closure)) (stages_by_case cs) old targets e = Inr ()"
    and "set closure = (registry_rel r)\<^sup>* `` selected_set selected"
    and "is_variant ''candidate'' e \<noteq> is_variant ''baseline'' e"
  shows "\<exists>control ob. \<exists>c \<in> set (set_cases cs). in_scope r selected control ob \<and>
      jget e ''obligation_id'' = jget ob ''obligation_id'' \<and> jget e ''case_id'' = jget c ''case_id'' \<and>
      jget e ''stage_ids'' = JList (map (\<lambda>stage. jget stage ''stage_id'') (case_stages c)) \<and>
      jget e ''required'' = jget ob ''required'' \<and> jget e ''event_policy'' = jget ob ''event_policy'' \<and>
      py_eq (jget e ''evaluator_ref'') (jget ob ''evaluator_ref'') \<and>
      (is_variant ''candidate'' e \<longrightarrow> py_eq (jget e ''target_ref'') (jget control ''target_ref''))"
proof -
  from check_entry_Inr[OF assms(1)] obtain control ob stage_ids
    where ob: "map_of (registry_obligations r (Some closure)) (jget e ''obligation_id'') = Some (control, ob)"
      and stages: "map_of (stages_by_case cs) (jget e ''case_id'') = Some stage_ids"
      and same: "jget e ''stage_ids'' = JList stage_ids" "jget e ''required'' = jget ob ''required''"
        "jget e ''event_policy'' = jget ob ''event_policy''" "py_eq (jget e ''evaluator_ref'') (jget ob ''evaluator_ref'')"
        "\<not> is_variant ''baseline'' e \<longrightarrow> py_eq (jget e ''target_ref'') (jget control ''target_ref'')" by blast
  from map_of_SomeD[OF ob] assms(2) have "in_scope r selected control ob" "jget e ''obligation_id'' = jget ob ''obligation_id''"
    by (simp_all add: registry_obligations_members in_scope_def)
  moreover from map_of_SomeD[OF stages] obtain c where "c \<in> set (set_cases cs)" "jget e ''case_id'' = jget c ''case_id''"
    "stage_ids = map (\<lambda>stage. jget stage ''stage_id'') (case_stages c)" by (auto simp: stages_by_case_def)
  ultimately show ?thesis using same assms(3) by blast
qed

text \<open>C29.
  A bound plan is complete and comparable.  Every required obligation of a selected control or of one it
  depends on has a candidate entry, and a required LLM obligation has one for every case.  Every entry
  belongs to such an obligation and to a case of the set, runs all stages of the case in order and uses the
  evaluator, the event policy and the target the registry fixes for candidates.  The candidate targets
  are exactly the given ones, a trial runs a single case, and a comparison pairs each candidate entry with a
  baseline entry of the same obligation, case, trial, stages and evaluator, and has no unpaired baseline;
  without a comparison there is no baseline entry.
\<close>

theorem bound_plan_complete:
  assumes "iteration_order order"
    and "bind_trial_plan order plan contract registry case_set selected target_refs ctx = Inr b"
  shows "(\<forall>control ob. in_scope registry selected control ob \<and> jget ob ''required'' = JBool True \<longrightarrow>
      (\<exists>e \<in> set (plan_entries plan). is_variant ''candidate'' e \<and> jget e ''obligation_id'' = jget ob ''obligation_id'') \<and>
      (jget ob ''kind'' = JStr ''llm_metric'' \<longrightarrow> (\<forall>c \<in> set (set_cases case_set).
         \<exists>e \<in> set (plan_entries plan). is_variant ''candidate'' e \<and> jget e ''obligation_id'' = jget ob ''obligation_id'' \<and>
           jget e ''case_id'' = jget c ''case_id''))) \<and>
    (\<forall>e \<in> set (plan_entries plan). \<exists>control ob. \<exists>c \<in> set (set_cases case_set). in_scope registry selected control ob \<and>
      jget e ''obligation_id'' = jget ob ''obligation_id'' \<and> jget e ''case_id'' = jget c ''case_id'' \<and>
      jget e ''stage_ids'' = JList (map (\<lambda>stage. jget stage ''stage_id'') (case_stages c)) \<and>
      jget e ''required'' = jget ob ''required'' \<and> jget e ''event_policy'' = jget ob ''event_policy'' \<and>
      py_eq (jget e ''evaluator_ref'') (jget ob ''evaluator_ref'') \<and>
      (is_variant ''candidate'' e \<longrightarrow> py_eq (jget e ''target_ref'') (jget control ''target_ref''))) \<and>
    set (map (\<lambda>e. ref_key (jget e ''target_ref'')) (filter (is_variant ''candidate'') (plan_entries plan))) =
      set (map ref_key (jitems target_refs)) \<and>
    (\<forall>e \<in> set (plan_entries plan). \<forall>e' \<in> set (plan_entries plan).
      jget e ''trial_id'' = jget e' ''trial_id'' \<longrightarrow> jget e ''case_id'' = jget e' ''case_id'') \<and>
    (\<forall>e \<in> set (plan_entries plan). is_variant ''baseline'' e \<longrightarrow>
      jget (jget contract ''comparison'') ''mode'' \<noteq> JStr ''not_applicable'' \<and>
      (\<exists>e' \<in> set (plan_entries plan). is_variant ''candidate'' e' \<and> group_key e' = group_key e)) \<and>
    (jget (jget contract ''comparison'') ''mode'' = JStr ''required'' \<longrightarrow>
      (\<forall>e \<in> set (plan_entries plan). is_variant ''candidate'' e \<longrightarrow>
        (\<exists>e' \<in> set (plan_entries plan). is_variant ''baseline'' e' \<and> group_key e' = group_key e \<and>
           jget e' ''stage_ids'' = jget e ''stage_ids'' \<and> py_eq (jget e ''evaluator_ref'') (jget e' ''evaluator_ref''))))"
proof -
  from assms(2) obtain p c r cs where parts: "validate_trial_plan plan = Inr p" "validate_evaluation_contract contract = Inr c"
    "validate_registry order registry = Inr r" "validate_case_set case_set = Inr cs"
    and bound: "bind_trial_plan_validated order p c r cs selected target_refs ctx = Inr b"
    unfolding bind_trial_plan_def ebind_eq_Inr on_error_eq_Inr by blast
  have same: "p = plan" "c = contract" "r = registry" "cs = case_set"
    using validate_trial_plan_Inr(1)[OF parts(1)] validate_evaluation_contract_Inr[OF parts(2)]
      validate_registry_Inr[OF assms(1)] parts(3) validate_case_set_Inr(1)[OF parts(4)] by auto
  note plan = validate_trial_plan_Inr[OF parts(1)]
  show ?thesis
  proof (rule bind_trial_plan_facts[OF bound[unfolded same]], goal_cases)
    case (1 closure old)
    note scope = closure_sound[OF assms(1) 1(1)]
    have entries: "\<forall>e \<in> set (plan_entries plan). is_variant ''candidate'' e \<noteq> is_variant ''baseline'' e"
      using plan(3) entry_variant by blast
    show ?case
      apply (intro conjI allI ballI impI)
      using required_covered[OF 1(6,7) scope] apply blast
      using required_covered[OF 1(6,7) scope] apply force
      using entry_bound[OF _ scope] 1(2) entries apply blast
      apply (rule 1(3))
      using trial_single_case[OF 1(4)] apply blast
      using bound_baselines[OF 1(5)] apply blast
      using bound_baselines[OF 1(5)] apply blast
      using bound_candidates plan(2) 1(5) by metis
  qed
qed

section \<open>References by content\<close>

lemma map_of_filter: "map_of xs k = (case filter (\<lambda>p. fst p = k) xs of [] \<Rightarrow> None | p # _ \<Rightarrow> Some (snd p))"
  by (induction xs) auto

lemma map_of_sort_fst: "map_of (sort_key fst xs) k = map_of xs k"
  by (simp only: map_of_filter sort_key_stable)

lemma map_of_jnorm: "map_of (map (\<lambda>(k, v). (k, jnorm v)) kvs) k = map_option jnorm (map_of kvs k)"
  by (induction kvs) auto

lemma jlookup_jnorm: "jlookup (jnorm v) k = map_option jnorm (jlookup v k)"
  by (cases v) (simp_all add: map_of_sort_fst map_of_jnorm)

lemma py_eq_jget: "py_eq a b \<Longrightarrow> py_eq (jget a k) (jget b k)"
  unfolding py_eq_def jget_def using jlookup_jnorm[of a k] jlookup_jnorm[of b k]
  by (cases "jlookup a k"; cases "jlookup b k") auto

lemma py_eq_string: "py_eq v (JStr s) \<Longrightarrow> v = JStr s"
  by (cases v) (auto simp: py_eq_def split: if_splits)

lemma require_ref_match_Inr:
  assumes "require_ref_match actual kind v = Inr ()"
  shows "jget actual ''digest'' = JStr (sha256_of v)" "jget actual ''kind'' = JStr kind" "jget actual ''id'' = identifier_of v"
proof -
  from assms obtain raw where raw: "canonical v = Inr raw" and ident: "require_id (identifier_of v) = Inr ()"
    and eq: "py_eq actual (JObj [(''kind'', JStr kind), (''id'', identifier_of v), (''digest'', JStr (sha256_hex raw))])"
    by (auto simp: require_ref_match_def content_ref_def ebind_eq_Inr guard_eq_Inr)
  from raw have "raw = dumps v"
    by (auto simp: canonical_def plain_canonical_def canonical_bytes_def ebind_eq_Inr on_error_eq_Inr split: if_splits)
  with py_eq_jget[OF eq, of "''digest''"] show "jget actual ''digest'' = JStr (sha256_of v)"
    by (auto simp: jget_def sha256_of_def dest: py_eq_string)
  from py_eq_jget[OF eq, of "''kind''"] show "jget actual ''kind'' = JStr kind" by (auto simp: jget_def dest: py_eq_string)
  from ident obtain i where i: "identifier_of v = JStr i" by (auto simp: require_id_ok)
  from py_eq_jget[OF eq, of "''id''"] show "jget actual ''id'' = identifier_of v"
    unfolding i by (auto simp: jget_def dest: py_eq_string)
qed

section \<open>Bound runs\<close>

lemma elapsed_within_initial:
  assumes "validate_policy_profile policy = Inr policy" and "validate_run_manifest m = Inr m"
  shows "elapsed_seconds policy m \<le> elapsed_seconds INITIAL_POLICY m"
proof -
  from assms(2) have "enum run_profiles (jget m ''profile'') = Inr ()"
    unfolding validate_run_manifest_def ebind_eq_Inr unit_ex by blast
  then have profile: "str_of (jget m ''profile'') \<in> {''pr'', ''full''}" by (auto simp: enum_Inr run_profiles_def)
  from assms(1) have "never_laxer policy" unfolding profile_accepted_iff by blast
  then have "within_ceilings (jget (jget policy ''profiles'') ''pr'') initial_pr"
    "within_ceilings (jget (jget policy ''profiles'') ''full'') initial_full" unfolding never_laxer_def by blast+
  moreover have "''elapsed_seconds'' \<in> set (jkeys initial_pr)" "''elapsed_seconds'' \<in> set (jkeys initial_full)"
    by (simp_all add: initial_pr_def initial_full_def jints_def)
  moreover have "jget (jget INITIAL_POLICY ''profiles'') ''pr'' = initial_pr"
    "jget (jget INITIAL_POLICY ''profiles'') ''full'' = initial_full" by (simp_all add: INITIAL_POLICY_def jget_def)
  ultimately show ?thesis using profile unfolding within_ceilings_def elapsed_seconds_def by auto
qed

lemma py_eq_null: "py_eq v JNull \<longleftrightarrow> v = JNull"
  by (cases v) (auto simp: py_eq_def split: if_splits)

lemma validate_comparison_Inr:
  assumes "validate_comparison v = Inr ()"
  shows "jget v ''mode'' \<in> {JStr ''required'', JStr ''not_applicable''}"
    and "jget v ''baseline_ref'' = JNull \<longleftrightarrow> jget v ''mode'' \<noteq> JStr ''required''"
proof -
  from assms have mode: "enum comparison_modes (jget v ''mode'') = Inr ()"
    and rest: "(if jget v ''mode'' = JStr ''required'' then
      ebind (kind_ref ''baseline'' (jget v ''baseline_ref'')) (\<lambda>_. guard (jget v ''reason'' = JNull) INVALID_CONTRACT)
    else guard (jget v ''baseline_ref'' = JNull \<and> jget v ''reason'' = JStr ''initial_baseline_pending'') INVALID_CONTRACT)
      = Inr ()"
    unfolding validate_comparison_def ebind_eq_Inr unit_ex by blast+
  from mode show "jget v ''mode'' \<in> {JStr ''required'', JStr ''not_applicable''}"
    by (auto simp: enum_Inr comparison_modes_def)
  have "kind_ref ''baseline'' JNull \<noteq> Inr ()" by (simp add: kind_ref_def require_ref_def require_object_def)
  with rest show "jget v ''baseline_ref'' = JNull \<longleftrightarrow> jget v ''mode'' \<noteq> JStr ''required''"
    by (auto simp: ebind_eq_Inr guard_eq_Inr split: if_splits)
qed

text \<open>
  What \<open>purpose_check\<close> and the shape of a comparison come to: whatever the purpose, the baseline of the
  manifest is the baseline of the contract.
\<close>

lemma purpose_check_Inr:
  assumes "purpose_check m c = Inr ()" and "validate_comparison (jget c ''comparison'') = Inr ()"
    and "enum run_purposes (jget m ''purpose'') = Inr ()"
  shows "str_of (jget m ''purpose'') \<in>
      {''baseline_candidate'', ''contract_old_regression'', ''contract_candidate'', ''regression'', ''diagnostic''}"
    and "py_eq (jget m ''baseline_ref'') (jget (jget c ''comparison'') ''baseline_ref'')"
    and "str_of (jget m ''purpose'') \<in> {''regression'', ''contract_candidate''} \<Longrightarrow>
      jget (jget c ''comparison'') ''mode'' = JStr ''required''"
    and "str_of (jget m ''purpose'') = ''baseline_candidate'' \<Longrightarrow>
      jget (jget c ''comparison'') ''mode'' = JStr ''not_applicable''"
    and "str_of (jget m ''purpose'') \<in> {''baseline_candidate'', ''contract_old_regression'', ''contract_candidate''} \<Longrightarrow>
      jget m ''profile'' = JStr ''full''"
    and "jget m ''baseline_ref'' = JNull \<longleftrightarrow> jget (jget c ''comparison'') ''mode'' \<noteq> JStr ''required''"
proof -
  note comparison = validate_comparison_Inr[OF assms(2)]
  note check = assms(1)[unfolded purpose_check_def Let_def]
  show purpose: "str_of (jget m ''purpose'') \<in>
      {''baseline_candidate'', ''contract_old_regression'', ''contract_candidate'', ''regression'', ''diagnostic''}"
    using check assms(3) by (auto simp: enum_Inr run_purposes_def ebind_eq_Inr guard_eq_Inr)
  show same: "py_eq (jget m ''baseline_ref'') (jget (jget c ''comparison'') ''baseline_ref'')"
    using check purpose comparison by (auto simp: ebind_eq_Inr guard_eq_Inr py_eq_null split: if_splits)
  show "str_of (jget m ''purpose'') \<in> {''regression'', ''contract_candidate''} \<Longrightarrow>
      jget (jget c ''comparison'') ''mode'' = JStr ''required''"
    "str_of (jget m ''purpose'') = ''baseline_candidate'' \<Longrightarrow>
      jget (jget c ''comparison'') ''mode'' = JStr ''not_applicable''"
    "str_of (jget m ''purpose'') \<in> {''baseline_candidate'', ''contract_old_regression'', ''contract_candidate''} \<Longrightarrow>
      jget m ''profile'' = JStr ''full''"
    using check by (auto simp: ebind_eq_Inr guard_eq_Inr)
  have "jget m ''baseline_ref'' = JNull \<longleftrightarrow> jget (jget c ''comparison'') ''baseline_ref'' = JNull"
    using same by (metis py_eq_null py_eq_sym)
  with comparison(2) show "jget m ''baseline_ref'' = JNull \<longleftrightarrow> jget (jget c ''comparison'') ''mode'' \<noteq> JStr ''required''"
    by simp
qed

lemma bind_run_manifest_facts:
  assumes "bind_run_manifest order manifest contract plan policy registry case_set ctx = Inr b" and "iteration_order order"
  obtains bound where "validate_run_manifest manifest = Inr manifest" "validate_trial_plan plan = Inr plan"
    "validate_policy_profile policy = Inr policy"
    "require_ref_match (jget manifest ''contract_ref'') ''evaluation_contract'' contract = Inr ()"
    "require_ref_match (jget manifest ''plan_ref'') ''trial_plan'' plan = Inr ()"
    "require_ref_match (jget manifest ''policy_ref'') ''policy_profile'' policy = Inr ()"
    "purpose_check manifest contract = Inr ()" "validate_comparison (jget contract ''comparison'') = Inr ()"
    "set (jitems (jget manifest ''use_cases'')) = set (jitems (jget contract ''use_cases''))"
    "int_of (jget manifest ''deadline'') \<le> int_of (jget manifest ''created_at'') + elapsed_seconds policy manifest"
    "bind_trial_plan_validated order plan contract registry case_set (jget manifest ''control_ids'')
       (jget manifest ''target_refs'') ctx = Inr bound"
    "b = JObj [(''manifest'', manifest), (''contract'', contract), (''plan'', plan), (''policy'', policy),
       (''registry'', registry), (''case_set'', case_set), (''selected_controls'', jget bound ''selected_controls''),
       (''ci_eligible'', JBool False)]"
proof -
  from assms(1) obtain m c p pol r cs bound where parts: "validate_run_manifest manifest = Inr m"
    "validate_evaluation_contract contract = Inr c" "validate_trial_plan plan = Inr p" "validate_policy_profile policy = Inr pol"
    "validate_registry order registry = Inr r" "validate_case_set case_set = Inr cs"
    and checks: "require_ref_match (jget m ''contract_ref'') ''evaluation_contract'' c = Inr ()"
    "require_ref_match (jget m ''plan_ref'') ''trial_plan'' p = Inr ()"
    "require_ref_match (jget m ''policy_ref'') ''policy_profile'' pol = Inr ()" "purpose_check m c = Inr ()"
    "set (jitems (jget m ''use_cases'')) = set (jitems (jget c ''use_cases''))"
    "int_of (jget m ''deadline'') \<le> int_of (jget m ''created_at'') + elapsed_seconds pol m"
    "bind_trial_plan_validated order p c r cs (jget m ''control_ids'') (jget m ''target_refs'') ctx = Inr bound"
    and b: "JObj [(''manifest'', m), (''contract'', c), (''plan'', p), (''policy'', pol), (''registry'', r), (''case_set'', cs),
       (''selected_controls'', jget bound ''selected_controls''), (''ci_eligible'', JBool False)] = b"
    unfolding bind_run_manifest_def ebind_eq_Inr guard_eq_Inr on_error_eq_Inr unit_ex sum.inject by blast
  have same: "m = manifest" "c = contract" "p = plan" "pol = policy" "r = registry" "cs = case_set"
    using validate_run_manifest_Inr[OF parts(1)] validate_evaluation_contract_Inr[OF parts(2)]
      validate_trial_plan_Inr(1)[OF parts(3)] parts(4) validate_registry_Inr[OF assms(2)] parts(5)
      validate_case_set_Inr(1)[OF parts(6)] by (auto simp: profile_accepted_iff)
  have "validate_comparison (jget contract ''comparison'') = Inr ()"
    using parts(2) unfolding validate_evaluation_contract_def ebind_eq_Inr unit_ex by blast
  then show thesis by (intro that[of bound]) (use parts checks b in \<open>simp_all add: same\<close>)
qed

text \<open>C30.
  A bound run carries exactly the documents it was given, and its manifest fixes three of them: the
  digests in the manifest and in the plan are the SHA-256 digests of the canonical texts of the very
  contract, plan and policy bound, and the use cases are those of the contract.  (The registry and the case
  set are not compared with the references of the contract here; the plan only has to agree with them.)
  The run must end within the time the bound policy grants its profile, which is within the time the
  initial policy grants.  Whatever the purpose, the baseline of the manifest is the baseline of the contract:
  if the contract requires a comparison there is one, and every candidate entry of the plan is paired with
  a baseline entry; if not there is none, and the plan has candidate entries only.  A regression and a
  contract candidate require the comparison, a baseline candidate excludes it, an old-contract regression
  and a diagnosis take the state of the contract; both kinds of candidate and the old-contract regression
  need the full profile, and a run is never bound for calibration or validation of a contract.  Binding the
  documents of the result again gives the same result.
\<close>

theorem bound_run_fixed:
  assumes "iteration_order order"
    and "bind_run_manifest order manifest contract plan policy registry case_set ctx = Inr b"
  shows "jget (jget manifest ''contract_ref'') ''digest'' = JStr (sha256_of contract) \<and>
    jget (jget manifest ''plan_ref'') ''digest'' = JStr (sha256_of plan) \<and>
    jget (jget manifest ''policy_ref'') ''digest'' = JStr (sha256_of policy) \<and>
    jget (jget plan ''contract_ref'') ''digest'' = JStr (sha256_of contract) \<and>
    set (jitems (jget manifest ''use_cases'')) = set (jitems (jget contract ''use_cases'')) \<and>
    int_of (jget manifest ''created_at'') < int_of (jget manifest ''deadline'') \<and>
    int_of (jget manifest ''deadline'') \<le> int_of (jget manifest ''created_at'') + elapsed_seconds policy manifest \<and>
    elapsed_seconds policy manifest \<le> elapsed_seconds INITIAL_POLICY manifest \<and>
    str_of (jget manifest ''purpose'') \<in>
      {''baseline_candidate'', ''contract_old_regression'', ''contract_candidate'', ''regression'', ''diagnostic''} \<and>
    py_eq (jget manifest ''baseline_ref'') (jget (jget contract ''comparison'') ''baseline_ref'') \<and>
    (if jget (jget contract ''comparison'') ''mode'' = JStr ''required''
     then jget manifest ''baseline_ref'' \<noteq> JNull \<and>
       (\<forall>e \<in> set (plan_entries plan). is_variant ''candidate'' e \<longrightarrow>
         (\<exists>e' \<in> set (plan_entries plan). is_variant ''baseline'' e' \<and> group_key e' = group_key e))
     else jget manifest ''baseline_ref'' = JNull \<and> (\<forall>e \<in> set (plan_entries plan). is_variant ''candidate'' e)) \<and>
    (str_of (jget manifest ''purpose'') \<in> {''regression'', ''contract_candidate''} \<longrightarrow>
      jget (jget contract ''comparison'') ''mode'' = JStr ''required'') \<and>
    (str_of (jget manifest ''purpose'') = ''baseline_candidate'' \<longrightarrow>
      jget (jget contract ''comparison'') ''mode'' = JStr ''not_applicable'') \<and>
    (str_of (jget manifest ''purpose'') \<in> {''baseline_candidate'', ''contract_old_regression'', ''contract_candidate''} \<longrightarrow>
      jget manifest ''profile'' = JStr ''full'') \<and>
    jget b ''manifest'' = manifest \<and> jget b ''contract'' = contract \<and> jget b ''plan'' = plan \<and>
    jget b ''policy'' = policy \<and> jget b ''registry'' = registry \<and> jget b ''case_set'' = case_set \<and>
    bind_run_manifest order (jget b ''manifest'') (jget b ''contract'') (jget b ''plan'') (jget b ''policy'')
      (jget b ''registry'') (jget b ''case_set'') ctx = Inr b"
proof (rule bind_run_manifest_facts[OF assms(2,1)], goal_cases)
  case (1 bound)
  note facts = 1
  note plan = validate_trial_plan_Inr[OF 1(2)]
  from 1(1) have start: "int_of (jget manifest ''created_at'') < int_of (jget manifest ''deadline'')"
    and purposes: "enum run_purposes (jget manifest ''purpose'') = Inr ()"
    unfolding validate_run_manifest_def ebind_eq_Inr guard_eq_Inr unit_ex by blast+
  note purpose = purpose_check_Inr[OF 1(7,8) purposes]
  have entries: "\<forall>e \<in> set (plan_entries plan). is_variant ''candidate'' e \<noteq> is_variant ''baseline'' e"
    using plan(3) entry_variant by blast
  have parts: "jget b ''manifest'' = manifest" "jget b ''contract'' = contract" "jget b ''plan'' = plan"
    "jget b ''policy'' = policy" "jget b ''registry'' = registry" "jget b ''case_set'' = case_set"
    by (simp_all add: 1(12) jget_def)
  show ?case
  proof (rule bind_trial_plan_facts[OF 1(11)], goal_cases)
    case (1 closure old)
    have compared: "\<exists>e' \<in> set (plan_entries plan). is_variant ''baseline'' e' \<and> group_key e' = group_key e"
      if "jget (jget contract ''comparison'') ''mode'' = JStr ''required''" "e \<in> set (plan_entries plan)" "is_variant ''candidate'' e" for e
      using bound_candidates[OF _ plan(2) that(2,3)] 1(5) that(1) by metis
    have alone: "is_variant ''candidate'' e"
      if "jget (jget contract ''comparison'') ''mode'' \<noteq> JStr ''required''" "e \<in> set (plan_entries plan)" for e
    proof -
      have "jget (jget contract ''comparison'') ''mode'' = JStr ''not_applicable''"
        using validate_comparison_Inr(1)[OF facts(8)] that(1) by blast
      then show ?thesis using bound_baselines[OF 1(5) that(2)] that entries by blast
    qed
    have refs: "jget (jget plan ''contract_ref'') ''digest'' = JStr (sha256_of contract)"
      by (rule require_ref_match_Inr(1)[OF 1(8)])
    show ?case
      using require_ref_match_Inr(1)[OF facts(4)] require_ref_match_Inr(1)[OF facts(5)] require_ref_match_Inr(1)[OF facts(6)]
        refs start facts(9,10) elapsed_within_initial[OF facts(3,1)] purpose compared alone
      unfolding parts using assms(2) by (intro conjI) auto
  qed
qed

section \<open>Bound contracts\<close>

lemma serves_True: "serves u obs = Inr True \<Longrightarrow> \<exists>ob \<in> set obs. jget ob ''required'' = JBool True \<and> family_use_case (jget ob ''kind'') = Inr u"
proof (induction u obs rule: serves.induct)
  case (2 u ob obs)
  then show ?case by (cases "family_use_case (jget ob ''kind'')") (auto split: if_splits)
qed simp

text \<open>
  A bound contract names exactly its documents and evaluators: the four digests are those of the policy, the
  registry and the two case sets, used for their purposes; the evaluators are those of the obligations of
  the registry; and each use case is served by a required obligation of its family.
\<close>

theorem evaluation_contract_bound:
  assumes "iteration_order order"
    and "bind_evaluation_contract order contract policy registry case_set calibration = Inr b"
  shows "jget (jget contract ''policy_ref'') ''digest'' = JStr (sha256_of policy) \<and>
    jget (jget contract ''registry_ref'') ''digest'' = JStr (sha256_of registry) \<and>
    jget (jget contract ''case_set_ref'') ''digest'' = JStr (sha256_of case_set) \<and>
    jget (jget contract ''calibration_case_set_ref'') ''digest'' = JStr (sha256_of calibration) \<and>
    jget case_set ''purpose'' = JStr ''acceptance'' \<and> jget calibration ''purpose'' = JStr ''calibration'' \<and>
    set (map ref_key (jitems (jget contract ''evaluator_refs''))) =
      set (map (\<lambda>(i, control, ob). ref_key (jget ob ''evaluator_ref'')) (registry_obligations registry None)) \<and>
    (\<forall>u \<in> set (jitems (jget contract ''use_cases'')). \<exists>(i, control, ob) \<in> set (registry_obligations registry None).
      jget ob ''required'' = JBool True \<and> family_use_case (jget ob ''kind'') = Inr (str_of u))"
proof -
  from assms(2) obtain c i where c: "validate_evaluation_contract contract = Inr c"
    and inputs: "validated_inputs order policy registry case_set = Inr i" and rest: "(case i of (p, r, cs) \<Rightarrow>
      ebind (on_error (validate_case_set calibration) (\<lambda>_. INVALID_CONTRACT)) (\<lambda>cal.
      ebind (on_error (check_evaluation_binding c p r cs cal) (\<lambda>_. INVALID_CONTRACT)) (\<lambda>_.
      Inr (JObj [(''contract'', c), (''policy'', p), (''registry'', r), (''case_set'', cs), (''calibration_set'', cal),
        (''ci_eligible'', JBool False)])))) = Inr b"
    unfolding bind_evaluation_contract_def ebind_eq_Inr by blast
  obtain p r cs where i: "i = (p, r, cs)" by (cases i)
  from rest[unfolded i prod.case] obtain cal where parts: "validate_evaluation_contract contract = Inr c"
    "validated_inputs order policy registry case_set = Inr i" "validate_case_set calibration = Inr cal"
    and checks: "check_evaluation_binding c p r cs cal = Inr ()"
    unfolding ebind_eq_Inr on_error_eq_Inr unit_ex using c inputs by blast
  from parts(2) i have inputs: "validate_policy_profile policy = Inr p" "validate_registry order registry = Inr r"
    "validate_case_set case_set = Inr cs" by (auto simp: validated_inputs_def ebind_eq_Inr on_error_eq_Inr)
  have same: "c = contract" "p = policy" "r = registry" "cs = case_set" "cal = calibration"
    using validate_evaluation_contract_Inr[OF parts(1)] inputs(1) validate_registry_Inr[OF assms(1)] inputs(2)
      validate_case_set_Inr(1)[OF inputs(3)] validate_case_set_Inr(1)[OF parts(3)] by (auto simp: profile_accepted_iff)
  let ?obs = "map (snd \<circ> snd) (registry_obligations registry None)"
  from checks[unfolded same] have refs: "require_ref_match (jget contract ''policy_ref'') ''policy_profile'' policy = Inr ()"
      "require_ref_match (jget contract ''registry_ref'') ''control_registry'' registry = Inr ()"
      "require_ref_match (jget contract ''case_set_ref'') ''case_set'' case_set = Inr ()"
      "require_ref_match (jget contract ''calibration_case_set_ref'') ''case_set'' calibration = Inr ()"
    and purposes: "jget case_set ''purpose'' = JStr ''acceptance'' \<and> jget calibration ''purpose'' = JStr ''calibration''"
    and evaluators: "set (map ref_key (jitems (jget contract ''evaluator_refs''))) =
      set (map (\<lambda>ob. ref_key (jget ob ''evaluator_ref'')) ?obs)"
    and uses: "\<forall>u \<in> set (jitems (jget contract ''use_cases'')). \<exists>found. serves (str_of u) ?obs = Inr found \<and> found"
    unfolding check_evaluation_binding_def Let_def ebind_eq_Inr guard_eq_Inr eiter_eq_Inr unit_ex by blast+
  have "\<exists>(i, control, ob) \<in> set (registry_obligations registry None). jget ob ''required'' = JBool True \<and>
      family_use_case (jget ob ''kind'') = Inr (str_of u)" if "u \<in> set (jitems (jget contract ''use_cases''))" for u
  proof -
    from uses that have "serves (str_of u) ?obs = Inr True" by (metis (full_types))
    from serves_True[OF this] show ?thesis by (auto simp: split_beta)
  qed
  moreover have "set (map (\<lambda>ob. ref_key (jget ob ''evaluator_ref'')) ?obs) =
      set (map (\<lambda>(i, control, ob). ref_key (jget ob ''evaluator_ref'')) (registry_obligations registry None))"
    by (simp add: split_beta image_image)
  ultimately show ?thesis
    using evaluators purposes refs[THEN require_ref_match_Inr(1)] by simp
qed

end
