(* ===== verification/Run_Binding_Examples.thy ===== *)
theory Run_Binding_Examples
  imports Run_Binding_Props Corpus_Report
begin

text \<open>
  A contract, a plan and a manifest that bind: one critical control with one constraint, one case, no
  baseline yet.  They witness the properties of bound plans and runs.
\<close>

section \<open>Small documents have a canonical text\<close>

lemma scan_plain_ok:
  "scan_document pending nodes = Inr () \<Longrightarrow> \<forall>(v, d) \<in> set pending. strict v \<Longrightarrow> scan_plain bad pending nodes = Inr ()"
proof (induction pending nodes rule: scan_document.induct)
  case (2 current depth pending nodes)
  then have ok: "\<not> (depth > 16 \<or> Suc nodes > 100000)" "\<not> int_bad current"
    and rest: "scan_document (rev (map (\<lambda>c. (c, Suc depth)) (children current)) @ pending) (Suc nodes) = Inr ()"
    by (auto simp: scan_document.simps split: if_splits)
  have "strict current" using 2(3) by simp
  then have float: "\<not> is_float current" and "\<forall>c \<in> set (children current). strict c"
    by (cases current; auto simp: list_all_iff)+
  then have "\<forall>(v, d) \<in> set (rev (map (\<lambda>c. (c, Suc depth)) (children current)) @ pending). strict v" using 2(3) by auto
  from 2(1)[OF ok rest this] ok float show ?case by simp
qed simp

lemma canonical_document:
  assumes "document_ok v" and "length (dumps v) \<le> MAX_DOCUMENT_BYTES"
  shows "canonical v = Inr (dumps v)"
proof -
  from assms(1) have ok: "strict v" "shallow v 0" "jnodes v \<le> 100000" "jutf8 v" by (simp_all add: document_ok_def)
  then have "scan_document [(v, 0)] 0 = Inr ()" by (simp add: scan_document_ok)
  then have "scan_plain INVALID_CONTRACT [(v, 0)] 0 = Inr ()" by (rule scan_plain_ok) (simp add: ok)
  with assms(2) ok show ?thesis by (simp add: canonical_def plain_canonical_def canonical_bytes_def strict_jfinite)
qed

lemma sha256_of_simps [simp]: "digest_ok (sha256_of v)" "length (sha256_of v) = 64" "utf8_ok (sha256_of v)"
  using digest_ok_sha256[of "dumps v"] by (simp_all add: sha256_of_def sha256_hex_length utf8_ok_ascii digest_ok_ascii)

lemma content_ref_match:
  assumes "document_ok v" and "length (dumps v) \<le> MAX_DOCUMENT_BYTES" and "require_id (JStr kind) = Inr ()"
    and "require_id (identifier_of v) = Inr ()"
  shows "require_ref_match (JObj [(''kind'', JStr kind), (''id'', identifier_of v), (''digest'', JStr (sha256_of v))]) kind v = Inr ()"
  using assms by (simp add: require_ref_match_def content_ref_def canonical_document sha256_of_def)

section \<open>The documents\<close>

definition content_of :: "string \<Rightarrow> string \<Rightarrow> json \<Rightarrow> json" where
  "content_of kind i v = JObj [(''kind'', JStr kind), (''id'', JStr i), (''digest'', JStr (sha256_of v))]"

definition bound_obligation :: json where
  "bound_obligation = JObj [(''obligation_id'', JStr ''o1''), (''kind'', JStr ''constraint''), (''required'', JBool True),
     (''event_policy'', JStr ''forbidden''), (''evaluator_ref'', corpus_ref ''evaluator'')]"

definition bound_control :: json where
  "bound_control = JObj
    [(''control_id'', JStr ''a''), (''owner'', JStr ''o''), (''invariant'', JStr ''n''), (''criticality'', JStr ''critical''),
     (''target_ref'', corpus_ref ''target''), (''dependencies'', JList []), (''obligations'', JList [bound_obligation]),
     (''mutation_applicability'', JObj [(''status'', JStr ''not_applicable''), (''reason'', JStr ''r'')])]"

definition bound_registry :: json where
  "bound_registry = JObj
    [(''schema_version'', JInt 1), (''kind'', JStr ''control_registry''), (''registry_id'', JStr ''g''),
     (''controls'', JList [bound_control])]"

definition bound_cases :: json where
  "bound_cases = JObj
    [(''schema_version'', JInt 1), (''kind'', JStr ''case_set''), (''case_set_id'', JStr ''set1''),
     (''purpose'', JStr ''acceptance''), (''required_categories'', JList [JStr ''cat1'']), (''cases'', JList [sample_case])]"

definition bound_contract :: json where
  "bound_contract = JObj
    [(''schema_version'', JInt 1), (''kind'', JStr ''evaluation_contract''), (''contract_id'', JStr ''c1''),
     (''generation'', JInt 1), (''policy_series_id'', JStr ''gah-initial-policy-v1''), (''policy_generation'', JInt 1),
     (''policy_ref'', corpus_ref ''policy_profile''), (''registry_ref'', corpus_ref ''control_registry''),
     (''case_set_ref'', corpus_ref ''case_set''), (''calibration_case_set_ref'', corpus_ref ''case_set''),
     (''evaluator_refs'', JList [corpus_ref ''evaluator'']), (''required_categories'', JList [JStr ''cat1'']),
     (''use_cases'', JList [JStr ''UC-CI'']),
     (''comparison'', JObj [(''mode'', JStr ''not_applicable''), (''baseline_ref'', JNull), (''changed_axes'', JList []),
        (''reason'', JStr ''initial_baseline_pending'')]),
     (''required_outputs'', JList (map JStr required_output_names))]"

definition bound_entry :: json where
  "bound_entry = JObj
    [(''obligation_id'', JStr ''o1''), (''case_id'', JStr ''c1''), (''trial_id'', JStr ''t1''), (''variant'', JStr ''candidate''),
     (''stage_ids'', JList [JStr ''s1'']), (''required'', JBool True), (''event_policy'', JStr ''forbidden''),
     (''evaluator_ref'', corpus_ref ''evaluator''), (''target_ref'', corpus_ref ''target'')]"

definition bound_plan :: json where
  "bound_plan = JObj
    [(''schema_version'', JInt 1), (''kind'', JStr ''trial_plan''), (''plan_id'', JStr ''p1''),
     (''contract_ref'', content_of ''evaluation_contract'' ''c1'' bound_contract), (''entries'', JList [bound_entry])]"

definition bound_manifest :: json where
  "bound_manifest = JObj
    [(''schema_version'', JInt 1), (''kind'', JStr ''run_manifest''), (''run_id'', JStr ''r1''),
     (''contract_ref'', content_of ''evaluation_contract'' ''c1'' bound_contract), (''purpose'', JStr ''baseline_candidate''),
     (''use_cases'', JList [JStr ''UC-CI'']), (''target_refs'', JList [corpus_ref ''target'']), (''control_ids'', JList [JStr ''a'']),
     (''baseline_ref'', JNull), (''plan_ref'', content_of ''trial_plan'' ''p1'' bound_plan),
     (''policy_ref'', content_of ''policy_profile'' ''gah-initial-policy-v1'' INITIAL_POLICY), (''profile'', JStr ''full''),
     (''environment_ref'', corpus_ref ''environment''), (''actor_context_ref'', corpus_ref ''actor_context''),
     (''created_at'', JInt 1000), (''deadline'', JInt 2000)]"

section \<open>They are accepted\<close>

lemmas id_simps = require_id_def id_ok_def alnum_def is_digit_def

lemma corpus_ref_kind:
  "id_ok k \<Longrightarrow> kind_ref k (corpus_ref k) = Inr ()"
  by (simp add: kind_ref_def require_ref_def require_object_def require_id_def require_digest_def corpus_ref_def jget_def)
    (simp add: id_simps digest_ok_def hex_lower_def list_all_iff insert_commute)

lemma content_of_kind:
  "id_ok k \<Longrightarrow> id_ok i \<Longrightarrow> kind_ref k (content_of k i v) = Inr ()"
  by (simp add: kind_ref_def require_ref_def require_object_def require_id_def require_digest_def content_of_def jget_def)

lemma bound_documents:
  "document_ok bound_contract" "document_ok bound_plan" "document_ok bound_manifest" "document_ok INITIAL_POLICY"
  by (simp_all add: document_ok_def bound_contract_def bound_plan_def bound_manifest_def bound_entry_def content_of_def corpus_ref_def
      int_bad_def MAX_INTEGER_def utf8_ok_ascii ascii_def required_output_names_def
      initial_parts)

lemma bound_sizes:
  "length (dumps bound_contract) \<le> MAX_DOCUMENT_BYTES" "length (dumps bound_plan) \<le> MAX_DOCUMENT_BYTES"
  "length (dumps bound_manifest) \<le> MAX_DOCUMENT_BYTES" "length (dumps INITIAL_POLICY) \<le> MAX_DOCUMENT_BYTES"
  by (rule order_trans[OF length_dumps], simp add: bound_contract_def corpus_ref_def required_output_names_def
       MAX_DOCUMENT_BYTES_def show_nat.simps,
      rule order_trans[OF length_dumps], simp add: bound_plan_def bound_entry_def content_of_def corpus_ref_def
       MAX_DOCUMENT_BYTES_def show_nat.simps,
      rule order_trans[OF length_dumps], simp add: bound_manifest_def content_of_def corpus_ref_def
       MAX_DOCUMENT_BYTES_def show_nat.simps,
      rule order_trans[OF length_dumps], use initial_policy_document in \<open>simp add: MAX_CONFIG_BYTES_def MAX_DOCUMENT_BYTES_def\<close>)

lemma bound_ids: "id_ok ''evaluator''" "id_ok ''target''" "id_ok ''policy_profile''" "id_ok ''control_registry''"
  "id_ok ''case_set''" "id_ok ''environment''" "id_ok ''actor_context''" "id_ok ''evaluation_contract''" "id_ok ''trial_plan''"
  "id_ok ''c1''" "id_ok ''p1''" "id_ok ''gah-initial-policy-v1''" "id_ok ''o1''" "id_ok ''t1''" "id_ok ''s1''" "id_ok ''cat1''"
  "id_ok ''r1''" "id_ok ''set1''" "id_ok ''a''" "id_ok ''UC-CI''" "id_ok ''g''"
  by (simp_all add: id_ok_def alnum_def is_digit_def)

lemmas bound_refs = bound_ids[THEN corpus_ref_kind] content_of_kind[OF bound_ids(8) bound_ids(10)]
  content_of_kind[OF bound_ids(9) bound_ids(11)] content_of_kind[OF bound_ids(3) bound_ids(12)]

lemmas check_defs = require_object_def require_id_def bound_ids bound_refs enum_def unique_ids_def unique_id_def
  unique_refs_def unique_ref_def require_positive_def document_size_def jget_def

lemma bound_contract_ok: "validate_evaluation_contract bound_contract = Inr bound_contract"
proof -
  have "canonical bound_contract = Inr (dumps bound_contract)" by (rule canonical_document[OF bound_documents(1) bound_sizes(1)])
  then show ?thesis
    unfolding validate_evaluation_contract_def document_size_def
    by (simp add: bound_contract_def evaluation_fields_def validate_comparison_def comparison_fields_def comparison_modes_def
        visit_evaluator_def validate_outputs_def required_output_names_def use_case_names_def MAX_EVALUATORS_def
        MAX_REQUIRED_CATEGORIES_def MAX_USE_CASES_def MAX_CHANGED_AXES_def check_defs)
qed

lemma bound_plan_ok: "validate_trial_plan bound_plan = Inr bound_plan"
proof -
  have "canonical bound_plan = Inr (dumps bound_plan)" by (rule canonical_document[OF bound_documents(2) bound_sizes(2)])
  moreover have "validate_entry bound_entry = Inr ()"
    by (simp add: validate_entry_def bound_entry_def entry_fields_def variants_def entry_event_policies_def MAX_STAGES_def check_defs)
  moreover have "plan_entries bound_plan = [bound_entry]" by (simp add: plan_entries_def bound_plan_def jget_def)
  ultimately show ?thesis
    unfolding validate_trial_plan_def document_size_def
    by (simp add: visit_entry_def MAX_ENTRIES_def) (simp add: bound_plan_def plan_fields_def check_defs)
qed

lemma bound_manifest_ok: "validate_run_manifest bound_manifest = Inr bound_manifest"
proof -
  have "canonical bound_manifest = Inr (dumps bound_manifest)"
    by (rule canonical_document[OF bound_documents(3) bound_sizes(3)])
  then show ?thesis
    unfolding validate_run_manifest_def document_size_def
    by (simp add: bound_manifest_def manifest_fields_def run_purposes_def use_case_names_def run_profiles_def MAX_USE_CASES_def
        MAX_REFS_def require_uint_def MAX_INTEGER_def check_defs)
qed

lemma bound_registry_checks: "registry_checks bound_registry = Inr ([(''a'', [])], [''a''])"
proof -
  have ref: "require_ref (corpus_ref ''evaluator'') = Inr ()" "require_ref (corpus_ref ''target'') = Inr ()"
    using bound_refs(1,2) by (auto simp: kind_ref_def ebind_eq_Inr unit_ex)
  have "validate_control bound_control [] [] = Inr (''a'', [], [''a''], [''o1''])"
    by (simp add: validate_control_def bound_control_def bound_obligation_def ref bound_ids require_object_def require_id_def
        require_text_def text_ok_def py_len_def py_space_def require_enum_def criticalities_def require_list_def
        visit_obligation_def validate_obligation_def obligation_kinds_def require_flag_def event_policies_def
        validate_mutation_applicability_def mutation_statuses_def jget_def MAX_CONTROL_DEPENDENCIES_def
        MAX_CONTROL_OBLIGATIONS_def insert_commute)
  then show ?thesis
    by (simp add: registry_checks_def bound_registry_def require_object_def require_id_def bound_ids require_list_def
        visit_control_def jget_def MAX_CONTROLS_def insert_commute)
qed

lemma bound_edges: "control_edges bound_registry = [(''a'', [])]"
  using registry_checks_Inr[OF bound_registry_checks] by simp

lemma bound_registry_ok: "validate_registry (\<lambda>xs. xs) bound_registry = Inr bound_registry"
proof -
  have "registry_rel bound_registry = {}" by (auto simp: bound_edges edge_rel_def split: if_splits)
  then have "acyclic (registry_rel bound_registry)" by (simp add: acyclic_def)
  moreover have "length (dumps bound_registry) \<le> MAX_DOCUMENT_BYTES"
    by (rule order_trans[OF length_dumps])
      (simp add: bound_registry_def bound_control_def bound_obligation_def corpus_ref_def MAX_DOCUMENT_BYTES_def show_nat.simps)
  ultimately show ?thesis
    using validate_registry_Inr[OF iteration_order_id, of bound_registry bound_registry] bound_registry_checks
    by (simp add: closed_edges_def bound_edges)
      (simp add: bound_registry_def bound_control_def bound_obligation_def corpus_ref_def utf8_ok_ascii ascii_def)
qed

lemma bound_cases_list: "set_cases bound_cases = [sample_case]"
  by (simp add: set_cases_def bound_cases_def jget_def)

lemma bound_cases_ok: "validate_case_set bound_cases = Inr bound_cases"
proof -
  have "canonical_bytes bound_cases = Inr (dumps bound_cases)"
    by (simp add: canonical_bytes_def)
      (simp add: bound_cases_def sample_case_def sample_stage_def corpus_ref_def utf8_ok_ascii ascii_def)
  moreover have "length (dumps bound_cases) \<le> MAX_DOCUMENT_BYTES"
    by (rule order_trans[OF length_dumps])
      (simp add: bound_cases_def sample_case_def sample_stage_def corpus_ref_def MAX_DOCUMENT_BYTES_def show_nat.simps)
  moreover have "jget sample_case ''category'' = JStr ''cat1''" by (simp add: sample_case_def jget_def)
  ultimately show ?thesis
    by (simp add: validate_case_set_def bound_cases_list visit_case_def sample_case_ok)
      (simp add: bound_cases_def case_set_fields_def require_object_def require_member_def require_id_def bound_ids
        purposes_def require_id_list_def visit_id_def MAX_CATEGORIES_def MAX_CASES_def jget_def)
qed

section \<open>They bind\<close>

lemma bound_closure: "dependency_closure (\<lambda>xs. xs) bound_registry (JList [JStr ''a'']) = Inr [''a'']"
proof -
  have "require_selected_ids (JList [JStr ''a'']) = Inr [''a'']"
    by (simp add: require_selected_ids_def require_list_def select_id_def require_id_def bound_ids MAX_CONTROLS_def)
  then show ?thesis
    by (simp add: dependency_closure_def validated_graph_def bound_registry_ok bound_edges explore.simps)
qed

lemma content_of_match:
  assumes "document_ok v" and "length (dumps v) \<le> MAX_DOCUMENT_BYTES" and "id_ok k" and "identifier_of v = JStr i" and "id_ok i"
  shows "require_ref_match (content_of k i v) k v = Inr ()"
  using content_ref_match[OF assms(1,2), of k] assms(3-5) by (simp add: content_of_def require_id_def)

lemma bound_identifiers: "identifier_of bound_contract = JStr ''c1''" "identifier_of bound_plan = JStr ''p1''"
  "identifier_of INITIAL_POLICY = JStr ''gah-initial-policy-v1''"
  by (simp_all add: identifier_of_def identifier_fields_def bound_contract_def bound_plan_def INITIAL_POLICY_def jget_def)

lemmas bound_matches =
  content_of_match[OF bound_documents(1) bound_sizes(1) bound_ids(8) bound_identifiers(1) bound_ids(10)]
  content_of_match[OF bound_documents(2) bound_sizes(2) bound_ids(9) bound_identifiers(2) bound_ids(11)]
  content_of_match[OF bound_documents(4) bound_sizes(4) bound_ids(3) bound_identifiers(3) bound_ids(12)]

lemma bound_plan_binds:
  "\<exists>b. bind_trial_plan_validated (\<lambda>xs. xs) bound_plan bound_contract bound_registry bound_cases (JList [JStr ''a''])
     (JList [corpus_ref ''target'']) JNull = Inr b \<and> jget b ''selected_controls'' = JList [JStr ''a'']"
proof -
  have entries: "plan_entries bound_plan = [bound_entry]" by (simp add: plan_entries_def bound_plan_def jget_def)
  have obligations: "registry_obligations bound_registry (Some [''a'']) = [(JStr ''o1'', bound_control, bound_obligation)]"
    by (simp add: registry_obligations_def bound_registry_def bound_control_def bound_obligation_def jget_def)
  have stages: "stages_by_case bound_cases = [(JStr ''c1'', [JStr ''s1''])]"
    by (simp add: stages_by_case_def bound_cases_list sample_case_def sample_stage_def case_stages_def jget_def)
  have variant: "is_variant ''candidate'' bound_entry" "\<not> is_variant ''baseline'' bound_entry"
    by (simp_all add: is_variant_def bound_entry_def jget_def)
  have contract: "jget bound_plan ''contract_ref'' = content_of ''evaluation_contract'' ''c1'' bound_contract"
    "jget bound_cases ''purpose'' = JStr ''acceptance''" "jget (jget bound_contract ''comparison'') ''mode'' = JStr ''not_applicable''"
    by (simp_all add: bound_plan_def bound_cases_def bound_contract_def jget_def)
  have group: "check_group (JStr ''not_applicable'') [bound_entry] = Inr ()"
    by (simp add: check_group_def variant)
  have entry: "check_entry [(JStr ''o1'', bound_control, bound_obligation)] [(JStr ''c1'', [JStr ''s1''])] old
      {ref_key (corpus_ref ''target'')} bound_entry = Inr ()" for old
    unfolding check_entry_def variant by (simp add: bound_entry_def bound_obligation_def bound_control_def jget_def is_variant_def)
  have target: "jget bound_entry ''target_ref'' = corpus_ref ''target''" "jget bound_entry ''obligation_id'' = JStr ''o1''"
    "jget bound_obligation ''kind'' = JStr ''constraint''"
    by (simp_all add: bound_entry_def bound_obligation_def jget_def)
  have required: "jget bound_obligation ''required'' = JBool True" by (simp add: bound_obligation_def jget_def)
  have sets: "{x. x = bound_entry \<and> is_variant ''candidate'' x} = {bound_entry}"
    "{x. x = (JStr ''o1'', bound_control, bound_obligation) \<and> jget (snd (snd x)) ''required'' = JBool True} =
      {(JStr ''o1'', bound_control, bound_obligation)}" using variant required by auto
  show ?thesis
    by (simp add: sets bind_trial_plan_validated_def contract bound_matches bound_closure baseline_targets_def Let_def
        unique_refs_def unique_ref_def bound_refs MAX_REFS_def obligations entries stages entry variant target group_by_def group
        required_obligation_def jget_def[of "JObj _" "''selected_controls''"])
qed

theorem bound_plan_complete_witness:
  "\<exists>b. bind_trial_plan (\<lambda>xs. xs) bound_plan bound_contract bound_registry bound_cases (JList [JStr ''a''])
     (JList [corpus_ref ''target'']) JNull = Inr b \<and>
   (\<exists>e \<in> set (plan_entries bound_plan). is_variant ''candidate'' e \<and> jget e ''obligation_id'' = JStr ''o1'')"
proof -
  obtain b where b: "bind_trial_plan (\<lambda>xs. xs) bound_plan bound_contract bound_registry bound_cases (JList [JStr ''a''])
     (JList [corpus_ref ''target'']) JNull = Inr b"
    using bound_plan_binds by (auto simp: bind_trial_plan_def bound_plan_ok bound_contract_ok bound_registry_ok bound_cases_ok)
  have "in_scope bound_registry (JList [JStr ''a'']) bound_control bound_obligation"
    by (simp add: in_scope_def Image_def) (simp add: bound_registry_def bound_control_def jget_def)
  moreover have "jget bound_obligation ''required'' = JBool True" "jget bound_obligation ''obligation_id'' = JStr ''o1''"
    by (simp_all add: bound_obligation_def jget_def)
  ultimately have "\<exists>e \<in> set (plan_entries bound_plan). is_variant ''candidate'' e \<and> jget e ''obligation_id'' = JStr ''o1''"
    using bound_plan_complete[OF iteration_order_id b] by metis
  with b show ?thesis by blast
qed

definition bound_bundle :: json where
  "bound_bundle = JObj [(''manifest'', bound_manifest), (''contract'', bound_contract), (''plan'', bound_plan), (''policy'', INITIAL_POLICY),
     (''registry'', bound_registry), (''case_set'', bound_cases), (''selected_controls'', JList [JStr ''a'']), (''ci_eligible'', JBool False)]"

lemma bound_run_binds:
  "bind_run_manifest (\<lambda>xs. xs) bound_manifest bound_contract bound_plan INITIAL_POLICY bound_registry bound_cases JNull = Inr bound_bundle"
proof -
  have purpose: "purpose_check bound_manifest bound_contract = Inr ()"
    by (simp add: purpose_check_def bound_manifest_def bound_contract_def Let_def jget_def)
  have refs: "jget bound_manifest ''contract_ref'' = content_of ''evaluation_contract'' ''c1'' bound_contract"
    "jget bound_manifest ''plan_ref'' = content_of ''trial_plan'' ''p1'' bound_plan"
    "jget bound_manifest ''policy_ref'' = content_of ''policy_profile'' ''gah-initial-policy-v1'' INITIAL_POLICY"
    "jget bound_manifest ''use_cases'' = jget bound_contract ''use_cases''"
    "jget bound_manifest ''target_refs'' = JList [corpus_ref ''target'']" "jget bound_manifest ''control_ids'' = JList [JStr ''a'']"
    "jget bound_manifest ''created_at'' = JInt 1000" "jget bound_manifest ''deadline'' = JInt 2000"
    by (simp_all add: bound_manifest_def bound_contract_def jget_def)
  have "elapsed_seconds INITIAL_POLICY bound_manifest = 5400"
    by (simp add: elapsed_seconds_def bound_manifest_def INITIAL_POLICY_def initial_full_def jints_def jget_def)
  then show ?thesis
    using bound_plan_binds
    by (auto simp: bind_run_manifest_def bound_manifest_ok bound_contract_ok bound_plan_ok initial_policy_accepted bound_registry_ok
        bound_cases_ok purpose refs bound_matches bound_bundle_def)
qed

theorem bound_run_fixed_witness:
  "\<exists>b. bind_run_manifest (\<lambda>xs. xs) bound_manifest bound_contract bound_plan INITIAL_POLICY bound_registry bound_cases JNull = Inr b \<and>
     bind_run_manifest (\<lambda>xs. xs) (jget b ''manifest'') (jget b ''contract'') (jget b ''plan'') (jget b ''policy'')
       (jget b ''registry'') (jget b ''case_set'') JNull = Inr b"
  using bound_run_fixed[OF iteration_order_id bound_run_binds] bound_run_binds by blast

section \<open>Where the code is laxer than its specification\<close>

text \<open>
  \<open>src/docs/run-contract-detail-spec.md\<close>, section 4, has all references matched again.  The run above is
  bound although the contract names another registry than the one it is bound with.
\<close>

lemma registry_ref_not_compared:
  "bind_run_manifest (\<lambda>xs. xs) bound_manifest bound_contract bound_plan INITIAL_POLICY bound_registry bound_cases JNull
     = Inr bound_bundle \<and>
   jget (jget bound_contract ''registry_ref'') ''id'' \<noteq> identifier_of bound_registry"
  using bound_run_binds
  by (simp add: bound_contract_def bound_registry_def corpus_ref_def identifier_of_def identifier_fields_def jget_def)

text \<open>
  The same section gives the old side of a contract transition a comparison that does not apply and no
  baseline.  The check of the purpose also accepts a required comparison with its baseline.
\<close>

definition compared_contract :: json where
  "compared_contract = JObj [(''comparison'', JObj [(''mode'', JStr ''required''), (''baseline_ref'', corpus_ref ''baseline''),
     (''changed_axes'', JList []), (''reason'', JNull)])]"

definition old_regression_manifest :: json where
  "old_regression_manifest = JObj [(''purpose'', JStr ''contract_old_regression''), (''profile'', JStr ''full''),
     (''baseline_ref'', corpus_ref ''baseline'')]"

lemma old_regression_with_comparison:
  "validate_comparison (jget compared_contract ''comparison'') = Inr () \<and>
   purpose_check old_regression_manifest compared_contract = Inr () \<and> jget old_regression_manifest ''baseline_ref'' \<noteq> JNull"
proof -
  have "jget compared_contract ''comparison'' = JObj [(''mode'', JStr ''required''), (''baseline_ref'', corpus_ref ''baseline''),
     (''changed_axes'', JList []), (''reason'', JNull)]" by (simp add: compared_contract_def jget_def)
  moreover have "kind_ref ''baseline'' (corpus_ref ''baseline'') = Inr ()"
    by (rule corpus_ref_kind) (simp add: id_simps)
  ultimately have "validate_comparison (jget compared_contract ''comparison'') = Inr ()"
    by (simp add: validate_comparison_def require_object_def comparison_fields_def enum_def comparison_modes_def unique_ids_def
        jget_def insert_commute)
  then show ?thesis
    by (simp add: purpose_check_def old_regression_manifest_def compared_contract_def Let_def jget_def corpus_ref_def)
qed

end
