(* ===== verification/Run_Examples.thy ===== *)
theory Run_Examples
  imports Run_Metrics Run_Binding_Examples
begin

text \<open>
  A run of the bound example with one attempt, whose check passes: it is aggregated and decided HEALTHY.
  It witnesses the properties of aggregations and of decisions of runs.
\<close>

section \<open>The attempt\<close>

definition some_digest :: json where
  "some_digest = JStr (replicate 64 (CHR ''a''))"

definition run_profile :: json where
  "run_profile = JObj [(''fixture_digest'', some_digest), (''adapter_digests'', JList [some_digest]), (''isolation_digest'', some_digest)]"

definition run_binding :: json where
  "run_binding = JObj
    [(''run_id'', JStr ''r1''), (''operation_id'', JStr ''p1''), (''owner_epoch'', JInt 1),
     (''contract_digest'', JStr (sha256_of bound_contract)), (''target_digest'', some_digest),
     (''obligation_id'', JStr ''o1''), (''case_id'', JStr ''c1''), (''trial_id'', JStr ''t1''), (''stage_id'', JStr ''s1''),
     (''fixture_digest'', some_digest), (''adapter_digest'', some_digest),
     (''policy_digest'', JStr (sha256_of INITIAL_POLICY)), (''evaluator_digest'', some_digest), (''isolation_digest'', some_digest)]"

definition run_result :: json where
  "run_result = normal_result run_binding (JStr ''constraint'') (JStr ''PASS'') JNull JNull JNull JNull some_digest"

definition run_attempt :: json where
  "run_attempt = JObj
    [(''schema_version'', JInt 1), (''kind'', JStr ''attempt_record''), (''attempt_id'', JStr ''x1''), (''variant'', JStr ''candidate''),
     (''retry_of'', JNull), (''started_at'', JInt 1100), (''finished_at'', JInt 1200), (''stop_confirmed'', JBool True),
     (''execution_status'', JStr ''COMPLETED''), (''state_restored'', JBool True), (''expected_binding'', run_binding),
     (''result'', run_result)]"

lemma plain_canonical_document:
  assumes "document_ok v" and "length (dumps v) \<le> MAX_DOCUMENT_BYTES"
  shows "plain_canonical bad v = Inr (dumps v)"
proof -
  from assms(1) have ok: "strict v" "shallow v 0" "jnodes v \<le> 100000" "jutf8 v" by (simp_all add: document_ok_def)
  then have "scan_document [(v, 0)] 0 = Inr ()" by (simp add: scan_document_ok)
  then have "scan_plain bad [(v, 0)] 0 = Inr ()" by (rule scan_plain_ok) (simp add: ok)
  with assms(2) ok show ?thesis by (simp add: plain_canonical_def canonical_bytes_def strict_jfinite)
qed

lemma some_digest_ok: "require_digest some_digest = Inr ()"
  by (simp add: some_digest_def require_digest_def digest_ok_def list_all_iff hex_lower_def is_digit_def)

lemma run_binding_valid: "validate_binding run_binding = Inr run_binding"
proof -
  have "list_all (\<lambda>f. binding_field run_binding f = Inr ()) binding_fields"
    by (simp add: binding_fields_def binding_field_def run_binding_def jget_def suffix_to_prefix require_uint_def some_digest_ok
        require_digest_def[of "JStr (sha256_of _)"] require_id_def bound_ids MAX_INTEGER_def)
  moreover have "is_obj run_binding" "set (jkeys run_binding) = set binding_fields"
    by (simp_all add: run_binding_def binding_fields_def)
  ultimately show ?thesis by (simp add: validate_binding_Inr list_all_iff)
qed

lemma run_result_valid: "validate_result run_result = Inr run_result"
  by (simp add: validate_result_def run_result_def normal_result_def result_fields_def require_object_def run_binding_valid
      agg_enum_def agg_digest_def some_digest_ok result_shape_ok_def among_def check_values_def jget_def)
    (simp add: some_digest_def)

lemma run_attempt_document: "document_ok run_attempt"
  by (simp add: document_ok_def run_attempt_def run_result_def normal_result_def run_binding_def some_digest_def int_bad_def MAX_INTEGER_def
      utf8_ok_ascii ascii_def)

lemma run_attempt_size: "length (dumps run_attempt) \<le> MAX_ATTEMPT_BYTES"
  by (rule order_trans[OF length_dumps])
    (simp add: run_attempt_def run_result_def normal_result_def run_binding_def some_digest_def MAX_ATTEMPT_BYTES_def show_nat.simps)

lemma run_attempt_valid: "validate_attempt run_attempt = Inr (run_attempt, sha256_of run_attempt)"
proof -
  have small: "length (dumps run_attempt) \<le> MAX_DOCUMENT_BYTES" using run_attempt_size by (simp add: MAX_ATTEMPT_BYTES_def MAX_DOCUMENT_BYTES_def)
  have look: "jget run_attempt ''expected_binding'' = run_binding" "jget run_attempt ''result'' = run_result" "run_result \<noteq> JNull"
    by (simp_all add: run_attempt_def run_result_def normal_result_def jget_def)
  have "agg_canon run_attempt = Inr (dumps run_attempt)"
    using plain_canonical_document[OF run_attempt_document small] by (simp add: agg_canon_def)
  then show ?thesis
    by (simp add: validate_attempt_def look run_binding_valid run_result_valid run_attempt_size sha256_of_def)
      (simp add: run_attempt_def attempt_fields_def require_object_def agg_check_def require_id_def agg_enum_def among_def agg_bool_def
        attempt_variants_def attempt_statuses_def require_uint_def MAX_INTEGER_def id_ok_def alnum_def is_digit_def jget_def)
qed

section \<open>Its aggregation\<close>

definition run_key :: plan_key where
  "run_key = ((''candidate'', ''o1'', ''c1'', ''t1''), ''s1'')"

definition counted_row :: attempt_row where
  "counted_row = \<lparr>at_record = run_attempt, at_digest = sha256_of run_attempt, at_count = 1\<rparr>"

definition run_logical :: placed where
  "run_logical = [(run_key, [(run_attempt, 1)])]"

lemma bundle_lookup:
  "jget bound_bundle ''manifest'' = bound_manifest" "jget bound_bundle ''plan'' = bound_plan" "jget bound_bundle ''registry'' = bound_registry"
  "jget bound_bundle ''case_set'' = bound_cases" "jget bound_bundle ''selected_controls'' = JList [JStr ''a'']"
  by (simp_all add: bound_bundle_def jget_def)

lemma attempt_lookup:
  "jget run_attempt ''attempt_id'' = JStr ''x1''" "jget run_attempt ''variant'' = JStr ''candidate''" "jget run_attempt ''retry_of'' = JNull"
  "jget run_attempt ''started_at'' = JInt 1100" "jget run_attempt ''finished_at'' = JInt 1200" "jget run_attempt ''stop_confirmed'' = JBool True"
  "jget run_attempt ''execution_status'' = JStr ''COMPLETED''" "jget run_attempt ''expected_binding'' = run_binding"
  "jget run_attempt ''result'' = run_result" "attempt_id run_attempt = ''x1''"
  by (simp_all add: run_attempt_def jget_def attempt_id_def)

lemma result_lookup:
  "jget run_result ''mode'' = JStr ''constraint''" "jget run_result ''observation'' = JStr ''PASS''" "jget run_result ''mutation_outcome'' = JNull"
  "jget run_result ''binding'' = run_binding" "jget run_result ''deviation'' = JNull" "jget run_result ''detection'' = JNull" "run_result \<noteq> JNull"
  by (simp_all add: run_result_def normal_result_def jget_def)

lemma run_obligations: "agg_obligations bound_bundle = [(''o1'', ''a'', bound_control, bound_obligation)]"
  by (simp add: agg_obligations_def bundle_lookup) (simp add: bound_registry_def bound_control_def bound_obligation_def jget_def)

lemma run_cases: "agg_cases bound_bundle = [(''c1'', sample_case)]"
  by (simp add: agg_cases_def bundle_lookup) (simp add: bound_cases_def sample_case_def jget_def)

lemma run_entries: "agg_plan bound_bundle = [bound_entry]"
  by (simp add: agg_plan_def bundle_lookup) (simp add: bound_plan_def jget_def)

lemma run_planned: "planned_keys bound_bundle = [(run_key, bound_entry)]"
  by (simp add: planned_keys_def run_entries run_key_def) (simp add: entry_group_def entry_stages_def bound_entry_def jget_def)

lemma run_parts:
  "obligation_of bound_bundle ''o1'' = bound_obligation" "control_of bound_bundle ''o1'' = bound_control" "control_id_of bound_bundle ''o1'' = ''a''"
  "case_of bound_bundle ''c1'' = sample_case"
  by (simp_all add: obligation_of_def control_of_def control_id_of_def case_of_def run_obligations run_cases)

lemma obligation_lookup:
  "jget bound_obligation ''kind'' = JStr ''constraint''" "is_required bound_obligation" "forbids bound_obligation" "is_critical bound_control"
  "jget sample_case ''category'' = JStr ''cat1''" "jget sample_case ''scored_stage_id'' = JStr ''s1''"
  by (simp_all add: bound_obligation_def bound_control_def sample_case_def is_required_def forbids_def is_critical_def jget_def)

lemma run_record_key: "record_key run_attempt = run_key"
  by (simp add: record_key_def attempt_lookup run_key_def Let_def) (simp add: run_binding_def jget_def)

lemma run_profile_valid: "validate_profile run_profile = Inr run_profile" "\<not> has_bindings run_profile"
  "validate_agg_profile run_profile = Inr run_profile" "check_plan run_profile bound_bundle = Inr ()"
proof -
  have keys: "is_obj run_profile" "set (jkeys run_profile) = set legacy_fields" "''schema_version'' \<notin> set (jkeys run_profile)"
    by (simp_all add: run_profile_def legacy_fields_def insert_commute)
  have look: "jget run_profile ''fixture_digest'' = some_digest" "jget run_profile ''isolation_digest'' = some_digest"
    "jget run_profile ''adapter_digests'' = JList [some_digest]" by (simp_all add: run_profile_def jget_def)
  show v: "validate_profile run_profile = Inr run_profile" "\<not> has_bindings run_profile"
    by (simp_all add: validate_profile_def keys look some_digest_ok require_adapters_def has_bindings_def)
      (simp_all add: legacy_fields_def)
  show "validate_agg_profile run_profile = Inr run_profile"
    by (simp add: validate_agg_profile_def keys look require_object_def agg_digest_def some_digest_ok visit_adapter_def v)
  show "check_plan run_profile bound_bundle = Inr ()" using v by (simp add: check_plan_def)
qed

lemma run_placed: "misplaced bound_bundle run_profile run_attempt = Inr None"
proof -
  have window: "attempt_in_window bound_bundle run_attempt"
    by (simp add: attempt_in_window_def attempt_lookup bundle_lookup) (simp add: bound_manifest_def jget_def)
  have "expected run_profile t e = Inr run_profile" for t e
    using run_profile_valid(1,2) by (simp add: expected_def legacy_fields_def) (simp add: run_profile_def jget_def)
  moreover have "binding_expected bound_bundle run_profile run_profile bound_entry run_binding"
    by (simp add: binding_expected_def expected_fields_def bundle_lookup Let_def)
      (simp add: bound_manifest_def bound_entry_def run_profile_def run_binding_def content_of_def corpus_ref_def some_digest_def jget_def)
  moreover have "jget run_binding ''obligation_id'' = JStr ''o1''" by (simp add: run_binding_def jget_def)
  ultimately show ?thesis
    by (simp add: misplaced_def Let_def window run_record_key run_planned attempt_lookup result_lookup run_parts obligation_lookup expected_mode_def)
qed

lemma run_collected: "efold collect no_attempts [run_attempt] = Inr \<lparr>co_unique = [(''x1'', counted_row)], co_conflicted = [], co_conflicts = [], co_issues = []\<rparr>"
  by (simp add: collect_def no_attempts_def run_attempt_valid attempt_lookup counted_row_def)

lemma run_definitive: "definitive run_attempt" "retry_issue u l k run_attempt = None" "\<not> unrelated run_attempt [(run_attempt, n)]"
  by (simp_all add: definitive_def retry_issue_def unrelated_def attempt_lookup result_lookup)

lemma run_selected: "select_all u run_logical [] [] = \<lparr>se_selected = [(run_key, run_attempt, 1)], se_conflict_keys = [], se_conflicts = [], se_issues = []\<rparr>"
  by (simp add: select_all_def run_logical_def select_at_def retry_issues_def valid_records_def run_definitive)

definition run_selection :: agg_selection where
  "run_selection = \<lparr>se_selected = [(run_key, run_attempt, 1)], se_conflict_keys = [], se_conflicts = [], se_issues = []\<rparr>"

definition run_aggregated :: aggregated where
  "run_aggregated =
    (let v = view_of bound_bundle run_logical run_selection in
     \<lparr>ag_collected = \<lparr>co_unique = [(''x1'', counted_row)], co_conflicted = [], co_conflicts = [], co_issues = []\<rparr>,
      ag_logical = run_logical, ag_selection = run_selection, ag_view = v,
      ag_tally = tally_of v (planned_keys bound_bundle) (start_tally False False), ag_issues = []\<rparr>)"

lemma run_groups: "all_groups [(run_key, bound_entry)] = [((''candidate'', ''o1'', ''c1'', ''t1''), [''s1''])]"
  by (simp add: all_groups_def run_key_def)

lemma run_scorable: "scorable_groups [(run_key, run_attempt, 1)] [((''candidate'', ''o1'', ''c1'', ''t1''), [''s1''])] = [(''candidate'', ''o1'', ''c1'', ''t1'')]"
  by (simp add: scorable_groups_def run_key_def definite_def attempt_lookup result_lookup)

lemma run_in_order: "out_of_order planned selected g = []" if "map_of (all_groups planned) g = Some [s]"
  using that by (simp add: out_of_order_def group_records_def)

lemma run_aggregate_parts: "aggregate_parts bound_bundle (JList [run_attempt]) run_profile = Inr run_aggregated"
proof -
  have status: "status_issue [] run_attempt = []" by (simp add: status_issue_def attempt_lookup result_lookup)
  have place: "place bound_bundle run_profile [] ([], []) counted_row = Inr ([], run_logical)"
    by (simp add: place_def Let_def counted_row_def run_placed run_record_key run_logical_def placed_at_def)
  have order: "order_issues [(run_key, bound_entry)] [(run_key, run_attempt, 1)] [(''candidate'', ''o1'', ''c1'', ''t1'')] [] = []"
    using run_in_order[of "[(run_key, bound_entry)]" "(''candidate'', ''o1'', ''c1'', ''t1'')"] by (simp add: order_issues_def run_groups)
  show ?thesis
    using place order run_selected[folded run_selection_def] run_scorable
    by (simp add: aggregate_parts_def MAX_ATTEMPTS_def run_collected[simplified] counted_row_def status run_planned run_groups
        run_aggregated_def violation_issues_def Let_def run_selection_def)
qed

lemma run_outcome:
  "outcome_of (view_of bound_bundle run_logical run_selection) run_key =
    plain_outcome [(''planned'', 1), (''attempts'', 1), (''retry_count'', 0), (''fault_count'', 0), (''complete'', 1), (''delivery_count'', 1),
      (''duplicate_deliveries'', 0), (''constraint_pass'', 1)]"
proof -
  have result: "result_outcome control obligation forbidden scorable label run_result = plain_outcome [(''constraint_pass'', 1)]"
    for control obligation forbidden scorable label
    by (simp add: result_outcome_def result_lookup constraint_outcome_def)
  have "attempt_counts (view_of bound_bundle run_logical run_selection) run_key = [(''attempts'', 1), (''retry_count'', 0), (''fault_count'', 0)]"
    by (simp add: attempt_counts_def view_parts run_logical_def placed_at_def attempt_lookup is_fault_def among_def fault_statuses_def Let_def)
  then show ?thesis
    by (simp add: outcome_of_def run_key_def view_parts run_parts obligation_lookup run_selection_def Let_def)
      (simp add: attempt_lookup result prepend_counts_def plain_outcome_def)
qed

lemma run_keys: "bucket_keys bound_bundle run_key =
  [(''variant'', ''candidate'', []), (''control'', ''candidate'', [''a'']), (''category'', ''candidate'', [''cat1'']), (''obligation'', ''candidate'', [''o1'']),
   (''control_category'', ''candidate'', [''a'', ''cat1'']), (''obligation_category'', ''candidate'', [''o1'', ''cat1''])]"
  by (simp add: bucket_keys_def run_key_def run_parts obligation_lookup Let_def)

definition run_bucket :: bucket where
  "run_bucket = bump [(''planned'', 1), (''attempts'', 1), (''retry_count'', 0), (''fault_count'', 0), (''complete'', 1), (''delivery_count'', 1),
      (''duplicate_deliveries'', 0), (''constraint_pass'', 1)] empty_bucket"

lemma run_tally: "ag_tally run_aggregated =
  \<lparr>ta_counts = [((''variant'', ''candidate'', []), run_bucket), ((''variant'', ''baseline'', []), empty_bucket),
     ((''control'', ''candidate'', [''a'']), run_bucket), ((''category'', ''candidate'', [''cat1'']), run_bucket),
     ((''obligation'', ''candidate'', [''o1'']), run_bucket), ((''control_category'', ''candidate'', [''a'', ''cat1'']), run_bucket),
     ((''obligation_category'', ''candidate'', [''o1'', ''cat1'']), run_bucket)],
   ta_missing = False, ta_critical_missing = False, ta_forbidden = False, ta_critical_violation = False\<rparr>"
  by (simp add: run_aggregated_def Let_def run_planned tally_of_def start_tally_def add_outcome_def run_keys run_outcome view_parts
      plain_outcome_def bucket_at_def run_bucket_def[symmetric])

lemma run_bucket_values: "run_bucket f = (if f \<in> {''planned'', ''attempts'', ''complete'', ''delivery_count'', ''constraint_pass''} then 1 else 0)"
  by (simp add: run_bucket_def bump_def empty_bucket_def)

definition run_document :: json where
  "run_document = aggregation_json bound_bundle run_profile run_aggregated"

lemma run_validated: "aggregate_validated bound_bundle (JList [run_attempt]) run_profile = Inr run_document"
  by (simp add: aggregate_validated_def run_profile_valid run_aggregate_parts run_document_def)

lemma run_rebinds: "rebind (\<lambda>xs. xs) bound_bundle JNull = Inr bound_bundle"
  by (simp add: rebind_def require_object_def) (simp add: bound_bundle_def jget_def bound_run_binds[unfolded bound_bundle_def])

section \<open>Its decision\<close>

definition small_bucket :: "bucket \<Rightarrow> bool" where
  "small_bucket b \<longleftrightarrow> (\<forall>f. b f = 0 \<or> b f = 1)"

lemma run_buckets_small: "small_bucket run_bucket" "small_bucket empty_bucket"
  by (simp_all add: small_bucket_def run_bucket_values empty_bucket_def)

lemma small_bucket_json:
  assumes "small_bucket b"
  shows "strict (bucket_json b)" "d \<le> 15 \<Longrightarrow> shallow (bucket_json b) d" "jnodes (bucket_json b) = 28" "jutf8 (bucket_json b)"
    "jlen (bucket_json b) \<le> 10000"
proof -
  have one: "length (show_nat 0) = 1" "length (show_nat 1) = 1" by (simp_all add: show_nat.simps)
  have digit: "\<not> int_bad (JInt (b f)) \<and> length (show_nat (nat \<bar>b f\<bar>)) = 1" for f
  proof -
    from assms have "b f = 0 \<or> b f = 1" by (simp add: small_bucket_def)
    then show ?thesis using one by (elim disjE) (simp_all add: int_bad_def MAX_INTEGER_def del: show_nat.simps)
  qed
  show "strict (bucket_json b)" by (simp add: bucket_json_def bucket_fields_def)
  show "d \<le> 15 \<Longrightarrow> shallow (bucket_json b) d" using digit by (simp add: bucket_json_def list_all_iff del: show_nat.simps)
  show "jnodes (bucket_json b) = 28" by (simp add: bucket_json_def bucket_fields_def)
  show "jutf8 (bucket_json b)" by (simp add: bucket_json_def bucket_fields_def utf8_ok_ascii ascii_def)
  show "jlen (bucket_json b) \<le> 10000" using digit by (simp add: bucket_json_def bucket_fields_def del: show_nat.simps)
qed

definition run_counts :: json where
  "run_counts = counts_json (ta_counts (ag_tally run_aggregated))"

lemma run_counts_eq: "run_counts = JObj
  [(''variant'', JObj [(''candidate'', bucket_json run_bucket), (''baseline'', bucket_json empty_bucket)]),
   (''control'', JObj [(''candidate'', JObj [(''a'', bucket_json run_bucket)]), (''baseline'', JObj [])]),
   (''category'', JObj [(''candidate'', JObj [(''cat1'', bucket_json run_bucket)]), (''baseline'', JObj [])]),
   (''obligation'', JObj [(''candidate'', JObj [(''o1'', bucket_json run_bucket)]), (''baseline'', JObj [])]),
   (''control_category'', JObj [(''candidate'', JObj [(''a'', JObj [(''cat1'', bucket_json run_bucket)])]), (''baseline'', JObj [])]),
   (''obligation_category'', JObj [(''candidate'', JObj [(''o1'', JObj [(''cat1'', bucket_json run_bucket)])]), (''baseline'', JObj [])])]"
  by (simp add: run_counts_def run_tally counts_json_def attempt_variants_def bucket_at_def scope_json_def nested_def)

lemma entry_lookup: "jget bound_entry ''variant'' = JStr ''candidate''" "jget bound_entry ''obligation_id'' = JStr ''o1''"
  "jget bound_entry ''case_id'' = JStr ''c1''"
  by (simp_all add: bound_entry_def jget_def)

lemma run_entry_kind: "entry_kind bound_bundle bound_entry = ''constraint''"
  by (simp add: entry_kind_def entry_lookup run_parts obligation_lookup)

lemma run_scope_entries:
  "scope_entries bound_bundle (''control'', ''candidate'', [''a'']) = [bound_entry]"
  "scope_entries bound_bundle (''category'', ''candidate'', [''cat1'']) = [bound_entry]"
  "scope_entries bound_bundle (''control_category'', ''candidate'', [''a'', ''cat1'']) = [bound_entry]"
  by (simp_all add: scope_entries_def run_entries entry_lookup run_parts obligation_lookup Let_def)

lemma run_kinds:
  "scope_kinds bound_bundle (''control'', ''candidate'', [''a'']) = [''constraint'']"
  "scope_kinds bound_bundle (''category'', ''candidate'', [''cat1'']) = [''constraint'']"
  "scope_kinds bound_bundle (''control_category'', ''candidate'', [''a'', ''cat1'']) = [''constraint'']"
  "scope_kinds bound_bundle (''obligation'', ''candidate'', [''o1'']) = [''constraint'']"
  "scope_kinds bound_bundle (''obligation_category'', ''candidate'', [''o1'', ''cat1'']) = [''constraint'']"
  by (simp_all add: scope_kinds_def run_scope_entries run_entry_kind sorted_set_def run_parts obligation_lookup)

lemma run_no_metrics: "variant_metrics bound_bundle ''candidate'' (ta_counts (ag_tally run_aggregated)) = []"
  by (simp add: variant_metrics_def run_tally run_kinds metric_values_def)

lemma run_document_eq: "run_document = JObj
  [(''schema_version'', JInt 1), (''kind'', JStr ''aggregation''), (''ci_eligible'', JBool False), (''run_id'', JStr ''r1''),
   (''contract_digest'', JStr (sha256_of bound_contract)), (''execution_profile'', run_profile), (''required_missing'', JBool False),
   (''critical_missing'', JBool False), (''integrity_failure'', JBool False), (''forbidden_violation'', JBool False),
   (''critical_violation'', JBool False), (''issues'', JList []), (''counts'', run_counts), (''metrics'', JList []), (''metric_scopes'', JObj [])]"
proof -
  have manifest: "jget bound_manifest ''run_id'' = JStr ''r1''" "jget (jget bound_manifest ''contract_ref'') ''digest'' = JStr (sha256_of bound_contract)"
    by (simp_all add: bound_manifest_def content_of_def jget_def)
  have issues: "ag_issues run_aggregated = []" by (simp add: run_aggregated_def Let_def)
  have flags: "ta_missing (ag_tally run_aggregated) = False" "ta_critical_missing (ag_tally run_aggregated) = False"
    "ta_forbidden (ag_tally run_aggregated) = False" "ta_critical_violation (ag_tally run_aggregated) = False" by (simp_all add: run_tally)
  show ?thesis
    by (simp add: run_document_def aggregation_json_def Let_def bundle_lookup manifest issues flags run_no_metrics run_counts_def[symmetric] dict_of_def)
qed

definition dated_document :: json where
  "dated_document = jset run_document ''observed_at'' (JInt 1200)"

lemma counts_ok: "strict run_counts" "shallow run_counts 1" "jnodes run_counts \<le> 1000" "jutf8 run_counts" "jlen run_counts \<le> 100000"
proof -
  note small = small_bucket_json[OF run_buckets_small(1)] small_bucket_json[OF run_buckets_small(2)]
  show "strict run_counts" "shallow run_counts 1" "jnodes run_counts \<le> 1000" "jutf8 run_counts"
    using small by (simp_all add: run_counts_eq utf8_ok_ascii ascii_def)
  show "jlen run_counts \<le> 100000" using small(5,10) by (simp add: run_counts_eq)
qed

lemma profile_ok: "strict run_profile" "shallow run_profile 1" "jnodes run_profile \<le> 10" "jutf8 run_profile" "jlen run_profile \<le> 2000"
  by (simp_all add: run_profile_def some_digest_def int_bad_def utf8_ok_ascii ascii_def)

lemma dated_eq: "dated_document = JObj
  [(''schema_version'', JInt 1), (''kind'', JStr ''aggregation''), (''ci_eligible'', JBool False), (''run_id'', JStr ''r1''),
   (''contract_digest'', JStr (sha256_of bound_contract)), (''execution_profile'', run_profile), (''required_missing'', JBool False),
   (''critical_missing'', JBool False), (''integrity_failure'', JBool False), (''forbidden_violation'', JBool False),
   (''critical_violation'', JBool False), (''issues'', JList []), (''counts'', run_counts), (''metrics'', JList []), (''metric_scopes'', JObj []),
   (''observed_at'', JInt 1200)]"
  by (simp add: dated_document_def run_document_eq)

lemma dated_walked: "walk_json dated_document = Inr (dumps dated_document)"
proof -
  have "document_ok dated_document" using counts_ok profile_ok
    by (simp add: dated_eq document_ok_def int_bad_def MAX_INTEGER_def utf8_ok_ascii ascii_def)
  moreover have "length (dumps dated_document) \<le> MAX_DOCUMENT_BYTES"
    by (rule order_trans[OF length_dumps]) (use counts_ok(5) profile_ok(5) in \<open>simp add: dated_eq MAX_DOCUMENT_BYTES_def show_nat.simps\<close>)
  ultimately show ?thesis by (simp add: walk_json_def plain_canonical_document)
qed

definition run_aggregate :: json where
  "run_aggregate = jset (jset dated_document ''aggregate_digest'' (JStr (sha256_of dated_document))) ''ci_eligible'' (JBool False)"

lemma run_aggregates: "aggregate_in_tx (\<lambda>xs. xs) bound_bundle run_profile JNull [run_attempt] 1000 1300 = Inr run_aggregate"
  using dated_walked
  by (simp add: aggregate_in_tx_def observed_time_def attempt_lookup aggregate_uncached_def run_rebinds run_validated
      dated_document_def[symmetric] run_aggregate_def sha256_of_def)

lemma run_targets_walked: "\<exists>raw. walk_json (JList [corpus_ref ''target'']) = Inr raw"
proof -
  let ?v = "JList [corpus_ref ''target'']"
  have "strict ?v" "shallow ?v 0" "jnodes ?v \<le> 100000" "jutf8 ?v"
    by (simp_all add: corpus_ref_def int_bad_def utf8_ok_ascii ascii_def)
  moreover from this have "scan_document [(?v, 0)] 0 = Inr ()" by (simp add: scan_document_ok)
  then have "scan_plain bad [(?v, 0)] 0 = Inr ()" for bad by (rule scan_plain_ok) (simp add: corpus_ref_def)
  moreover have "length (dumps ?v) \<le> MAX_DOCUMENT_BYTES"
    by (rule order_trans[OF length_dumps]) (simp add: corpus_ref_def MAX_DOCUMENT_BYTES_def)
  ultimately show ?thesis by (simp add: walk_json_def plain_canonical_def canonical_bytes_def strict_jfinite)
qed

lemma run_part_healthy:
  assumes "digest_ok target"
  shows "\<exists>c. part_decision bound_bundle run_aggregate target False 1300 0 = Inr c \<and> jget c ''reasons'' = JList [] \<and> jget c ''metrics'' = JList []"
proof -
  let ?q = "\<lparr>request_id = ''decision-part-0'', target_digest = target, contract_digest = sha256_of bound_contract, evidence_at = 1200,
     assessed_at = 1300, metrics = [], required_missing = False, critical_missing = False, integrity_failure = False,
     forbidden_violation = False, critical_violation = False, warning = False\<rparr>"
  let ?r = "part_request bound_bundle run_aggregate target False 1300 0"
  have contract: "jget (jget bound_manifest ''contract_ref'') ''digest'' = JStr (sha256_of bound_contract)"
    by (simp add: bound_manifest_def content_of_def jget_def)
  have agg: "jget run_aggregate ''metrics'' = JList []" "jget run_aggregate ''observed_at'' = JInt 1200"
    "f \<in> set flag_names \<Longrightarrow> jget run_aggregate f = JBool False" for f
    by (auto simp: run_aggregate_def dated_eq jget_def flag_names_def)
  have r: "?r = JObj [(''schema_version'', JInt 1), (''request_id'', JStr ''decision-part-0''), (''target_digest'', JStr target),
     (''contract_digest'', JStr (sha256_of bound_contract)), (''purpose'', JStr ''component_validation''), (''observed_at'', JInt 1200),
     (''assessed_at'', JInt 1300), (''metrics'', JList []), (''required_missing'', JBool False), (''critical_missing'', JBool False),
     (''integrity_failure'', JBool False), (''forbidden_violation'', JBool False), (''critical_violation'', JBool False), (''warning'', JBool False)]"
    using agg(3) by (simp add: part_request_def bundle_lookup contract agg(1,2) show_nat.simps digit_char_def char_of_def bit_0 flag_names_def)
  have "read_decision_request True ?r = Inr ?q"
    using assms by (simp add: r read_decision_request_def request_fields_def decision_checks check_def decision_id_ok_def lower_alnum_def
      is_digit_def list_all_iff MAX_TIMESTAMP_def MAX_METRICS_def jget_def insert_commute)
  moreover have "judge ?q = Inr \<lparr>decision_assurance = HEALTHY, decision_reasons = [], decision_metrics = []\<rparr>"
    by (simp add: judge_def assess_metrics_def event_reasons_def MAX_AGE_def)
  ultimately show ?thesis by (simp add: part_decision_def agg assess_constraint_events_def assess_with_def Let_def) (simp add: jget_def)
qed

lemma run_evaluated:
  "\<exists>d. evaluate_run (\<lambda>xs. xs) bound_bundle run_profile JNull [run_attempt] 1000 1300 False None = Inr d \<and> jget d ''assurance'' = JStr ''HEALTHY''"
proof -
  obtain raw where raw: "walk_json (JList [corpus_ref ''target'']) = Inr raw" using run_targets_walked by blast
  obtain c where c: "part_decision bound_bundle run_aggregate (sha256_hex raw) False 1300 0 = Inr c" "jget c ''reasons'' = JList []"
    using run_part_healthy[OF digest_ok_sha256] by blast
  have targets: "jget bound_manifest ''target_refs'' = JList [corpus_ref ''target'']" by (simp add: bound_manifest_def jget_def)
  have kinds: "set (selected_kinds bound_bundle) = {JStr ''constraint''}"
    by (simp add: selected_kinds_def bundle_lookup) (simp add: bound_registry_def bound_control_def bound_obligation_def jget_def)
  have agg: "jget run_aggregate ''metrics'' = JList []" "failed_checks run_aggregate = 0"
    by (simp_all add: run_aggregate_def dated_eq failed_checks_def jget_def run_counts_eq bucket_json_def bucket_fields_def run_bucket_values)
  show ?thesis
    by (simp add: evaluate_run_def run_aggregates decision_from_aggregate_def Let_def agg kinds bundle_lookup targets raw c)
      (simp add: jget_def)
qed

section \<open>Witnesses\<close>

theorem selected_is_definitive_witness:
  "map_of (se_selected (ag_selection run_aggregated)) run_key = Some (run_attempt, 1) \<and> run_attempt \<in> set [run_attempt] \<and>
   jget run_attempt ''stop_confirmed'' = JBool True"
proof -
  have sel: "map_of (se_selected (ag_selection run_aggregated)) run_key = Some (run_attempt, 1)"
    by (simp add: run_aggregated_def run_selection_def Let_def)
  from selected_is_definitive[OF run_aggregate_parts this] sel show ?thesis by blast
qed

theorem positions_counted_once_witness:
  "run_bucket ''planned'' = run_bucket ''complete'' + run_bucket ''missing'' + run_bucket ''error'' + run_bucket ''conflict''"
proof -
  have "((''control'', ''candidate'', [''a'']), run_bucket) \<in> set (ta_counts (ag_tally run_aggregated))" by (simp add: run_tally)
  from positions_counted_once[OF run_aggregate_parts this] show ?thesis by blast
qed

theorem violations_reported_witness:
  "\<exists>a. aggregate_parts bound_bundle (JList [run_attempt]) run_profile = Inr a"
  using violations_reported[OF run_validated] by blast

theorem no_attempt_lost_witness:
  "bucket_at (ta_counts (ag_tally run_aggregated)) (''variant'', ''candidate'', []) ''attempts'' +
    bucket_at (ta_counts (ag_tally run_aggregated)) (''variant'', ''baseline'', []) ''attempts'' = 1"
proof -
  have "jget run_document ''integrity_failure'' = JBool False" by (simp add: run_document_eq jget_def)
  from no_attempt_lost[OF run_validated this] run_aggregate_parts show ?thesis by auto
qed

theorem healthy_run_is_proven_witness:
  "\<exists>b doc. rebind (\<lambda>xs. xs) bound_bundle JNull = Inr b \<and> aggregate_validated b (JList [run_attempt]) run_profile = Inr doc \<and>
     (\<forall>f \<in> set flag_names. jget doc f = JBool False)"
proof -
  obtain d where d: "evaluate_run (\<lambda>xs. xs) bound_bundle run_profile JNull [run_attempt] 1000 1300 False None = Inr d"
    "jget d ''assurance'' = JStr ''HEALTHY''" using run_evaluated by blast
  from healthy_run_is_proven[OF this] show ?thesis by blast
qed

text \<open>The same plan for an obligation of a model, and no attempt: the metrics are there, over nothing.\<close>

definition model_obligation :: json where
  "model_obligation = JObj [(''obligation_id'', JStr ''o1''), (''kind'', JStr ''llm_metric''), (''required'', JBool True),
     (''event_policy'', JStr ''forbidden''), (''evaluator_ref'', corpus_ref ''evaluator'')]"

definition model_control :: json where
  "model_control = JObj [(''control_id'', JStr ''a''), (''criticality'', JStr ''critical''), (''obligations'', JList [model_obligation])]"

definition model_bundle :: json where
  "model_bundle = JObj [(''manifest'', bound_manifest), (''plan'', bound_plan), (''registry'', JObj [(''controls'', JList [model_control])]),
     (''case_set'', bound_cases), (''selected_controls'', JList [JStr ''a''])]"

lemma model_obligations: "agg_obligations model_bundle = [(''o1'', ''a'', model_control, model_obligation)]"
  by (simp add: agg_obligations_def model_bundle_def model_control_def model_obligation_def jget_def)

lemma model_entries: "agg_plan model_bundle = [bound_entry]"
  using run_entries by (simp add: agg_plan_def bundle_lookup) (simp add: model_bundle_def jget_def)

lemma model_planned: "planned_keys model_bundle = [(run_key, bound_entry)]"
  using run_planned by (simp add: planned_keys_def run_entries model_entries)

lemma model_parts:
  "obligation_of model_bundle ''o1'' = model_obligation" "control_of model_bundle ''o1'' = model_control" "control_id_of model_bundle ''o1'' = ''a''"
  "jget (case_of model_bundle ''c1'') ''category'' = JStr ''cat1''" "jget model_obligation ''kind'' = JStr ''llm_metric''" "is_critical model_control"
  using obligation_lookup(5)
  by (simp_all add: obligation_of_def control_of_def control_id_of_def case_of_def model_obligations)
    (simp_all add: agg_cases_def model_bundle_def bound_cases_def sample_case_def model_obligation_def model_control_def is_critical_def jget_def)

definition model_metric :: json where
  "model_metric = metric_json [] ([''obligation'', ''o1'', ''recall''], \<lparr>am_critical = True, am_numerator = 0, am_denominator = 0\<rparr>)"

lemma model_metrics: "\<exists>doc. aggregate_validated model_bundle (JList []) run_profile = Inr doc \<and> model_metric \<in> set (jitems (jget doc ''metrics''))"
proof -
  let ?sel = "\<lparr>se_selected = [], se_conflict_keys = [], se_conflicts = [], se_issues = []\<rparr>"
  let ?v = "view_of model_bundle [] ?sel"
  let ?t = "ta_counts (tally_of ?v [(run_key, bound_entry)] (start_tally False False))"
  have scorable: "scorable_groups [] (all_groups [(run_key, bound_entry)]) = []" by (simp add: run_groups scorable_groups_def)
  obtain a where a: "aggregate_parts model_bundle (JList []) run_profile = Inr a" "ta_counts (ag_tally a) = ?t"
    by (simp add: aggregate_parts_def MAX_ATTEMPTS_def no_attempts_def select_all_def violation_issues_def order_issues_def model_planned scorable Let_def)
  have "check_plan run_profile model_bundle = Inr ()" using run_profile_valid(1,2) by (simp add: check_plan_def)
  with a have doc: "aggregate_validated model_bundle (JList []) run_profile = Inr (aggregation_json model_bundle run_profile a)"
    by (simp add: aggregate_validated_def run_profile_valid)
  have keys: "bucket_keys model_bundle run_key = [(''variant'', ''candidate'', []), (''control'', ''candidate'', [''a'']),
     (''category'', ''candidate'', [''cat1'']), (''obligation'', ''candidate'', [''o1'']), (''control_category'', ''candidate'', [''a'', ''cat1'']),
     (''obligation_category'', ''candidate'', [''o1'', ''cat1''])]"
    by (simp add: bucket_keys_def run_key_def model_parts Let_def)
  have entries: "scope_entries model_bundle (''control'', ''candidate'', [''a'']) = [bound_entry]"
    "scope_entries model_bundle (''category'', ''candidate'', [''cat1'']) = [bound_entry]"
    "scope_entries model_bundle (''control_category'', ''candidate'', [''a'', ''cat1'']) = [bound_entry]"
    by (simp_all add: scope_entries_def model_entries entry_lookup model_parts Let_def)
  have kinds: "scope_kinds model_bundle (''control'', ''candidate'', [''a'']) = [''llm_metric'']"
    "scope_kinds model_bundle (''category'', ''candidate'', [''cat1'']) = [''llm_metric'']"
    "scope_kinds model_bundle (''control_category'', ''candidate'', [''a'', ''cat1'']) = [''llm_metric'']"
    "scope_kinds model_bundle (''obligation'', ''candidate'', [''o1'']) = [''llm_metric'']"
    "scope_kinds model_bundle (''obligation_category'', ''candidate'', [''o1'', ''cat1'']) = [''llm_metric'']"
    by (simp_all add: scope_kinds_def entries entry_kind_def entry_lookup sorted_set_def model_parts)
  let ?b = "bump (oc_counts (outcome_of ?v run_key)) empty_bucket"
  have t: "?t = [((''variant'', ''candidate'', []), ?b), ((''variant'', ''baseline'', []), empty_bucket), ((''control'', ''candidate'', [''a'']), ?b),
     ((''category'', ''candidate'', [''cat1'']), ?b), ((''obligation'', ''candidate'', [''o1'']), ?b), ((''control_category'', ''candidate'', [''a'', ''cat1'']), ?b),
     ((''obligation_category'', ''candidate'', [''o1'', ''cat1'']), ?b)]"
    by (simp add: tally_of_def start_tally_def add_outcome_def view_parts keys bucket_at_def)
  have counts: "oc_counts (outcome_of ?v run_key) = [(''planned'', 1), (''attempts'', 0), (''retry_count'', 0), (''fault_count'', 0), (''missing'', 1)]"
    by (simp add: outcome_of_def run_key_def view_parts Let_def prepend_counts_def attempt_counts_def placed_at_def missing_outcome_def
        plain_outcome_def unselected_field_def fault_keys_def error_keys_def model_parts)
  have zero: "?b ''tp'' = 0" "?b ''fn'' = 0" by (simp_all add: counts bump_contrib empty_bucket_def)
  have "([''obligation'', ''o1'', ''recall''], \<lparr>am_critical = True, am_numerator = 0, am_denominator = 0\<rparr>) \<in>
      set (variant_metrics model_bundle ''candidate'' ?t)"
    unfolding t variant_metrics_def
    by (simp add: kinds metric_values_def scope_id_def scope_critical_def entries entry_critical_def entry_lookup model_parts zero)
  moreover have "variant_metrics model_bundle ''baseline'' ?t = []" unfolding t by (simp add: variant_metrics_def)
  ultimately have "model_metric \<in> set (jitems (jget (aggregation_json model_bundle run_profile a) ''metrics''))"
    by (simp add: aggregation_json_def Let_def jget_def a(2) model_metric_def image_iff) blast
  with doc show ?thesis by blast
qed

theorem metrics_are_decidable_witness: "\<exists>x. require_metric [] model_metric = Inr [x]"
proof -
  obtain doc where doc: "aggregate_validated model_bundle (JList []) run_profile = Inr doc" "model_metric \<in> set (jitems (jget doc ''metrics''))"
    using model_metrics by blast
  have small: "int (length (planned_keys model_bundle)) \<le> MAX_COUNT" by (simp add: model_planned MAX_COUNT_def)
  have "str_of (jget model_metric ''metric_id'') \<notin> set (map metric_id [])" by simp
  from metrics_are_decidable[OF doc(1) small doc(2) this] show ?thesis by simp
qed

end
