(* ===== verification/Resources.thy ===== *)
theory Resources
  imports Amounts Policy
begin

text \<open>
  The book of resources (\<open>src/src/gah/resources.py\<close>): concurrent slots, case executions, model calls,
  tokens and money are reserved together, and stopping and use are observed separately.  The methods of
  \<open>ResourceBook\<close> run inside a transaction of the caller, which is rolled back when they raise; so a
  method returns the raised error, or its result and the tables afterwards.  Stored documents are kept as
  text and digest and verified at every read (\<open>_unpack\<close>); the caches in front of that check only
  remember its result and are not modelled.  \<open>rl\<close> is the recursion limit of the interpreter.
\<close>

section \<open>Tables\<close>

record book_run =
  rr_run_id :: string
  rr_manifest_digest :: string
  rr_policy_json :: string
  rr_policy_digest :: string
  rr_profile :: string
  rr_created_at :: int
  rr_deadline :: int
  rr_owner :: string
  rr_epoch :: int
  rr_lease_until :: int
  rr_cancelled :: bool
  rr_breached :: bool
  rr_closed_at :: "int option"

record book_op =
  ro_operation_id :: string
  ro_run_id :: string
  ro_epoch :: int
  ro_reservation_json :: string
  ro_reservation_digest :: string
  ro_intended_at :: "int option"
  ro_stopped_at :: "int option"
  ro_released :: bool
  ro_usage_json :: "string option"
  ro_usage_digest :: "string option"
  ro_settled_at :: "int option"
  ro_cost_micros :: "int option"
  ro_conflicted :: bool
  ro_exposure_micros :: int

record book_event =
  re_event_id :: string
  re_operation_id :: string
  re_event_digest :: string
  re_response_json :: string
  re_response_digest :: string

text \<open>\<open>book_clock\<close> is the value of \<open>last_clock\<close>, absent when the row is.\<close>

record book =
  book_clock :: "int option"
  book_runs :: "book_run list"
  book_ops :: "book_op list"
  book_events :: "book_event list"

datatype book_error = ResourceError string | BookContract contract_error | BookPolicy policy_error | BookPython string

abbreviation BOOK_CORRUPT :: book_error where
  "BOOK_CORRUPT \<equiv> ResourceError ''STORAGE_CORRUPT''"

text \<open>\<open>create_schema\<close>.\<close>

definition empty_book :: book where
  "empty_book = \<lparr>book_clock = Some (- 1), book_runs = [], book_ops = [], book_events = []\<rparr>"

definition reservation_fields :: "string list" where
  "reservation_fields = [''case_trial_executions'', ''model_calls'', ''input_tokens'', ''output_tokens'', ''api_cost_usd_micros'',
     ''billing_ref'', ''billing_mode'']"

definition counters :: "string list" where
  "counters = [''case_trial_executions'', ''model_calls'', ''input_tokens'', ''output_tokens'', ''api_cost_usd_micros'']"

section \<open>Stored documents\<close>

definition packed :: "json \<Rightarrow> book_error + string \<times> string" where
  "packed v = ebind (on_error (canonical_bytes v) (\<lambda>_. BookPython ''ValueError'')) (\<lambda>raw. Inr (raw, sha256_hex raw))"

definition unpack :: "nat \<Rightarrow> string \<Rightarrow> string option \<Rightarrow> book_error + json" where
  "unpack rl raw digest =
    (case digest of
       None \<Rightarrow> Inl BOOK_CORRUPT
     | Some d \<Rightarrow>
         ebind (on_error (loads plain_hooks rl raw) (\<lambda>_. BOOK_CORRUPT)) (\<lambda>v.
         ebind (on_error (canonical_bytes v) (\<lambda>_. BOOK_CORRUPT)) (\<lambda>expected.
         ebind (guard (expected = raw \<and> sha256_hex expected = d) BOOK_CORRUPT) (\<lambda>_. Inr v))))"

section \<open>Common checks\<close>

definition b_id :: "json \<Rightarrow> book_error + string" where
  "b_id v = ebind (on_error (require_id v) BookContract) (\<lambda>_. Inr (str_of v))"

definition b_uint :: "json \<Rightarrow> book_error + int" where
  "b_uint v = ebind (on_error (require_uint MAX_INTEGER v) BookContract) (\<lambda>_. Inr (int_of v))"

text \<open>\<open>_touch\<close>: the time of the call, and the book with the clock set to it.\<close>

definition book_touch :: "json \<Rightarrow> book \<Rightarrow> book_error + int \<times> book" where
  "book_touch now b =
    ebind (b_uint now) (\<lambda>t.
    case book_clock b of
      None \<Rightarrow> Inl BOOK_CORRUPT
    | Some prev \<Rightarrow>
        ebind (guard (-1 \<le> prev \<and> prev \<le> MAX_INTEGER) BOOK_CORRUPT) (\<lambda>_.
        ebind (guard (prev \<le> t) (ResourceError ''CLOCK_ROLLBACK'')) (\<lambda>_.
        Inr (t, b\<lparr>book_clock := Some t\<rparr>))))"

definition book_run_of :: "book \<Rightarrow> json \<Rightarrow> book_error + book_run" where
  "book_run_of b rid =
    ebind (b_id rid) (\<lambda>i.
    case row_find rr_run_id i (book_runs b) of None \<Rightarrow> Inl (ResourceError ''RUN_MISSING'') | Some r \<Rightarrow> Inr r)"

definition book_op_of :: "book \<Rightarrow> json \<Rightarrow> json \<Rightarrow> book_error + book_op" where
  "book_op_of b rid oid =
    ebind (b_id oid) (\<lambda>i.
    case row_find ro_operation_id i (book_ops b) of
      None \<Rightarrow> Inl (ResourceError ''OPERATION_MISSING'')
    | Some p \<Rightarrow> ebind (guard (JStr (ro_run_id p) = rid) (ResourceError ''OPERATION_MISSING'')) (\<lambda>_. Inr p))"

definition book_owner :: "book_run \<Rightarrow> json \<Rightarrow> json \<Rightarrow> int \<Rightarrow> bool \<Rightarrow> book_error + unit" where
  "book_owner r owner epoch now start =
    ebind (b_id owner) (\<lambda>own.
    ebind (b_uint epoch) (\<lambda>ep.
    ebind (guard (rr_owner r = own \<and> rr_epoch r = ep \<and> now < rr_lease_until r) (ResourceError ''OWNER_STALE'')) (\<lambda>_.
    ebind (guard (start \<longrightarrow> rr_closed_at r = None) (ResourceError ''RUN_CLOSED'')) (\<lambda>_.
    guard (start \<longrightarrow> now < rr_deadline r \<and> \<not> rr_cancelled r \<and> \<not> rr_breached r) (ResourceError ''START_DENIED'')))))"

definition book_policy :: "nat \<Rightarrow> book_run \<Rightarrow> book_error + json" where
  "book_policy rl r =
    ebind (unpack rl (rr_policy_json r) (Some (rr_policy_digest r))) (\<lambda>v.
    on_error (validate_policy_profile v) BookPolicy)"

definition update_book_run :: "string \<Rightarrow> (book_run \<Rightarrow> book_run) \<Rightarrow> book \<Rightarrow> book" where
  "update_book_run rid f b = b\<lparr>book_runs := row_update rr_run_id rid f (book_runs b)\<rparr>"

definition update_book_op :: "string \<Rightarrow> (book_op \<Rightarrow> book_op) \<Rightarrow> book \<Rightarrow> book" where
  "update_book_op oid f b = b\<lparr>book_ops := row_update ro_operation_id oid f (book_ops b)\<rparr>"

section \<open>Totals\<close>

record book_totals =
  t_cases :: int
  t_calls :: int
  t_input :: int
  t_output :: int
  t_cost :: int
  t_slots :: int
  t_unsettled :: int
  t_global :: int

definition total_tokens :: "book_totals \<Rightarrow> int" where
  "total_tokens t = t_input t + t_output t"

definition int_opt :: "int option \<Rightarrow> book_error + int" where
  "int_opt x = (case x of None \<Rightarrow> Inl (BookPython ''TypeError'') | Some i \<Rightarrow> Inr i)"

definition op_usage :: "nat \<Rightarrow> book_op \<Rightarrow> book_error + json option" where
  "op_usage rl p =
    (case ro_usage_json p of None \<Rightarrow> Inr None
     | Some raw \<Rightarrow> ebind (unpack rl raw (ro_usage_digest p)) (\<lambda>v. Inr (Some v)))"

definition used_tokens :: "bool \<Rightarrow> json option \<Rightarrow> json \<Rightarrow> string \<Rightarrow> int" where
  "used_tokens settled spent reservation f =
    (let used = (case spent of None \<Rightarrow> 0 | Some u \<Rightarrow> int_of (jget u f)) in
     if settled then used else max (int_of (jget reservation f)) used)"

text \<open>One row of \<open>_totals\<close>.\<close>

definition add_totals :: "nat \<Rightarrow> string \<Rightarrow> int \<Rightarrow> book_totals \<Rightarrow> book_op \<Rightarrow> book_error + book_totals" where
  "add_totals rl rid now t p =
    ebind (unpack rl (ro_reservation_json p) (Some (ro_reservation_digest p))) (\<lambda>reservation.
    ebind (op_usage rl p) (\<lambda>spent.
    let settled = (spent \<noteq> None \<and> \<not> ro_conflicted p) in
    let cost = (if settled then ro_cost_micros p
                else Some (max (int_of (jget reservation ''api_cost_usd_micros'')) (ro_exposure_micros p))) in
    ebind (if ro_released p then Inr False
           else if \<not> settled then Inr True
           else ebind (int_opt (ro_settled_at p)) (\<lambda>at. Inr (now - 86400 < at))) (\<lambda>counts.
    ebind (if counts then ebind (int_opt cost) (\<lambda>c. Inr (t\<lparr>t_global := t_global t + c\<rparr>)) else Inr t) (\<lambda>t.
    if ro_run_id p \<noteq> rid \<or> ro_released p then Inr t
    else ebind (int_opt cost) (\<lambda>c.
      Inr (t\<lparr>t_slots := t_slots t + (if ro_stopped_at p = None then 1 else 0),
             t_unsettled := t_unsettled t + (if settled then 0 else 1),
             t_cases := t_cases t + int_of (jget reservation ''case_trial_executions''),
             t_calls := t_calls t + int_of (jget reservation ''model_calls''),
             t_input := t_input t + used_tokens settled spent reservation ''input_tokens'',
             t_output := t_output t + used_tokens settled spent reservation ''output_tokens'',
             t_cost := t_cost t + c\<rparr>))))))"

definition no_totals :: book_totals where
  "no_totals = \<lparr>t_cases = 0, t_calls = 0, t_input = 0, t_output = 0, t_cost = 0, t_slots = 0, t_unsettled = 0, t_global = 0\<rparr>"

definition book_totals_of :: "nat \<Rightarrow> book \<Rightarrow> string \<Rightarrow> int \<Rightarrow> book_error + book_totals" where
  "book_totals_of rl b rid now = efold (add_totals rl rid now) no_totals (book_ops b)"

definition totals_dict :: "book_totals \<Rightarrow> json" where
  "totals_dict t = JObj
    [(''case_trial_executions'', JInt (t_cases t)), (''model_calls'', JInt (t_calls t)), (''input_tokens'', JInt (t_input t)),
     (''output_tokens'', JInt (t_output t)), (''api_cost_usd_micros'', JInt (t_cost t)), (''slots'', JInt (t_slots t)),
     (''unsettled'', JInt (t_unsettled t)), (''global_api_cost_usd_micros'', JInt (t_global t)),
     (''total_tokens'', JInt (total_tokens t))]"

text \<open>\<open>snapshot\<close>.\<close>

definition book_snapshot :: "nat \<Rightarrow> json \<Rightarrow> json \<Rightarrow> book \<Rightarrow> book_error + json \<times> book" where
  "book_snapshot rl rid now b =
    ebind (book_touch now b) (\<lambda>(t, b).
    ebind (book_run_of b rid) (\<lambda>r.
    ebind (book_totals_of rl b (rr_run_id r) t) (\<lambda>totals.
    Inr (JObj
      [(''run_id'', rid), (''manifest_digest'', JStr (rr_manifest_digest r)), (''owner_id'', JStr (rr_owner r)),
       (''owner_epoch'', JInt (rr_epoch r)), (''deadline'', JInt (rr_deadline r)), (''cancelled'', JBool (rr_cancelled r)),
       (''breached'', JBool (rr_breached r)), (''closed'', JBool (rr_closed_at r \<noteq> None)), (''closed_at'', opt_int (rr_closed_at r)),
       (''resources'', totals_dict totals),
       (''budget_closure'', JBool (t_slots totals = 0 \<and> t_unsettled totals = 0 \<and> \<not> rr_breached r)),
       (''ci_eligible'', JBool False)], b))))"

end
