(* ===== verification/Resource_Ops.thy ===== *)
theory Resource_Ops
  imports Resources
begin

text \<open>
  The operations of the book of resources: creating and claiming runs, reserving, recording the intent to
  dispatch, cancelling, closing, and observing that an operation stopped or what it used.
\<close>

definition book_create_run ::
  "nat \<Rightarrow> json \<Rightarrow> json \<Rightarrow> json \<Rightarrow> json \<Rightarrow> json \<Rightarrow> json \<Rightarrow> json \<Rightarrow> book \<Rightarrow> book_error + json \<times> book" where
  "book_create_run rl rid manifest_digest policy profile owner now deadline b =
    ebind (book_touch now b) (\<lambda>(t, b).
    ebind (b_id rid) (\<lambda>i.
    ebind (on_error (require_digest manifest_digest) BookContract) (\<lambda>_.
    ebind (b_id owner) (\<lambda>own.
    ebind (b_uint deadline) (\<lambda>until.
    ebind (on_error (validate_policy_profile policy) BookPolicy) (\<lambda>policy.
    ebind (guard (is_str profile \<and> str_of profile \<in> {''pr'', ''full''} \<and> t < until \<and>
        until \<le> min MAX_INTEGER (t + int_of (jget (jget (jget policy ''profiles'') (str_of profile)) ''elapsed_seconds'')))
      (ResourceError ''INVALID_DEADLINE'')) (\<lambda>_.
    ebind (guard (row_find rr_run_id i (book_runs b) = None) (ResourceError ''RUN_EXISTS'')) (\<lambda>_.
    ebind (packed policy) (\<lambda>(raw, digest).
    book_snapshot rl rid now (b\<lparr>book_runs := book_runs b @
      [\<lparr>rr_run_id = i, rr_manifest_digest = str_of manifest_digest, rr_policy_json = raw, rr_policy_digest = digest,
        rr_profile = str_of profile, rr_created_at = t, rr_deadline = until, rr_owner = own, rr_epoch = 1,
        rr_lease_until = min MAX_INTEGER (t + 60), rr_cancelled = False, rr_breached = False, rr_closed_at = None\<rparr>]\<rparr>))))))))))"

definition start_denied :: "book_run \<Rightarrow> int \<Rightarrow> bool" where
  "start_denied r now \<longleftrightarrow> rr_deadline r \<le> now \<or> rr_cancelled r \<or> rr_breached r"

text \<open>\<open>_claim_owner\<close>: the new epoch and the book afterwards.\<close>

definition claim_owner :: "book_run \<Rightarrow> string \<Rightarrow> int \<Rightarrow> book \<Rightarrow> book_error + int \<times> book" where
  "claim_owner r own now b =
    ebind (guard (\<not> (now < rr_lease_until r \<and> own \<noteq> rr_owner r)) (ResourceError ''OWNER_ACTIVE'')) (\<lambda>_.
    let epoch = rr_epoch r + (if rr_lease_until r \<le> now then 1 else 0) in
    ebind (guard (epoch \<le> MAX_INTEGER \<and> now \<le> MAX_INTEGER - 60) (ResourceError ''GENERATION_EXHAUSTED'')) (\<lambda>_.
    Inr (epoch, update_book_run (rr_run_id r) (\<lambda>r. r\<lparr>rr_owner := own, rr_epoch := epoch, rr_lease_until := now + 60\<rparr>) b)))"

definition claim_dict :: "string \<Rightarrow> int \<Rightarrow> int \<Rightarrow> bool \<Rightarrow> json" where
  "claim_dict own epoch now recovery = JObj
    [(''owner_id'', JStr own), (''owner_epoch'', JInt epoch), (''lease_until'', JInt (now + 60)), (''recovery_only'', JBool recovery)]"

definition book_claim :: "json \<Rightarrow> json \<Rightarrow> json \<Rightarrow> json \<Rightarrow> book \<Rightarrow> book_error + json \<times> book" where
  "book_claim rid owner now recovery b =
    ebind (book_touch now b) (\<lambda>(t, b).
    ebind (b_id owner) (\<lambda>own.
    ebind (book_run_of b rid) (\<lambda>r.
    ebind (guard (is_bool recovery) (ResourceError ''INVALID_RECOVERY_MODE'')) (\<lambda>_.
    ebind (guard (rr_closed_at r = None) (ResourceError ''RUN_CLOSED'')) (\<lambda>_.
    ebind (guard (\<not> (start_denied r t \<and> \<not> bool_of recovery)) (ResourceError ''START_DENIED'')) (\<lambda>_.
    ebind (guard (\<not> (bool_of recovery \<and> \<not> start_denied r t)) (ResourceError ''RECOVERY_NOT_REQUIRED'')) (\<lambda>_.
    ebind (claim_owner r own t b) (\<lambda>(epoch, b).
    Inr (claim_dict own epoch t (bool_of recovery), b)))))))))"

definition book_claim_recovery :: "json \<Rightarrow> json \<Rightarrow> json \<Rightarrow> book \<Rightarrow> book_error + json \<times> book" where
  "book_claim_recovery rid owner now b = book_claim rid owner now (JBool True) b"

section \<open>Reserving\<close>

text \<open>\<open>_reservation\<close>.\<close>

definition check_reservation :: "json \<Rightarrow> json \<Rightarrow> book_error + json" where
  "check_reservation v policy =
    ebind (on_error (require_object v reservation_fields) BookContract) (\<lambda>_.
    ebind (eiter (\<lambda>f. on_error (require_uint MAX_INTEGER (jget v f)) BookContract) counters) (\<lambda>_.
    ebind (on_error (require_ref (jget v ''billing_ref'')) BookContract) (\<lambda>_.
    ebind (guard (jget (jget v ''billing_ref'') ''kind'' = JStr ''billing_basis'' \<and> is_str (jget v ''billing_mode'') \<and>
        str_of (jget v ''billing_mode'') \<in> {''metered'', ''non_billed_local''}) (ResourceError ''BILLING_BASIS_REQUIRED'')) (\<lambda>_.
    ebind (guard (\<not> (((int_of (jget v ''api_cost_usd_micros'') = 0) \<noteq> (jget v ''billing_mode'' = JStr ''non_billed_local'')) \<or>
        int_of (jget v ''case_trial_executions'') > 1 \<or> int_of (jget v ''model_calls'') > 1)) (ResourceError ''INVALID_RESERVATION'')) (\<lambda>_.
    ebind (guard (\<not> (int_of (jget v ''input_tokens'') > int_of (jget (jget policy ''per_call'') ''input_tokens_max'') \<or>
        int_of (jget v ''output_tokens'') > int_of (jget (jget policy ''per_call'') ''output_tokens_max'')))
      (ResourceError ''PER_CALL_LIMIT'')) (\<lambda>_.
    ebind (guard (\<not> (int_of (jget v ''model_calls'') = 0 \<and>
        (int_of (jget v ''input_tokens'') \<noteq> 0 \<or> int_of (jget v ''output_tokens'') \<noteq> 0))) (ResourceError ''INVALID_RESERVATION'')) (\<lambda>_.
    Inr v)))))))"

definition book_run_limit :: "json \<Rightarrow> string \<Rightarrow> string \<Rightarrow> int" where
  "book_run_limit policy profile f = int_of (jget (jget (jget policy ''profiles'') profile) f)"

text \<open>The limits a new reservation has to fit in.\<close>

definition fits_limits :: "json \<Rightarrow> string \<Rightarrow> book_totals \<Rightarrow> json \<Rightarrow> book_error + unit" where
  "fits_limits policy profile used v =
    (let amount = (\<lambda>f. int_of (jget v f)) in
     ebind (guard (t_slots used < book_run_limit policy profile ''concurrent_evaluations'') (ResourceError ''CONCURRENCY_LIMIT'')) (\<lambda>_.
     ebind (guard (t_cases used + amount ''case_trial_executions'' \<le> book_run_limit policy profile ''case_trial_executions'' \<and>
         t_calls used + amount ''model_calls'' \<le> book_run_limit policy profile ''model_calls'' \<and>
         t_cost used + amount ''api_cost_usd_micros'' \<le> book_run_limit policy profile ''api_cost_usd_micros'')
       (ResourceError ''RESOURCE_LIMIT'')) (\<lambda>_.
     ebind (guard (total_tokens used + amount ''input_tokens'' + amount ''output_tokens'' \<le> book_run_limit policy profile ''total_tokens'')
       (ResourceError ''RESOURCE_LIMIT'')) (\<lambda>_.
     guard (t_global used + amount ''api_cost_usd_micros'' \<le> int_of (jget (jget policy ''global_api_budget'') ''usd_micros_max''))
       (ResourceError ''GLOBAL_COST_LIMIT'')))))"

definition reserve_dict :: "json \<Rightarrow> bool \<Rightarrow> bool \<Rightarrow> json" where
  "reserve_dict oid existing allowed = JObj
    [(''operation_id'', oid), (''existing'', JBool existing), (''dispatch_allowed'', JBool allowed)]"

definition fresh_book_op :: "string \<Rightarrow> string \<Rightarrow> int \<Rightarrow> string \<Rightarrow> string \<Rightarrow> book_op" where
  "fresh_book_op oid rid epoch raw digest =
    \<lparr>ro_operation_id = oid, ro_run_id = rid, ro_epoch = epoch, ro_reservation_json = raw, ro_reservation_digest = digest,
     ro_intended_at = None, ro_stopped_at = None, ro_released = False, ro_usage_json = None, ro_usage_digest = None,
     ro_settled_at = None, ro_cost_micros = None, ro_conflicted = False, ro_exposure_micros = 0\<rparr>"

definition book_reserve ::
  "nat \<Rightarrow> json \<Rightarrow> json \<Rightarrow> json \<Rightarrow> json \<Rightarrow> json \<Rightarrow> json \<Rightarrow> book \<Rightarrow> book_error + json \<times> book" where
  "book_reserve rl rid oid owner epoch reservation now b =
    ebind (book_touch now b) (\<lambda>(t, b).
    ebind (b_id oid) (\<lambda>o_id.
    ebind (book_run_of b rid) (\<lambda>r.
    ebind (book_owner r owner epoch t True) (\<lambda>_.
    ebind (book_policy rl r) (\<lambda>policy.
    ebind (check_reservation reservation policy) (\<lambda>reservation.
    ebind (packed reservation) (\<lambda>(raw, digest).
    case row_find ro_operation_id o_id (book_ops b) of
      Some p \<Rightarrow>
        ebind (guard (ro_run_id p = rr_run_id r \<and> ro_reservation_digest p = digest \<and> ro_epoch p = int_of epoch)
          (ResourceError ''OPERATION_CONFLICT'')) (\<lambda>_.
        Inr (reserve_dict oid True (ro_intended_at p = None \<and> \<not> ro_released p), b))
    | None \<Rightarrow>
        ebind (book_totals_of rl b (rr_run_id r) t) (\<lambda>used.
        ebind (fits_limits policy (rr_profile r) used reservation) (\<lambda>_.
        Inr (reserve_dict oid False True,
             b\<lparr>book_ops := book_ops b @ [fresh_book_op o_id (rr_run_id r) (int_of epoch) raw digest]\<rparr>))))))))))"

definition book_dispatch_intent :: "json \<Rightarrow> json \<Rightarrow> json \<Rightarrow> json \<Rightarrow> json \<Rightarrow> book \<Rightarrow> book_error + json \<times> book" where
  "book_dispatch_intent rid oid owner epoch now b =
    ebind (book_touch now b) (\<lambda>(t, b).
    ebind (book_run_of b rid) (\<lambda>r.
    ebind (book_owner r owner epoch t True) (\<lambda>_.
    ebind (book_op_of b rid oid) (\<lambda>p.
    ebind (guard (ro_epoch p = int_of epoch \<and> ro_intended_at p = None \<and> \<not> ro_released p)
      (ResourceError ''DISPATCH_NOT_PROVABLY_NEW'')) (\<lambda>_.
    Inr (JObj [(''operation_id'', oid), (''state'', JStr ''DISPATCHING''), (''owner_epoch'', epoch)],
         update_book_op (ro_operation_id p) (\<lambda>p. p\<lparr>ro_intended_at := Some t\<rparr>) b))))))"

section \<open>Cancelling and closing\<close>

definition release_pending :: "string \<Rightarrow> book_op \<Rightarrow> book_op" where
  "release_pending rid p = (if ro_run_id p = rid \<and> ro_intended_at p = None then p\<lparr>ro_released := True\<rparr> else p)"

definition book_cancel :: "nat \<Rightarrow> json \<Rightarrow> json \<Rightarrow> json \<Rightarrow> json \<Rightarrow> json \<Rightarrow> book \<Rightarrow> book_error + json \<times> book" where
  "book_cancel rl rid owner epoch now terminal_pending b =
    ebind (book_touch now b) (\<lambda>(t, b).
    ebind (book_run_of b rid) (\<lambda>r.
    ebind (guard (is_bool terminal_pending) (ResourceError ''INVALID_REQUEST'')) (\<lambda>_.
    ebind (guard (rr_closed_at r = None \<or> bool_of terminal_pending) (ResourceError ''RUN_CLOSED'')) (\<lambda>_.
    ebind (book_owner r owner epoch t False) (\<lambda>_.
    let b = update_book_run (rr_run_id r) (\<lambda>r. r\<lparr>rr_cancelled := True\<rparr>) b in
    book_snapshot rl rid now (b\<lparr>book_ops := map (release_pending (rr_run_id r)) (book_ops b)\<rparr>))))))"

definition book_claim_for_cancel :: "nat \<Rightarrow> json \<Rightarrow> json \<Rightarrow> json \<Rightarrow> json \<Rightarrow> book \<Rightarrow> book_error + json \<times> book" where
  "book_claim_for_cancel rl rid owner now terminal_pending b =
    ebind (book_touch now b) (\<lambda>(t, b).
    ebind (b_id owner) (\<lambda>own.
    ebind (guard (is_bool terminal_pending) (ResourceError ''INVALID_REQUEST'')) (\<lambda>_.
    ebind (book_run_of b rid) (\<lambda>r.
    ebind (guard (rr_closed_at r = None \<or> bool_of terminal_pending) (ResourceError ''RUN_CLOSED'')) (\<lambda>_.
    ebind (claim_owner r own t b) (\<lambda>(epoch, b).
    ebind (book_cancel rl rid owner (JInt epoch) now terminal_pending b) (\<lambda>(result, b).
    Inr (jset result ''recovery_only'' (JBool True), b))))))))"

definition book_close :: "nat \<Rightarrow> json \<Rightarrow> json \<Rightarrow> json \<Rightarrow> json \<Rightarrow> book \<Rightarrow> book_error + json \<times> book" where
  "book_close rl rid owner epoch now b =
    ebind (book_touch now b) (\<lambda>(t, b).
    ebind (book_run_of b rid) (\<lambda>r.
    ebind (book_owner r owner epoch t False) (\<lambda>_.
    if rr_closed_at r \<noteq> None then book_snapshot rl rid now b
    else
      ebind (book_totals_of rl b (rr_run_id r) t) (\<lambda>totals.
      ebind (guard (t_slots totals = 0 \<and> t_unsettled totals = 0) (ResourceError ''CLOSE_DENIED'')) (\<lambda>_.
      book_snapshot rl rid now (update_book_run (rr_run_id r) (\<lambda>r. r\<lparr>rr_closed_at := Some t\<rparr>) b))))))"

section \<open>Observing\<close>

text \<open>The checks of the observed use; its cost in millionths of a dollar.\<close>

definition check_usage :: "json \<Rightarrow> json \<Rightarrow> book_error + int option" where
  "check_usage spent reservation =
    (if spent = JNull then Inr None
     else
       ebind (on_error (require_object spent [''input_tokens'', ''output_tokens'', ''cost_usd'']) BookContract) (\<lambda>_.
       ebind (b_uint (jget spent ''input_tokens'')) (\<lambda>_.
       ebind (b_uint (jget spent ''output_tokens'')) (\<lambda>_.
       ebind (on_error (parse_usd (jget spent ''cost_usd'')) (\<lambda>_. ResourceError ''INVALID_AMOUNT'')) (\<lambda>(amount, cost).
       ebind (on_error (require_uint MAX_INTEGER (JInt cost)) BookContract) (\<lambda>_.
       ebind (guard (\<not> (cost = 0 \<and> jget reservation ''billing_mode'' \<noteq> JStr ''non_billed_local''))
         (ResourceError ''NON_BILLING_NOT_CONFIRMED'')) (\<lambda>_.
       Inr (Some cost))))))))"

definition or0 :: "int option \<Rightarrow> int" where
  "or0 x = (case x of None \<Rightarrow> 0 | Some i \<Rightarrow> i)"

definition exposure_of :: "json \<Rightarrow> book_op \<Rightarrow> int option \<Rightarrow> int" where
  "exposure_of reservation p cost =
    max (max (int_of (jget reservation ''api_cost_usd_micros'')) (ro_exposure_micros p)) (max (or0 cost) (or0 (ro_cost_micros p)))"

text \<open>An event identifier used twice: both operations and their runs are taken out of use.\<close>

definition expose_op :: "nat \<Rightarrow> int option \<Rightarrow> book \<Rightarrow> string \<Rightarrow> book_error + book" where
  "expose_op rl cost b oid =
    (case row_find ro_operation_id oid (book_ops b) of
       None \<Rightarrow> Inl BOOK_CORRUPT
     | Some p \<Rightarrow>
         ebind (unpack rl (ro_reservation_json p) (Some (ro_reservation_digest p))) (\<lambda>reservation.
         Inr (update_book_op oid (\<lambda>q. q\<lparr>ro_conflicted := True, ro_exposure_micros := exposure_of reservation p cost\<rparr>)
           (update_book_run (ro_run_id p) (\<lambda>r. r\<lparr>rr_breached := True\<rparr>) b))))"

definition event_conflict_dict :: "json \<Rightarrow> json" where
  "event_conflict_dict oid = JObj
    [(''operation_id'', oid), (''accepted'', JBool False), (''conflict'', JBool True), (''reason'', JStr ''EVENT_CONFLICT''),
     (''ci_eligible'', JBool False)]"

definition usage_differs :: "json \<Rightarrow> json \<Rightarrow> bool" where
  "usage_differs old spent \<longleftrightarrow> jget old ''input_tokens'' \<noteq> jget spent ''input_tokens'' \<or>
     jget old ''output_tokens'' \<noteq> jget spent ''output_tokens'' \<or>
     \<not> decimal_equal (str_of (jget old ''cost_usd'')) (str_of (jget spent ''cost_usd''))"

definition exceeds :: "json \<Rightarrow> int option \<Rightarrow> json \<Rightarrow> bool" where
  "exceeds spent cost reservation \<longleftrightarrow>
     int_of (jget reservation ''input_tokens'') < int_of (jget spent ''input_tokens'') \<or>
     int_of (jget reservation ''output_tokens'') < int_of (jget spent ''output_tokens'') \<or>
     int_of (jget reservation ''api_cost_usd_micros'') < or0 cost"

text \<open>What a new event does to its operation: does it conflict, and the row afterwards.\<close>

definition apply_usage :: "nat \<Rightarrow> json \<Rightarrow> int option \<Rightarrow> int \<Rightarrow> book_op \<Rightarrow> book_error + bool \<times> book_op" where
  "apply_usage rl spent cost now p =
    (if spent = JNull then Inr (ro_conflicted p, p)
     else ebind (op_usage rl p) (\<lambda>old.
       case old of
         Some u \<Rightarrow> Inr (ro_conflicted p \<or> usage_differs u spent, p)
       | None \<Rightarrow> ebind (packed spent) (\<lambda>(raw, digest).
           Inr (ro_conflicted p, p\<lparr>ro_usage_json := Some raw, ro_usage_digest := Some digest, ro_settled_at := Some now,
             ro_cost_micros := cost\<rparr>))))"

definition stop_op :: "bool \<Rightarrow> int \<Rightarrow> book_op \<Rightarrow> book_op" where
  "stop_op stopped now p =
    (if stopped then p\<lparr>ro_stopped_at := (case ro_stopped_at p of None \<Rightarrow> Some now | Some t \<Rightarrow> Some t)\<rparr> else p)"

definition observe_dict :: "json \<Rightarrow> bool \<Rightarrow> bool \<Rightarrow> int \<Rightarrow> int \<Rightarrow> json" where
  "observe_dict oid conflict overrun dispatched current = JObj
    [(''operation_id'', oid), (''accepted'', JBool (\<not> conflict)), (''conflict'', JBool conflict), (''overrun'', JBool overrun),
     (''owner_epoch_at_dispatch'', JInt dispatched), (''current_owner_epoch'', JInt current), (''ci_eligible'', JBool False)]"

definition observe_new ::
  "nat \<Rightarrow> json \<Rightarrow> string \<Rightarrow> string \<Rightarrow> bool \<Rightarrow> json \<Rightarrow> int option \<Rightarrow> json \<Rightarrow> book_run \<Rightarrow> book_op \<Rightarrow> int \<Rightarrow> book \<Rightarrow>
     book_error + json \<times> book" where
  "observe_new rl oid event_id event_digest stopped spent cost reservation r p now b =
    ebind (apply_usage rl spent cost now p) (\<lambda>(conflict, q).
    let overrun = (rr_deadline r < now \<or> spent \<noteq> JNull \<and> exceeds spent cost reservation);
        q = stop_op stopped now q;
        q = (if conflict then q\<lparr>ro_conflicted := True, ro_exposure_micros := exposure_of reservation p cost\<rparr> else q);
        b = update_book_op (ro_operation_id p) (\<lambda>_. q) b;
        b = (if conflict \<or> overrun then update_book_run (rr_run_id r) (\<lambda>r. r\<lparr>rr_breached := True\<rparr>) b else b);
        result = observe_dict oid conflict overrun (ro_epoch p) (rr_epoch r) in
    ebind (packed result) (\<lambda>(raw, digest).
    Inr (result, b\<lparr>book_events := book_events b @
      [\<lparr>re_event_id = event_id, re_operation_id = ro_operation_id p, re_event_digest = event_digest,
        re_response_json = raw, re_response_digest = digest\<rparr>]\<rparr>)))"

definition book_observe ::
  "nat \<Rightarrow> json \<Rightarrow> json \<Rightarrow> json \<Rightarrow> json \<Rightarrow> json \<Rightarrow> json \<Rightarrow> book \<Rightarrow> book_error + json \<times> book" where
  "book_observe rl rid oid event_id stopped spent now b =
    ebind (book_touch now b) (\<lambda>(t, b).
    ebind (b_id event_id) (\<lambda>eid.
    ebind (book_run_of b rid) (\<lambda>r.
    ebind (book_op_of b rid oid) (\<lambda>p.
    ebind (guard (is_bool stopped \<and> (bool_of stopped \<or> spent \<noteq> JNull) \<and> ro_intended_at p \<noteq> None \<and> \<not> ro_released p)
      (ResourceError ''INVALID_OBSERVATION'')) (\<lambda>_.
    ebind (unpack rl (ro_reservation_json p) (Some (ro_reservation_digest p))) (\<lambda>reservation.
    ebind (check_usage spent reservation) (\<lambda>cost.
    ebind (packed (JObj [(''run_id'', rid), (''operation_id'', oid), (''stopped'', stopped), (''usage'', spent)])) (\<lambda>(event, digest).
    case row_find re_event_id eid (book_events b) of
      Some previous \<Rightarrow>
        if re_operation_id previous \<noteq> ro_operation_id p \<or> re_event_digest previous \<noteq> digest then
          ebind (efold (expose_op rl cost) b (remdups [ro_operation_id p, re_operation_id previous])) (\<lambda>b.
          Inr (event_conflict_dict oid, b))
        else ebind (unpack rl (re_response_json previous) (Some (re_response_digest previous))) (\<lambda>response. Inr (response, b))
    | None \<Rightarrow> observe_new rl oid eid digest (bool_of stopped) spent cost reservation r p t b))))))))"

end
