(* ===== verification/Resource_Steps.thy ===== *)
theory Resource_Steps
  imports Resource_Ops Policy_Props Machine
begin

text \<open>
  The book of resources as a state machine: the calls a caller may make, the changes of the tables a call
  can cause (\<open>book_change\<close>, an inductive relation with the conditions under which each is made), and the
  refinement lemma that every method does nothing else.
\<close>

section \<open>Documents survive storage\<close>

text \<open>
  A value a caller can pass: a decoded request, so no float, no repeated key and a bounded depth.
\<close>

definition book_document :: "nat \<Rightarrow> json \<Rightarrow> bool" where
  "book_document rl v \<longleftrightarrow> jwf v \<and> jdepth v \<le> rl"

lemma unpack_packed:
  assumes "book_document rl v" and "packed v = Inr (raw, digest)"
  shows "unpack rl raw (Some digest) = Inr (jsort v)"
proof -
  from assms(2) have v: "jutf8 v" "jfinite v" "raw = dumps v" "digest = sha256_hex raw"
    by (auto simp: packed_def canonical_bytes_def ebind_eq_Inr on_error_eq_Inr split: if_splits)
  have "loads plain_hooks rl raw = Inr (jsort v)"
    unfolding v using assms(1) by (intro loads_dumps plain_builds_objects) (auto simp: book_document_def)
  moreover have "jfinite (jsort v)"
    using v(2) by (induction v) (auto simp: list_all_iff jsort_obj split_beta simp del: jsort.simps(2))
  then have "canonical_bytes (jsort v) = Inr raw" using v by (simp add: canonical_bytes_def jutf8_jsort dumps_jsort)
  ultimately show ?thesis by (simp add: unpack_def v)
qed

section \<open>Changes\<close>

definition intended_op :: "int \<Rightarrow> book_op \<Rightarrow> book_op" where
  "intended_op now p = p\<lparr>ro_intended_at := Some now\<rparr>"

definition claimed_run :: "string \<Rightarrow> int \<Rightarrow> int \<Rightarrow> book_run \<Rightarrow> book_run" where
  "claimed_run own epoch until r = r\<lparr>rr_owner := own, rr_epoch := epoch, rr_lease_until := until\<rparr>"

definition observed_op :: "bool \<Rightarrow> bool \<Rightarrow> int \<Rightarrow> json \<Rightarrow> int option \<Rightarrow> book_op \<Rightarrow> book_op \<Rightarrow> book_op" where
  "observed_op conflict stopped now reservation cost p q =
    (let q = stop_op stopped now q in
     if conflict then q\<lparr>ro_conflicted := True, ro_exposure_micros := exposure_of reservation p cost\<rparr> else q)"

definition breach :: "string \<Rightarrow> book \<Rightarrow> book" where
  "breach rid b = update_book_run rid (\<lambda>r. r\<lparr>rr_breached := True\<rparr>) b"

definition cancelled_book :: "string \<Rightarrow> book \<Rightarrow> book" where
  "cancelled_book rid b = (update_book_run rid (\<lambda>r. r\<lparr>rr_cancelled := True\<rparr>) b)\<lparr>book_ops := map (release_pending rid) (book_ops b)\<rparr>"

abbreviation find_book_run :: "book \<Rightarrow> string \<Rightarrow> book_run option" where
  "find_book_run b i \<equiv> row_find rr_run_id i (book_runs b)"

abbreviation find_book_op :: "book \<Rightarrow> string \<Rightarrow> book_op option" where
  "find_book_op b i \<equiv> row_find ro_operation_id i (book_ops b)"

text \<open>May new work start on the run?\<close>

definition startable :: "book_run \<Rightarrow> int \<Rightarrow> bool" where
  "startable r now \<longleftrightarrow> rr_closed_at r = None \<and> now < rr_deadline r \<and> \<not> rr_cancelled r \<and> \<not> rr_breached r"

definition stored_policy :: "nat \<Rightarrow> book_run \<Rightarrow> json \<Rightarrow> bool" where
  "stored_policy rl r policy \<longleftrightarrow>
     unpack rl (rr_policy_json r) (Some (rr_policy_digest r)) = Inr policy \<and> validate_policy_profile policy = Inr policy"

definition amount :: "json \<Rightarrow> string \<Rightarrow> int" where
  "amount v f = int_of (jget v f)"

definition counts_ok :: "json \<Rightarrow> bool" where
  "counts_ok v \<longleftrightarrow> (\<forall>f \<in> set counters. 0 \<le> amount v f)"

definition stored_reservation :: "nat \<Rightarrow> book_op \<Rightarrow> json \<Rightarrow> bool" where
  "stored_reservation rl p v \<longleftrightarrow> unpack rl (ro_reservation_json p) (Some (ro_reservation_digest p)) = Inr v"

text \<open>\<open>spent\<close> is a checked observation of the use, of the given cost.\<close>

definition use_ok :: "json \<Rightarrow> int option \<Rightarrow> bool" where
  "use_ok spent cost \<longleftrightarrow> (if spent = JNull then cost = None
     else 0 \<le> amount spent ''input_tokens'' \<and> 0 \<le> amount spent ''output_tokens'' \<and> (\<exists>c \<ge> 0. cost = Some c))"

inductive book_change :: "nat \<Rightarrow> int \<Rightarrow> book \<Rightarrow> book \<Rightarrow> bool" for rl :: nat and now :: int where
  add_run: "find_book_run b (rr_run_id r) = None \<Longrightarrow> stored_policy rl r policy \<Longrightarrow> rr_profile r \<in> {''pr'', ''full''} \<Longrightarrow>
    rr_closed_at r = None \<Longrightarrow> book_change rl now b (b\<lparr>book_runs := book_runs b @ [r]\<rparr>)"
| claim_run: "find_book_run b i = Some r \<Longrightarrow> rr_epoch r \<le> epoch \<Longrightarrow>
    book_change rl now b (update_book_run i (claimed_run own epoch until) b)"
| add_op: "find_book_run b i = Some r \<Longrightarrow> startable r now \<Longrightarrow> stored_policy rl r policy \<Longrightarrow> find_book_op b oid = None \<Longrightarrow>
    book_totals_of rl b i now = Inr used \<Longrightarrow> stored_reservation rl (fresh_book_op oid i epoch raw digest) v \<Longrightarrow> counts_ok v \<Longrightarrow>
    fits_limits policy (rr_profile r) used v = Inr () \<Longrightarrow>
    book_change rl now b (b\<lparr>book_ops := book_ops b @ [fresh_book_op oid i epoch raw digest]\<rparr>)"
| intend: "find_book_op b oid = Some p \<Longrightarrow> ro_intended_at p = None \<Longrightarrow> \<not> ro_released p \<Longrightarrow>
    book_change rl now b (update_book_op oid (intended_op now) b)"
| cancel_run: "find_book_run b i = Some r \<Longrightarrow> book_change rl now b (cancelled_book i b)"
| close_run: "find_book_run b i = Some r \<Longrightarrow> rr_closed_at r = None \<Longrightarrow> book_totals_of rl b i now = Inr used \<Longrightarrow>
    t_slots used = 0 \<Longrightarrow> t_unsettled used = 0 \<Longrightarrow>
    book_change rl now b (update_book_run i (\<lambda>r. r\<lparr>rr_closed_at := Some now\<rparr>) b)"
| observe_op: "find_book_op b oid = Some p \<Longrightarrow> ro_intended_at p \<noteq> None \<Longrightarrow> \<not> ro_released p \<Longrightarrow>
    stored_reservation rl p v \<Longrightarrow> use_ok spent cost \<Longrightarrow> spent = JNull \<or> book_document rl spent \<Longrightarrow>
    apply_usage rl spent cost now p = Inr (conflict, q) \<Longrightarrow>
    (\<not> (conflict \<or> overrun) \<Longrightarrow> spent = JNull \<or> \<not> exceeds spent cost v) \<Longrightarrow>
    re_operation_id e = oid \<Longrightarrow> row_find re_event_id (re_event_id e) (book_events b) = None \<Longrightarrow>
    book_change rl now b ((if conflict \<or> overrun then breach (ro_run_id p) else (\<lambda>b. b))
      (update_book_op oid (\<lambda>_. observed_op conflict stopped now v cost p q) b)\<lparr>book_events := book_events b @ [e]\<rparr>)"
| expose: "find_book_op b oid = Some p \<Longrightarrow> stored_reservation rl p v \<Longrightarrow>
    book_change rl now b (update_book_op oid (\<lambda>q. q\<lparr>ro_conflicted := True, ro_exposure_micros := exposure_of v p cost\<rparr>)
      (breach (ro_run_id p) b))"

inductive_cases book_changeE: "book_change rl now b b'"

section \<open>Calls\<close>

datatype book_call =
    Create json json json json json json json
  | Claim json json json json
  | Claim_Recovery json json json
  | Claim_For_Cancel json json json json
  | Reserve json json json json json json
  | Dispatch_Intent json json json json json
  | Cancel json json json json json
  | Close json json json json
  | Observe json json json json json json
  | Snapshot json json

fun call_documents :: "book_call \<Rightarrow> json list" where
  "call_documents (Create rid digest policy profile owner now deadline) = [rid, digest, policy, profile, owner, now, deadline]"
| "call_documents (Claim rid owner now recovery) = [rid, owner, now, recovery]"
| "call_documents (Claim_Recovery rid owner now) = [rid, owner, now]"
| "call_documents (Claim_For_Cancel rid owner now pending) = [rid, owner, now, pending]"
| "call_documents (Reserve rid oid owner epoch reservation now) = [rid, oid, owner, epoch, reservation, now]"
| "call_documents (Dispatch_Intent rid oid owner epoch now) = [rid, oid, owner, epoch, now]"
| "call_documents (Cancel rid owner epoch now pending) = [rid, owner, epoch, now, pending]"
| "call_documents (Close rid owner epoch now) = [rid, owner, epoch, now]"
| "call_documents (Observe rid oid eid stopped spent now) = [rid, oid, eid, stopped, spent, now]"
| "call_documents (Snapshot rid now) = [rid, now]"

fun call_method :: "nat \<Rightarrow> book_call \<Rightarrow> book \<Rightarrow> book_error + json \<times> book" where
  "call_method rl (Create rid digest policy profile owner now deadline) b =
     book_create_run rl rid digest policy profile owner now deadline b"
| "call_method rl (Claim rid owner now recovery) b = book_claim rid owner now recovery b"
| "call_method rl (Claim_Recovery rid owner now) b = book_claim_recovery rid owner now b"
| "call_method rl (Claim_For_Cancel rid owner now pending) b = book_claim_for_cancel rl rid owner now pending b"
| "call_method rl (Reserve rid oid owner epoch reservation now) b = book_reserve rl rid oid owner epoch reservation now b"
| "call_method rl (Dispatch_Intent rid oid owner epoch now) b = book_dispatch_intent rid oid owner epoch now b"
| "call_method rl (Cancel rid owner epoch now pending) b = book_cancel rl rid owner epoch now pending b"
| "call_method rl (Close rid owner epoch now) b = book_close rl rid owner epoch now b"
| "call_method rl (Observe rid oid eid stopped spent now) b = book_observe rl rid oid eid stopped spent now b"
| "call_method rl (Snapshot rid now) b = book_snapshot rl rid now b"

text \<open>
  A call in the transaction of its caller: when the method raises, the transaction is rolled back.
  Arguments that are no decoded documents cannot be passed.
\<close>

definition book_step :: "nat \<Rightarrow> book_call \<Rightarrow> book \<Rightarrow> (book_error + json) \<times> book" where
  "book_step rl c b =
    (if \<not> list_all (book_document rl) (call_documents c) then (Inl (BookPython ''TypeError''), b)
     else case call_method rl c b of Inl e \<Rightarrow> (Inl e, b) | Inr (x, b') \<Rightarrow> (Inr x, b'))"

section \<open>Every method is a sequence of changes\<close>

text \<open>The clock moves to the time of the call, then at most a few changes are made.\<close>

definition book_moves :: "nat \<Rightarrow> book \<Rightarrow> book \<Rightarrow> bool" where
  "book_moves rl b b' \<longleftrightarrow> (\<exists>now prev. book_clock b = Some prev \<and> - 1 \<le> prev \<and> prev \<le> now \<and> 0 \<le> now \<and>
     (book_change rl now)\<^sup>*\<^sup>* (b\<lparr>book_clock := Some now\<rparr>) b')"

lemma book_touch_Inr:
  assumes "book_touch now b = Inr (t, b')"
  shows "\<exists>prev. book_clock b = Some prev \<and> - 1 \<le> prev \<and> prev \<le> t \<and> 0 \<le> t \<and> b' = b\<lparr>book_clock := Some t\<rparr> \<and> now = JInt t \<and> t \<le> MAX_INTEGER"
  using assms by (auto simp: book_touch_def b_uint_def ebind_eq_Inr guard_eq_Inr on_error_eq_Inr require_uint_ok split: option.splits)

lemma book_run_of_Inr: "book_run_of b rid = Inr r \<longleftrightarrow> (\<exists>i. rid = JStr i \<and> id_ok i \<and> find_book_run b i = Some r)"
  by (cases rid) (auto simp: book_run_of_def b_id_def require_id_def ebind_eq_Inr on_error_eq_Inr guard_eq_Inr split: option.splits)

lemma book_op_of_Inr: "book_op_of b rid oid = Inr p \<longleftrightarrow>
    (\<exists>i. oid = JStr i \<and> id_ok i \<and> find_book_op b i = Some p \<and> rid = JStr (ro_run_id p))"
  by (cases oid) (auto simp: book_op_of_def b_id_def require_id_def ebind_eq_Inr on_error_eq_Inr guard_eq_Inr split: option.splits)

lemma book_find_ids: "find_book_run b i = Some r \<Longrightarrow> rr_run_id r = i" "find_book_op b j = Some p \<Longrightarrow> ro_operation_id p = j"
  by (auto dest: row_find_SomeD)

lemma b_id_Inr: "b_id v = Inr s \<longleftrightarrow> v = JStr s \<and> id_ok s"
  by (cases v) (auto simp: b_id_def require_id_def ebind_eq_Inr on_error_eq_Inr guard_eq_Inr)

lemma b_uint_Inr: "b_uint v = Inr i \<longleftrightarrow> v = JInt i \<and> 0 \<le> i \<and> i \<le> MAX_INTEGER"
  by (cases v) (auto simp: b_uint_def require_uint_def ebind_eq_Inr on_error_eq_Inr guard_eq_Inr)

lemmas bind_iff = ebind_eq_Inr split_paired_Ex prod.case guard_eq_Inr on_error_eq_Inr unit_ex

lemma book_snapshot_Inr:
  assumes "book_snapshot rl rid now b = Inr (x, b')" and "book_clock b = Some t" and "now = JInt t"
  shows "b' = b"
proof -
  from assms(1) obtain t' b'' where "book_touch now b = Inr (t', b'')" and "b'' = b'"
    unfolding book_snapshot_def bind_iff by blast
  with book_touch_Inr[OF this(1)] assms(2,3) show ?thesis by auto
qed

text \<open>From the touched book on.\<close>

lemma book_movesI:
  assumes "book_touch now b = Inr (t, c)" and "(book_change rl t)\<^sup>*\<^sup>* c b'"
  shows "book_moves rl b b'"
  using book_touch_Inr[OF assms(1)] assms(2) unfolding book_moves_def by blast

lemma snapshot_moves: "book_snapshot rl rid now b = Inr (x, b') \<Longrightarrow> book_moves rl b b'"
  unfolding book_snapshot_def bind_iff using book_movesI by blast

lemma one_change: "book_change rl t c b' \<Longrightarrow> (book_change rl t)\<^sup>*\<^sup>* c b'"
  by (rule r_into_rtranclp)

lemma touched_clock: "book_touch now b = Inr (t, c) \<Longrightarrow> book_clock c = Some t \<and> now = JInt t"
  using book_touch_Inr by fastforce

lemma claim_owner_change:
  assumes "claim_owner r own now b = Inr (epoch, b')" and "find_book_run b i = Some r"
  shows "book_change rl now b b'" "book_clock b' = book_clock b" "\<exists>r'. find_book_run b' i = Some r'"
proof -
  from assms(1) have b': "b' = update_book_run (rr_run_id r) (claimed_run own epoch (now + 60)) b" and "rr_epoch r \<le> epoch"
    by (auto simp: claim_owner_def claimed_run_def[abs_def] Let_def bind_iff split: if_splits)
  with book_change.claim_run[OF assms(2), of epoch rl now own "now + 60"] book_find_ids(1)[OF assms(2)]
  show "book_change rl now b b'" by simp
  show "book_clock b' = book_clock b" by (simp add: b' update_book_run_def)
  show "\<exists>r'. find_book_run b' i = Some r'"
    using assms(2) book_find_ids(1)[OF assms(2)] by (auto simp: b' update_book_run_def row_find_update claimed_run_def)
qed

lemma claim_moves: "book_claim rid owner now recovery b = Inr (x, b') \<Longrightarrow> book_moves rl b b'"
  unfolding book_claim_def bind_iff book_run_of_Inr using book_movesI claim_owner_change(1) one_change by blast

lemma create_moves:
  assumes "book_create_run rl rid digest policy profile owner now deadline b = Inr (x, b')" and "book_document rl policy"
  shows "book_moves rl b b'"
proof -
  from assms(1) obtain t c i own until pol raw dg where touch: "book_touch now b = Inr (t, c)"
    and pol: "validate_policy_profile policy = Inr pol" "packed pol = Inr (raw, dg)"
    and profile: "is_str profile \<and> str_of profile \<in> {''pr'', ''full''} \<and> t < until \<and>
        until \<le> min MAX_INTEGER (t + int_of (jget (jget (jget pol ''profiles'') (str_of profile)) ''elapsed_seconds''))"
    and fresh: "find_book_run c i = None"
    and snap: "book_snapshot rl rid now (c\<lparr>book_runs := book_runs c @
      [\<lparr>rr_run_id = i, rr_manifest_digest = str_of digest, rr_policy_json = raw, rr_policy_digest = dg,
        rr_profile = str_of profile, rr_created_at = t, rr_deadline = until, rr_owner = own, rr_epoch = 1,
        rr_lease_until = min MAX_INTEGER (t + 60), rr_cancelled = False, rr_breached = False, rr_closed_at = None\<rparr>]\<rparr>) = Inr (x, b')"
    unfolding book_create_run_def bind_iff by blast
  let ?r = "\<lparr>rr_run_id = i, rr_manifest_digest = str_of digest, rr_policy_json = raw, rr_policy_digest = dg,
        rr_profile = str_of profile, rr_created_at = t, rr_deadline = until, rr_owner = own, rr_epoch = 1,
        rr_lease_until = min MAX_INTEGER (t + 60), rr_cancelled = False, rr_breached = False, rr_closed_at = None\<rparr>"
  have same: "pol = policy" "validate_policy_profile policy = Inr policy" using pol(1) by (simp_all add: profile_accepted_iff)
  have "stored_policy rl ?r (jsort policy)"
    using unpack_packed[OF assms(2)] pol(2) same validate_policy_jsort[of policy] assms(2)
    by (simp add: stored_policy_def book_document_def)
  with fresh profile have "book_change rl t c (c\<lparr>book_runs := book_runs c @ [?r]\<rparr>)"
    by (intro book_change.add_run) auto
  moreover have "b' = c\<lparr>book_runs := book_runs c @ [?r]\<rparr>"
    using book_snapshot_Inr[OF snap, of t] touched_clock[OF touch] by simp
  ultimately show ?thesis using book_movesI[OF touch] one_change by metis
qed

lemma check_reservation_counts:
  assumes "check_reservation v policy = Inr w"
  shows "w = v" "counts_ok v"
proof -
  from assms have "w = v" and "\<forall>f \<in> set counters. require_uint MAX_INTEGER (jget v f) = Inr ()"
    unfolding check_reservation_def bind_iff eiter_eq_Inr by blast+
  then show "w = v" "counts_ok v" by (auto simp: counts_ok_def amount_def require_uint_ok)
qed

lemma amount_jsort: "jwf v \<Longrightarrow> amount (jsort v) f = amount v f"
  by (simp add: amount_def jget_jsort)

lemma counts_jsort: "jwf v \<Longrightarrow> counts_ok v \<Longrightarrow> counts_ok (jsort v)"
  by (simp add: counts_ok_def amount_jsort)

lemma fits_limits_jsort: "jwf v \<Longrightarrow> fits_limits policy profile used (jsort v) = fits_limits policy profile used v"
  using amount_jsort[of v] by (simp add: fits_limits_def amount_def)

lemma reserve_moves:
  assumes "book_reserve rl rid oid owner epoch reservation now b = Inr (x, b')" and "book_document rl reservation"
  shows "book_moves rl b b'"
proof -
  from assms(1) obtain t c o_id r policy v raw dg where touch: "book_touch now b = Inr (t, c)"
    and run: "book_run_of c rid = Inr r" and owner: "book_owner r owner epoch t True = Inr ()"
    and policy: "book_policy rl r = Inr policy" and v: "check_reservation reservation policy = Inr v"
    and packed: "packed v = Inr (raw, dg)"
    and rest: "(case find_book_op c o_id of
      Some p \<Rightarrow>
        ebind (guard (ro_run_id p = rr_run_id r \<and> ro_reservation_digest p = dg \<and> ro_epoch p = int_of epoch)
          (ResourceError ''OPERATION_CONFLICT'')) (\<lambda>_.
        Inr (reserve_dict oid True (ro_intended_at p = None \<and> \<not> ro_released p), c))
    | None \<Rightarrow>
        ebind (book_totals_of rl c (rr_run_id r) t) (\<lambda>used.
        ebind (fits_limits policy (rr_profile r) used v) (\<lambda>_.
        Inr (reserve_dict oid False True,
             c\<lparr>book_ops := book_ops c @ [fresh_book_op o_id (rr_run_id r) (int_of epoch) raw dg]\<rparr>)))) = Inr (x, b')"
    unfolding book_reserve_def bind_iff by blast
  show ?thesis
  proof (cases "find_book_op c o_id")
    case (Some p)
    with rest have "b' = c" by (auto simp: bind_iff)
    then show ?thesis using book_movesI[OF touch] by blast
  next
    case None
    with rest obtain used where used: "book_totals_of rl c (rr_run_id r) t = Inr used"
      "fits_limits policy (rr_profile r) used v = Inr ()"
      and b': "b' = c\<lparr>book_ops := book_ops c @ [fresh_book_op o_id (rr_run_id r) (int_of epoch) raw dg]\<rparr>"
      by (auto simp: bind_iff)
    from run obtain i where i: "find_book_run c i = Some r" "rr_run_id r = i" using book_find_ids by (auto simp: book_run_of_Inr)
    have start: "startable r t" using owner by (auto simp: book_owner_def startable_def bind_iff)
    have stored: "stored_policy rl r policy" using policy by (auto simp: book_policy_def stored_policy_def bind_iff profile_accepted_iff)
    note doc = check_reservation_counts[OF v]
    have wf: "jwf reservation" using assms(2) by (simp add: book_document_def)
    have res: "stored_reservation rl (fresh_book_op o_id i (int_of epoch) raw dg) (jsort reservation)"
      using unpack_packed[OF assms(2)] packed doc(1) by (simp add: stored_reservation_def fresh_book_op_def)
    have "book_change rl t c (c\<lparr>book_ops := book_ops c @ [fresh_book_op o_id i (int_of epoch) raw dg]\<rparr>)"
      using used counts_jsort[OF wf] doc fits_limits_jsort[OF wf]
      by (intro book_change.add_op[OF i(1) start stored None _ res]) (auto simp: i(2))
    then show ?thesis using book_movesI[OF touch] one_change b' i(2) by blast
  qed
qed

lemma dispatch_moves: "book_dispatch_intent rid oid owner epoch now b = Inr (x, b') \<Longrightarrow> book_moves rl b b'"
proof -
  assume "book_dispatch_intent rid oid owner epoch now b = Inr (x, b')"
  then obtain t c p i where touch: "book_touch now b = Inr (t, c)" and p: "find_book_op c i = Some p"
    "ro_intended_at p = None" "\<not> ro_released p" and b': "b' = update_book_op (ro_operation_id p) (intended_op t) c"
    unfolding book_dispatch_intent_def bind_iff book_op_of_Inr intended_op_def by blast
  with book_movesI[OF touch one_change[OF book_change.intend[OF p]]] book_find_ids(2)[OF p(1)] show ?thesis by simp
qed

lemma cancel_steps:
  assumes "book_cancel rl rid owner epoch now pending b = Inr (x, b')"
  shows "\<exists>t c. book_touch now b = Inr (t, c) \<and> book_change rl t c b'"
proof -
  from assms obtain t c r where touch: "book_touch now b = Inr (t, c)" and r: "book_run_of c rid = Inr r"
    and snap: "book_snapshot rl rid now (cancelled_book (rr_run_id r) c) = Inr (x, b')"
    unfolding book_cancel_def Let_def bind_iff cancelled_book_def by (auto simp: update_book_run_def)
  from r obtain i where i: "find_book_run c i = Some r" "rr_run_id r = i" using book_find_ids by (auto simp: book_run_of_Inr)
  have "b' = cancelled_book i c"
    using book_snapshot_Inr[OF snap, of t] touched_clock[OF touch] i(2) by (simp add: cancelled_book_def update_book_run_def)
  with touch book_change.cancel_run[OF i(1)] show ?thesis by blast
qed

lemma cancel_moves: "book_cancel rl rid owner epoch now pending b = Inr (x, b') \<Longrightarrow> book_moves rl b b'"
  using cancel_steps book_movesI one_change by blast

lemma claim_for_cancel_moves:
  assumes "book_claim_for_cancel rl rid owner now pending b = Inr (x, b')"
  shows "book_moves rl b b'"
proof -
  from assms obtain t c r own epoch d y where touch: "book_touch now b = Inr (t, c)" and r: "book_run_of c rid = Inr r"
    and claim: "claim_owner r own t c = Inr (epoch, d)" and cancel: "book_cancel rl rid owner (JInt epoch) now pending d = Inr (y, b')"
    unfolding book_claim_for_cancel_def bind_iff by blast
  from r obtain i where i: "find_book_run c i = Some r" by (auto simp: book_run_of_Inr)
  note claimed = claim_owner_change[OF claim i]
  from cancel_steps[OF cancel] obtain t' d' where d': "book_touch now d = Inr (t', d')" "book_change rl t' d' b'" by blast
  from book_touch_Inr[OF d'(1)] touched_clock[OF touch] claimed(2) have "t' = t" "d' = d" by auto
  with claimed(1)[of rl] d'(2) have "(book_change rl t)\<^sup>*\<^sup>* c b'" by (meson converse_rtranclp_into_rtranclp one_change)
  then show ?thesis using book_movesI[OF touch] by blast
qed

lemma close_moves:
  assumes "book_close rl rid owner epoch now b = Inr (x, b')"
  shows "book_moves rl b b'"
proof -
  from assms obtain t c r where touch: "book_touch now b = Inr (t, c)" and r: "book_run_of c rid = Inr r"
    and rest: "(if rr_closed_at r \<noteq> None then book_snapshot rl rid now c
    else
      ebind (book_totals_of rl c (rr_run_id r) t) (\<lambda>totals.
      ebind (guard (t_slots totals = 0 \<and> t_unsettled totals = 0) (ResourceError ''CLOSE_DENIED'')) (\<lambda>_.
      book_snapshot rl rid now (update_book_run (rr_run_id r) (\<lambda>r. r\<lparr>rr_closed_at := Some t\<rparr>) c)))) = Inr (x, b')"
    unfolding book_close_def bind_iff by blast
  from r obtain i where i: "find_book_run c i = Some r" "rr_run_id r = i" using book_find_ids by (auto simp: book_run_of_Inr)
  note clock = touched_clock[OF touch]
  show ?thesis
  proof (cases "rr_closed_at r = None")
    case True
    with rest obtain used where used: "book_totals_of rl c i t = Inr used" "t_slots used = 0" "t_unsettled used = 0"
      and snap: "book_snapshot rl rid now (update_book_run i (\<lambda>r. r\<lparr>rr_closed_at := Some t\<rparr>) c) = Inr (x, b')"
      by (auto simp: bind_iff i(2))
    have "b' = update_book_run i (\<lambda>r. r\<lparr>rr_closed_at := Some t\<rparr>) c"
      using book_snapshot_Inr[OF snap, of t] clock by (simp add: update_book_run_def)
    then show ?thesis using book_movesI[OF touch one_change] book_change.close_run[OF i(1) True used] by blast
  next
    case False
    with rest have "b' = c" using book_snapshot_Inr[of rl rid now c x b' t] clock by simp
    then show ?thesis using book_movesI[OF touch] by blast
  qed
qed

lemma expose_op_change: "expose_op rl cost b oid = Inr b' \<Longrightarrow> book_change rl now b b'"
  by (auto simp: expose_op_def bind_iff breach_def stored_reservation_def
      intro!: book_change.expose[unfolded breach_def] split: option.splits)

lemma expose_ops_change: "efold (expose_op rl cost) b oids = Inr b' \<Longrightarrow> (book_change rl now)\<^sup>*\<^sup>* b b'"
proof (induction oids arbitrary: b)
  case (Cons oid oids)
  then obtain c where "expose_op rl cost b oid = Inr c" "(book_change rl now)\<^sup>*\<^sup>* c b'" by (auto simp: ebind_eq_Inr)
  then show ?case using expose_op_change by (meson converse_rtranclp_into_rtranclp)
qed simp

lemma check_usage_ok: "check_usage spent reservation = Inr cost \<Longrightarrow> use_ok spent cost"
proof (cases "spent = JNull")
  case False
  assume "check_usage spent reservation = Inr cost"
  with False obtain c where "cost = Some c" "0 \<le> c" "b_uint (jget spent ''input_tokens'') = Inr (int_of (jget spent ''input_tokens''))"
    "b_uint (jget spent ''output_tokens'') = Inr (int_of (jget spent ''output_tokens''))"
    unfolding check_usage_def bind_iff by (auto simp: b_uint_Inr bind_iff require_uint_ok)
  with False show ?thesis by (auto simp: use_ok_def amount_def b_uint_Inr)
qed (auto simp: check_usage_def use_ok_def)

lemma observe_new_change:
  assumes "observe_new rl oid eid digest stopped spent cost v r p now c = Inr (x, b')"
    and "find_book_op c i = Some p" and "rr_run_id r = ro_run_id p"
    and "ro_intended_at p \<noteq> None" and "\<not> ro_released p" and "stored_reservation rl p v"
    and "use_ok spent cost" and "spent = JNull \<or> book_document rl spent" and "row_find re_event_id eid (book_events c) = None"
  shows "book_change rl now c b'"
proof -
  from assms(1) obtain conflict q raw dg where q: "apply_usage rl spent cost now p = Inr (conflict, q)"
    and b': "b' = (let overrun = (rr_deadline r < now \<or> spent \<noteq> JNull \<and> exceeds spent cost v);
        q = stop_op stopped now q;
        q = (if conflict then q\<lparr>ro_conflicted := True, ro_exposure_micros := exposure_of v p cost\<rparr> else q);
        b = update_book_op (ro_operation_id p) (\<lambda>_. q) c;
        b = (if conflict \<or> overrun then update_book_run (rr_run_id r) (\<lambda>r. r\<lparr>rr_breached := True\<rparr>) b else b) in
      b\<lparr>book_events := book_events b @
      [\<lparr>re_event_id = eid, re_operation_id = ro_operation_id p, re_event_digest = digest,
        re_response_json = raw, re_response_digest = dg\<rparr>]\<rparr>)"
    unfolding observe_new_def Let_def bind_iff by blast
  let ?o = "rr_deadline r < now \<or> spent \<noteq> JNull \<and> exceeds spent cost v"
  let ?e = "\<lparr>re_event_id = eid, re_operation_id = ro_operation_id p, re_event_digest = digest,
        re_response_json = raw, re_response_digest = dg\<rparr>"
  have i: "ro_operation_id p = i" by (rule book_find_ids(2)[OF assms(2)])
  have "b' = ((if conflict \<or> ?o then breach (ro_run_id p) else (\<lambda>b. b))
      (update_book_op i (\<lambda>_. observed_op conflict stopped now v cost p q) c))\<lparr>book_events := book_events c @ [?e]\<rparr>"
    unfolding b' Let_def observed_op_def breach_def assms(3) i by (simp add: update_book_op_def update_book_run_def)
  moreover have "book_change rl now c (((if conflict \<or> ?o then breach (ro_run_id p) else (\<lambda>b. b))
      (update_book_op i (\<lambda>_. observed_op conflict stopped now v cost p q) c))\<lparr>book_events := book_events c @ [?e]\<rparr>)"
    by (rule book_change.observe_op[OF assms(2,4,5,6,7,8) q]) (use assms(9) i in auto)
  ultimately show ?thesis by simp
qed

lemma observe_moves:
  assumes "book_observe rl rid oid event_id stopped spent now b = Inr (x, b')" and "book_document rl spent"
  shows "book_moves rl b b'"
proof -
  from assms(1) obtain t c eid r p v cost ev dg where touch: "book_touch now b = Inr (t, c)"
    and r: "book_run_of c rid = Inr r" and p: "book_op_of c rid oid = Inr p"
    and op: "is_bool stopped \<and> (bool_of stopped \<or> spent \<noteq> JNull) \<and> ro_intended_at p \<noteq> None \<and> \<not> ro_released p"
    and v: "unpack rl (ro_reservation_json p) (Some (ro_reservation_digest p)) = Inr v"
    and cost: "check_usage spent v = Inr cost"
    and rest: "(case row_find re_event_id eid (book_events c) of
      Some previous \<Rightarrow>
        if re_operation_id previous \<noteq> ro_operation_id p \<or> re_event_digest previous \<noteq> dg then
          ebind (efold (expose_op rl cost) c (remdups [ro_operation_id p, re_operation_id previous])) (\<lambda>b.
          Inr (event_conflict_dict oid, b))
        else ebind (unpack rl (re_response_json previous) (Some (re_response_digest previous))) (\<lambda>response. Inr (response, c))
    | None \<Rightarrow> observe_new rl oid eid dg (bool_of stopped) spent cost v r p t c) = Inr (x, b')"
    unfolding book_observe_def bind_iff by blast
  from p obtain i where i: "find_book_op c i = Some p" "rid = JStr (ro_run_id p)" by (auto simp: book_op_of_Inr)
  with r have rid: "rr_run_id r = ro_run_id p" using book_find_ids by (auto simp: book_run_of_Inr)
  have "(book_change rl t)\<^sup>*\<^sup>* c b'"
  proof (cases "row_find re_event_id eid (book_events c)")
    case None
    with rest have "observe_new rl oid eid dg (bool_of stopped) spent cost v r p t c = Inr (x, b')" by simp
    from observe_new_change[OF this i(1) rid _ _ _ check_usage_ok[OF cost] _ None] op v assms(2)
    show ?thesis by (intro one_change) (simp add: stored_reservation_def)
  next
    case (Some previous)
    let ?oids = "remdups [ro_operation_id p, re_operation_id previous]"
    show ?thesis
    proof (cases "re_operation_id previous \<noteq> ro_operation_id p \<or> re_event_digest previous \<noteq> dg")
      case True
      with rest Some have "ebind (efold (expose_op rl cost) c ?oids) (\<lambda>b. Inr (event_conflict_dict oid, b)) = Inr (x, b')"
        by (simp only: option.case if_True)
      then have "efold (expose_op rl cost) c ?oids = Inr b'" unfolding ebind_eq_Inr by blast
      then show ?thesis by (rule expose_ops_change)
    next
      case False
      with rest Some have "b' = c" by (auto simp: ebind_eq_Inr simp del: efold.simps)
      then show ?thesis by simp
    qed
  qed
  then show ?thesis by (rule book_movesI[OF touch])
qed

text \<open>The refinement: a call that returns has moved the book by changes.\<close>

theorem calls_move:
  assumes "call_method rl c b = Inr (x, b')" and "list_all (book_document rl) (call_documents c)"
  shows "book_moves rl b b'"
proof (cases c)
  case (Create rid digest policy profile owner now deadline)
  with assms show ?thesis by (auto intro: create_moves)
next
  case (Reserve rid oid owner epoch reservation now)
  with assms show ?thesis by (auto intro: reserve_moves)
next
  case (Observe rid oid eid stopped spent now)
  with assms show ?thesis by (auto intro: observe_moves)
qed (use assms in \<open>auto simp: book_claim_recovery_def intro: claim_moves claim_for_cancel_moves dispatch_moves cancel_moves close_moves
      snapshot_moves\<close>)

lemma book_step_moves: "snd (book_step rl c b) = b \<or> book_moves rl b (snd (book_step rl c b))"
  by (auto simp: book_step_def split: sum.splits dest: calls_move)

end
