(* ===== verification/Resource_Inv.thy ===== *)
theory Resource_Inv
  imports Resource_Steps
begin

text \<open>
  The invariant of the book of resources: every stored document can be read back, the totals of a run are
  sums over its operations, and while a run is not breached these sums are within its policy.  What a
  change does to the rows one by one (\<open>lighter\<close>) decides what it does to the sums.
\<close>

section \<open>Totals as sums\<close>

definition op_doc :: "nat \<Rightarrow> book_op \<Rightarrow> json" where
  "op_doc rl p = (case unpack rl (ro_reservation_json p) (Some (ro_reservation_digest p)) of Inr v \<Rightarrow> v | Inl _ \<Rightarrow> JNull)"

definition op_spent :: "nat \<Rightarrow> book_op \<Rightarrow> json option" where
  "op_spent rl p = (case op_usage rl p of Inr u \<Rightarrow> u | Inl _ \<Rightarrow> None)"

definition op_settled :: "book_op \<Rightarrow> bool" where
  "op_settled p \<longleftrightarrow> ro_usage_json p \<noteq> None \<and> \<not> ro_conflicted p"

definition op_cost :: "nat \<Rightarrow> book_op \<Rightarrow> int" where
  "op_cost rl p = (if op_settled p then or0 (ro_cost_micros p) else max (amount (op_doc rl p) ''api_cost_usd_micros'') (ro_exposure_micros p))"

definition op_counted :: "int \<Rightarrow> book_op \<Rightarrow> bool" where
  "op_counted t p \<longleftrightarrow> \<not> ro_released p \<and> (op_settled p \<longrightarrow> t - 86400 < or0 (ro_settled_at p))"

definition op_tokens :: "nat \<Rightarrow> book_op \<Rightarrow> string \<Rightarrow> int" where
  "op_tokens rl p f = used_tokens (op_settled p) (op_spent rl p) (op_doc rl p) f"

definition weight :: "nat \<Rightarrow> string \<Rightarrow> book_op \<Rightarrow> int" where
  "weight rl f p =
    (if f = ''concurrent_evaluations'' then (if ro_stopped_at p = None then 1 else 0)
     else if f = ''unsettled'' then (if op_settled p then 0 else 1)
     else if f = ''total_tokens'' then op_tokens rl p ''input_tokens'' + op_tokens rl p ''output_tokens''
     else if f = ''api_cost_usd_micros'' then op_cost rl p
     else amount (op_doc rl p) f)"

definition limited :: "string list" where
  "limited = [''concurrent_evaluations'', ''case_trial_executions'', ''model_calls'', ''total_tokens'', ''api_cost_usd_micros'']"

abbreviation book_accounted :: "string set" where
  "book_accounted \<equiv> insert ''unsettled'' (set limited)"

definition used_of :: "book_totals \<Rightarrow> string \<Rightarrow> int" where
  "used_of u f =
    (if f = ''concurrent_evaluations'' then t_slots u else if f = ''unsettled'' then t_unsettled u
     else if f = ''total_tokens'' then total_tokens u else if f = ''api_cost_usd_micros'' then t_cost u
     else if f = ''model_calls'' then t_calls u else t_cases u)"

definition active_weight :: "nat \<Rightarrow> string \<Rightarrow> book_op \<Rightarrow> int" where
  "active_weight rl f p = (if ro_released p then 0 else weight rl f p)"

definition book_run_sum :: "nat \<Rightarrow> string \<Rightarrow> string \<Rightarrow> book_op list \<Rightarrow> int" where
  "book_run_sum rl i f ps = (\<Sum>p \<leftarrow> ps. if ro_run_id p = i then active_weight rl f p else 0)"

definition global_weight :: "nat \<Rightarrow> int \<Rightarrow> book_op \<Rightarrow> int" where
  "global_weight rl t p = (if op_counted t p then op_cost rl p else 0)"

definition book_global_sum :: "nat \<Rightarrow> int \<Rightarrow> book_op list \<Rightarrow> int" where
  "book_global_sum rl t ps = (\<Sum>p \<leftarrow> ps. global_weight rl t p)"

text \<open>A row that can be read: the reservation, and the use with its cost and time once it is known.\<close>

definition book_op_ok :: "nat \<Rightarrow> int \<Rightarrow> book_op \<Rightarrow> bool" where
  "book_op_ok rl now p \<longleftrightarrow> (\<exists>v. stored_reservation rl p v \<and> counts_ok v) \<and> 0 \<le> ro_exposure_micros p \<and>
     (ro_usage_json p = None \<or>
      (\<exists>u c tm. ro_usage_json p \<noteq> None \<and> op_usage rl p = Inr (Some u) \<and> 0 \<le> amount u ''input_tokens'' \<and>
        0 \<le> amount u ''output_tokens'' \<and> ro_cost_micros p = Some c \<and> 0 \<le> c \<and> ro_settled_at p = Some tm \<and> tm \<le> now))"

lemma book_op_ok_later: "book_op_ok rl now p \<Longrightarrow> now \<le> t \<Longrightarrow> book_op_ok rl t p"
  unfolding book_op_ok_def by (meson order_trans)

lemma op_usage_none [simp]: "ro_usage_json p = None \<Longrightarrow> op_usage rl p = Inr None"
  by (simp add: op_usage_def)

lemma op_doc_stored: "stored_reservation rl p v \<Longrightarrow> op_doc rl p = v"
  by (simp add: op_doc_def stored_reservation_def)

lemma book_op_ok_doc: "book_op_ok rl now p \<Longrightarrow> counts_ok (op_doc rl p)"
  by (auto simp: book_op_ok_def op_doc_stored)

lemma counts_nonneg:
  assumes "counts_ok v"
  shows "0 \<le> amount v ''case_trial_executions''" "0 \<le> amount v ''model_calls''" "0 \<le> amount v ''input_tokens''"
    "0 \<le> amount v ''output_tokens''" "0 \<le> amount v ''api_cost_usd_micros''"
  using assms by (simp_all add: counts_ok_def counters_def)

lemma op_cost_nonneg: "book_op_ok rl now p \<Longrightarrow> 0 \<le> op_cost rl p"
  using counts_nonneg(5)[OF book_op_ok_doc, of rl now p] by (auto simp: op_cost_def book_op_ok_def op_settled_def or0_def)

lemma op_tokens_nonneg:
  assumes "book_op_ok rl now p" and "f \<in> {''input_tokens'', ''output_tokens''}"
  shows "0 \<le> op_tokens rl p f"
proof -
  have "0 \<le> amount (op_doc rl p) f" using assms(2) counts_nonneg(3,4)[OF book_op_ok_doc[OF assms(1)]] by auto
  with assms show ?thesis
    by (auto simp: op_tokens_def used_tokens_def Let_def amount_def book_op_ok_def op_spent_def op_settled_def)
qed

lemma weight_nonneg:
  assumes "book_op_ok rl now p" and "f \<in> book_accounted"
  shows "0 \<le> weight rl f p"
  using assms counts_nonneg[OF book_op_ok_doc[OF assms(1)]] op_cost_nonneg[OF assms(1)] op_tokens_nonneg[OF assms(1)]
  by (auto simp: weight_def limited_def)

lemma active_weight_nonneg: "book_op_ok rl now p \<Longrightarrow> f \<in> book_accounted \<Longrightarrow> 0 \<le> active_weight rl f p"
  by (simp add: active_weight_def weight_nonneg)

lemma global_weight_nonneg: "book_op_ok rl now p \<Longrightarrow> 0 \<le> global_weight rl t p"
  by (simp add: global_weight_def op_cost_nonneg)

lemma global_weight_later: "book_op_ok rl now p \<Longrightarrow> t \<le> t' \<Longrightarrow> global_weight rl t' p \<le> global_weight rl t p"
  by (auto simp: global_weight_def op_counted_def op_cost_nonneg)

text \<open>One row of the totals.\<close>

lemma add_totals_ok:
  assumes "book_op_ok rl now p"
  shows "\<exists>u. add_totals rl i t acc p = Inr u \<and>
    (\<forall>f \<in> book_accounted. used_of u f = used_of acc f + (if ro_run_id p = i then active_weight rl f p else 0)) \<and>
    t_global u = t_global acc + global_weight rl t p"
proof -
  from assms obtain v where v: "unpack rl (ro_reservation_json p) (Some (ro_reservation_digest p)) = Inr v" "op_doc rl p = v"
    unfolding book_op_ok_def using op_doc_stored stored_reservation_def by blast
  show ?thesis
  proof (cases "ro_usage_json p = None")
    case True
    then have "op_usage rl p = Inr None" "op_spent rl p = None" "\<not> op_settled p"
      by (simp_all add: op_spent_def op_settled_def)
    with v True show ?thesis
      by (auto simp: add_totals_def Let_def int_opt_def limited_def used_of_def active_weight_def weight_def total_tokens_def
          global_weight_def op_counted_def op_cost_def op_tokens_def used_tokens_def amount_def)
  next
    case False
    with assms obtain u c tm where u: "op_usage rl p = Inr (Some u)" "ro_cost_micros p = Some c" "ro_settled_at p = Some tm"
      by (auto simp: book_op_ok_def)
    then have "op_spent rl p = Some u" "op_settled p \<longleftrightarrow> \<not> ro_conflicted p"
      using False by (simp_all add: op_spent_def op_settled_def)
    with v u show ?thesis
      by (cases "ro_conflicted p"; cases "ro_released p"; cases "ro_run_id p = i")
        (auto simp: add_totals_def Let_def int_opt_def limited_def used_of_def active_weight_def weight_def total_tokens_def or0_def
          global_weight_def op_counted_def op_cost_def op_tokens_def used_tokens_def amount_def)
  qed
qed

lemma totals_ok:
  assumes "\<forall>p \<in> set ps. book_op_ok rl now p"
  shows "\<exists>u. efold (add_totals rl i t) acc ps = Inr u \<and>
    (\<forall>f \<in> book_accounted. used_of u f = used_of acc f + book_run_sum rl i f ps) \<and> t_global u = t_global acc + book_global_sum rl t ps"
  using assms
proof (induction ps arbitrary: acc)
  case (Cons p ps)
  from add_totals_ok[of rl now p i t acc] Cons.prems obtain u where u: "add_totals rl i t acc p = Inr u"
    "\<forall>f \<in> book_accounted. used_of u f = used_of acc f + (if ro_run_id p = i then active_weight rl f p else 0)"
    "t_global u = t_global acc + global_weight rl t p" by auto
  from Cons.IH[of u] Cons.prems obtain w where "efold (add_totals rl i t) u ps = Inr w"
    "\<forall>f \<in> book_accounted. used_of w f = used_of u f + book_run_sum rl i f ps" "t_global w = t_global u + book_global_sum rl t ps" by auto
  with u show ?case by (auto simp: book_run_sum_def book_global_sum_def)
qed (simp add: book_run_sum_def book_global_sum_def)

lemma book_totals_ok:
  assumes "\<forall>p \<in> set (book_ops b). book_op_ok rl now p"
  shows "\<exists>u. book_totals_of rl b i t = Inr u \<and> (\<forall>f \<in> book_accounted. used_of u f = book_run_sum rl i f (book_ops b)) \<and>
    t_global u = book_global_sum rl t (book_ops b)"
proof -
  have "used_of no_totals f = 0" "t_global no_totals = 0" for f by (simp_all add: used_of_def no_totals_def total_tokens_def)
  with totals_ok[OF assms, of i t no_totals] show ?thesis by (auto simp: book_totals_of_def)
qed

section \<open>The invariant\<close>

text \<open>Nothing observed contradicts the reservation.\<close>

definition clean :: "nat \<Rightarrow> book_op \<Rightarrow> bool" where
  "clean rl p \<longleftrightarrow> \<not> ro_conflicted p \<and> ro_exposure_micros p = 0 \<and>
     (\<forall>u. op_spent rl p = Some u \<longrightarrow> \<not> exceeds u (ro_cost_micros p) (op_doc rl p))"

definition global_max :: int where
  "global_max = int_of (jget initial_budget ''usd_micros_max'')"

definition book_run_ok :: "nat \<Rightarrow> book_op list \<Rightarrow> book_run \<Rightarrow> bool" where
  "book_run_ok rl ps r \<longleftrightarrow> rr_profile r \<in> {''pr'', ''full''} \<and>
     (\<exists>policy. stored_policy rl r policy \<and> (rr_breached r \<or>
       (\<forall>f \<in> set limited. book_run_sum rl (rr_run_id r) f ps \<le> book_run_limit policy (rr_profile r) f))) \<and>
     (rr_breached r \<or> (\<forall>p \<in> set ps. ro_run_id p = rr_run_id r \<longrightarrow> clean rl p)) \<and>
     (rr_breached r \<or> rr_closed_at r = None \<or>
       book_run_sum rl (rr_run_id r) ''concurrent_evaluations'' ps = 0 \<and> book_run_sum rl (rr_run_id r) ''unsettled'' ps = 0)"

definition book_ok :: "nat \<Rightarrow> int \<Rightarrow> book \<Rightarrow> bool" where
  "book_ok rl now b \<longleftrightarrow>
     distinct (map rr_run_id (book_runs b)) \<and> distinct (map ro_operation_id (book_ops b)) \<and>
     (\<forall>p \<in> set (book_ops b). book_op_ok rl now p) \<and> ro_run_id ` set (book_ops b) \<subseteq> rr_run_id ` set (book_runs b) \<and>
     (\<forall>r \<in> set (book_runs b). book_run_ok rl (book_ops b) r) \<and>
     ((\<forall>r \<in> set (book_runs b). \<not> rr_breached r) \<longrightarrow> book_global_sum rl now (book_ops b) \<le> global_max)"

definition book_inv :: "nat \<Rightarrow> book \<Rightarrow> bool" where
  "book_inv rl b \<longleftrightarrow> (\<exists>now \<ge> - 1. book_clock b = Some now \<and> book_ok rl now b)"

text \<open>The new row weighs no more than the old one.\<close>

definition lighter :: "nat \<Rightarrow> int \<Rightarrow> book_op \<Rightarrow> book_op \<Rightarrow> bool" where
  "lighter rl now p q \<longleftrightarrow> (\<forall>f \<in> book_accounted. active_weight rl f q \<le> active_weight rl f p) \<and>
     global_weight rl now q \<le> global_weight rl now p"

lemma lighter_refl [simp]: "lighter rl now p p"
  by (simp add: lighter_def)

lemma book_run_sum_map_le:
  assumes "\<forall>p \<in> set ps. ro_run_id (g p) = ro_run_id p" and "\<forall>p \<in> set ps. ro_run_id p = i \<longrightarrow> lighter rl now p (g p)" and "f \<in> book_accounted"
  shows "book_run_sum rl i f (map g ps) \<le> book_run_sum rl i f ps"
  unfolding book_run_sum_def map_map comp_def using assms by (intro sum_list_mono) (auto simp: lighter_def)

lemma book_run_sum_nonneg: "\<forall>p \<in> set ps. book_op_ok rl now p \<Longrightarrow> f \<in> book_accounted \<Longrightarrow> 0 \<le> book_run_sum rl i f ps"
  unfolding book_run_sum_def by (rule sum_list_nonneg) (auto simp: active_weight_nonneg)

lemma book_global_sum_map_le:
  assumes "\<forall>p \<in> set ps. lighter rl now p (g p)"
  shows "book_global_sum rl now (map g ps) \<le> book_global_sum rl now ps"
  unfolding book_global_sum_def map_map comp_def using assms by (intro sum_list_mono) (auto simp: lighter_def)

lemma book_global_sum_later: "\<forall>p \<in> set ps. book_op_ok rl now p \<Longrightarrow> t \<le> t' \<Longrightarrow> book_global_sum rl t' ps \<le> book_global_sum rl t ps"
  unfolding book_global_sum_def by (intro sum_list_mono) (auto intro: global_weight_later)

lemma book_ok_later:
  assumes "book_ok rl now b" and "now \<le> t"
  shows "book_ok rl t (b\<lparr>book_clock := c\<rparr>)"
proof -
  have "book_global_sum rl t (book_ops b) \<le> book_global_sum rl now (book_ops b)"
    using assms book_global_sum_later by (auto simp: book_ok_def)
  then show ?thesis using assms book_op_ok_later by (fastforce simp: book_ok_def)
qed

text \<open>
  Rows are changed one by one: as long as the operations of an unbreached run become lighter, the
  invariant is kept.
\<close>

definition run_change_ok :: "nat \<Rightarrow> book_op list \<Rightarrow> book_run \<Rightarrow> book_run \<Rightarrow> bool" where
  "run_change_ok rl ps r r' \<longleftrightarrow> rr_run_id r' = rr_run_id r \<and> rr_policy_json r' = rr_policy_json r \<and>
     rr_policy_digest r' = rr_policy_digest r \<and> rr_profile r' = rr_profile r \<and> (rr_breached r \<longrightarrow> rr_breached r') \<and>
     (rr_closed_at r' = rr_closed_at r \<or>
       book_run_sum rl (rr_run_id r) ''concurrent_evaluations'' ps = 0 \<and> book_run_sum rl (rr_run_id r) ''unsettled'' ps = 0)"

lemma run_change_refl [simp]: "run_change_ok rl ps r r"
  by (simp add: run_change_ok_def)

definition op_change_ok :: "nat \<Rightarrow> int \<Rightarrow> bool \<Rightarrow> book_op \<Rightarrow> book_op \<Rightarrow> bool" where
  "op_change_ok rl now breached p q \<longleftrightarrow> ro_operation_id q = ro_operation_id p \<and> ro_run_id q = ro_run_id p \<and> book_op_ok rl now q \<and>
     (breached \<or> lighter rl now p q \<and> (clean rl p \<longrightarrow> clean rl q))"

lemma book_run_ok_change:
  assumes r: "book_run_ok rl ps r" "run_change_ok rl ps r r'"
    and ps: "\<forall>p \<in> set ps. book_op_ok rl now p \<and> ro_run_id (g p) = ro_run_id p \<and> book_op_ok rl now (g p)"
    and light: "\<not> rr_breached r' \<Longrightarrow> \<forall>p \<in> set ps. ro_run_id p = rr_run_id r \<longrightarrow> lighter rl now p (g p) \<and> (clean rl p \<longrightarrow> clean rl (g p))"
  shows "book_run_ok rl (map g ps) r'"
proof -
  have same: "rr_run_id r' = rr_run_id r" "rr_profile r' = rr_profile r" "stored_policy rl r' = stored_policy rl r"
    using r(2) by (auto simp: run_change_ok_def stored_policy_def[abs_def])
  show ?thesis
  proof (cases "rr_breached r'")
    case True
    with r same show ?thesis unfolding book_run_ok_def by (simp add: same) blast
  next
    case False
    note light = light[OF False]
    have less: "book_run_sum rl (rr_run_id r) f (map g ps) \<le> book_run_sum rl (rr_run_id r) f ps" if "f \<in> book_accounted" for f
      by (rule book_run_sum_map_le[where now = now]) (use ps light that in auto)
    have nonneg: "0 \<le> book_run_sum rl (rr_run_id r) f (map g ps)" if "f \<in> book_accounted" for f
      by (rule book_run_sum_nonneg[where now = now]) (use ps that in auto)
    have unbreached: "\<not> rr_breached r" using False r(2) by (auto simp: run_change_ok_def)
    from r(1) unbreached obtain policy where policy: "stored_policy rl r policy"
      "\<forall>f \<in> set limited. book_run_sum rl (rr_run_id r) f ps \<le> book_run_limit policy (rr_profile r) f"
      by (auto simp: book_run_ok_def)
    have "\<forall>f \<in> set limited. book_run_sum rl (rr_run_id r) f (map g ps) \<le> book_run_limit policy (rr_profile r) f"
      using policy(2) less by (meson insertCI order_trans)
    moreover have "\<forall>p \<in> set (map g ps). ro_run_id p = rr_run_id r \<longrightarrow> clean rl p"
      using light ps r(1) unbreached by (auto simp: book_run_ok_def)
    moreover have "rr_closed_at r' = None \<or>
        book_run_sum rl (rr_run_id r) ''concurrent_evaluations'' (map g ps) = 0 \<and> book_run_sum rl (rr_run_id r) ''unsettled'' (map g ps) = 0"
    proof -
      have "rr_closed_at r' = None \<or>
          book_run_sum rl (rr_run_id r) ''concurrent_evaluations'' ps = 0 \<and> book_run_sum rl (rr_run_id r) ''unsettled'' ps = 0"
        using r unbreached unfolding book_run_ok_def run_change_ok_def by metis
      moreover have "''concurrent_evaluations'' \<in> book_accounted" "''unsettled'' \<in> book_accounted" by (simp_all add: limited_def)
      ultimately show ?thesis using less nonneg by (metis order_antisym)
    qed
    moreover have "rr_profile r \<in> {''pr'', ''full''}" using r(1) unfolding book_run_ok_def by blast
    ultimately show ?thesis using policy(1) unfolding book_run_ok_def same by blast
  qed
qed

lemma book_ok_change:
  assumes inv: "book_ok rl now b"
    and ops: "book_ops b' = map g (book_ops b)" and runs: "book_runs b' = map h (book_runs b)"
    and h: "\<forall>r \<in> set (book_runs b). run_change_ok rl (book_ops b) r (h r)"
    and g: "\<forall>p \<in> set (book_ops b). \<exists>r \<in> set (book_runs b). rr_run_id r = ro_run_id p \<and> op_change_ok rl now (rr_breached (h r)) p (g p)"
  shows "book_ok rl now b'"
proof -
  have g': "\<forall>p \<in> set (book_ops b). ro_operation_id (g p) = ro_operation_id p \<and> ro_run_id (g p) = ro_run_id p \<and> book_op_ok rl now (g p)"
    using g by (auto simp: op_change_ok_def)
  have h': "\<forall>r \<in> set (book_runs b). rr_run_id (h r) = rr_run_id r" using h by (auto simp: run_change_ok_def)
  from inv have distinct: "distinct (map rr_run_id (book_runs b))" and ok: "\<forall>p \<in> set (book_ops b). book_op_ok rl now p"
    by (auto simp: book_ok_def)
  have light: "lighter rl now p (g p) \<and> (clean rl p \<longrightarrow> clean rl (g p))"
    if "p \<in> set (book_ops b)" "r \<in> set (book_runs b)" "rr_run_id r = ro_run_id p" "\<not> rr_breached (h r)" for p r
  proof -
    from g that(1) obtain r' where r': "r' \<in> set (book_runs b)" "rr_run_id r' = ro_run_id p" "op_change_ok rl now (rr_breached (h r')) p (g p)"
      by blast
    then have "r' = r" using that(2,3) distinct by (metis (no_types) distinct_map inj_onD)
    with r' that(4) show ?thesis by (simp add: op_change_ok_def)
  qed
  have "map rr_run_id (book_runs b') = map rr_run_id (book_runs b)"
    "map ro_operation_id (book_ops b') = map ro_operation_id (book_ops b)" using g' h' by (simp_all add: ops runs)
  then have "distinct (map rr_run_id (book_runs b'))" "distinct (map ro_operation_id (book_ops b'))"
    using inv by (simp_all only: book_ok_def)
  moreover have "\<forall>p \<in> set (book_ops b'). book_op_ok rl now p" using g' by (simp add: ops)
  moreover have "ro_run_id ` set (book_ops b') \<subseteq> rr_run_id ` set (book_runs b')"
  proof
    fix i assume "i \<in> ro_run_id ` set (book_ops b')"
    then obtain p where "p \<in> set (book_ops b)" "i = ro_run_id (g p)" unfolding ops by auto
    then obtain r where "r \<in> set (book_runs b)" "rr_run_id (h r) = i" using g g' h' by metis
    then show "i \<in> rr_run_id ` set (book_runs b')" unfolding runs by force
  qed
  moreover have "book_run_ok rl (book_ops b') r'" if "r' \<in> set (book_runs b')" for r'
  proof -
    from that obtain r where r: "r \<in> set (book_runs b)" "r' = h r" unfolding runs by auto
    show ?thesis unfolding ops
      by (rule book_run_ok_change[of rl "book_ops b" r r' now g]) (use inv h g' ok light r in \<open>auto simp: book_ok_def\<close>)
  qed
  moreover have "book_global_sum rl now (book_ops b') \<le> global_max" if "\<forall>r \<in> set (book_runs b'). \<not> rr_breached r"
  proof -
    have "\<forall>r \<in> set (book_runs b). \<not> rr_breached (h r) \<and> \<not> rr_breached r"
      using that h unfolding runs by (auto simp: run_change_ok_def)
    then have "book_global_sum rl now (book_ops b) \<le> global_max" "\<forall>p \<in> set (book_ops b). lighter rl now p (g p)"
      using inv light g by (auto simp: book_ok_def) 
    with book_global_sum_map_le[of "book_ops b" rl now g] show ?thesis unfolding ops by linarith
  qed
  ultimately show ?thesis unfolding book_ok_def by blast
qed

end
