(* ===== verification/Resource_Props.thy ===== *)
theory Resource_Props
  imports Resource_Inv
begin

text \<open>
  The properties of the book of resources: the invariant is kept by every change, so by every call of a
  method; what was recorded stays recorded; the limits of the policies and the global budget hold in every
  book that can be reached.
\<close>

section \<open>Every change keeps the invariant\<close>

lemma run_with_id:
  assumes "book_ok rl now b" and "p \<in> set (book_ops b)"
  obtains r where "r \<in> set (book_runs b)" "rr_run_id r = ro_run_id p"
proof -
  have "ro_run_id p \<in> rr_run_id ` set (book_runs b)" using assms unfolding book_ok_def by blast
  with that show ?thesis by force
qed

lemma op_change_refl: "book_op_ok rl now p \<Longrightarrow> op_change_ok rl now breached p p"
  by (simp add: op_change_ok_def)

text \<open>One row is replaced, and the run it belongs to may be breached.\<close>

definition breach_if :: "bool \<Rightarrow> string \<Rightarrow> book_run \<Rightarrow> book_run" where
  "breach_if c i r = (if c \<and> rr_run_id r = i then r\<lparr>rr_breached := True\<rparr> else r)"

lemma replace_op_ok:
  assumes inv: "book_ok rl now b" and p: "find_book_op b oid = Some p"
    and q: "op_change_ok rl now c p q"
    and ops: "book_ops b' = row_update ro_operation_id oid (\<lambda>_. q) (book_ops b)"
    and runs: "book_runs b' = map (breach_if c (ro_run_id p)) (book_runs b)"
  shows "book_ok rl now b'"
proof (rule book_ok_change[OF inv _ runs])
  show "book_ops b' = map (\<lambda>x. if ro_operation_id x = oid then q else x) (book_ops b)"
    by (simp add: ops row_update_def)
  show "\<forall>r \<in> set (book_runs b). run_change_ok rl (book_ops b) r (breach_if c (ro_run_id p) r)"
    by (auto simp: breach_if_def run_change_ok_def)
  show "\<forall>x \<in> set (book_ops b). \<exists>r \<in> set (book_runs b). rr_run_id r = ro_run_id x \<and>
      op_change_ok rl now (rr_breached (breach_if c (ro_run_id p) r)) x (if ro_operation_id x = oid then q else x)"
  proof
    fix x assume x: "x \<in> set (book_ops b)"
    then obtain r where r: "r \<in> set (book_runs b)" "rr_run_id r = ro_run_id x" using run_with_id[OF inv] by blast
    have "book_op_ok rl now x" using inv x by (auto simp: book_ok_def)
    moreover have "x = p" if "ro_operation_id x = oid"
      using row_find_in_set[of ro_operation_id "book_ops b" x] x p that inv by (auto simp: book_ok_def)
    ultimately show "\<exists>r \<in> set (book_runs b). rr_run_id r = ro_run_id x \<and>
      op_change_ok rl now (rr_breached (breach_if c (ro_run_id p) r)) x (if ro_operation_id x = oid then q else x)"
      using r q by (intro bexI[of _ r]) (auto simp: op_change_refl breach_if_def op_change_ok_def)
  qed
qed

lemma replace_run_ok:
  assumes inv: "book_ok rl now b" and f: "\<forall>r \<in> set (book_runs b). rr_run_id r = i \<longrightarrow> run_change_ok rl (book_ops b) r (f r)"
  shows "book_ok rl now (update_book_run i f b)"
proof (rule book_ok_change[OF inv, where g = "\<lambda>p. p" and h = "\<lambda>r. if rr_run_id r = i then f r else r"])
  show "\<forall>p \<in> set (book_ops b). \<exists>r \<in> set (book_runs b). rr_run_id r = ro_run_id p \<and>
      op_change_ok rl now (rr_breached (if rr_run_id r = i then f r else r)) p p"
    using run_with_id[OF inv] inv op_change_refl unfolding book_ok_def by metis
qed (use f in \<open>auto simp: update_book_run_def row_update_def\<close>)

text \<open>What a change of a row does to its weights.\<close>

lemma op_parts_cong:
  assumes "ro_reservation_json q = ro_reservation_json p" "ro_reservation_digest q = ro_reservation_digest p"
  shows "op_doc rl q = op_doc rl p" "stored_reservation rl q = stored_reservation rl p"
  unfolding op_doc_def stored_reservation_def[abs_def] assms by (rule refl)+

lemma op_use_cong:
  assumes "ro_usage_json q = ro_usage_json p" "ro_usage_digest q = ro_usage_digest p"
  shows "op_usage rl q = op_usage rl p" "op_spent rl q = op_spent rl p"
  unfolding op_spent_def op_usage_def assms by (rule refl)+

lemma intended_ok:
  assumes "book_op_ok rl now p"
  shows "op_change_ok rl now c p (intended_op t p)"
proof -
  let ?q = "intended_op t p"
  have f: "ro_reservation_json ?q = ro_reservation_json p" "ro_reservation_digest ?q = ro_reservation_digest p"
    "ro_usage_json ?q = ro_usage_json p" "ro_usage_digest ?q = ro_usage_digest p" "ro_released ?q = ro_released p"
    "ro_conflicted ?q = ro_conflicted p" "ro_stopped_at ?q = ro_stopped_at p" "ro_cost_micros ?q = ro_cost_micros p"
    "ro_settled_at ?q = ro_settled_at p" "ro_exposure_micros ?q = ro_exposure_micros p"
    "ro_operation_id ?q = ro_operation_id p" "ro_run_id ?q = ro_run_id p" by (simp_all add: intended_op_def)
  note same = op_parts_cong[OF f(1,2)] op_use_cong[OF f(3,4)]
  have "book_op_ok rl now ?q" using assms unfolding book_op_ok_def same f .
  moreover have "active_weight rl f ?q = active_weight rl f p" "global_weight rl now ?q = global_weight rl now p" for f
    by (simp_all add: active_weight_def weight_def global_weight_def op_counted_def op_cost_def op_settled_def op_tokens_def same f)
  moreover have "clean rl ?q = clean rl p" by (simp add: clean_def same f)
  ultimately show ?thesis by (simp add: op_change_ok_def lighter_def f)
qed

lemma released_ok:
  assumes "book_op_ok rl now p"
  shows "op_change_ok rl now c p (release_pending i p)"
proof (cases "ro_run_id p = i \<and> ro_intended_at p = None")
  case True
  let ?q = "p\<lparr>ro_released := True\<rparr>"
  have f: "ro_reservation_json ?q = ro_reservation_json p" "ro_reservation_digest ?q = ro_reservation_digest p"
    "ro_usage_json ?q = ro_usage_json p" "ro_usage_digest ?q = ro_usage_digest p" by simp_all
  note same = op_parts_cong[OF f(1,2)] op_use_cong[OF f(3,4)]
  have "book_op_ok rl now ?q" using assms unfolding book_op_ok_def same by simp
  moreover have "active_weight rl f ?q = 0" "global_weight rl now ?q = 0" for f
    by (simp_all add: active_weight_def global_weight_def op_counted_def)
  moreover have "clean rl ?q = clean rl p" by (simp add: clean_def same)
  ultimately show ?thesis
    using True active_weight_nonneg[OF assms] global_weight_nonneg[OF assms]
    by (simp add: release_pending_def op_change_ok_def lighter_def)
next
  case False
  then have "release_pending i p = p" by (auto simp: release_pending_def)
  with op_change_refl[OF assms] show ?thesis by simp
qed

text \<open>Stopping frees the slot and touches nothing else.\<close>

lemma stopped_ok:
  assumes "op_change_ok rl now c p q"
  shows "op_change_ok rl now c p (stop_op stopped t q)"
proof -
  let ?q = "stop_op stopped t q"
  have f: "ro_reservation_json ?q = ro_reservation_json q" "ro_reservation_digest ?q = ro_reservation_digest q"
    "ro_usage_json ?q = ro_usage_json q" "ro_usage_digest ?q = ro_usage_digest q" "ro_released ?q = ro_released q"
    "ro_conflicted ?q = ro_conflicted q" "ro_cost_micros ?q = ro_cost_micros q"
    "ro_settled_at ?q = ro_settled_at q" "ro_exposure_micros ?q = ro_exposure_micros q"
    "ro_operation_id ?q = ro_operation_id q" "ro_run_id ?q = ro_run_id q" by (simp_all add: stop_op_def)
  note same = op_parts_cong[OF f(1,2)] op_use_cong[OF f(3,4)]
  have stop: "ro_stopped_at q \<noteq> None \<longrightarrow> ro_stopped_at ?q \<noteq> None" by (auto simp: stop_op_def)
  have "book_op_ok rl now ?q = book_op_ok rl now q" unfolding book_op_ok_def same f by simp
  moreover have "active_weight rl f ?q \<le> active_weight rl f q" "global_weight rl now ?q = global_weight rl now q" for f
  proof -
    show "active_weight rl f ?q \<le> active_weight rl f q"
      using stop by (cases "f = ''concurrent_evaluations''"; cases "ro_stopped_at q"; cases "ro_stopped_at ?q";
        simp add: active_weight_def weight_def op_cost_def op_settled_def op_tokens_def same f)
    show "global_weight rl now ?q = global_weight rl now q"
      by (simp add: global_weight_def op_counted_def op_cost_def op_settled_def same f)
  qed
  moreover have "clean rl ?q = clean rl q" by (simp add: clean_def same f)
  ultimately show ?thesis using assms unfolding op_change_ok_def lighter_def f by (auto intro: order_trans)
qed

text \<open>A use that stays within the reservation replaces it by less.\<close>

lemma settled_ok:
  assumes p: "book_op_ok rl now p" "ro_usage_json p = None" "stored_reservation rl p v"
    and u: "book_document rl spent" "use_ok spent (Some cost)" "packed spent = Inr (raw, dg)"
    and within: "c \<or> \<not> exceeds spent (Some cost) v"
  shows "op_change_ok rl now c p (p\<lparr>ro_usage_json := Some raw, ro_usage_digest := Some dg, ro_settled_at := Some now, ro_cost_micros := Some cost\<rparr>)"
    (is "op_change_ok rl now c p ?q")
proof -
  have f: "ro_reservation_json ?q = ro_reservation_json p" "ro_reservation_digest ?q = ro_reservation_digest p" by simp_all
  note same = op_parts_cong[OF f]
  have wf: "jwf spent" using u(1) by (simp add: book_document_def)
  have use: "op_usage rl ?q = Inr (Some (jsort spent))" "op_spent rl ?q = Some (jsort spent)"
    using unpack_packed[OF u(1,3)] by (simp_all add: op_usage_def op_spent_def)
  have amounts: "0 \<le> amount spent ''input_tokens''" "0 \<le> amount spent ''output_tokens''" "0 \<le> cost"
    using u(2) by (auto simp: use_ok_def split: if_splits)
  have doc: "op_doc rl p = v" by (rule op_doc_stored[OF p(3)])
  have "book_op_ok rl now ?q"
    using p(1) amounts unfolding book_op_ok_def same use by (simp add: amount_jsort[OF wf])
  moreover have "c \<or> clean rl p \<longrightarrow> clean rl ?q"
    if "\<not> c" using that within amount_jsort[OF wf] unfolding clean_def use same doc
    by (simp add: exceeds_def amount_def)
  moreover have "c \<or> lighter rl now p ?q"
  proof (cases c)
    case False
    have unsettled: "\<not> op_settled p" "op_spent rl p = None" using p(2) by (simp_all add: op_settled_def op_spent_def)
    have settled: "op_settled ?q \<longleftrightarrow> \<not> ro_conflicted p" by (simp add: op_settled_def)
    have small: "amount spent ''input_tokens'' \<le> amount v ''input_tokens''" "amount spent ''output_tokens'' \<le> amount v ''output_tokens''"
      "cost \<le> amount v ''api_cost_usd_micros''"
      using within False by (auto simp: exceeds_def amount_def or0_def)
    have cost: "op_cost rl ?q \<le> op_cost rl p"
      using small unfolding op_cost_def settled same doc by (auto simp: unsettled or0_def)
    have tokens: "op_tokens rl ?q f \<le> op_tokens rl p f" if "f \<in> {''input_tokens'', ''output_tokens''}" for f
      using small that amounts counts_nonneg(3,4)[OF book_op_ok_doc[OF p(1)]] amount_jsort[OF wf]
      unfolding op_tokens_def used_tokens_def settled use same doc by (auto simp: Let_def amount_def unsettled)
    have "active_weight rl f ?q \<le> active_weight rl f p" for f
      using cost tokens[of "''input_tokens''"] tokens[of "''output_tokens''"] unsettled
      by (simp add: active_weight_def weight_def same)
    moreover have "global_weight rl now ?q \<le> global_weight rl now p"
      using cost op_cost_nonneg[OF p(1)] unsettled by (simp add: global_weight_def op_counted_def)
    ultimately show ?thesis by (simp add: lighter_def)
  qed simp
  ultimately show ?thesis by (auto simp: op_change_ok_def)
qed

lemma conflicted_ok:
  assumes "book_op_ok rl now p" and "book_op_ok rl now q" and "ro_operation_id q = ro_operation_id p" "ro_run_id q = ro_run_id p"
  shows "op_change_ok rl now True p (q\<lparr>ro_conflicted := True, ro_exposure_micros := exposure_of v p cost\<rparr>)"
proof -
  let ?q = "q\<lparr>ro_conflicted := True, ro_exposure_micros := exposure_of v p cost\<rparr>"
  have f: "ro_reservation_json ?q = ro_reservation_json q" "ro_reservation_digest ?q = ro_reservation_digest q"
    "ro_usage_json ?q = ro_usage_json q" "ro_usage_digest ?q = ro_usage_digest q" by simp_all
  have "0 \<le> exposure_of v p cost" using assms(1) by (auto simp: exposure_of_def book_op_ok_def)
  with assms(2) have "book_op_ok rl now ?q" unfolding book_op_ok_def op_parts_cong[OF f(1,2)] op_use_cong[OF f(3,4)] by simp
  with assms(3,4) show ?thesis by (simp add: op_change_ok_def)
qed

lemma apply_usage_ok:
  assumes p: "book_op_ok rl now p" "stored_reservation rl p v"
    and u: "use_ok spent cost" "spent = JNull \<or> book_document rl spent"
    and q: "apply_usage rl spent cost now p = Inr (conflict, q)"
    and within: "\<not> c \<Longrightarrow> spent = JNull \<or> \<not> exceeds spent cost v"
  shows "op_change_ok rl now c p q"
proof (cases "spent = JNull \<or> ro_usage_json p \<noteq> None")
  case True
  with q have "q = p" by (auto simp: apply_usage_def op_usage_def ebind_eq_Inr split: if_splits option.splits)
  with op_change_refl[OF p(1)] show ?thesis by simp
next
  case False
  with q obtain raw dg where packed: "packed spent = Inr (raw, dg)"
    and q': "q = p\<lparr>ro_usage_json := Some raw, ro_usage_digest := Some dg, ro_settled_at := Some now, ro_cost_micros := cost\<rparr>"
    by (auto simp: apply_usage_def ebind_eq_Inr)
  from u(1) False obtain k where k: "cost = Some k" by (auto simp: use_ok_def)
  have "op_change_ok rl now c p (p\<lparr>ro_usage_json := Some raw, ro_usage_digest := Some dg, ro_settled_at := Some now, ro_cost_micros := Some k\<rparr>)"
    by (rule settled_ok[OF p(1) _ p(2) _ _ packed]) (use False u within k in auto)
  with q' k show ?thesis by simp
qed

lemma change_clock: "book_change rl now b b' \<Longrightarrow> book_clock b' = book_clock b"
  by (induction rule: book_change.induct)
    (simp_all add: update_book_run_def update_book_op_def cancelled_book_def breach_def)

lemma breach_runs:
  "book_runs ((if c then breach i else (\<lambda>b. b)) b) = map (breach_if c i) (book_runs b)"
  "book_ops ((if c then breach i else (\<lambda>b. b)) b) = book_ops b"
  by (auto simp: breach_def breach_if_def update_book_run_def row_update_def map_idI)

lemma book_run_sum_other: "\<forall>p \<in> set ps. ro_run_id p \<noteq> i \<Longrightarrow> book_run_sum rl i f ps = 0"
  unfolding book_run_sum_def by (induction ps) auto

lemma profile_limits_positive:
  assumes "validate_policy_profile policy = Inr policy" and "profile \<in> {''pr'', ''full''}" and "f \<in> set limited"
  shows "0 \<le> book_run_limit policy profile f"
proof -
  let ?ps = "jget policy ''profiles''"
  from assms(1) have ps: "is_obj ?ps" "set (jkeys ?ps) = set [''pr'', ''full'']"
    "\<forall>p \<in> set (jvalues ?ps). require_counts p (jkeys initial_pr) = Inr ()"
    unfolding profile_accepted_iff validate_shape_def ebind_eq_Inr policy_checks_Inr eiter_eq_Inr unit_ex by blast+
  from ps(2) assms(2) have "profile \<in> set (jkeys ?ps)" by auto
  from jget_in_values[OF ps(1) this] ps(3) have "require_counts (jget ?ps profile) (jkeys initial_pr) = Inr ()" by blast
  then have p: "is_obj (jget ?ps profile)" "set (jkeys (jget ?ps profile)) = set (jkeys initial_pr)"
    "\<forall>v \<in> set (jvalues (jget ?ps profile)). require_positive_integer v = Inr ()"
    unfolding require_counts_def ebind_eq_Inr policy_checks_Inr eiter_eq_Inr unit_ex by blast+
  from assms(3) have "f \<in> set (jkeys (jget ?ps profile))" unfolding p(2) by (auto simp: limited_def initial_pr_def jints_def)
  from jget_in_values[OF p(1) this] p(3) have "require_positive_integer (jget (jget ?ps profile) f) = Inr ()" by blast
  then show ?thesis by (simp add: require_positive_integer_def policy_check_Inr book_run_limit_def)
qed

lemma stored_policy_unique: "stored_policy rl r p \<Longrightarrow> stored_policy rl r q \<Longrightarrow> p = q"
  by (simp add: stored_policy_def)

lemma add_run_ok:
  assumes inv: "book_ok rl now b" and fresh: "find_book_run b (rr_run_id r) = None" and policy: "stored_policy rl r policy"
    and r: "rr_profile r \<in> {''pr'', ''full''}" "rr_closed_at r = None"
  shows "book_ok rl now (b\<lparr>book_runs := book_runs b @ [r]\<rparr>)"
proof -
  from fresh have id: "rr_run_id r \<notin> rr_run_id ` set (book_runs b)" by (simp add: row_find_None_iff)
  then have other: "\<forall>p \<in> set (book_ops b). ro_run_id p \<noteq> rr_run_id r" using run_with_id[OF inv] by (metis image_eqI)
  have "validate_policy_profile policy = Inr policy" using policy by (simp add: stored_policy_def)
  then have "book_run_sum rl (rr_run_id r) f (book_ops b) \<le> book_run_limit policy (rr_profile r) f" if "f \<in> set limited" for f
    unfolding book_run_sum_other[OF other] by (rule profile_limits_positive[OF _ r(1) that])
  then have "\<forall>f \<in> set limited. book_run_sum rl (rr_run_id r) f (book_ops b) \<le> book_run_limit policy (rr_profile r) f" by (rule ballI)
  then have "book_run_ok rl (book_ops b) r" using policy r other unfolding book_run_ok_def by blast
  with inv id show ?thesis unfolding book_ok_def by (simp, blast)
qed

lemma book_run_sum_append: "book_run_sum rl i f (ps @ qs) = book_run_sum rl i f ps + book_run_sum rl i f qs"
  by (simp add: book_run_sum_def)

lemma book_global_sum_append: "book_global_sum rl t (ps @ qs) = book_global_sum rl t ps + book_global_sum rl t qs"
  by (simp add: book_global_sum_def)

lemma fits_limits_Inr:
  assumes "fits_limits policy profile used v = Inr ()"
  shows "t_slots used < book_run_limit policy profile ''concurrent_evaluations''"
    "t_cases used + amount v ''case_trial_executions'' \<le> book_run_limit policy profile ''case_trial_executions''"
    "t_calls used + amount v ''model_calls'' \<le> book_run_limit policy profile ''model_calls''"
    "t_cost used + amount v ''api_cost_usd_micros'' \<le> book_run_limit policy profile ''api_cost_usd_micros''"
    "total_tokens used + amount v ''input_tokens'' + amount v ''output_tokens'' \<le> book_run_limit policy profile ''total_tokens''"
    "t_global used + amount v ''api_cost_usd_micros'' \<le> int_of (jget (jget policy ''global_api_budget'') ''usd_micros_max'')"
  using assms by (auto simp: fits_limits_def Let_def bind_iff amount_def)

lemma fresh_op_weights:
  assumes "stored_reservation rl (fresh_book_op oid i epoch raw digest) v" (is "stored_reservation rl ?p v") and "counts_ok v"
  shows "book_op_ok rl now ?p" "clean rl ?p" "active_weight rl f ?p = (if f = ''concurrent_evaluations'' \<or> f = ''unsettled'' then 1
      else if f = ''total_tokens'' then amount v ''input_tokens'' + amount v ''output_tokens'' else amount v f)"
    "global_weight rl t ?p = amount v ''api_cost_usd_micros''"
proof -
  note doc = op_doc_stored[OF assms(1)]
  have f: "ro_usage_json ?p = None" "\<not> ro_conflicted ?p" "ro_exposure_micros ?p = 0" "\<not> ro_released ?p" "ro_stopped_at ?p = None"
    by (simp_all add: fresh_book_op_def)
  then have s: "\<not> op_settled ?p" "op_spent rl ?p = None" by (simp_all add: op_settled_def op_spent_def)
  note nonneg = counts_nonneg[OF assms(2)]
  show "book_op_ok rl now ?p" using assms f by (auto simp: book_op_ok_def)
  show "clean rl ?p" using f s by (simp add: clean_def)
  show "active_weight rl f ?p = (if f = ''concurrent_evaluations'' \<or> f = ''unsettled'' then 1
      else if f = ''total_tokens'' then amount v ''input_tokens'' + amount v ''output_tokens'' else amount v f)"
    using f s nonneg by (simp add: active_weight_def weight_def doc op_cost_def op_tokens_def used_tokens_def amount_def[symmetric])
  show "global_weight rl t ?p = amount v ''api_cost_usd_micros''"
    using f s nonneg by (simp add: global_weight_def op_counted_def op_cost_def doc)
qed

lemma policy_global_max:
  assumes "validate_policy_profile policy = Inr policy"
  shows "int_of (jget (jget policy ''global_api_budget'') ''usd_micros_max'') \<le> global_max"
  using assms by (simp add: profile_accepted_iff never_laxer_def global_max_def initial_budget_def jget_def)

lemma add_op_ok:
  assumes inv: "book_ok rl now b" and run: "find_book_run b i = Some r" and start: "startable r now"
    and policy: "stored_policy rl r policy" and fresh: "find_book_op b oid = None"
    and used: "book_totals_of rl b i now = Inr used" and v: "stored_reservation rl (fresh_book_op oid i epoch raw digest) v" "counts_ok v"
    and fits: "fits_limits policy (rr_profile r) used v = Inr ()"
  shows "book_ok rl now (b\<lparr>book_ops := book_ops b @ [fresh_book_op oid i epoch raw digest]\<rparr>)"
proof -
  let ?p = "fresh_book_op oid i epoch raw digest"
  let ?ps = "book_ops b @ [?p]"
  note new = fresh_op_weights[OF v]
  have ids: "ro_operation_id ?p = oid" "ro_run_id ?p = i" by (simp_all add: fresh_book_op_def)
  note r = row_find_SomeD[OF run]
  have ok: "\<forall>p \<in> set (book_ops b). book_op_ok rl now p" and distinct: "distinct (map rr_run_id (book_runs b))"
    using inv by (auto simp: book_ok_def)
  from book_totals_ok[OF ok, of i now] used have sums: "\<forall>f \<in> book_accounted. used_of used f = book_run_sum rl i f (book_ops b)"
    "t_global used = book_global_sum rl now (book_ops b)" by auto
  note limits = fits_limits_Inr[OF fits]
  have within: "\<forall>f \<in> set limited. book_run_sum rl i f ?ps \<le> book_run_limit policy (rr_profile r) f"
  proof
    fix f assume f: "f \<in> set limited"
    then have "book_run_sum rl i f (book_ops b) = used_of used f" using sums(1) by simp
    with f limits show "book_run_sum rl i f ?ps \<le> book_run_limit policy (rr_profile r) f"
      by (auto simp: book_run_sum_append limited_def book_run_sum_def[of rl i _ "[?p]"] ids new(3) used_of_def)
  qed
  have "book_run_ok rl ?ps r'" if r': "r' \<in> set (book_runs b)" for r'
  proof (cases "r' = r")
    case True
    have "book_run_ok rl (book_ops b) r" "rr_run_id r = i" using inv r by (auto simp: book_ok_def)
    with within policy start new(2) show ?thesis
      unfolding True book_run_ok_def startable_def by (auto simp: ids)
  next
    case False
    then have "rr_run_id r' \<noteq> i" using r r' distinct by (metis distinct_map inj_onD)
    then have "book_run_sum rl (rr_run_id r') f ?ps = book_run_sum rl (rr_run_id r') f (book_ops b)" for f
      by (simp add: book_run_sum_append book_run_sum_def[of rl _ _ "[?p]"] ids)
    moreover have "book_run_ok rl (book_ops b) r'" using inv r' by (auto simp: book_ok_def)
    ultimately show ?thesis using \<open>rr_run_id r' \<noteq> i\<close> unfolding book_run_ok_def by (auto simp: ids)
  qed
  moreover have "book_global_sum rl now ?ps \<le> global_max"
    using limits(6) policy_global_max[of policy] policy sums(2)
    by (simp add: book_global_sum_append book_global_sum_def[of rl now "[?p]"] new(4) stored_policy_def)
  moreover have "distinct (map ro_operation_id ?ps)" using inv fresh by (auto simp: book_ok_def row_find_None_iff ids)
  moreover have "ro_run_id ` set ?ps \<subseteq> rr_run_id ` set (book_runs b)" using inv r ids by (auto simp: book_ok_def)
  ultimately show ?thesis using inv new(1) distinct unfolding book_ok_def by simp
qed

lemma change_keeps_ok: "book_change rl now b b' \<Longrightarrow> book_ok rl now b \<Longrightarrow> book_ok rl now b'"
proof (induction rule: book_change.induct)
  case (add_run b r policy)
  then show ?case by (intro add_run_ok)
next
  case (claim_run b i r epoch own until)
  show ?case by (rule replace_run_ok[OF claim_run.prems]) (simp add: run_change_ok_def claimed_run_def)
next
  case (add_op b i r policy oid used epoch raw digest v)
  then show ?case by (intro add_op_ok)
next
  case (intend b oid p)
  have "book_op_ok rl now p" using row_find_SomeD[OF intend.hyps(1)] intend.prems by (auto simp: book_ok_def)
  from intended_ok[OF this, of False] show ?case
  proof (rule replace_op_ok[OF intend.prems intend.hyps(1)])
    have "x = p" if "x \<in> set (book_ops b)" "ro_operation_id x = oid" for x
      using row_find_in_set[of ro_operation_id "book_ops b" x] that intend by (auto simp: book_ok_def)
    then show "book_ops (update_book_op oid (intended_op now) b) = row_update ro_operation_id oid (\<lambda>_. intended_op now p) (book_ops b)"
      by (auto simp: update_book_op_def row_update_def)
  qed (simp add: update_book_op_def breach_if_def[abs_def])
next
  case (cancel_run b i r)
  have "\<forall>p \<in> set (book_ops b). book_op_ok rl now p" using cancel_run.prems by (auto simp: book_ok_def)
  then show ?case
    using run_with_id[OF cancel_run.prems] released_ok
    by (intro book_ok_change[OF cancel_run.prems, where g = "release_pending i" and
        h = "\<lambda>r. if rr_run_id r = i then r\<lparr>rr_cancelled := True\<rparr> else r"])
      (auto simp: cancelled_book_def update_book_run_def row_update_def run_change_ok_def, metis)
next
  case (close_run b i r used)
  have ok: "\<forall>p \<in> set (book_ops b). book_op_ok rl now p" using close_run.prems by (auto simp: book_ok_def)
  from book_totals_ok[OF ok, of i now] close_run.hyps(3)
  have "\<forall>f \<in> book_accounted. used_of used f = book_run_sum rl i f (book_ops b)" by auto
  then have "book_run_sum rl i ''concurrent_evaluations'' (book_ops b) = 0" "book_run_sum rl i ''unsettled'' (book_ops b) = 0"
    using close_run.hyps(4,5) by (auto simp: used_of_def limited_def)
  then show ?case by (intro replace_run_ok[OF close_run.prems]) (auto simp: run_change_ok_def)
next
  case (observe_op b oid p v spent cost conflict q overrun e stopped)
  have ok: "book_op_ok rl now p" using row_find_SomeD[OF observe_op.hyps(1)] observe_op.prems by (auto simp: book_ok_def)
  have q: "op_change_ok rl now (conflict \<or> overrun) p q"
    by (rule apply_usage_ok[OF ok observe_op.hyps(4-7)]) (use observe_op.hyps(8) in blast)
  have "op_change_ok rl now (conflict \<or> overrun) p (observed_op conflict stopped now v cost p q)"
  proof (cases conflict)
    case True
    from stopped_ok[OF q] have "book_op_ok rl now (stop_op stopped now q)" "ro_operation_id (stop_op stopped now q) = ro_operation_id p"
      "ro_run_id (stop_op stopped now q) = ro_run_id p" by (auto simp: op_change_ok_def)
    from conflicted_ok[OF ok this] True show ?thesis by (simp add: observed_op_def)
  next
    case False
    with stopped_ok[OF q] show ?thesis by (simp add: observed_op_def)
  qed
  then show ?case
    by (rule replace_op_ok[OF observe_op.prems observe_op.hyps(1)]) (simp_all add: breach_runs update_book_op_def)
next
  case (expose b oid p v cost)
  have ok: "book_op_ok rl now p" using row_find_SomeD[OF expose.hyps(1)] expose.prems by (auto simp: book_ok_def)
  from conflicted_ok[OF ok ok, of v cost] show ?case
  proof (rule replace_op_ok[OF expose.prems expose.hyps(1)])
    have "x = p" if "x \<in> set (book_ops b)" "ro_operation_id x = oid" for x
      using row_find_in_set[of ro_operation_id "book_ops b" x] that expose by (auto simp: book_ok_def)
    then show "book_ops (update_book_op oid (\<lambda>q. q\<lparr>ro_conflicted := True, ro_exposure_micros := exposure_of v p cost\<rparr>)
        (breach (ro_run_id p) b)) = row_update ro_operation_id oid
        (\<lambda>_. p\<lparr>ro_conflicted := True, ro_exposure_micros := exposure_of v p cost\<rparr>) (book_ops b)"
      by (auto simp: update_book_op_def row_update_def breach_def update_book_run_def)
  qed (auto simp: update_book_op_def breach_def update_book_run_def row_update_def breach_if_def)
qed

end
