(* ===== verification/Resource_Safety.thy ===== *)
theory Resource_Safety
  imports Resource_Props
begin

text \<open>
  What was recorded in the book of resources stays recorded (\<open>book_grows\<close>), and the properties of every
  book a sequence of calls can reach.
\<close>

section \<open>Growth\<close>

definition book_run_grows :: "book_run \<Rightarrow> book_run \<Rightarrow> bool" where
  "book_run_grows r r' \<longleftrightarrow> rr_run_id r' = rr_run_id r \<and> rr_manifest_digest r' = rr_manifest_digest r \<and>
     rr_policy_json r' = rr_policy_json r \<and> rr_policy_digest r' = rr_policy_digest r \<and> rr_profile r' = rr_profile r \<and>
     rr_deadline r' = rr_deadline r \<and> rr_epoch r \<le> rr_epoch r' \<and> (rr_cancelled r \<longrightarrow> rr_cancelled r') \<and>
     (rr_breached r \<longrightarrow> rr_breached r') \<and> (rr_closed_at r \<noteq> None \<longrightarrow> rr_closed_at r' = rr_closed_at r)"

definition book_op_grows :: "book_op \<Rightarrow> book_op \<Rightarrow> bool" where
  "book_op_grows p p' \<longleftrightarrow> ro_operation_id p' = ro_operation_id p \<and> ro_run_id p' = ro_run_id p \<and> ro_epoch p' = ro_epoch p \<and>
     ro_reservation_json p' = ro_reservation_json p \<and> ro_reservation_digest p' = ro_reservation_digest p \<and>
     (ro_intended_at p \<noteq> None \<longrightarrow> ro_intended_at p' = ro_intended_at p \<and> ro_released p' = ro_released p) \<and>
     (ro_released p \<longrightarrow> ro_released p' \<and> ro_intended_at p' = ro_intended_at p) \<and>
     (ro_stopped_at p \<noteq> None \<longrightarrow> ro_stopped_at p' = ro_stopped_at p) \<and>
     (ro_usage_json p \<noteq> None \<longrightarrow> ro_usage_json p' = ro_usage_json p \<and> ro_usage_digest p' = ro_usage_digest p \<and>
        ro_settled_at p' = ro_settled_at p \<and> ro_cost_micros p' = ro_cost_micros p) \<and>
     (ro_conflicted p \<longrightarrow> ro_conflicted p') \<and> ro_exposure_micros p \<le> ro_exposure_micros p'"

lemma book_run_grows_refl [simp]: "book_run_grows r r"
  by (simp add: book_run_grows_def)

lemma book_run_grows_trans: "book_run_grows r s \<Longrightarrow> book_run_grows s t \<Longrightarrow> book_run_grows r t"
  unfolding book_run_grows_def by (intro conjI impI; simp)

lemma book_op_grows_refl [simp]: "book_op_grows p p"
  by (simp add: book_op_grows_def)

lemma book_op_grows_trans: "book_op_grows p q \<Longrightarrow> book_op_grows q s \<Longrightarrow> book_op_grows p s"
  unfolding book_op_grows_def by (intro conjI impI; simp)

definition book_grows :: "book \<Rightarrow> book \<Rightarrow> bool" where
  "book_grows b b' \<longleftrightarrow> (\<forall>r \<in> set (book_runs b). \<exists>r' \<in> set (book_runs b'). book_run_grows r r') \<and>
     (\<forall>p \<in> set (book_ops b). \<exists>p' \<in> set (book_ops b'). book_op_grows p p') \<and> prefix (book_events b) (book_events b')"

lemma book_grows_refl [simp]: "book_grows b b"
  unfolding book_grows_def using book_run_grows_refl book_op_grows_refl by blast

lemma rows_trans:
  assumes "\<And>x y z. le x y \<Longrightarrow> le y z \<Longrightarrow> le x z" and "\<forall>x \<in> set xs. \<exists>y \<in> set ys. le x y" and "\<forall>y \<in> set ys. \<exists>z \<in> set zs. le y z"
  shows "\<forall>x \<in> set xs. \<exists>z \<in> set zs. le x z"
  using assms by meson

lemma book_grows_trans:
  assumes "book_grows b c" and "book_grows c d"
  shows "book_grows b d"
  using assms prefix_order.trans rows_trans[of book_run_grows "book_runs b" "book_runs c" "book_runs d", OF book_run_grows_trans]
    rows_trans[of book_op_grows "book_ops b" "book_ops c" "book_ops d", OF book_op_grows_trans]
  unfolding book_grows_def by (elim conjE) (intro conjI; assumption?; simp)

lemma book_grows_map:
  assumes "book_runs b' = map h (book_runs b)" and "book_ops b' = map g (book_ops b)" and "prefix (book_events b) (book_events b')"
    and "\<And>r. r \<in> set (book_runs b) \<Longrightarrow> book_run_grows r (h r)" and "\<And>p. p \<in> set (book_ops b) \<Longrightarrow> book_op_grows p (g p)"
  shows "book_grows b b'"
  unfolding book_grows_def
proof (intro conjI ballI)
  fix r assume "r \<in> set (book_runs b)"
  then show "\<exists>r' \<in> set (book_runs b'). book_run_grows r r'" using assms(4) by (intro bexI[of _ "h r"]) (simp_all add: assms(1))
next
  fix p assume "p \<in> set (book_ops b)"
  then show "\<exists>p' \<in> set (book_ops b'). book_op_grows p p'" using assms(5) by (intro bexI[of _ "g p"]) (simp_all add: assms(2))
qed (rule assms(3))

text \<open>The row of an operation is replaced.\<close>

lemma replace_op_grows:
  assumes "book_ok rl now b" and "find_book_op b oid = Some p" and "book_op_grows p q"
    and "book_ops b' = row_update ro_operation_id oid (\<lambda>_. q) (book_ops b)"
    and "book_runs b' = map (breach_if c i) (book_runs b)" and "prefix (book_events b) (book_events b')"
  shows "book_grows b b'"
proof (rule book_grows_map[OF assms(5) _ assms(6)])
  show "book_ops b' = map (\<lambda>x. if ro_operation_id x = oid then q else x) (book_ops b)"
    by (simp add: assms(4) row_update_def)
  fix x assume "x \<in> set (book_ops b)"
  then have "x = p" if "ro_operation_id x = oid"
    using row_find_in_set[of ro_operation_id "book_ops b" x] that assms(1,2) by (auto simp: book_ok_def)
  then show "book_op_grows x (if ro_operation_id x = oid then q else x)" using assms(3) by auto
qed (simp add: breach_if_def book_run_grows_def)

lemma exposure_grows: "ro_exposure_micros p \<le> exposure_of v p cost"
  by (simp add: exposure_of_def)

lemma apply_usage_cases:
  assumes "apply_usage rl spent cost now p = Inr (conflict, q)"
  shows "q = p \<or> (ro_usage_json p = None \<and>
    (\<exists>raw dg. q = p\<lparr>ro_usage_json := Some raw, ro_usage_digest := Some dg, ro_settled_at := Some now, ro_cost_micros := cost\<rparr>))"
proof (cases "ro_usage_json p")
  case None
  with assms show ?thesis by (auto simp: apply_usage_def ebind_eq_Inr split: if_splits)
next
  case (Some raw)
  with assms have "q = p" by (auto simp: apply_usage_def op_usage_def ebind_eq_Inr split: if_splits option.splits)
  then show ?thesis by simp
qed

lemma observed_op_grows:
  assumes "apply_usage rl spent cost now p = Inr (conflict, q)" and "ro_intended_at p \<noteq> None" and "\<not> ro_released p"
  shows "book_op_grows p (observed_op conflict stopped now v cost p q)"
proof -
  have "book_op_grows p q \<and> ro_intended_at q = ro_intended_at p \<and> ro_exposure_micros q = ro_exposure_micros p"
    using apply_usage_cases[OF assms(1)] by (auto simp: book_op_grows_def)
  then show ?thesis using exposure_grows[of p v cost]
    by (auto simp: observed_op_def Let_def stop_op_def book_op_grows_def split: option.splits)
qed

lemma change_grows: "book_change rl now b b' \<Longrightarrow> book_ok rl now b \<Longrightarrow> book_grows b b'"
proof (induction rule: book_change.induct)
  case (claim_run b i r epoch own until)
  have "book_run_grows x (if rr_run_id x = i then claimed_run own epoch until x else x)" if "x \<in> set (book_runs b)" for x
  proof -
    have "x = r" if "rr_run_id x = i"
      using row_find_in_set[of rr_run_id "book_runs b" x] \<open>x \<in> set (book_runs b)\<close> that claim_run by (auto simp: book_ok_def)
    with claim_run.hyps(2) show ?thesis by (auto simp: claimed_run_def book_run_grows_def)
  qed
  then show ?case
    by (intro book_grows_map[where g = "\<lambda>p. p" and h = "\<lambda>x. if rr_run_id x = i then claimed_run own epoch until x else x"])
      (simp_all add: update_book_run_def row_update_def)
next
  case (intend b oid p)
  have "book_op_grows p (intended_op now p)" using intend.hyps by (simp add: book_op_grows_def intended_op_def)
  then show ?case
  proof (rule replace_op_grows[OF intend.prems intend.hyps(1), where c = False and i = "[]"])
    have "x = p" if "x \<in> set (book_ops b)" "ro_operation_id x = oid" for x
      using row_find_in_set[of ro_operation_id "book_ops b" x] that intend by (auto simp: book_ok_def)
    then show "book_ops (update_book_op oid (intended_op now) b) = row_update ro_operation_id oid (\<lambda>_. intended_op now p) (book_ops b)"
      by (auto simp: update_book_op_def row_update_def)
  qed (simp_all add: update_book_op_def breach_if_def[abs_def])
next
  case (cancel_run b i r)
  show ?case
    by (rule book_grows_map[where g = "release_pending i" and h = "\<lambda>r. if rr_run_id r = i then r\<lparr>rr_cancelled := True\<rparr> else r"])
      (auto simp: cancelled_book_def update_book_run_def row_update_def book_run_grows_def release_pending_def book_op_grows_def)
next
  case (close_run b i r used)
  have "book_run_grows x (if rr_run_id x = i then x\<lparr>rr_closed_at := Some now\<rparr> else x)" if "x \<in> set (book_runs b)" for x
  proof -
    have "x = r" if "rr_run_id x = i"
      using row_find_in_set[of rr_run_id "book_runs b" x] \<open>x \<in> set (book_runs b)\<close> that close_run by (auto simp: book_ok_def)
    with close_run.hyps(2) show ?thesis by (auto simp: book_run_grows_def)
  qed
  then show ?case
    by (intro book_grows_map[where g = "\<lambda>p. p" and h = "\<lambda>x. if rr_run_id x = i then x\<lparr>rr_closed_at := Some now\<rparr> else x"])
      (simp_all add: update_book_run_def row_update_def)
next
  case (observe_op b oid p v spent cost conflict q overrun e stopped)
  from observed_op_grows[OF observe_op.hyps(7,2,3)] show ?case
    by (rule replace_op_grows[OF observe_op.prems observe_op.hyps(1), where c = "conflict \<or> overrun" and i = "ro_run_id p"])
      (simp_all add: breach_runs update_book_op_def)
next
  case (expose b oid p v cost)
  have "book_op_grows p (p\<lparr>ro_conflicted := True, ro_exposure_micros := exposure_of v p cost\<rparr>)"
    using exposure_grows[of p v cost] by (simp add: book_op_grows_def)
  then show ?case
  proof (rule replace_op_grows[OF expose.prems expose.hyps(1), where c = True and i = "ro_run_id p"])
    have "x = p" if "x \<in> set (book_ops b)" "ro_operation_id x = oid" for x
      using row_find_in_set[of ro_operation_id "book_ops b" x] that expose by (auto simp: book_ok_def)
    then show "book_ops (update_book_op oid (\<lambda>q. q\<lparr>ro_conflicted := True, ro_exposure_micros := exposure_of v p cost\<rparr>)
        (breach (ro_run_id p) b)) = row_update ro_operation_id oid
        (\<lambda>_. p\<lparr>ro_conflicted := True, ro_exposure_micros := exposure_of v p cost\<rparr>) (book_ops b)"
      by (auto simp: update_book_op_def row_update_def breach_def update_book_run_def)
  qed (auto simp: update_book_op_def breach_def update_book_run_def row_update_def breach_if_def)
qed (auto simp: book_grows_def book_run_grows_def book_op_grows_def)

section \<open>The machine of the book\<close>

lemma changes_keep:
  assumes "(book_change rl now)\<^sup>*\<^sup>* b b'" and "book_ok rl now b"
  shows "book_ok rl now b' \<and> book_clock b' = book_clock b \<and> book_grows b b'"
  using assms
proof (induction rule: rtranclp_induct)
  case (step c d)
  then have "book_ok rl now c" by blast
  with step change_keeps_ok[OF step.hyps(2)] change_clock[OF step.hyps(2)] change_grows[OF step.hyps(2)] show ?case
    using book_grows_trans by metis
qed simp

lemma moves_keep:
  assumes "book_moves rl b b'" and "book_inv rl b"
  shows "book_inv rl b' \<and> book_grows b b'"
proof -
  from assms(1) obtain now prev where clock: "book_clock b = Some prev" "prev \<le> now" "0 \<le> now"
    and steps: "(book_change rl now)\<^sup>*\<^sup>* (b\<lparr>book_clock := Some now\<rparr>) b'" unfolding book_moves_def by blast
  have "book_ok rl now (b\<lparr>book_clock := Some now\<rparr>)"
    using book_ok_later[of rl prev b now] assms(2) clock by (auto simp: book_inv_def)
  with changes_keep[OF steps] have "book_ok rl now b'" "book_clock b' = Some now" "book_grows (b\<lparr>book_clock := Some now\<rparr>) b'" by auto
  with clock(3) show ?thesis unfolding book_inv_def book_grows_def by auto
qed

interpretation resources: machine "book_step rl" "book_inv rl" book_grows
proof unfold_locales
  show "book_inv rl (snd (book_step rl c b))" if "book_inv rl b" for b c
    using book_step_moves[of rl c b] moves_keep that by auto
  show "book_grows b (snd (book_step rl c b))" if "book_inv rl b" for b c
    using book_step_moves[of rl c b] moves_keep that by auto
qed (auto intro: book_grows_trans)

lemma empty_book_inv: "book_inv rl empty_book"
  by (simp add: book_inv_def book_ok_def empty_book_def book_global_sum_def global_max_def initial_budget_def jget_def)

definition reached_book :: "nat \<Rightarrow> book_call list \<Rightarrow> book" where
  "reached_book rl cs = run_calls (book_step rl) cs empty_book"

lemma reached_book_inv: "book_inv rl (reached_book rl cs)"
  unfolding reached_book_def by (rule resources.inv_calls) (rule empty_book_inv)

lemma reached_book_append: "reached_book rl (cs @ cs') = run_calls (book_step rl) cs' (reached_book rl cs)"
  by (simp add: reached_book_def run_calls_append)

section \<open>Limits\<close>

lemma reached_totals:
  assumes "b = reached_book rl cs"
  shows "\<exists>now u. book_clock b = Some now \<and> book_ok rl now b \<and> book_totals_of rl b i t = Inr u \<and>
    (\<forall>f \<in> book_accounted. used_of u f = book_run_sum rl i f (book_ops b)) \<and> t_global u = book_global_sum rl t (book_ops b)"
proof -
  from reached_book_inv[of rl cs] obtain now where now: "book_clock b = Some now" "book_ok rl now b"
    by (auto simp: book_inv_def assms)
  then have "\<forall>p \<in> set (book_ops b). book_op_ok rl now p" by (simp add: book_ok_def)
  from book_totals_ok[OF this, of i t] now show ?thesis by blast
qed

text \<open>C37. In every book a sequence of calls can reach, the totals of every run can be computed, whether it is
  breached or not.  As long as a run is not breached they are within the limits of its profile in the policy
  stored with it: slots, case executions, model calls, tokens and money.\<close>

theorem resource_limits_respected:
  assumes "b = reached_book rl cs"
  shows "\<exists>u. book_totals_of rl b i t = Inr u \<and>
    (\<forall>r \<in> set (book_runs b). rr_run_id r = i \<longrightarrow> \<not> rr_breached r \<longrightarrow>
      (\<exists>policy. stored_policy rl r policy \<and>
        t_slots u \<le> book_run_limit policy (rr_profile r) ''concurrent_evaluations'' \<and>
        t_cases u \<le> book_run_limit policy (rr_profile r) ''case_trial_executions'' \<and>
        t_calls u \<le> book_run_limit policy (rr_profile r) ''model_calls'' \<and>
        total_tokens u \<le> book_run_limit policy (rr_profile r) ''total_tokens'' \<and>
        t_cost u \<le> book_run_limit policy (rr_profile r) ''api_cost_usd_micros''))"
proof -
  from reached_totals[OF assms, of i t] obtain now u where u: "book_ok rl now b"
    "book_totals_of rl b i t = Inr u" "\<forall>f \<in> book_accounted. used_of u f = book_run_sum rl i f (book_ops b)" by blast
  have "\<exists>policy. stored_policy rl r policy \<and> (\<forall>f \<in> set limited. used_of u f \<le> book_run_limit policy (rr_profile r) f)"
    if r: "r \<in> set (book_runs b)" "rr_run_id r = i" "\<not> rr_breached r" for r
  proof -
    from u(1) r(1) have "book_run_ok rl (book_ops b) r" by (simp add: book_ok_def)
    with r(2,3) obtain policy where "stored_policy rl r policy"
      "\<forall>f \<in> set limited. book_run_sum rl i f (book_ops b) \<le> book_run_limit policy (rr_profile r) f"
      unfolding book_run_ok_def by blast
    with u(3) show ?thesis by auto
  qed
  with u(2) show ?thesis by (intro exI[of _ u]) (simp add: limited_def used_of_def)
qed

text \<open>C38. While no run is breached, the money that counts at the clock or later, reserved and unsettled or settled in
  the last day, over all runs, stays within the global budget of the initial policy.\<close>

theorem global_budget_respected:
  assumes "b = reached_book rl cs" and "\<forall>r \<in> set (book_runs b). \<not> rr_breached r" and "book_clock b = Some now" and "now \<le> t"
  shows "\<exists>u. book_totals_of rl b i t = Inr u \<and> t_global u \<le> 20000000"
proof -
  from reached_totals[OF assms(1), of i t] assms(3) obtain u where u: "book_ok rl now b" "book_totals_of rl b i t = Inr u"
    "t_global u = book_global_sum rl t (book_ops b)" by auto
  from u(1) assms(4) have "book_global_sum rl t (book_ops b) \<le> book_global_sum rl now (book_ops b)"
    by (intro book_global_sum_later) (auto simp: book_ok_def)
  also have "\<dots> \<le> global_max" using u(1) assms(2) by (simp add: book_ok_def)
  also have "global_max = 20000000" by (simp add: global_max_def initial_budget_def jget_def)
  finally show ?thesis using u by simp
qed

text \<open>C39. A closed run that is not breached owns nothing: no slot is taken and no operation is unsettled, whatever
  is observed after the closing.\<close>

theorem closed_runs_stay_settled:
  assumes "b = reached_book rl cs" and "r \<in> set (book_runs b)" and "rr_closed_at r \<noteq> None" and "\<not> rr_breached r"
  shows "\<exists>u. book_totals_of rl b (rr_run_id r) t = Inr u \<and> t_slots u = 0 \<and> t_unsettled u = 0"
proof -
  from reached_totals[OF assms(1), of "rr_run_id r" t] obtain now u where u: "book_ok rl now b"
    "book_totals_of rl b (rr_run_id r) t = Inr u" "\<forall>f \<in> book_accounted. used_of u f = book_run_sum rl (rr_run_id r) f (book_ops b)" by blast
  from u(1) assms(2) have "book_run_ok rl (book_ops b) r" by (simp add: book_ok_def)
  with assms(3,4) have "book_run_sum rl (rr_run_id r) ''concurrent_evaluations'' (book_ops b) = 0 \<and> book_run_sum rl (rr_run_id r) ''unsettled'' (book_ops b) = 0"
    unfolding book_run_ok_def by (elim conjE disjE) simp_all
  with u show ?thesis by (auto simp: used_of_def limited_def)
qed

section \<open>Dispatching\<close>

lemma book_step_Inr:
  assumes "book_step rl c b = (Inr x, b')"
  shows "call_method rl c b = Inr (x, b')" "list_all (book_document rl) (call_documents c)"
  using assms by (auto simp: book_step_def split: if_splits sum.splits)

lemma dispatched_row:
  assumes "book_dispatch_intent rid oid owner epoch now b = Inr (x, b')"
  shows "\<exists>i p t. oid = JStr i \<and> find_book_op b i = Some p \<and> ro_intended_at p = None \<and> \<not> ro_released p \<and> rid = JStr (ro_run_id p) \<and>
    find_book_op b' i = Some (intended_op t p)"
proof -
  from assms obtain t c p where touch: "book_touch now b = Inr (t, c)" and op: "book_op_of c rid oid = Inr p"
    and new: "ro_intended_at p = None" "\<not> ro_released p" and b': "b' = update_book_op (ro_operation_id p) (intended_op t) c"
    unfolding book_dispatch_intent_def bind_iff intended_op_def by blast
  from op obtain i where i: "oid = JStr i" "find_book_op c i = Some p" "rid = JStr (ro_run_id p)" by (auto simp: book_op_of_Inr)
  from book_touch_Inr[OF touch] have "book_ops c = book_ops b" by auto
  moreover have "find_book_op b' i = Some (intended_op t p)"
    using i(2) book_find_ids(2)[OF i(2)] by (simp add: b' update_book_op_def row_find_update intended_op_def)
  ultimately show ?thesis using i new by metis
qed

text \<open>C40. An operation is dispatched at most once: after its intent was recorded, no sequence of calls leads to a
  book in which \<open>dispatch_intent\<close> succeeds for it again or in which it is released.\<close>

theorem dispatched_at_most_once:
  assumes "b = reached_book rl cs" and "book_step rl (Dispatch_Intent rid (JStr i) owner epoch now) b = (Inr x, b1)"
    and "b2 = run_calls (book_step rl) cs' b1"
  shows "\<exists>p. find_book_op b2 i = Some p \<and> ro_intended_at p \<noteq> None \<and> \<not> ro_released p \<and>
    isl (fst (book_step rl (Dispatch_Intent rid' (JStr i) owner' epoch' now') b2))"
proof -
  from dispatched_row[OF book_step_Inr(1)[OF assms(2), simplified]] obtain p t where
    p: "find_book_op b1 i = Some (intended_op t p)" "\<not> ro_released p" by auto
  have inv1: "book_inv rl b1"
    using resources.inv_step[OF reached_book_inv, where c = "Dispatch_Intent rid (JStr i) owner epoch now"] assms(1,2)
    by (metis snd_conv)
  then have inv2: "book_inv rl b2" and grows: "book_grows b1 b2"
    using resources.inv_calls resources.grows_calls assms(3) by auto
  from grows row_find_SomeD[OF p(1)] obtain q where q: "q \<in> set (book_ops b2)" "book_op_grows (intended_op t p) q"
    unfolding book_grows_def by blast
  from q(2) p(2) row_find_SomeD[OF p(1)] have fields: "ro_operation_id q = i" "ro_intended_at q \<noteq> None" "\<not> ro_released q"
    by (auto simp: book_op_grows_def intended_op_def)
  have found: "find_book_op b2 i = Some q"
    using row_find_in_set[OF _ q(1)] inv2 fields(1) by (auto simp: book_inv_def book_ok_def)
  have "isl (fst (book_step rl (Dispatch_Intent rid' (JStr i) owner' epoch' now') b2))"
  proof (rule ccontr)
    assume "\<not> ?thesis"
    then obtain y b3 where "book_step rl (Dispatch_Intent rid' (JStr i) owner' epoch' now') b2 = (Inr y, b3)"
      by (metis prod.collapse sum.collapse(2))
    from dispatched_row[OF book_step_Inr(1)[OF this, simplified]] found fields show False by auto
  qed
  with found fields show ?thesis by blast
qed

section \<open>Observing\<close>

lemma expose_op_events: "expose_op rl cost b oid = Inr b' \<Longrightarrow> book_events b' = book_events b"
  by (auto simp: expose_op_def bind_iff update_book_op_def update_book_run_def split: option.splits)

lemma observe_new_events:
  assumes "observe_new rl oid i dg stopped spent cost v r p t c = Inr (x, b')"
  shows "\<exists>e. re_event_id e = i \<and> book_events b' = book_events c @ [e]"
proof -
  from assms obtain conflict q raw h where b': "b' = (let overrun = (rr_deadline r < t \<or> spent \<noteq> JNull \<and> exceeds spent cost v);
        q = stop_op stopped t q;
        q = (if conflict then q\<lparr>ro_conflicted := True, ro_exposure_micros := exposure_of v p cost\<rparr> else q);
        b = update_book_op (ro_operation_id p) (\<lambda>_. q) c;
        b = (if conflict \<or> overrun then update_book_run (rr_run_id r) (\<lambda>r. r\<lparr>rr_breached := True\<rparr>) b else b) in
      b\<lparr>book_events := book_events b @
      [\<lparr>re_event_id = i, re_operation_id = ro_operation_id p, re_event_digest = dg,
        re_response_json = raw, re_response_digest = h\<rparr>]\<rparr>)"
    unfolding observe_new_def Let_def bind_iff by blast
  show ?thesis unfolding b' by (simp add: Let_def update_book_op_def update_book_run_def)
qed

lemma observe_cases:
  assumes "book_observe rl rid oid (JStr i) stopped spent now b = Inr (x, b')"
  shows "(\<exists>e. row_find re_event_id i (book_events b) = Some e \<and> book_events b' = book_events b \<and>
      (x = event_conflict_dict oid \<or> book_runs b' = book_runs b \<and> book_ops b' = book_ops b)) \<or>
    (row_find re_event_id i (book_events b) = None \<and> (\<exists>e. re_event_id e = i \<and> book_events b' = book_events b @ [e]))"
proof -
  from assms obtain t c eid r p v cost dg where touch: "book_touch now b = Inr (t, c)" and eid: "b_id (JStr i) = Inr eid"
    and rest: "(case row_find re_event_id eid (book_events c) of
      Some previous \<Rightarrow>
        if re_operation_id previous \<noteq> ro_operation_id p \<or> re_event_digest previous \<noteq> dg then
          ebind (efold (expose_op rl cost) c (remdups [ro_operation_id p, re_operation_id previous])) (\<lambda>b.
          Inr (event_conflict_dict oid, b))
        else ebind (unpack rl (re_response_json previous) (Some (re_response_digest previous))) (\<lambda>response. Inr (response, c))
    | None \<Rightarrow> observe_new rl oid eid dg (bool_of stopped) spent cost v r p t c) = Inr (x, b')"
    unfolding book_observe_def bind_iff by blast
  have i: "eid = i" using eid by (simp add: b_id_Inr)
  from book_touch_Inr[OF touch] have c: "book_events c = book_events b" "book_runs c = book_runs b" "book_ops c = book_ops b" by auto
  show ?thesis
  proof (cases "row_find re_event_id i (book_events c)")
    case (Some previous)
    let ?oids = "remdups [ro_operation_id p, re_operation_id previous]"
    show ?thesis
    proof (cases "re_operation_id previous \<noteq> ro_operation_id p \<or> re_event_digest previous \<noteq> dg")
      case True
      with rest Some i have "ebind (efold (expose_op rl cost) c ?oids) (\<lambda>b. Inr (event_conflict_dict oid, b)) = Inr (x, b')"
        by (simp only: option.case if_True)
      then have steps: "efold (expose_op rl cost) c ?oids = Inr b'" "x = event_conflict_dict oid" unfolding ebind_eq_Inr by blast+
      have "book_events b' = book_events c"
        by (rule efold_invariant[OF steps(1), where P = "\<lambda>d. book_events d = book_events c"]) (auto dest: expose_op_events)
      with steps(2) Some c show ?thesis by metis
    next
      case False
      with rest Some i have "b' = c" by (auto simp: ebind_eq_Inr simp del: efold.simps)
      with Some c show ?thesis by metis
    qed
  next
    case None
    with rest i have "observe_new rl oid i dg (bool_of stopped) spent cost v r p t c = Inr (x, b')" by simp
    with None observe_new_events[OF this] show ?thesis unfolding c by blast
  qed
qed

text \<open>An event is applied at most once: once an observation with some event identifier was accepted, a later
  observation with it changes neither the runs nor the operations nor the events, unless it answers
  that the identifier conflicts.\<close>

theorem events_applied_once:
  assumes "b = reached_book rl cs" and "book_step rl (Observe rid oid (JStr i) stopped spent now) b = (Inr x, b1)"
    and "b2 = run_calls (book_step rl) cs' b1"
    and "book_step rl (Observe rid' oid' (JStr i) stopped' spent' now') b2 = (Inr y, b3)"
  shows "book_events b3 = book_events b2 \<and> (y = event_conflict_dict oid' \<or> book_runs b3 = book_runs b2 \<and> book_ops b3 = book_ops b2)"
proof -
  have inv1: "book_inv rl b1"
    using resources.inv_step[OF reached_book_inv, where c = "Observe rid oid (JStr i) stopped spent now"] assms(1,2)
    by (metis snd_conv)
  from observe_cases[OF book_step_Inr(1)[OF assms(2), simplified]] have "row_find re_event_id i (book_events b1) \<noteq> None"
    by (auto simp: row_find_append)
  moreover have "prefix (book_events b1) (book_events b2)"
    using resources.grows_calls[OF inv1] assms(3) by (simp add: book_grows_def)
  ultimately have "row_find re_event_id i (book_events b2) \<noteq> None" by (auto simp: prefix_def row_find_append)
  with observe_cases[OF book_step_Inr(1)[OF assms(4), simplified]] show ?thesis by blast
qed

end
