(* ===== verification/Resource_Examples.thy ===== *)
theory Resource_Examples
  imports Resource_Safety
begin

text \<open>
  A small history of the book of resources: one run under the initial policy, one reserved, dispatched and
  observed operation, and the closing; and the properties of the book applied to it.
\<close>

definition book_digest :: string where
  "book_digest = replicate 64 (CHR ''a'')"

definition sample_reservation :: json where
  "sample_reservation = JObj
    [(''case_trial_executions'', JInt 1), (''model_calls'', JInt 1), (''input_tokens'', JInt 10), (''output_tokens'', JInt 10),
     (''api_cost_usd_micros'', JInt 100),
     (''billing_ref'', JObj [(''kind'', JStr ''billing_basis''), (''id'', JStr ''b''), (''digest'', JStr book_digest)]),
     (''billing_mode'', JStr ''metered'')]"

definition sample_usage :: json where
  "sample_usage = JObj [(''input_tokens'', JInt 5), (''output_tokens'', JInt 5), (''cost_usd'', JStr ''0.00005'')]"

definition sample_create :: book_call where
  "sample_create = Create (JStr ''r'') (JStr book_digest) INITIAL_POLICY (JStr ''pr'') (JStr ''w'') (JInt 0) (JInt 50)"

definition sample_reserve :: book_call where
  "sample_reserve = Reserve (JStr ''r'') (JStr ''o'') (JStr ''w'') (JInt 1) sample_reservation (JInt 1)"

definition sample_dispatch :: book_call where
  "sample_dispatch = Dispatch_Intent (JStr ''r'') (JStr ''o'') (JStr ''w'') (JInt 1) (JInt 2)"

definition sample_observe :: book_call where
  "sample_observe = Observe (JStr ''r'') (JStr ''o'') (JStr ''e'') (JBool True) sample_usage (JInt 3)"

definition sample_close :: book_call where
  "sample_close = Close (JStr ''r'') (JStr ''w'') (JInt 1) (JInt 4)"

definition policy_text :: string where "policy_text = dumps INITIAL_POLICY"
definition policy_hash :: string where "policy_hash = sha256_hex policy_text"
definition reservation_text :: string where "reservation_text = dumps sample_reservation"
definition reservation_hash :: string where "reservation_hash = sha256_hex reservation_text"
definition usage_text :: string where "usage_text = dumps sample_usage"
definition usage_hash :: string where "usage_hash = sha256_hex usage_text"

definition sample_run_row :: book_run where
  "sample_run_row = \<lparr>rr_run_id = ''r'', rr_manifest_digest = book_digest, rr_policy_json = policy_text, rr_policy_digest = policy_hash,
     rr_profile = ''pr'', rr_created_at = 0, rr_deadline = 50, rr_owner = ''w'', rr_epoch = 1, rr_lease_until = 60,
     rr_cancelled = False, rr_breached = False, rr_closed_at = None\<rparr>"

definition sample_op_row :: book_op where
  "sample_op_row = fresh_book_op ''o'' ''r'' 1 reservation_text reservation_hash"

definition sample_book :: book where
  "sample_book = \<lparr>book_clock = Some 2, book_runs = [sample_run_row], book_ops = [intended_op 2 sample_op_row], book_events = []\<rparr>"

lemma book_sample_ids [simp]: "id_ok ''r''" "id_ok ''w''" "id_ok ''o''" "id_ok ''e''" "id_ok ''b''" "id_ok ''billing_basis''"
  "digest_ok book_digest" "ascii book_digest" "utf8_ok book_digest"
  by (simp_all add: id_ok_def alnum_def is_digit_def digest_ok_def book_digest_def hex_lower_def ascii_def utf8_ok_ascii list_all_iff)

lemma packed_document: "jutf8 v \<Longrightarrow> jfinite v \<Longrightarrow> packed v = Inr (dumps v, sha256_hex (dumps v))"
  by (simp add: packed_def canonical_bytes_def)

lemma sample_documents:
  "book_document 17 INITIAL_POLICY" "book_document 17 sample_reservation" "book_document 17 sample_usage"
  "packed INITIAL_POLICY = Inr (policy_text, policy_hash)" "packed sample_reservation = Inr (reservation_text, reservation_hash)"
  "packed sample_usage = Inr (usage_text, usage_hash)"
proof -
  show "book_document 17 INITIAL_POLICY" using initial_policy_document by (simp add: book_document_def)
  show "book_document 17 sample_reservation" "book_document 17 sample_usage"
    by (simp_all add: book_document_def sample_reservation_def sample_usage_def max_str_digits_def show_nat.simps)
  have "jfinite INITIAL_POLICY" by (simp add: initial_parts)
  with initial_policy_document show "packed INITIAL_POLICY = Inr (policy_text, policy_hash)"
    by (simp add: packed_document policy_hash_def policy_text_def)
  have "jutf8 sample_reservation \<and> jfinite sample_reservation" "jutf8 sample_usage \<and> jfinite sample_usage"
    by (simp_all add: sample_reservation_def sample_usage_def utf8_ok_ascii)
  then show "packed sample_reservation = Inr (reservation_text, reservation_hash)" "packed sample_usage = Inr (usage_text, usage_hash)"
    by (simp_all add: packed_document reservation_hash_def usage_hash_def reservation_text_def usage_text_def)
qed

lemma sample_unpack [simp]:
  "unpack 17 policy_text (Some policy_hash) = Inr (jsort INITIAL_POLICY)"
  "unpack 17 reservation_text (Some reservation_hash) = Inr (jsort sample_reservation)"
  "unpack 17 usage_text (Some usage_hash) = Inr (jsort sample_usage)"
  using sample_documents by (auto intro: unpack_packed)

lemma sample_policy [simp]:
  "validate_policy_profile INITIAL_POLICY = Inr INITIAL_POLICY"
  "validate_policy_profile (jsort INITIAL_POLICY) = Inr (jsort INITIAL_POLICY)"
  using initial_policy_accepted validate_policy_jsort initial_policy_document by auto

lemma initial_wf: "jwf INITIAL_POLICY" "jwf (jget INITIAL_POLICY ''profiles'')" "jwf (jget (jget INITIAL_POLICY ''profiles'') ''pr'')"
  "jwf (jget INITIAL_POLICY ''per_call'')" "jwf (jget INITIAL_POLICY ''global_api_budget'')"
  using initial_policy_document initial_parts_jwf by (simp_all add: initial_lookup) (simp_all add: jget_def)

lemma sample_limits [simp]:
  "book_run_limit (jsort INITIAL_POLICY) ''pr'' f = int_of (jget initial_pr f)"
  "int_of (jget (jget (jsort INITIAL_POLICY) ''per_call'') f) = int_of (jget initial_per_call f)"
  "int_of (jget (jget (jsort INITIAL_POLICY) ''global_api_budget'') f) = int_of (jget initial_budget f)"
proof -
  have "jget (jget INITIAL_POLICY ''profiles'') ''pr'' = initial_pr" by (simp add: initial_lookup) (simp add: jget_def)
  then show "book_run_limit (jsort INITIAL_POLICY) ''pr'' f = int_of (jget initial_pr f)"
    using initial_parts_jwf by (simp add: book_run_limit_def jget_jsort initial_wf)
qed (simp_all add: jget_jsort initial_wf, simp_all add: initial_lookup)

lemma book_sample_fields [simp]:
  "jget sample_reservation ''case_trial_executions'' = JInt 1" "jget sample_reservation ''model_calls'' = JInt 1"
  "jget sample_reservation ''input_tokens'' = JInt 10" "jget sample_reservation ''output_tokens'' = JInt 10"
  "jget sample_reservation ''api_cost_usd_micros'' = JInt 100" "jget sample_reservation ''billing_mode'' = JStr ''metered''"
  "jget sample_reservation ''billing_ref'' = JObj [(''kind'', JStr ''billing_basis''), (''id'', JStr ''b''), (''digest'', JStr book_digest)]"
  "jget sample_usage ''input_tokens'' = JInt 5" "jget sample_usage ''output_tokens'' = JInt 5" "jget sample_usage ''cost_usd'' = JStr ''0.00005''"
  by (simp_all add: sample_reservation_def sample_usage_def jget_def)

lemma sample_sorted [simp]: "jget (jsort sample_reservation) f = jsort (jget sample_reservation f)"
  "jget (jsort sample_usage) f = jsort (jget sample_usage f)"
  using sample_documents(2,3) by (simp_all add: book_document_def jget_jsort)

lemma sample_reservation_ok: "check_reservation sample_reservation (jsort INITIAL_POLICY) = Inr sample_reservation"
proof -
  have keys: "require_object sample_reservation reservation_fields = Inr ()"
    by (simp add: require_object_def sample_reservation_def reservation_fields_def)
  have ref: "require_ref (JObj [(''kind'', JStr ''billing_basis''), (''id'', JStr ''b''), (''digest'', JStr book_digest)]) = Inr ()"
    by (simp add: require_ref_def require_object_def require_id_def require_digest_def jget_def)
  show ?thesis
    by (simp add: check_reservation_def keys ref counters_def require_uint_def MAX_INTEGER_def)
      (simp add: initial_per_call_def jints_def jget_def)
qed

lemma snapshot_result:
  assumes "book_clock b = Some t" and "0 \<le> t" and "t \<le> MAX_INTEGER" and "find_book_run b i = Some r" and "id_ok i"
    and "book_totals_of rl b i t = Inr u"
  shows "\<exists>x. book_snapshot rl (JStr i) (JInt t) b = Inr (x, b)"
proof -
  have "book_touch (JInt t) b = Inr (t, b)" using assms(1-3) by (simp add: book_touch_def b_uint_def require_uint_def)
  moreover have "book_run_of b (JStr i) = Inr r" using assms(4,5) by (auto simp: book_run_of_Inr)
  ultimately show ?thesis using assms(6) book_find_ids(1)[OF assms(4)] by (simp add: book_snapshot_def)
qed

lemma touch_at [simp]: "book_touch (JInt t) b = Inr (t, b\<lparr>book_clock := Some t\<rparr>)"
  if "book_clock b = Some p" "-1 \<le> p" "p \<le> t" "0 \<le> t" "t \<le> MAX_INTEGER"
  using that by (simp add: book_touch_def b_uint_def require_uint_def)

lemma created: "\<exists>x. call_method 17 sample_create empty_book = Inr (x, \<lparr>book_clock = Some 0, book_runs = [sample_run_row], book_ops = [], book_events = []\<rparr>)"
proof -
  let ?b = "\<lparr>book_clock = Some 0, book_runs = [sample_run_row], book_ops = [], book_events = []\<rparr>"
  have "\<exists>x. book_snapshot 17 (JStr ''r'') (JInt 0) ?b = Inr (x, ?b)"
    by (rule snapshot_result[where r = sample_run_row and u = no_totals])
      (simp_all add: MAX_INTEGER_def sample_run_row_def book_totals_of_def)
  moreover have "int_of (jget initial_pr ''elapsed_seconds'') = 1200" by (simp add: initial_pr_def jints_def jget_def)
  then have "int_of (jget (jget (jget INITIAL_POLICY ''profiles'') ''pr'') ''elapsed_seconds'') = 1200"
    by (simp add: initial_lookup) (simp add: jget_def)
  ultimately show ?thesis
    by (simp add: sample_create_def book_create_run_def empty_book_def b_id_def b_uint_def require_id_def require_uint_def
        require_digest_def MAX_INTEGER_def sample_documents sample_run_row_def)
qed

lemma reserved: "call_method 17 sample_reserve \<lparr>book_clock = Some 0, book_runs = [sample_run_row], book_ops = [], book_events = []\<rparr> =
    Inr (reserve_dict (JStr ''o'') False True, \<lparr>book_clock = Some 1, book_runs = [sample_run_row], book_ops = [sample_op_row], book_events = []\<rparr>)"
proof -
  have fits: "fits_limits (jsort INITIAL_POLICY) ''pr'' no_totals sample_reservation = Inr ()"
    by (simp add: fits_limits_def no_totals_def total_tokens_def) (simp add: initial_pr_def initial_budget_def jints_def jget_def)
  have "book_policy 17 sample_run_row = Inr (jsort INITIAL_POLICY)"
    by (simp add: book_policy_def sample_run_row_def)
  with fits sample_reservation_ok show ?thesis
    by (simp add: sample_reserve_def book_reserve_def MAX_INTEGER_def b_id_def b_uint_def require_id_def require_uint_def book_run_of_def
        book_owner_def sample_documents book_totals_of_def sample_op_row_def) (simp add: sample_run_row_def)
qed

lemma dispatched: "\<exists>x. call_method 17 sample_dispatch \<lparr>book_clock = Some 1, book_runs = [sample_run_row], book_ops = [sample_op_row], book_events = []\<rparr> =
    Inr (x, sample_book)"
  by (simp add: sample_dispatch_def book_dispatch_intent_def MAX_INTEGER_def b_id_def b_uint_def require_id_def require_uint_def
      book_run_of_def book_op_of_def book_owner_def sample_op_row_def fresh_book_op_def sample_book_def intended_op_def update_book_op_def)
    (simp add: sample_run_row_def)

text \<open>Observing and closing.\<close>

definition sample_settled_row :: book_op where
  "sample_settled_row = (intended_op 2 sample_op_row)\<lparr>ro_usage_json := Some usage_text, ro_usage_digest := Some usage_hash,
     ro_settled_at := Some 3, ro_cost_micros := Some 50, ro_stopped_at := Some 3\<rparr>"

lemma sample_cost: "parse_usd (JStr ''0.00005'') = Inr (''0.00005'', 50)"
  by (simp add: parse_usd_def dec_parts_def is_digit_def digits_val_def py_len_ascii MAX_INT64_def Let_def)

lemma sample_usage_ok: "check_usage sample_usage (jsort sample_reservation) = Inr (Some 50)"
proof -
  have "require_object sample_usage [''input_tokens'', ''output_tokens'', ''cost_usd''] = Inr ()" "sample_usage \<noteq> JNull"
    by (simp_all add: require_object_def sample_usage_def)
  then show ?thesis by (simp add: check_usage_def b_uint_def require_uint_def MAX_INTEGER_def sample_cost)
qed

definition sample_event_json :: json where
  "sample_event_json = JObj [(''run_id'', JStr ''r''), (''operation_id'', JStr ''o''), (''stopped'', JBool True), (''usage'', sample_usage)]"

definition sample_response_json :: json where
  "sample_response_json = observe_dict (JStr ''o'') False False 1 1"

definition sample_event :: book_event where
  "sample_event = \<lparr>re_event_id = ''e'', re_operation_id = ''o'', re_event_digest = sha256_hex (dumps sample_event_json),
     re_response_json = dumps sample_response_json, re_response_digest = sha256_hex (dumps sample_response_json)\<rparr>"

definition observed_book :: book where
  "observed_book = \<lparr>book_clock = Some 3, book_runs = [sample_run_row], book_ops = [sample_settled_row], book_events = [sample_event]\<rparr>"

lemma sample_event_documents:
  "packed sample_event_json = Inr (dumps sample_event_json, sha256_hex (dumps sample_event_json))"
  "packed sample_response_json = Inr (dumps sample_response_json, sha256_hex (dumps sample_response_json))"
  "unpack 17 (dumps sample_response_json) (Some (sha256_hex (dumps sample_response_json))) = Inr (jsort sample_response_json)"
proof -
  show docs: "packed sample_event_json = Inr (dumps sample_event_json, sha256_hex (dumps sample_event_json))"
    "packed sample_response_json = Inr (dumps sample_response_json, sha256_hex (dumps sample_response_json))"
    by (rule packed_document; simp add: sample_event_json_def sample_response_json_def sample_usage_def observe_dict_def utf8_ok_ascii)+
  have "book_document 17 sample_response_json"
    by (simp add: book_document_def sample_response_json_def observe_dict_def max_str_digits_def show_nat.simps)
  from unpack_packed[OF this docs(2)]
  show "unpack 17 (dumps sample_response_json) (Some (sha256_hex (dumps sample_response_json))) = Inr (jsort sample_response_json)" .
qed

lemma observed: "call_method 17 sample_observe sample_book = Inr (sample_response_json, observed_book)"
proof -
  note docs = sample_event_documents(1,2)
  have small: "\<not> exceeds sample_usage (Some 50) (jsort sample_reservation)" "sample_usage \<noteq> JNull"
    by (simp add: exceeds_def or0_def) (simp add: sample_usage_def)
  have rows: "book_run_of (sample_book\<lparr>book_clock := Some 3\<rparr>) (JStr ''r'') = Inr sample_run_row"
    "book_op_of (sample_book\<lparr>book_clock := Some 3\<rparr>) (JStr ''r'') (JStr ''o'') = Inr (intended_op 2 sample_op_row)"
    by (simp_all add: book_run_of_Inr book_op_of_Inr sample_book_def) (simp_all add: sample_run_row_def sample_op_row_def fresh_book_op_def intended_op_def)
  have op: "ro_intended_at (intended_op 2 sample_op_row) = Some 2" "\<not> ro_released (intended_op 2 sample_op_row)"
    "ro_reservation_json (intended_op 2 sample_op_row) = reservation_text" "ro_reservation_digest (intended_op 2 sample_op_row) = reservation_hash"
    "ro_usage_json (intended_op 2 sample_op_row) = None" "\<not> ro_conflicted (intended_op 2 sample_op_row)"
    "ro_operation_id (intended_op 2 sample_op_row) = ''o''" "ro_epoch (intended_op 2 sample_op_row) = 1" "ro_stopped_at (intended_op 2 sample_op_row) = None"
    by (simp_all add: intended_op_def sample_op_row_def fresh_book_op_def)
  have used: "apply_usage 17 sample_usage (Some 50) 3 (intended_op 2 sample_op_row) = Inr (False, (intended_op 2 sample_op_row)\<lparr>ro_usage_json := Some usage_text,
      ro_usage_digest := Some usage_hash, ro_settled_at := Some 3, ro_cost_micros := Some 50\<rparr>)"
    using small(2) by (simp add: apply_usage_def op sample_documents)
  have new: "observe_new 17 (JStr ''o'') ''e'' (sha256_hex (dumps sample_event_json)) True sample_usage (Some 50) (jsort sample_reservation)
      sample_run_row (intended_op 2 sample_op_row) 3 (sample_book\<lparr>book_clock := Some 3\<rparr>) = Inr (sample_response_json, observed_book)"
    unfolding observe_new_def used using small docs(2)[unfolded sample_response_json_def]
    by (simp add: op stop_op_def sample_run_row_def sample_book_def update_book_op_def sample_settled_row_def Let_def observed_book_def
        sample_event_def sample_response_json_def)
  have touch: "book_touch (JInt 3) sample_book = Inr (3, sample_book\<lparr>book_clock := Some 3\<rparr>)" "book_events sample_book = []"
    by (simp_all add: sample_book_def MAX_INTEGER_def)
  show ?thesis
    using new docs(1) sample_usage_ok
    by (simp add: sample_observe_def book_observe_def b_id_def require_id_def rows op touch sample_event_json_def[symmetric])
qed

text \<open>The same observation again.\<close>

definition sample_observe_again :: book_call where
  "sample_observe_again = Observe (JStr ''r'') (JStr ''o'') (JStr ''e'') (JBool True) sample_usage (JInt 5)"

lemma observed_again: "call_method 17 sample_observe_again observed_book = Inr (jsort sample_response_json, observed_book\<lparr>book_clock := Some 5\<rparr>)"
proof -
  have rows: "book_run_of (observed_book\<lparr>book_clock := Some 5\<rparr>) (JStr ''r'') = Inr sample_run_row"
    "book_op_of (observed_book\<lparr>book_clock := Some 5\<rparr>) (JStr ''r'') (JStr ''o'') = Inr sample_settled_row"
    by (simp_all add: book_run_of_Inr book_op_of_Inr observed_book_def)
      (simp_all add: sample_run_row_def sample_settled_row_def sample_op_row_def fresh_book_op_def intended_op_def)
  have op: "ro_intended_at sample_settled_row = Some 2" "\<not> ro_released sample_settled_row" "ro_operation_id sample_settled_row = ''o''"
    "ro_reservation_json sample_settled_row = reservation_text" "ro_reservation_digest sample_settled_row = reservation_hash"
    by (simp_all add: sample_settled_row_def intended_op_def sample_op_row_def fresh_book_op_def)
  have touch: "book_touch (JInt 5) observed_book = Inr (5, observed_book\<lparr>book_clock := Some 5\<rparr>)" "book_events observed_book = [sample_event]"
    "re_event_id sample_event = ''e''" "re_operation_id sample_event = ''o''" "re_event_digest sample_event = sha256_hex (dumps sample_event_json)"
    "re_response_json sample_event = dumps sample_response_json" "re_response_digest sample_event = sha256_hex (dumps sample_response_json)"
    by (simp_all add: observed_book_def MAX_INTEGER_def sample_event_def)
  show ?thesis
    using sample_event_documents(1,3) sample_usage_ok
    by (simp add: sample_observe_again_def book_observe_def b_id_def require_id_def rows op touch sample_event_json_def[symmetric]
        del: efold.simps remdups.simps)
qed

lemma settled_totals:
  "book_totals_of 17 \<lparr>book_clock = c, book_runs = rs, book_ops = [sample_settled_row], book_events = es\<rparr> ''r'' 4 =
     Inr \<lparr>t_cases = 1, t_calls = 1, t_input = 5, t_output = 5, t_cost = 50, t_slots = 0, t_unsettled = 0, t_global = 50\<rparr>"
  by (simp add: book_totals_of_def add_totals_def sample_settled_row_def intended_op_def sample_op_row_def fresh_book_op_def
      op_usage_def int_opt_def used_tokens_def no_totals_def Let_def)

definition closed_run_row :: book_run where
  "closed_run_row = sample_run_row\<lparr>rr_closed_at := Some 4\<rparr>"

definition closed_sample_book :: book where
  "closed_sample_book = \<lparr>book_clock = Some 4, book_runs = [closed_run_row], book_ops = [sample_settled_row], book_events = [sample_event]\<rparr>"

lemma closed_book: "\<exists>x. call_method 17 sample_close observed_book = Inr (x, closed_sample_book)"
proof -
  let ?b = "\<lparr>book_clock = Some 4, book_runs = [closed_run_row], book_ops = [sample_settled_row], book_events = [sample_event]\<rparr>"
  have "\<exists>x. book_snapshot 17 (JStr ''r'') (JInt 4) ?b = Inr (x, ?b)"
    by (rule snapshot_result[where r = closed_run_row])
      (simp_all add: MAX_INTEGER_def settled_totals closed_run_row_def sample_run_row_def)
  then show ?thesis
    by (simp add: sample_close_def book_close_def MAX_INTEGER_def b_id_def b_uint_def require_id_def require_uint_def book_run_of_def
        book_owner_def settled_totals update_book_run_def closed_run_row_def sample_run_row_def observed_book_def closed_sample_book_def)
qed

section \<open>The history\<close>

lemma step_result:
  assumes "call_method rl c b = Inr (x, b')" and "list_all (book_document rl) (call_documents c)"
  shows "book_step rl c b = (Inr x, b')"
  using assms by (simp add: book_step_def)

lemma plain_documents [simp]: "book_document rl (JStr s)" "book_document rl (JBool z)"
  "abs i < 1000 \<Longrightarrow> book_document rl (JInt i)"
  by (simp_all add: book_document_def max_str_digits_def show_nat.simps)

lemma sample_calls_documents:
  "list_all (book_document 17) (call_documents sample_create)" "list_all (book_document 17) (call_documents sample_reserve)"
  "list_all (book_document 17) (call_documents sample_dispatch)" "list_all (book_document 17) (call_documents sample_observe)"
  "list_all (book_document 17) (call_documents sample_close)"
  by (simp_all add: sample_create_def sample_reserve_def sample_dispatch_def sample_observe_def sample_close_def sample_documents)

lemma reserved_history: "reached_book 17 [sample_create, sample_reserve] =
    \<lparr>book_clock = Some 1, book_runs = [sample_run_row], book_ops = [sample_op_row], book_events = []\<rparr>"
proof -
  from created obtain x where "book_step 17 sample_create empty_book = (Inr x, \<lparr>book_clock = Some 0, book_runs = [sample_run_row], book_ops = [], book_events = []\<rparr>)"
    using step_result sample_calls_documents(1) by blast
  with step_result[OF reserved sample_calls_documents(2)] show ?thesis by (simp add: reached_book_def)
qed

lemma dispatch_step: "\<exists>x. book_step 17 sample_dispatch (reached_book 17 [sample_create, sample_reserve]) = (Inr x, sample_book)"
  using dispatched step_result sample_calls_documents(3) unfolding reserved_history by blast

lemma dispatched_history: "reached_book 17 [sample_create, sample_reserve, sample_dispatch] = sample_book"
  using dispatch_step reached_book_append[of 17 "[sample_create, sample_reserve]" "[sample_dispatch]"] by auto

lemma observe_step: "book_step 17 sample_observe (reached_book 17 [sample_create, sample_reserve, sample_dispatch]) =
    (Inr sample_response_json, observed_book)"
  unfolding dispatched_history by (rule step_result[OF observed sample_calls_documents(4)])

lemma closed_history: "reached_book 17 [sample_create, sample_reserve, sample_dispatch, sample_observe, sample_close] = closed_sample_book"
proof -
  from closed_book obtain y where "book_step 17 sample_close observed_book = (Inr y, closed_sample_book)"
    using step_result sample_calls_documents(5) by blast
  with observe_step reached_book_append[of 17 "[sample_create, sample_reserve, sample_dispatch]" "[sample_observe, sample_close]"]
  show ?thesis by auto
qed

lemma resource_limits_respected_witness:
  "\<exists>u policy. book_totals_of 17 (reached_book 17 [sample_create, sample_reserve]) ''r'' 1 = Inr u \<and>
    stored_policy 17 sample_run_row policy \<and> t_slots u \<le> book_run_limit policy ''pr'' ''concurrent_evaluations'' \<and>
    t_calls u \<le> book_run_limit policy ''pr'' ''model_calls'' \<and> t_cost u \<le> book_run_limit policy ''pr'' ''api_cost_usd_micros''"
proof -
  have "sample_run_row \<in> set (book_runs (reached_book 17 [sample_create, sample_reserve]))" "\<not> rr_breached sample_run_row"
    "rr_run_id sample_run_row = ''r''" "rr_profile sample_run_row = ''pr''"
    by (simp_all add: reserved_history) (simp_all add: sample_run_row_def)
  with resource_limits_respected[OF refl, of 17 "[sample_create, sample_reserve]" "''r''" 1] show ?thesis by metis
qed

lemma global_budget_respected_witness:
  "\<exists>u. book_totals_of 17 (reached_book 17 [sample_create, sample_reserve]) ''r'' 7 = Inr u \<and> t_global u \<le> 20000000"
  by (rule global_budget_respected[OF refl, where now = 1]) (simp_all add: reserved_history sample_run_row_def)

lemma closed_runs_stay_settled_witness:
  "\<exists>u. book_totals_of 17 (reached_book 17 [sample_create, sample_reserve, sample_dispatch, sample_observe, sample_close]) ''r'' 9 = Inr u \<and>
    t_slots u = 0 \<and> t_unsettled u = 0"
proof -
  let ?b = "reached_book 17 [sample_create, sample_reserve, sample_dispatch, sample_observe, sample_close]"
  have "closed_run_row \<in> set (book_runs ?b)" by (simp add: closed_history closed_sample_book_def)
  moreover have "rr_closed_at closed_run_row \<noteq> None" "\<not> rr_breached closed_run_row" "rr_run_id closed_run_row = ''r''"
    by (simp_all add: closed_run_row_def sample_run_row_def)
  ultimately show ?thesis using closed_runs_stay_settled[OF refl, of closed_run_row 17 _ 9] by metis
qed

lemma dispatched_at_most_once_witness:
  "\<exists>p. find_book_op (run_calls (book_step 17) [sample_observe] sample_book) ''o'' = Some p \<and> ro_intended_at p \<noteq> None \<and> \<not> ro_released p \<and>
    isl (fst (book_step 17 (Dispatch_Intent (JStr ''r'') (JStr ''o'') (JStr ''w'') (JInt 1) (JInt 5))
      (run_calls (book_step 17) [sample_observe] sample_book)))"
proof -
  from dispatch_step obtain x where "book_step 17 (Dispatch_Intent (JStr ''r'') (JStr ''o'') (JStr ''w'') (JInt 1) (JInt 2))
      (reached_book 17 [sample_create, sample_reserve]) = (Inr x, sample_book)" by (auto simp: sample_dispatch_def)
  from dispatched_at_most_once[OF refl this refl] show ?thesis .
qed

lemma events_applied_once_witness:
  "book_step 17 sample_observe_again observed_book = (Inr (jsort sample_response_json), observed_book\<lparr>book_clock := Some 5\<rparr>) \<and>
   book_ops (observed_book\<lparr>book_clock := Some 5\<rparr>) = book_ops observed_book"
proof -
  have first: "book_step 17 (Observe (JStr ''r'') (JStr ''o'') (JStr ''e'') (JBool True) sample_usage (JInt 3))
      (reached_book 17 [sample_create, sample_reserve, sample_dispatch]) = (Inr sample_response_json, observed_book)"
    using observe_step by (simp add: sample_observe_def)
  have again: "book_step 17 sample_observe_again observed_book = (Inr (jsort sample_response_json), observed_book\<lparr>book_clock := Some 5\<rparr>)"
    by (rule step_result[OF observed_again]) (simp add: sample_observe_again_def sample_documents)
  have "jget (jsort sample_response_json) ''accepted'' \<noteq> jget (event_conflict_dict (JStr ''o'')) ''accepted''"
    by (subst jget_jsort) (simp_all add: sample_response_json_def observe_dict_def event_conflict_dict_def jget_def max_str_digits_def show_nat.simps)
  then have "jsort sample_response_json \<noteq> event_conflict_dict (JStr ''o'')" by metis
  with events_applied_once[OF refl first run_calls_simps(1)[symmetric] again[unfolded sample_observe_again_def]] again show ?thesis by blast
qed

end
