(* ===== verification/Spec2Isabelle.thy ===== *)
theory Spec2Isabelle
  imports Ledger_Examples Ledger_File Registry_Props Policy_Props Journal_Results Profiles Corpus_Report Run_Examples Resource_Examples
begin

text \<open>
  Guardrail Assurance Harness: a verification development for the deterministic core under
  \<open>src/src/gah\<close>.

  \<^bold>\<open>The program.\<close>  The harness decides whether a target may be relied on and keeps the books that make
  the decision trustworthy.  Documents enter as strict JSON (\<open>contracts.py\<close>, \<open>wire.py\<close>).  A registry of
  controls (\<open>registry.py\<close>), a set of cases (\<open>corpus.py\<close>) and a policy (\<open>policy.py\<close>, changed only through
  \<open>management.py\<close>) are bound by digests to a contract, a plan and a manifest (\<open>run_contracts.py\<close>); an
  execution profile says what executes each entry of the plan (\<open>execution_profiles.py\<close>).  A run reserves and
  settles money and leases in the ledger (\<open>ledger.py\<close>, amounts and terminal decision in \<open>termination.py\<close>) or
  in the book of resources (\<open>resources.py\<close>); its containers are recorded in the journal
  (\<open>execution_journal.py\<close>), their output is normalized (\<open>normalized.py\<close>), the attempts are aggregated
  (\<open>aggregation.py\<close>), and the aggregation is decided (\<open>_decision_from_aggregate\<close> of \<open>run_evidence.py\<close> over
  \<open>decision.py\<close>).

  \<^bold>\<open>The theories.\<close>  The definitions carry the names of the code, suffixed or prefixed where two files use
  the same one.
    \<^item> \<open>Prelude\<close>: errors as sums (\<open>ebind\<close>, \<open>guard\<close>, \<open>efold\<close> for loops that stop at the first error),
      tables as lists of rows, and the collection \<open>result_iff\<close>.  \<open>Machine\<close>: the locale of a state machine
      with calls, its reachable states, invariants and relations kept by all calls.
    \<^item> \<open>Json\<close>, \<open>Json_Roundtrip\<close>, \<open>Sha256\<close>, \<open>Contracts\<close>: values, the reader with its hooks, the printer, the
      hash on words of 32 bits, the validators and the two document formats.
    \<^item> \<open>Registry\<close>, \<open>Registry_Search\<close>, \<open>Registry_Props\<close>: the checks, the iterative search for cycles and the
      traversals, against reachability.
    \<^item> \<open>Policy\<close>, \<open>Policy_Props\<close>: the initial policy, profiles and proposals of the managing model.
    \<^item> \<open>Corpus\<close>, \<open>Corpus_Props\<close>, \<open>Corpus_Report\<close>: case sets, the report on them and the calibration.
    \<^item> \<open>Run_Contracts\<close>, \<open>Run_Binding\<close>, \<open>Run_Binding_Props\<close>, \<open>Run_Binding_Examples\<close>, \<open>Profiles\<close>: contracts,
      plans, manifests, how they bind, and execution profiles.
    \<^item> \<open>Amounts\<close>, \<open>Ledger\<close>, \<open>Ledger_Ops\<close>, \<open>Ledger_Spec\<close>, \<open>Ledger_Refine\<close>, \<open>Ledger_Inv\<close>, \<open>Ledger_Props\<close>,
      \<open>Ledger_Terminal\<close>, \<open>Ledger_File\<close>, \<open>Ledger_Examples\<close>, \<open>Termination\<close>: decimal amounts, the tables and
      transactions, the transitions they implement, the invariant, final decisions, the file with its
      migration, and a concrete history.
    \<^item> \<open>Resources\<close>, \<open>Resource_Ops\<close>, \<open>Resource_Steps\<close>, \<open>Resource_Inv\<close>, \<open>Resource_Props\<close>, \<open>Resource_Safety\<close>,
      \<open>Resource_Examples\<close>: the book of resources in the same way.
    \<^item> \<open>Journal_Checks\<close>, \<open>Journal\<close>, \<open>Journal_Props\<close>, \<open>Journal_Live\<close>, \<open>Normalized\<close>, \<open>Journal_Results\<close>: receipts,
      the states of executions, liveness, and the results both sides exchange.
    \<^item> \<open>Aggregation\<close>, \<open>Aggregation_Counts\<close>, \<open>Aggregation_Props\<close>, \<open>Aggregation_Tally\<close>, \<open>Aggregation_Safety\<close>:
      collecting, placing, selecting and counting attempts, and what the document guarantees.
    \<^item> \<open>Decision\<close>, \<open>Run_Decision\<close>, \<open>Run_Metrics\<close>, \<open>Run_Examples\<close>: the decision on a request, the decision on
      a run from its attempts, and a run that is decided HEALTHY.

  \<^bold>\<open>What is shown.\<close>  Documents: a decoded document is admissible, and printing and decoding it are inverse up
  to the order of keys.  Registry: the search terminates and decides cyclicity; the closures are exact for
  every order in which Python may iterate over sets.  Policy: acceptance means never laxer, as rationals.
  Ledger, book and journal are instances of the locale \<open>machine\<close>: invariants hold after every sequence of
  calls (budgets and limits respected, identifiers unique, terminal records final, executions only advance),
  calls that change something need the lease or the token, except that a claim takes a free lease, and
  errors change nothing, except that a settlement conflict or excess is recorded with a hold before it is
  raised.  Binding: plans are complete for the selected controls, the digests and the baseline of a run are
  those of its contract, and bundles bind again to themselves; \<open>Run_Binding_Examples\<close> shows where the
  code asks for less than its specification.  Aggregation: only definitive
  records are counted, every position of the plan is counted once, no attempt disappears without an issue,
  and violations are flagged.  Decision: HEALTHY exactly when all thresholds are met, and a run decided
  HEALTHY has definite evidence for everything required.  The last section shows that components which state
  limits separately state the same ones.

  \<^bold>\<open>Interfaces.\<close>  The locale \<open>codec\<close> of \<open>Json_Roundtrip\<close> (a printer and a reader with a round trip) is
  interpreted on plain JSON and on documents; \<open>machine\<close> is interpreted on the ledger, the journal and the
  book of resources.

  \<^bold>\<open>Bounds and fuel.\<close>  The JSON reader recurses with fuel, twice the length of its input plus two, which is never
  exhausted (\<open>loads_fuel\<close>);
  the recursion limit of Python is the parameter \<open>rl\<close>, and exceeding it is an error value.  The scans of
  documents have a measure bounded by the code's own limit of 100000 nodes.  The graph traversals have
  measures over the controls not yet seen and the pending stack.  Integers are unbounded as in Python; the code's limits of
  \<open>2 ^ 53 - 1\<close> and \<open>2 ^ 63 - 1\<close> are checks of the model, and SHA-256 works on words.

  \<^bold>\<open>Parameters.\<close>  The order of iteration of sets (\<open>order\<close>, any function that keeps the elements), the clock and
  random identifiers, faults of SQLite and of the file system at each point where the code allows one, and the
  admissibility of the guardrail case bundle of a request (\<open>bundle_ok\<close>).

  \<^bold>\<open>Not modelled.\<close>  Processes, threads and the locking of SQLite: a transaction is atomic.  Caches, which only
  remember results of pure functions.  The authenticated stores of adoption, evaluation and transitions with
  their migrations, the store of run evidence around the decision it computes, baselines and findings: their
  rules are interleaved with SQL over tables whose other users are outside this model.  Supervised execution,
  the probes of storage, the synthetic evaluations, partitioned runs, operations, the pilot and the command
  line, which drive external tools or repeat the core at a larger scale.
\<close>

section \<open>Across the components\<close>

text \<open>The limits of the run profile of the policy with the given name.\<close>

definition profile_budget :: "string \<Rightarrow> int" where
  "profile_budget p = int_of (jget (jget (jget INITIAL_POLICY ''profiles'') p) ''api_cost_usd_micros'')"

lemma policy_budgets:
  "profile_budget ''pr'' = 2000000" "profile_budget ''full'' = 10000000"
  "int_of (jget initial_budget ''usd_micros_max'') = 20000000" "int_of (jget initial_budget ''window_seconds'') = 86400"
  "int_of (jget initial_freshness ''current_evidence'') = 86400"
  unfolding profile_budget_def initial_lookup
  by (simp_all add: jget_def initial_pr_def initial_full_def initial_budget_def initial_freshness_def jints_def)

text \<open>
  The limits are the same everywhere.  The initial policy, the decision, the terminal decision and the
  ledger state their limits separately; they agree: every threshold and every allowance of the decision
  is the one of the policy, the age of evidence is bounded alike, the order of the states is the one the
  policy lists, the states that pass are the ones above UNKNOWN, and the budgets of a run, the global
  budget and its window are those the ledger enforces.
\<close>

theorem limits_agree:
  "(rate (threshold INITIAL_POLICY (level_name crit) (absolute_field name)) = limit_of name crit) \<and>
   (name = FNR \<or> rate (threshold INITIAL_POLICY (level_name crit) (delta_field name)) = allowance_of name crit) \<and>
   Decision.MAX_AGE = int_of (jget (jget INITIAL_POLICY ''freshness_seconds'') ''current_evidence'') \<and>
   jget INITIAL_POLICY ''assurance_priority'' =
     JList (map (JStr \<circ> assurance_name) (sort_key assurance_priority [HEALTHY, WARNING, UNKNOWN, DEGRADED, HOLD])) \<and>
   (JStr (assurance_name a) \<in> set (jitems (jget INITIAL_POLICY ''ci_success_states'')) \<longleftrightarrow> UNKNOWN < a) \<and>
   RUN_LIMITS ''pr'' = Some (profile_budget ''pr'') \<and> RUN_LIMITS ''full'' = Some (profile_budget ''full'') \<and>
   GLOBAL_LIMIT = int_of (jget (jget INITIAL_POLICY ''global_api_budget'') ''usd_micros_max'') \<and>
   WINDOW_SECONDS = int_of (jget (jget INITIAL_POLICY ''global_api_budget'') ''window_seconds'')"
proof -
  have "JStr (assurance_name a) \<in> set (jitems (jget INITIAL_POLICY ''ci_success_states'')) \<longleftrightarrow> UNKNOWN < a"
    by (cases a) (simp_all add: initial_lookup less_assurance_def)
  moreover have "jget INITIAL_POLICY ''assurance_priority'' =
     JList (map (JStr \<circ> assurance_name) (sort_key assurance_priority [HEALTHY, WARNING, UNKNOWN, DEGRADED, HOLD]))"
    by (simp add: initial_lookup)
  ultimately show ?thesis
    using initial_limit[of crit name] initial_allowance[of name crit]
    by (auto simp: initial_lookup policy_budgets MAX_AGE_def RUN_LIMITS_def GLOBAL_LIMIT_def WINDOW_SECONDS_def)
qed

end
